(* ===== verification/Prelude.thy ===== *)
theory Prelude
  imports Complex_Main "HOL-Library.AList" "HOL-Library.Char_ord"
    "HOL-Library.List_Lexorder" "HOL-Library.Word"
begin

text \<open>
  Shared vocabulary of the gateway model: Go's maps, its 64-bit \<open>int\<close>, error results,
  and the automation collections that the component theories extend.

  A Go \<open>map[string]V\<close> is an association list with distinct keys.  The order of the list is
  the order in which \<open>range\<close> happens to visit the map, which Go leaves open: a statement
  that holds for every list of this kind holds for every iteration order.  The nil map and the
  empty map, and likewise the nil slice and the empty slice, are both the empty list.
\<close>

section \<open>Automation collections\<close>

named_theorems gm_simps "lookup and update of Go maps"
named_theorems str_simps "string functions on concrete shapes"
named_theorems inv_intros "preservation of component invariants"

section \<open>Results\<close>

type_synonym ('e, 'a) result = "'e + 'a"

definition bind_res :: "('e, 'a) result \<Rightarrow> ('a \<Rightarrow> ('e, 'b) result) \<Rightarrow> ('e, 'b) result" where
  "bind_res r f = (case r of Inl e \<Rightarrow> Inl e | Inr a \<Rightarrow> f a)"

lemma bind_res_simps [simp]:
  "bind_res (Inl e) f = Inl e"
  "bind_res (Inr a) f = f a"
  by (simp_all add: bind_res_def)

lemma bind_res_Inr_iff: "bind_res r f = Inr b \<longleftrightarrow> (\<exists>a. r = Inr a \<and> f a = Inr b)"
  by (cases r) auto

lemma bind_res_split:
  "P (bind_res r f) \<longleftrightarrow> (\<forall>e. r = Inl e \<longrightarrow> P (Inl e)) \<and> (\<forall>a. r = Inr a \<longrightarrow> P (f a))"
  by (cases r) auto

section \<open>Go maps\<close>

type_synonym 'v gomap = "(string \<times> 'v) list"

definition gm_ok :: "'v gomap \<Rightarrow> bool" where
  "gm_ok m \<longleftrightarrow> distinct (map fst m)"

definition gm_get :: "'v gomap \<Rightarrow> string \<Rightarrow> 'v option" where
  "gm_get m k = map_of m k"

definition gm_put :: "string \<Rightarrow> 'v \<Rightarrow> 'v gomap \<Rightarrow> 'v gomap" where
  "gm_put k v m = AList.update k v m"

definition gm_del :: "string \<Rightarrow> 'v gomap \<Rightarrow> 'v gomap" where
  "gm_del k m = AList.delete k m"

definition gm_keys :: "'v gomap \<Rightarrow> string list" where
  "gm_keys m = map fst m"

lemma gm_get_Nil [gm_simps, simp]: "gm_get [] k = None"
  by (simp add: gm_get_def)

lemma gm_get_Cons [gm_simps]: "gm_get ((k, v) # m) k' = (if k' = k then Some v else gm_get m k')"
  by (simp add: gm_get_def)

lemma gm_get_put [gm_simps, simp]: "gm_get (gm_put k v m) k' = (if k' = k then Some v else gm_get m k')"
  by (simp add: gm_get_def gm_put_def update_conv')

lemma gm_get_del [gm_simps, simp]: "gm_get (gm_del k m) k' = (if k' = k then None else gm_get m k')"
  by (simp add: gm_get_def gm_del_def delete_conv')

lemma gm_ok_Nil [simp, inv_intros]: "gm_ok []"
  by (simp add: gm_ok_def)

lemma gm_ok_put [simp, inv_intros]: "gm_ok m \<Longrightarrow> gm_ok (gm_put k v m)"
  by (simp add: gm_ok_def gm_put_def distinct_update)

lemma gm_ok_del [simp, inv_intros]: "gm_ok m \<Longrightarrow> gm_ok (gm_del k m)"
  by (simp add: gm_ok_def gm_del_def distinct_delete)

lemma gm_get_in: "gm_ok m \<Longrightarrow> gm_get m k = Some v \<longleftrightarrow> (k, v) \<in> set m"
  by (simp add: gm_get_def gm_ok_def)

lemma gm_get_keys: "gm_get m k \<noteq> None \<longleftrightarrow> k \<in> set (gm_keys m)"
  by (auto simp: gm_get_def gm_keys_def map_of_eq_None_iff)

lemma gm_get_None: "gm_get m k = None \<longleftrightarrow> k \<notin> set (gm_keys m)"
  by (simp add: gm_get_def gm_keys_def map_of_eq_None_iff)

lemma gm_keys_put: "set (gm_keys (gm_put k v m)) = insert k (set (gm_keys m))"
  by (auto simp: gm_get_keys [symmetric] simp del: not_None_eq split: if_splits)

lemma gm_get_map_snd: "gm_get (map (\<lambda>(k, v). (k, f k v)) m) k' = map_option (f k') (gm_get m k')"
  by (induction m) (auto simp: gm_get_def)

lemma gm_keys_map_snd [simp]: "gm_keys (map (\<lambda>(k, v). (k, f k v)) m) = gm_keys m"
  by (induction m) (auto simp: gm_keys_def)

lemma gm_ok_map_snd [simp]: "gm_ok (map (\<lambda>(k, v). (k, f k v)) m) = gm_ok m"
  by (metis gm_keys_def gm_keys_map_snd gm_ok_def)

lemma gm_get_filter:
  "gm_ok m \<Longrightarrow> gm_get (filter (\<lambda>e. P (fst e) (snd e)) m) k =
    (case gm_get m k of Some v \<Rightarrow> if P k v then Some v else None | None \<Rightarrow> None)"
proof (induction m)
  case (Cons e m)
  obtain a v where e: "e = (a, v)" by (cases e)
  have "gm_get m a = None" "gm_ok m" using Cons.prems by (auto simp: e gm_ok_def gm_get_def map_of_eq_None_iff)
  with Cons.IH show ?case by (cases "k = a") (auto simp: e gm_get_Cons)
qed simp

lemma gm_ok_Cons: "gm_ok ((k, v) # m) \<longleftrightarrow> gm_get m k = None \<and> gm_ok m"
  by (auto simp: gm_ok_def gm_get_def map_of_eq_None_iff)

section \<open>Go's 64-bit int\<close>

text \<open>\<open>i64\<close> is two's complement wrap-around, what every \<open>int\<close> and \<open>int64\<close> operation does.\<close>

definition i64 :: "int \<Rightarrow> int" where
  "i64 n = (n + 2 ^ 63) mod 2 ^ 64 - 2 ^ 63"

definition max_int :: int where
  "max_int = 2 ^ 63 - 1"

lemma i64_id: "- (2 ^ 63) \<le> n \<Longrightarrow> n < 2 ^ 63 \<Longrightarrow> i64 n = n"
  by (simp add: i64_def)

lemma i64_bounds: "- (2 ^ 63) \<le> i64 n \<and> i64 n < 2 ^ 63"
  by (simp add: i64_def)

lemma i64_sint: "i64 n = sint (word_of_int n :: 64 word)"
proof -
  have l64: "LENGTH(64) = 64" by simp
  have len: "LENGTH(64) - 1 = 63" unfolding l64 by simp
  have suc: "Suc 63 = 64" by simp
  have "sint (word_of_int n :: 64 word) = signed_take_bit 63 n"
    using sint_sbintrunc' [of n, where 'a = 64] unfolding len .
  also have "\<dots> = (n + 2 ^ 63) mod 2 ^ 64 - 2 ^ 63"
    unfolding signed_take_bit_eq_take_bit_shift take_bit_eq_mod suc ..
  finally show ?thesis unfolding i64_def ..
qed

text \<open>Go's \<open>/\<close> and \<open>%\<close> truncate towards zero.\<close>

definition go_div :: "int \<Rightarrow> int \<Rightarrow> int" where
  "go_div a b = sgn a * sgn b * (\<bar>a\<bar> div \<bar>b\<bar>)"

definition go_mod :: "int \<Rightarrow> int \<Rightarrow> int" where
  "go_mod a b = a - b * go_div a b"

lemma go_div_nonneg: "0 \<le> a \<Longrightarrow> 0 < b \<Longrightarrow> go_div a b = a div b"
  by (cases "a = 0") (auto simp: go_div_def)

lemma go_mod_nonneg: "0 \<le> a \<Longrightarrow> 0 < b \<Longrightarrow> go_mod a b = a mod b"
  by (simp add: go_mod_def go_div_nonneg minus_mult_div_eq_mod)

section \<open>Faults\<close>

text \<open>
  A call that issues several database statements takes a schedule of faults: \<open>f k\<close> says that
  the \<open>k\<close>-th statement of the call fails (an I/O error, a lock that is not released).
\<close>

type_synonym faults = "nat \<Rightarrow> bool"

definition no_faults :: faults where
  "no_faults k = False"

definition later :: "nat \<Rightarrow> faults \<Rightarrow> faults" where
  "later n f k = f (n + k)"

lemma no_faults_simps [simp]: "\<not> no_faults k" "later n no_faults = no_faults" "later n (\<lambda>_. False) = (\<lambda>_. False)"
  by (auto simp: no_faults_def later_def fun_eq_iff)

section \<open>Step relations\<close>

text \<open>
  The contract of every state machine of the gateway: an invariant that each of its steps keeps holds
  after every history.
\<close>

locale kept_by_steps =
  fixes step :: "'s \<Rightarrow> 's \<Rightarrow> bool" and good :: "'s \<Rightarrow> bool"
  assumes step_keeps: "step s t \<Longrightarrow> good s \<Longrightarrow> good t"
begin

lemma history_keeps: "step\<^sup>*\<^sup>* s t \<Longrightarrow> good s \<Longrightarrow> good t"
  by (induction rule: rtranclp_induct) (auto intro: step_keeps)

end

section \<open>Keyed stores\<close>

text \<open>
  The contract shared by the Go maps and by the database tables with a primary key: what a lookup
  returns after an insertion and after a deletion, and the well-formedness that both keep.
\<close>

locale kv_store =
  fixes lookup :: "'s \<Rightarrow> string \<Rightarrow> 'v option"
    and insert_at :: "string \<Rightarrow> 'v \<Rightarrow> 's \<Rightarrow> 's"
    and delete_at :: "string \<Rightarrow> 's \<Rightarrow> 's"
    and wf :: "'s \<Rightarrow> bool"
  assumes lookup_insert: "wf s \<Longrightarrow> lookup (insert_at k v s) k' = (if k' = k then Some v else lookup s k')"
    and lookup_delete: "wf s \<Longrightarrow> lookup (delete_at k s) k' = (if k' = k then None else lookup s k')"
    and wf_insert: "wf s \<Longrightarrow> wf (insert_at k v s)"
    and wf_delete: "wf s \<Longrightarrow> wf (delete_at k s)"
begin

lemma insert_twice: "wf s \<Longrightarrow> lookup (insert_at k v (insert_at k w s)) = lookup (insert_at k v s)"
  by (simp add: fun_eq_iff lookup_insert wf_insert)

lemma insert_commute:
  "wf s \<Longrightarrow> k \<noteq> l \<Longrightarrow>
   lookup (insert_at k v (insert_at l w s)) = lookup (insert_at l w (insert_at k v s))"
  by (simp add: fun_eq_iff lookup_insert wf_insert)

lemma delete_insert: "wf s \<Longrightarrow> lookup (delete_at k (insert_at k v s)) = lookup (delete_at k s)"
  by (simp add: fun_eq_iff lookup_insert lookup_delete wf_insert)

lemma wf_fold_insert: "wf s \<Longrightarrow> wf (fold (\<lambda>(k, v). insert_at k v) kvs s)"
  by (induction kvs arbitrary: s) (auto simp: wf_insert)

lemma lookup_fold_insert:
  assumes "wf s" "distinct (map fst kvs)"
  shows "lookup (fold (\<lambda>(k, v). insert_at k v) kvs s) k =
    (case map_of kvs k of Some v \<Rightarrow> Some v | None \<Rightarrow> lookup s k)"
  using assms
proof (induction kvs arbitrary: s)
  case (Cons kv kvs)
  obtain k0 v0 where kv: "kv = (k0, v0)" by (cases kv)
  have "lookup (fold (\<lambda>(k, v). insert_at k v) kvs (insert_at k0 v0 s)) k =
    (case map_of kvs k of Some v \<Rightarrow> Some v | None \<Rightarrow> lookup (insert_at k0 v0 s) k)"
    using Cons.IH [of "insert_at k0 v0 s"] Cons.prems by (simp add: kv wf_insert)
  moreover have "k = k0 \<Longrightarrow> map_of kvs k = None"
    using Cons.prems(2) by (auto simp: kv map_of_eq_None_iff)
  ultimately show ?case using Cons.prems(1) by (auto simp: kv lookup_insert split: option.splits)
qed simp

end

interpretation gm: kv_store gm_get gm_put gm_del "\<lambda>_. True"
  by unfold_locales auto

section \<open>Lists\<close>

lemma filter_eq_self: "(\<And>x. x \<in> set xs \<Longrightarrow> P x) \<Longrightarrow> filter P xs = xs"
  by (induction xs) auto

lemma find_Some_in: "List.find P xs = Some x \<Longrightarrow> x \<in> set xs \<and> P x"
  by (induction xs) (auto split: if_splits)

lemma find_None_all: "List.find P xs = None \<longleftrightarrow> (\<forall>x \<in> set xs. \<not> P x)"
  by (induction xs) auto

lemma find_unique:
  assumes "x \<in> set xs" "P x" "\<And>y. y \<in> set xs \<Longrightarrow> P y \<Longrightarrow> y = x"
  shows "List.find P xs = Some x"
proof -
  obtain y where y: "List.find P xs = Some y"
    using assms(1,2) find_None_all [of P xs] by (cases "List.find P xs") blast+
  from find_Some_in [OF this] have "y = x" using assms(3) by blast
  with y show ?thesis by simp
qed

end
