(* ===== verification/GoStrings.thy ===== *)
theory GoStrings
  imports Prelude
begin

text \<open>
  The functions of Go's packages \<open>strings\<close> and \<open>strconv\<close> that the gateway calls.  A string
  is its list of bytes.  White space and letter case are those of ASCII; bytes above 127 are
  neither, and are left as they are.
\<close>

section \<open>White space and trimming\<close>

definition is_space :: "char \<Rightarrow> bool" where
  "is_space c \<longleftrightarrow> c = CHR '' '' \<or> c = CHR 0x09 \<or> c = CHR 0x0A \<or> c = CHR 0x0B \<or> c = CHR 0x0C \<or> c = CHR 0x0D"

definition trim_left :: "string \<Rightarrow> string" where
  "trim_left s = dropWhile is_space s"

definition trim_right :: "string \<Rightarrow> string" where
  "trim_right s = rev (dropWhile is_space (rev s))"

definition trim_space :: "string \<Rightarrow> string" where
  "trim_space s = trim_right (trim_left s)"

definition trim_right_char :: "char \<Rightarrow> string \<Rightarrow> string" where
  "trim_right_char c s = rev (dropWhile (\<lambda>x. x = c) (rev s))"

definition tight :: "string \<Rightarrow> bool" where
  "tight s \<longleftrightarrow> s = [] \<or> \<not> is_space (hd s) \<and> \<not> is_space (last s)"

lemma trim_space_Nil [simp, str_simps]: "trim_space [] = []"
  by (simp add: trim_space_def trim_left_def trim_right_def)

lemma dropWhile_hd: "xs \<noteq> [] \<Longrightarrow> \<not> P (hd xs) \<Longrightarrow> dropWhile P xs = xs"
  by (cases xs) auto

lemma trim_space_tight: "tight s \<Longrightarrow> trim_space s = s"
proof (cases "s = []")
  case False
  moreover assume "tight s"
  ultimately have "trim_left s = s" "trim_right s = s"
    by (auto simp: tight_def trim_left_def trim_right_def dropWhile_hd hd_rev)
  then show ?thesis by (simp add: trim_space_def)
qed simp

lemma hd_trim_right: "trim_right s \<noteq> [] \<Longrightarrow> hd (trim_right s) = hd s"
proof -
  assume ne: "trim_right s \<noteq> []"
  have "rev s = takeWhile is_space (rev s) @ dropWhile is_space (rev s)" by simp
  then have "s = trim_right s @ rev (takeWhile is_space (rev s))"
    unfolding trim_right_def by (metis rev_append rev_rev_ident)
  then show ?thesis using ne by (metis hd_append2)
qed

lemma tight_trim_space [simp]: "tight (trim_space s)"
proof (cases "trim_space s = []")
  case False
  then have ne: "dropWhile is_space s \<noteq> []"
    by (auto simp: trim_space_def trim_left_def trim_right_def simp del: dropWhile_eq_Nil_conv)
  have "\<not> is_space (hd (trim_space s))"
    using False hd_trim_right [of "trim_left s"] hd_dropWhile [OF ne]
    by (simp add: trim_space_def trim_left_def)
  moreover have "\<not> is_space (last (trim_space s))"
    using False hd_dropWhile [of is_space "rev (trim_left s)"]
    by (auto simp: trim_space_def trim_right_def last_rev)
  ultimately show ?thesis by (simp add: tight_def)
qed (simp add: tight_def)

lemma trim_space_idem [simp]: "trim_space (trim_space s) = trim_space s"
  by (simp add: trim_space_tight)

section \<open>Case\<close>

definition lower_char :: "char \<Rightarrow> char" where
  "lower_char c = (let n = of_char c :: nat in if 65 \<le> n \<and> n \<le> 90 then char_of (n + 32) else c)"

definition upper_char :: "char \<Rightarrow> char" where
  "upper_char c = (let n = of_char c :: nat in if 97 \<le> n \<and> n \<le> 122 then char_of (n - 32) else c)"

definition to_lower :: "string \<Rightarrow> string" where
  "to_lower s = map lower_char s"

definition equal_fold :: "string \<Rightarrow> string \<Rightarrow> bool" where
  "equal_fold a b \<longleftrightarrow> to_lower a = to_lower b"

lemma of_char_char_of_small: "n < 256 \<Longrightarrow> (of_char (char_of n :: char) :: nat) = n"
  by (simp add: of_char_of)

lemma lower_char_idem [simp]: "lower_char (lower_char c) = lower_char c"
  by (simp add: lower_char_def Let_def of_char_char_of_small)

lemma to_lower_idem [simp]: "to_lower (to_lower s) = to_lower s"
  by (simp add: to_lower_def)

lemma of_char_space:
  "is_space c \<longleftrightarrow> (of_char c :: nat) \<in> {32, 9, 10, 11, 12, 13}"
proof -
  have "(of_char c :: nat) = of_char d \<longleftrightarrow> c = d" for d :: char by (rule of_char_eq_iff)
  from this [of "CHR '' ''"] this [of "CHR 0x09"] this [of "CHR 0x0A"] this [of "CHR 0x0B"]
    this [of "CHR 0x0C"] this [of "CHR 0x0D"]
  show ?thesis by (simp add: is_space_def)
qed

lemma is_space_lower [simp]: "is_space (lower_char c) = is_space c"
  by (auto simp: of_char_space lower_char_def Let_def of_char_char_of_small)

lemma to_lower_trim_space: "to_lower (trim_space s) = trim_space (to_lower s)"
proof -
  have d: "map lower_char (dropWhile is_space xs) = dropWhile is_space (map lower_char xs)" for xs
    by (induction xs) auto
  show ?thesis
    by (simp add: to_lower_def trim_space_def trim_left_def trim_right_def d rev_map [symmetric])
qed

section \<open>Prefixes, suffixes, substrings\<close>

definition has_prefix :: "string \<Rightarrow> string \<Rightarrow> bool" where
  "has_prefix s p \<longleftrightarrow> take (length p) s = p"

definition has_suffix :: "string \<Rightarrow> string \<Rightarrow> bool" where
  "has_suffix s p \<longleftrightarrow> length p \<le> length s \<and> drop (length s - length p) s = p"

definition trim_prefix :: "string \<Rightarrow> string \<Rightarrow> string" where
  "trim_prefix s p = (if has_prefix s p then drop (length p) s else s)"

definition trim_suffix :: "string \<Rightarrow> string \<Rightarrow> string" where
  "trim_suffix s p = (if has_suffix s p then take (length s - length p) s else s)"

fun str_contains :: "string \<Rightarrow> string \<Rightarrow> bool" where
  "str_contains [] p = (p = [])"
| "str_contains (c # s) p = (has_prefix (c # s) p \<or> str_contains s p)"

lemma has_prefix_append [simp, str_simps]: "has_prefix (p @ s) p"
  by (simp add: has_prefix_def)

lemma has_suffix_append [simp, str_simps]: "has_suffix (s @ p) p"
  by (simp add: has_suffix_def)

lemma trim_suffix_append [simp, str_simps]: "trim_suffix (s @ p) p = s"
  by (simp add: trim_suffix_def)

lemma has_suffix_iff: "has_suffix s p \<longleftrightarrow> (\<exists>t. s = t @ p)"
proof
  assume "has_suffix s p"
  then have "s = take (length s - length p) s @ p"
    by (metis append_take_drop_id has_suffix_def)
  then show "\<exists>t. s = t @ p" ..
qed auto

section \<open>Splitting and joining\<close>

fun split_char :: "char \<Rightarrow> string \<Rightarrow> string list" where
  "split_char sep [] = [[]]"
| "split_char sep (c # s) =
     (if c = sep then [] # split_char sep s
      else case split_char sep s of [] \<Rightarrow> [[c]] | p # ps \<Rightarrow> (c # p) # ps)"

text \<open>\<open>strings.SplitN(s, sep, 2)\<close> for a one-byte separator.\<close>

fun split_n2 :: "char \<Rightarrow> string \<Rightarrow> string list" where
  "split_n2 sep [] = [[]]"
| "split_n2 sep (c # s) =
     (if c = sep then [[], s]
      else case split_n2 sep s of [] \<Rightarrow> [[c]] | p # ps \<Rightarrow> (c # p) # ps)"

fun str_join :: "string \<Rightarrow> string list \<Rightarrow> string" where
  "str_join sep [] = []"
| "str_join sep [x] = x"
| "str_join sep (x # y # ys) = x @ sep @ str_join sep (y # ys)"

fun str_fields_aux :: "string \<Rightarrow> string \<Rightarrow> string list" where
  "str_fields_aux acc [] = (if acc = [] then [] else [acc])"
| "str_fields_aux acc (c # s) =
     (if is_space c then (if acc = [] then str_fields_aux [] s else acc # str_fields_aux [] s)
      else str_fields_aux (acc @ [c]) s)"

definition str_fields :: "string \<Rightarrow> string list" where
  "str_fields s = str_fields_aux [] s"

lemma split_char_not_Nil [simp]: "split_char sep s \<noteq> []"
  by (induction s) (auto split: list.splits)

lemma split_n2_not_Nil [simp]: "split_n2 sep s \<noteq> []"
  by (induction s) (auto split: list.splits)

lemma split_n2_sep [str_simps]: "sep \<notin> set a \<Longrightarrow> split_n2 sep (a @ sep # b) = [a, b]"
  by (induction a) auto

lemma split_n2_none [str_simps]: "sep \<notin> set a \<Longrightarrow> split_n2 sep a = [a]"
  by (induction a) auto

lemma split_char_none [str_simps]: "sep \<notin> set a \<Longrightarrow> split_char sep a = [a]"
  by (induction a) auto

lemma split_char_sep [str_simps]: "sep \<notin> set a \<Longrightarrow> split_char sep (a @ sep # s) = a # split_char sep s"
  by (induction a) auto

lemma str_fields_aux_word:
  "\<forall>c \<in> set w. \<not> is_space c \<Longrightarrow> str_fields_aux acc (w @ s) = str_fields_aux (acc @ w) s"
  by (induction w arbitrary: acc) auto

lemma str_fields_aux_mem:
  assumes "f \<in> set (str_fields_aux acc s)" "\<forall>c \<in> set acc. \<not> is_space c"
  shows "f \<noteq> [] \<and> (\<forall>c \<in> set f. \<not> is_space c)"
  using assms
proof (induction s arbitrary: acc)
  case Nil
  then show ?case by (simp split: if_splits)
next
  case (Cons c s)
  show ?case
  proof (cases "is_space c")
    case True
    then have "f \<in> set (str_fields_aux [] s) \<or> acc \<noteq> [] \<and> f = acc"
      using Cons.prems(1) by (simp split: if_splits; blast)
    then show ?thesis using Cons.IH [of "[]"] Cons.prems(2) by auto
  next
    case False
    then show ?thesis using Cons.IH [of "acc @ [c]"] Cons.prems by simp
  qed
qed

lemma str_fields_mem: "f \<in> set (str_fields s) \<Longrightarrow> f \<noteq> [] \<and> (\<forall>c \<in> set f. \<not> is_space c)"
  unfolding str_fields_def by (rule str_fields_aux_mem) auto

section \<open>Numbers\<close>

definition digit_val :: "char \<Rightarrow> int option" where
  "digit_val c = (let n = of_char c :: nat in if 48 \<le> n \<and> n \<le> 57 then Some (int n - 48) else None)"

fun digits_val :: "int \<Rightarrow> string \<Rightarrow> int option" where
  "digits_val acc [] = Some acc"
| "digits_val acc (c # s) =
     (case digit_val c of None \<Rightarrow> None | Some d \<Rightarrow> digits_val (10 * acc + d) s)"

definition uint_of :: "string \<Rightarrow> int option" where
  "uint_of s = (if s = [] then None else digits_val 0 s)"

text \<open>\<open>strconv.Atoi\<close>: an optional sign, decimal digits, and a value that an \<open>int\<close> holds.\<close>

fun sint_of :: "string \<Rightarrow> int option" where
  "sint_of [] = None"
| "sint_of (c # t) =
     (if c = CHR ''-'' then map_option uminus (uint_of t)
      else if c = CHR ''+'' then uint_of t
      else uint_of (c # t))"

definition atoi :: "string \<Rightarrow> int option" where
  "atoi s = (case sint_of s of None \<Rightarrow> None
     | Some n \<Rightarrow> if - (2 ^ 63) \<le> n \<and> n < 2 ^ 63 then Some n else None)"

fun nat_digits :: "nat \<Rightarrow> string" where
  "nat_digits n = (if n < 10 then [char_of (48 + n)] else nat_digits (n div 10) @ [char_of (48 + n mod 10)])"

declare nat_digits.simps [simp del]

definition itoa :: "int \<Rightarrow> string" where
  "itoa n = (if n < 0 then CHR ''-'' # nat_digits (nat (- n)) else nat_digits (nat n))"

lemma digits_val_append:
  "digits_val acc (s @ t) = (case digits_val acc s of None \<Rightarrow> None | Some n \<Rightarrow> digits_val n t)"
  by (induction s arbitrary: acc) (auto split: option.splits)

lemma digit_val_char: "d < 10 \<Longrightarrow> digit_val (char_of (48 + d :: nat)) = Some (int d)"
  by (simp add: digit_val_def Let_def of_char_char_of_small)

lemma digits_val_nat_digits: "digits_val 0 (nat_digits n) = Some (int n)"
proof (induction n rule: nat_digits.induct)
  case (1 n)
  show ?case
  proof (cases "n < 10")
    case True
    then show ?thesis by (simp add: nat_digits.simps [of n] digit_val_char)
  next
    case False
    with 1 have "digits_val 0 (nat_digits (n div 10)) = Some (int (n div 10))" by simp
    moreover have "10 * int (n div 10) + int (n mod 10) = int n"
      by (metis mult_div_mod_eq of_nat_add of_nat_mult of_nat_numeral)
    ultimately show ?thesis using False
      by (simp add: nat_digits.simps [of n] digits_val_append digit_val_char)
  qed
qed

lemma nat_digits_not_Nil [simp]: "nat_digits n \<noteq> []"
  by (subst nat_digits.simps) simp

lemma nat_digits_digit: "c \<in> set (nat_digits n) \<Longrightarrow> 48 \<le> (of_char c :: nat) \<and> (of_char c :: nat) \<le> 57"
proof (induction n rule: nat_digits.induct)
  case (1 n)
  then show ?case
    by (subst (asm) nat_digits.simps) (auto split: if_splits simp: of_char_char_of_small)
qed

lemma atoi_nat_digits: "int n < 2 ^ 63 \<Longrightarrow> atoi (nat_digits n) = Some (int n)"
proof -
  assume n: "int n < 2 ^ 63"
  have nd: "CHR ''-'' \<notin> set (nat_digits n)" "CHR ''+'' \<notin> set (nat_digits n)"
    using nat_digits_digit [of _ n] by fastforce+
  obtain c t where ct: "nat_digits n = c # t" by (cases "nat_digits n") auto
  with nd have "c \<noteq> CHR ''-''" "c \<noteq> CHR ''+''" by auto
  moreover have "uint_of (c # t) = Some (int n)"
    using digits_val_nat_digits [of n] ct by (simp add: uint_of_def)
  ultimately show ?thesis using n by (simp add: ct atoi_def)
qed

end
