(* ===== verification/GoUrl.thy ===== *)
theory GoUrl
  imports GoStrings
begin

text \<open>
  The part of Go's packages \<open>net/url\<close> and \<open>path/filepath\<close> the gateway depends on:
  when \<open>url.Parse\<close> fails, the scheme, host, path and query it finds, and lexical path
  cleaning.  IPv6 zone identifiers are treated as ordinary host characters.
\<close>

section \<open>URLs\<close>

record url =
  u_scheme :: string
  u_opaque :: string
  u_user :: string
  u_host :: string
  u_path :: string
  u_epath :: string
  u_query :: string
  u_fragment :: string

definition is_letter :: "char \<Rightarrow> bool" where
  "is_letter c = (let n = of_char c :: nat in 65 \<le> n \<and> n \<le> 90 \<or> 97 \<le> n \<and> n \<le> 122)"

definition is_digit :: "char \<Rightarrow> bool" where
  "is_digit c = (let n = of_char c :: nat in 48 \<le> n \<and> n \<le> 57)"

definition unhex :: "char \<Rightarrow> nat option" where
  "unhex c = (let n = of_char c :: nat in
     if 48 \<le> n \<and> n \<le> 57 then Some (n - 48)
     else if 97 \<le> n \<and> n \<le> 102 then Some (n - 87)
     else if 65 \<le> n \<and> n \<le> 70 then Some (n - 55) else None)"

definition is_ctl :: "char \<Rightarrow> bool" where
  "is_ctl c = (let n = of_char c :: nat in n < 32 \<or> n = 127)"

text \<open>\<open>getScheme\<close>: \<open>None\<close> is the error for a leading colon.\<close>

fun scheme_scan :: "string \<Rightarrow> string \<Rightarrow> (string \<times> string) option" where
  "scheme_scan acc [] = Some ([], acc)"
| "scheme_scan acc (c # s) =
     (if is_letter c then scheme_scan (acc @ [c]) s
      else if is_digit c \<or> c \<in> {CHR ''+'', CHR ''-'', CHR ''.''} then
        (if acc = [] then Some ([], c # s) else scheme_scan (acc @ [c]) s)
      else if c = CHR '':'' then (if acc = [] then None else Some (acc, s))
      else Some ([], acc @ c # s))"

fun cut_char :: "char \<Rightarrow> string \<Rightarrow> string \<times> string option" where
  "cut_char sep [] = ([], None)"
| "cut_char sep (c # s) =
     (if c = sep then ([], Some s) else (let (a, b) = cut_char sep s in (c # a, b)))"

definition cut_last :: "char \<Rightarrow> string \<Rightarrow> (string \<times> string) option" where
  "cut_last sep s =
     (case cut_char sep (rev s) of (b, None) \<Rightarrow> None | (b, Some a) \<Rightarrow> Some (rev a, rev b))"

fun unescape_path :: "string \<Rightarrow> string option" where
  "unescape_path [] = Some []"
| "unescape_path (c # s) =
     (if c = CHR ''%'' then
        (case s of h # l # t \<Rightarrow>
           (case (unhex h, unhex l) of
              (Some a, Some b) \<Rightarrow> map_option (\<lambda>r. char_of (16 * a + b) # r) (unescape_path t)
            | _ \<Rightarrow> None)
         | _ \<Rightarrow> None)
      else map_option (\<lambda>r. c # r) (unescape_path s))"

definition host_char_ok :: "char \<Rightarrow> bool" where
  "host_char_ok c \<longleftrightarrow> is_letter c \<or> is_digit c \<or> 128 \<le> (of_char c :: nat) \<or>
     c \<in> set ''-_.~!$&()*+,;=:[]<>'' \<or> c = CHR 0x22 \<or> c = CHR 0x27"

fun host_ok :: "string \<Rightarrow> bool" where
  "host_ok [] = True"
| "host_ok (c # s) =
     (if c = CHR ''%'' then
        (case s of h # l # t \<Rightarrow>
           (case (unhex h, unhex l) of
              (Some a, Some b) \<Rightarrow> (8 \<le> a \<or> a = 2 \<and> b = 5) \<and> host_ok t
            | _ \<Rightarrow> False)
         | _ \<Rightarrow> False)
      else host_char_ok c \<and> host_ok s)"

definition valid_optional_port :: "string \<Rightarrow> bool" where
  "valid_optional_port p \<longleftrightarrow> p = [] \<or> hd p = CHR '':'' \<and> list_all is_digit (tl p)"

definition parse_host_ok :: "string \<Rightarrow> bool" where
  "parse_host_ok h =
     (if has_prefix h ''['' then
        (case cut_last (CHR '']'') h of None \<Rightarrow> False
         | Some (a, p) \<Rightarrow> valid_optional_port p \<and> host_ok h)
      else (case cut_last (CHR '':'') h of
              None \<Rightarrow> host_ok h
            | Some (a, p) \<Rightarrow> valid_optional_port (CHR '':'' # p) \<and> host_ok h))"

definition url_parse_rest :: "string \<Rightarrow> string \<Rightarrow> string \<Rightarrow> string \<Rightarrow> url option" where
  "url_parse_rest scheme rest query frag =
     (if \<not> has_prefix rest ''/'' \<and> scheme \<noteq> [] then
        Some \<lparr>u_scheme = scheme, u_opaque = rest, u_user = [], u_host = [], u_path = [],
              u_epath = [], u_query = query, u_fragment = frag\<rparr>
      else if \<not> has_prefix rest ''/'' \<and> CHR '':'' \<in> set (fst (cut_char (CHR ''/'') rest)) then None
      else if (scheme \<noteq> [] \<or> \<not> has_prefix rest ''///'') \<and> has_prefix rest ''//'' then
        (let (auth, path) = cut_char (CHR ''/'') (drop 2 rest);
             p = (case path of None \<Rightarrow> [] | Some t \<Rightarrow> CHR ''/'' # t);
             (user, host) = (case cut_last (CHR ''@'') auth of None \<Rightarrow> ([], auth) | Some (u, h) \<Rightarrow> (u, h))
         in if parse_host_ok host then
              map_option (\<lambda>d. \<lparr>u_scheme = scheme, u_opaque = [], u_user = user, u_host = host,
                u_path = d, u_epath = p, u_query = query, u_fragment = frag\<rparr>) (unescape_path p)
            else None)
      else map_option (\<lambda>d. \<lparr>u_scheme = scheme, u_opaque = [], u_user = [], u_host = [],
                u_path = d, u_epath = rest, u_query = query, u_fragment = frag\<rparr>) (unescape_path rest))"

definition url_parse :: "string \<Rightarrow> url option" where
  "url_parse raw =
     (let (main, fr) = cut_char (CHR ''#'') raw in
      if list_ex is_ctl main then None
      else case scheme_scan [] main of None \<Rightarrow> None
        | Some (scheme, rest) \<Rightarrow>
            (let (r, q) = cut_char (CHR ''?'') rest in
             url_parse_rest (to_lower scheme) r (case q of None \<Rightarrow> [] | Some t \<Rightarrow> t)
               (case fr of None \<Rightarrow> [] | Some t \<Rightarrow> t)))"

text \<open>\<open>URL.String\<close>, \<open>URL.Hostname\<close> and \<open>URL.Port\<close>.\<close>

definition url_string :: "url \<Rightarrow> string" where
  "url_string u =
     (if u_scheme u = [] then [] else u_scheme u @ '':'') @
     (if u_opaque u \<noteq> [] then u_opaque u
      else (if u_scheme u \<noteq> [] \<or> u_host u \<noteq> [] \<or> u_user u \<noteq> []
            then (if u_host u \<noteq> [] \<or> u_path u \<noteq> [] \<or> u_user u \<noteq> [] then ''//'' else []) @
                 (if u_user u = [] then [] else u_user u @ ''@'') @ u_host u
            else []) @ u_epath u) @
     (if u_query u = [] then [] else ''?'' @ u_query u) @
     (if u_fragment u = [] then [] else ''#'' @ u_fragment u)"

definition split_host_port :: "string \<Rightarrow> string \<times> string" where
  "split_host_port hp =
     (let (h, p) = (case cut_last (CHR '':'') hp of
          None \<Rightarrow> (hp, [])
        | Some (a, b) \<Rightarrow> if list_all is_digit b then (a, b) else (hp, []))
      in if has_prefix h ''['' \<and> has_suffix h '']'' then (butlast (tl h), p) else (h, p))"

definition url_hostname :: "url \<Rightarrow> string" where
  "url_hostname u = fst (split_host_port (u_host u))"

definition url_port :: "url \<Rightarrow> string" where
  "url_port u = snd (split_host_port (u_host u))"

section \<open>File paths\<close>

text \<open>\<open>filepath.Clean\<close>, component by component; \<open>acc\<close> is reversed.\<close>

fun clean_parts :: "bool \<Rightarrow> string list \<Rightarrow> string list \<Rightarrow> string list" where
  "clean_parts rooted acc [] = rev acc"
| "clean_parts rooted acc (p # ps) =
     (if p = [] \<or> p = ''.'' then clean_parts rooted acc ps
      else if p = ''..'' then
        (case acc of
           [] \<Rightarrow> clean_parts rooted (if rooted then [] else [p]) ps
         | q # qs \<Rightarrow> if q = ''..'' then clean_parts rooted (p # acc) ps else clean_parts rooted qs ps)
      else clean_parts rooted (p # acc) ps)"

definition path_clean :: "string \<Rightarrow> string" where
  "path_clean s =
     (let rooted = has_prefix s ''/'';
          body = str_join ''/'' (clean_parts rooted [] (split_char (CHR ''/'') s))
      in if rooted then ''/'' @ body else if body = [] then ''.'' else body)"

definition path_dir :: "string \<Rightarrow> string" where
  "path_dir s = (case cut_last (CHR ''/'') s of None \<Rightarrow> ''.'' | Some (d, _) \<Rightarrow> path_clean (d @ ''/''))"

definition path_join :: "string \<Rightarrow> string \<Rightarrow> string" where
  "path_join a b = (if a = [] then (if b = [] then [] else path_clean b)
     else if b = [] then path_clean a else path_clean (a @ ''/'' @ b))"

end
