(* ===== verification/Float64.thy ===== *)
theory Float64
  imports Prelude "HOL-Library.Log_Nat"
begin

text \<open>
  Go's \<open>float64\<close>: a value is the real number it denotes, and every arithmetic operation is
  the exact one followed by \<open>fl64\<close>, rounding to a 53-bit significand, ties to even
  (IEEE 754 binary64 in its default mode).  The exponent range is not bounded: overflow to an
  infinity, gradual underflow and NaN are outside the model (the program's quantities are seconds,
  tokens and dollars).  The definitions compute on closed terms.
\<close>

section \<open>Exponent\<close>

definition f64_exp :: "real \<Rightarrow> int" where
  "f64_exp x = (if 1 \<le> x then int (floorlog 2 (nat \<lfloor>x\<rfloor>)) - 1
                else - int (ceillog2 (nat \<lceil>1 / x\<rceil>)))"

lemma f64_exp_ge1:
  assumes "1 \<le> x"
  shows "2 powi f64_exp x \<le> x \<and> x < 2 powi (f64_exp x + 1)"
proof -
  define n where "n = nat \<lfloor>x\<rfloor>"
  define k where "k = floorlog 2 n"
  from assms have n: "0 < n" "real n \<le> x" "x < real n + 1"
    unfolding n_def by linarith+
  from floorlog_bounds [of n 2] n(1) have b: "2 ^ (k - 1) \<le> n" "n < 2 ^ k"
    by (auto simp: k_def)
  have k: "0 < k" using b n(1) by (cases k) auto
  have e: "f64_exp x = int k - 1" using assms by (simp add: f64_exp_def k_def n_def)
  have "(2::real) powi f64_exp x = 2 ^ (k - 1)"
    using k by (simp add: e power_int_def nat_diff_distrib)
  moreover have "(2::real) powi (f64_exp x + 1) = 2 ^ k" by (simp add: e)
  moreover have "2 ^ (k - 1) \<le> real n"
    using of_nat_mono [OF b(1), where 'a = real] by simp
  moreover have "real n + 1 \<le> 2 ^ k"
    using b(2) of_nat_mono [of "n + 1" "2 ^ k", where 'a = real] by simp
  ultimately show ?thesis using n by linarith
qed

lemma f64_exp_lt1:
  assumes "0 < x" "x < 1"
  shows "2 powi f64_exp x \<le> x \<and> x < 2 powi (f64_exp x + 1)"
proof -
  define m where "m = nat \<lceil>1 / x\<rceil>"
  define c where "c = ceillog2 m"
  from assms have gt: "1 < 1 / x" by (simp add: field_simps)
  then have m: "1 < m" "1 / x \<le> real m" unfolding m_def by linarith+
  have c: "0 < c" using le_two_power_ceillog2 [of m] m(1) by (cases c) (auto simp: c_def)
  have e: "f64_exp x = - int c" using assms by (simp add: f64_exp_def c_def m_def)
  have "real m \<le> 2 ^ c" using of_nat_mono [OF le_two_power_ceillog2 [of m], where 'a = real] by (simp add: c_def)
  with m(2) have "1 / x \<le> 2 ^ c" by linarith
  then have lo: "1 / 2 ^ c \<le> x" using assms by (simp add: field_simps)
  have "2 ^ (c - 1) < m" using two_power_ceillog2_gt [of m] m(1) c
    by (cases c) (auto simp: c_def)
  then have "real (2 ^ (c - 1)) < 1 / x"
    unfolding m_def by (simp add: zless_nat_eq_int_zless less_ceiling_iff)
  then have hi: "x < 1 / 2 ^ (c - 1)" using assms by (simp add: field_simps)
  have "(2::real) powi (- int c) = 1 / 2 ^ c" by (simp add: power_int_minus divide_inverse)
  moreover have "(2::real) powi (- int c + 1) = 1 / 2 ^ (c - 1)"
  proof -
    have "- int c + 1 = - int (c - 1)" using c by simp
    then show ?thesis by (simp add: power_int_minus divide_inverse del: of_nat_diff)
  qed
  ultimately show ?thesis using lo hi by (simp add: e)
qed

lemma f64_exp_bounds: "0 < x \<Longrightarrow> 2 powi f64_exp x \<le> x \<and> x < 2 powi (f64_exp x + 1)"
  using f64_exp_ge1 f64_exp_lt1 by (cases "1 \<le> x") auto

lemma powi2_le: "i \<le> j \<Longrightarrow> (2::real) powi i \<le> 2 powi j"
  by (rule power_int_increasing) auto

lemma powi2_less_iff: "(2::real) powi i < 2 powi j \<longleftrightarrow> i < j"
  by (metis not_le one_less_numeral_iff order_less_irrefl power_int_strict_increasing powi2_le semiring_norm(76))

lemma f64_exp_mono: "0 < x \<Longrightarrow> x \<le> y \<Longrightarrow> f64_exp x \<le> f64_exp y"
proof -
  assume "0 < x" "x \<le> y"
  then have "(2::real) powi f64_exp x < 2 powi (f64_exp y + 1)"
    using f64_exp_bounds [of x] f64_exp_bounds [of y] by linarith
  then show ?thesis by (simp add: powi2_less_iff)
qed

section \<open>Rounding to an integer\<close>

definition rne :: "real \<Rightarrow> int" where
  "rne y = (let f = \<lfloor>y\<rfloor>; d = y - of_int f in
     if d < 1 / 2 then f else if 1 / 2 < d then f + 1 else if even f then f else f + 1)"

lemma rne_of_int [simp]: "rne (of_int n) = n"
  by (simp add: rne_def)

lemma rne_floor: "rne y = \<lfloor>y\<rfloor> \<or> rne y = \<lfloor>y\<rfloor> + 1"
  by (simp add: rne_def Let_def)

lemma rne_err: "\<bar>of_int (rne y) - y\<bar> \<le> 1 / 2"
  unfolding rne_def Let_def by (simp split: if_splits; linarith)

lemma rne_mono: "x \<le> y \<Longrightarrow> rne x \<le> rne y"
proof -
  assume le: "x \<le> y"
  then have f: "\<lfloor>x\<rfloor> \<le> \<lfloor>y\<rfloor>" by (rule floor_mono)
  show ?thesis
  proof (cases "\<lfloor>x\<rfloor> = \<lfloor>y\<rfloor>")
    case True
    with le show ?thesis by (auto simp: rne_def Let_def)
  next
    case False
    with f have "\<lfloor>x\<rfloor> + 1 \<le> \<lfloor>y\<rfloor>" by simp
    then show ?thesis using rne_floor [of x] rne_floor [of y] by auto
  qed
qed

lemma rne_minus: "rne (- y) = - rne y"
proof (cases "y = of_int \<lfloor>y\<rfloor>")
  case True
  then show ?thesis by (metis of_int_minus rne_of_int)
next
  case False
  then have "\<lfloor>- y\<rfloor> = - \<lfloor>y\<rfloor> - 1" by linarith
  then show ?thesis by (auto simp: rne_def Let_def)
qed

section \<open>Rounding to a float64\<close>

definition f64_ulp :: "real \<Rightarrow> real" where
  "f64_ulp x = 2 powi (f64_exp \<bar>x\<bar> - 52)"

definition fl64 :: "real \<Rightarrow> real" where
  "fl64 x = (if x = 0 then 0 else of_int (rne (x / f64_ulp x)) * f64_ulp x)"

definition is_f64 :: "real \<Rightarrow> bool" where
  "is_f64 x \<longleftrightarrow> fl64 x = x"

lemma f64_ulp_pos [simp]: "0 < f64_ulp x"
  by (simp add: f64_ulp_def)

lemma fl64_0 [simp]: "fl64 0 = 0"
  by (simp add: fl64_def)

lemma fl64_minus: "fl64 (- x) = - fl64 x"
  by (simp add: fl64_def f64_ulp_def rne_minus)

lemma powi_shift52: "(2::real) powi e = 2 ^ 52 * 2 powi (e - 52)"
proof -
  have "(2::real) powi e = 2 powi (52 + (e - 52))" by simp
  also have "\<dots> = 2 powi 52 * 2 powi (e - 52)" by (subst power_int_add) auto
  finally show ?thesis by simp
qed

lemma fl64_scaled_bounds:
  assumes "0 < x"
  shows "2 ^ 52 \<le> x / f64_ulp x" and "x / f64_ulp x < 2 ^ 53"
proof -
  have b: "2 powi f64_exp x \<le> x" "x < 2 powi (f64_exp x + 1)" using f64_exp_bounds [OF assms] by auto
  have "(2::real) powi (f64_exp x + 1) = 2 ^ 53 * f64_ulp x"
    using powi_shift52 [of "f64_exp x"] assms by (simp add: f64_ulp_def power_int_add)
  moreover have "(2::real) powi f64_exp x = 2 ^ 52 * f64_ulp x"
    using powi_shift52 [of "f64_exp x"] assms by (simp add: f64_ulp_def)
  ultimately show "2 ^ 52 \<le> x / f64_ulp x" "x / f64_ulp x < 2 ^ 53"
    using b by (simp_all add: pos_le_divide_eq pos_divide_less_eq)
qed

lemma fl64_pos_bounds:
  assumes "0 < x"
  shows "2 powi f64_exp x \<le> fl64 x" and "fl64 x \<le> 2 powi (f64_exp x + 1)"
proof -
  note sb = fl64_scaled_bounds [OF assms]
  have "rne (of_int (2 ^ 52)) \<le> rne (x / f64_ulp x)" using sb(1) by (intro rne_mono) simp
  then have lo: "2 ^ 52 \<le> rne (x / f64_ulp x)" unfolding rne_of_int .
  have "rne (x / f64_ulp x) \<le> rne (of_int (2 ^ 53))" using sb(2) by (intro rne_mono) simp
  then have hi: "rne (x / f64_ulp x) \<le> 2 ^ 53" unfolding rne_of_int .
  have l: "(2 ^ 52 :: real) \<le> of_int (rne (x / f64_ulp x))"
    using lo by (metis of_int_le_iff of_int_numeral of_int_power)
  have h: "of_int (rne (x / f64_ulp x)) \<le> (2 ^ 53 :: real)"
    using hi by (metis of_int_le_iff of_int_numeral of_int_power)
  have e0: "(2::real) powi f64_exp x = 2 ^ 52 * f64_ulp x"
    using powi_shift52 [of "f64_exp x"] assms by (simp add: f64_ulp_def)
  have e1: "(2::real) powi (f64_exp x + 1) = 2 ^ 53 * f64_ulp x"
    using e0 by (simp add: power_int_add)
  show "2 powi f64_exp x \<le> fl64 x"
    using assms mult_right_mono [OF l, of "f64_ulp x"] by (simp add: e0 fl64_def less_imp_le)
  show "fl64 x \<le> 2 powi (f64_exp x + 1)"
    using assms mult_right_mono [OF h, of "f64_ulp x"] by (simp add: e1 fl64_def less_imp_le)
qed

lemma fl64_pos: "0 < x \<Longrightarrow> 0 < fl64 x"
  using fl64_pos_bounds(1) [of x] by (smt (verit) zero_less_power_int)

lemma fl64_nonneg [simp]: "0 \<le> x \<Longrightarrow> 0 \<le> fl64 x"
  using fl64_pos [of x] by (cases "x = 0") (auto simp: less_imp_le)

lemma fl64_mono_pos:
  assumes "0 < x" "x \<le> y"
  shows "fl64 x \<le> fl64 y"
proof (cases "f64_exp x = f64_exp y")
  case True
  then have "f64_ulp x = f64_ulp y" using assms by (simp add: f64_ulp_def)
  moreover have "rne (x / f64_ulp y) \<le> rne (y / f64_ulp y)"
    using assms by (intro rne_mono divide_right_mono) (auto simp: less_imp_le)
  ultimately show ?thesis using assms by (simp add: fl64_def mult_right_mono less_imp_le)
next
  case False
  with f64_exp_mono [OF assms] have "f64_exp x + 1 \<le> f64_exp y" by simp
  then have "(2::real) powi (f64_exp x + 1) \<le> 2 powi f64_exp y" by (rule powi2_le)
  then show ?thesis using fl64_pos_bounds(2) [of x] fl64_pos_bounds(1) [of y] assms by linarith
qed

lemma fl64_mono: "x \<le> y \<Longrightarrow> fl64 x \<le> fl64 y"
proof -
  assume le: "x \<le> y"
  consider "0 < x" | "x \<le> 0" "0 \<le> y" | "y < 0" by linarith
  then show ?thesis
  proof cases
    case 1
    then show ?thesis using le by (rule fl64_mono_pos)
  next
    case 2
    then have "0 \<le> fl64 y" "0 \<le> fl64 (- x)" by simp_all
    then show ?thesis by (simp add: fl64_minus)
  next
    case 3
    then show ?thesis using fl64_mono_pos [of "- y" "- x"] le by (simp add: fl64_minus)
  qed
qed

lemma fl64_exact_aux:
  assumes "x = of_int m * 2 powi e" "\<bar>m\<bar> < 2 ^ 53"
  shows "fl64 x = x"
proof (cases "x = 0")
  case True
  then show ?thesis by simp
next
  case False
  define E where "E = f64_exp \<bar>x\<bar>"
  have lo: "2 powi E \<le> \<bar>x\<bar>" using f64_exp_bounds [of "\<bar>x\<bar>"] False by (simp add: E_def)
  have "\<bar>x\<bar> = of_int \<bar>m\<bar> * 2 powi e" by (simp add: assms(1) abs_mult)
  also have "\<dots> < 2 ^ 53 * 2 powi e"
  proof -
    have "of_int \<bar>m\<bar> < (of_int (2 ^ 53) :: real)" using assms(2) by (simp only: of_int_less_iff)
    then show ?thesis by simp
  qed
  also have "\<dots> = 2 powi (53 + e)" by (subst power_int_add) auto
  finally have "(2::real) powi E < 2 powi (53 + e)" using lo by linarith
  then have ge: "E - 52 \<le> e" by (simp add: powi2_less_iff)
  then obtain k where k: "e = (E - 52) + int k" by (metis zle_iff_zadd)
  have "x = of_int (m * 2 ^ k) * 2 powi (E - 52)"
    by (simp add: assms(1) k power_int_add)
  note x = this
  then have "x / f64_ulp x = of_int (m * 2 ^ k)"
    unfolding f64_ulp_def E_def [symmetric] by (metis nonzero_eq_divide_eq power_int_eq_0_iff zero_neq_numeral)
  then have "rne (x / f64_ulp x) = m * 2 ^ k" by (simp only: rne_of_int)
  then have "fl64 x = of_int (m * 2 ^ k) * 2 powi (E - 52)"
    using False by (simp add: fl64_def f64_ulp_def E_def)
  from this x show ?thesis by (rule trans [OF _ sym])
qed

lemma fl64_of_int: "\<bar>n\<bar> < 2 ^ 53 \<Longrightarrow> fl64 (of_int n) = of_int n"
  by (rule fl64_exact_aux [of _ n 0]) auto

lemma fl64_numeral: "numeral n < (2 ^ 53 :: int) \<Longrightarrow> fl64 (numeral n) = numeral n"
  using fl64_of_int [of "numeral n"] by simp

lemma fl64_1 [simp]: "fl64 1 = 1"
  using fl64_of_int [of 1] by simp

lemma fl64_err: "\<bar>fl64 x - x\<bar> \<le> \<bar>x\<bar> / 2 ^ 53"
proof (cases "x = 0")
  case True
  then show ?thesis by simp
next
  case False
  let ?u = "f64_ulp x"
  have u: "0 < ?u" "?u \<noteq> 0" using f64_ulp_pos [of x] by linarith+
  have "fl64 x - x = (of_int (rne (x / ?u)) - x / ?u) * ?u"
    using False u by (simp add: fl64_def algebra_simps)
  then have "\<bar>fl64 x - x\<bar> = \<bar>of_int (rne (x / ?u)) - x / ?u\<bar> * ?u"
    using u(1) by (simp only: abs_mult abs_of_pos)
  also have "\<dots> \<le> 1 / 2 * ?u" using rne_err u(1) by (intro mult_right_mono) (auto simp: less_imp_le)
  finally have e: "\<bar>fl64 x - x\<bar> \<le> ?u / 2" by simp
  have "2 powi f64_exp \<bar>x\<bar> \<le> \<bar>x\<bar>" using f64_exp_bounds [of "\<bar>x\<bar>"] False by simp
  then have "2 ^ 52 * ?u \<le> \<bar>x\<bar>" using powi_shift52 [of "f64_exp \<bar>x\<bar>"] by (simp add: f64_ulp_def)
  with e show ?thesis by simp
qed

lemma fl64_le_err: "0 \<le> x \<Longrightarrow> fl64 x \<le> x * (1 + 1 / 2 ^ 53)"
  using fl64_err [of x] by (simp add: algebra_simps abs_if split: if_splits)

lemma fl64_idem_pos:
  assumes "0 < x"
  shows "fl64 (fl64 x) = fl64 x"
proof (cases "fl64 x = 2 powi (f64_exp x + 1)")
  case True
  have "fl64 x = of_int 1 * 2 powi (f64_exp x + 1)" by (simp only: True of_int_1 mult_1)
  then show ?thesis by (rule fl64_exact_aux) simp
next
  case False
  let ?m = "rne (x / f64_ulp x)"
  have v: "fl64 x = of_int ?m * 2 powi (f64_exp x - 52)"
    using assms by (simp add: fl64_def f64_ulp_def)
  have "fl64 x < 2 powi (f64_exp x + 1)" using fl64_pos_bounds(2) [OF assms] False by simp
  also have "\<dots> = 2 ^ 53 * 2 powi (f64_exp x - 52)"
    using powi_shift52 [of "f64_exp x"] by (simp add: power_int_add)
  finally have "of_int ?m < (2 ^ 53 :: real)" unfolding v by simp
  then have hi: "?m < 2 ^ 53" by (metis of_int_less_iff of_int_numeral of_int_power)
  have "0 < of_int ?m * (2::real) powi (f64_exp x - 52)" using fl64_pos [OF assms] unfolding v .
  moreover have "\<not> (2::real) powi (f64_exp x - 52) < 0" by (simp add: not_less)
  ultimately have "0 < (of_int ?m :: real)" unfolding zero_less_mult_iff by blast
  then have lo: "0 < ?m" by simp
  show ?thesis by (rule fl64_exact_aux [OF v]) (use hi lo in simp)
qed

lemma fl64_idem [simp]: "fl64 (fl64 x) = fl64 x"
proof (cases "x < 0")
  case True
  then have "fl64 (fl64 (- x)) = fl64 (- x)" by (intro fl64_idem_pos) simp
  then show ?thesis by (simp add: fl64_minus)
next
  case False
  then show ?thesis using fl64_idem_pos [of x] by (cases "x = 0") auto
qed

lemma is_f64_fl64 [simp]: "is_f64 (fl64 x)"
  by (simp add: is_f64_def)

lemma fl64_le_cap: "x \<le> c \<Longrightarrow> is_f64 c \<Longrightarrow> fl64 x \<le> c"
  using fl64_mono [of x c] by (simp add: is_f64_def)

section \<open>Durations\<close>

text \<open>\<open>time.Duration.Seconds\<close> of a duration in nanoseconds.\<close>

definition duration_seconds :: "int \<Rightarrow> real" where
  "duration_seconds d =
     fl64 (of_int (go_div d 1000000000) + fl64 (of_int (go_mod d 1000000000) / 1000000000))"

lemma duration_seconds_nonneg: "0 \<le> d \<Longrightarrow> 0 \<le> duration_seconds d"
  by (simp add: duration_seconds_def go_div_nonneg go_mod_nonneg pos_imp_zdiv_nonneg_iff)

lemma duration_seconds_whole:
  assumes "\<bar>n\<bar> < 2 ^ 53"
  shows "duration_seconds (n * 1000000000) = of_int n"
proof -
  have "go_div (n * 1000000000) 1000000000 = n"
    by (simp add: go_div_def abs_mult sgn_mult mult_sgn_abs flip: sgn_mult) (simp add: sgn_mult mult_sgn_abs)
  then show ?thesis using fl64_of_int [OF assms] by (simp add: duration_seconds_def go_mod_def)
qed

end
