(* ===== verification/Config.thy ===== *)
theory Config
  imports GoUrl Float64
begin

text \<open>
  Package \<open>config\<close> (internal/config): the configuration types, the defaults and the
  validation of a loaded file, the choice of the file, and the runtime policy that says which
  changes a reload may make.  Durations are nanoseconds.  The YAML decoder is a parameter of
  \<open>load\<close>, as is the file system.
\<close>

section \<open>Types\<close>

record server_config =
  listen_addr :: string
  read_timeout :: int
  write_timeout :: int
  idle_timeout :: int
  tls_cert_path :: string
  tls_key_path :: string
  tls_check_interval :: int
  tls_expiry_warning_days :: int

record rate_limiting_config =
  default_rate :: real
  default_burst :: int
  default_ttl :: int
  rl_backend :: string
  redis_addr :: string
  redis_timeout_sec :: int
  redis_fallback_to_local :: bool

record health_check_config =
  interval_seconds :: int
  timeout_seconds :: int
  unhealthy_threshold :: int

record backend_cfg =
  bc_name :: string
  bc_url :: string
  bc_weight :: int
  bc_tag :: string
  bc_headers :: "string gomap"
  bc_timeout :: int
  bc_health_path :: string

record model_backend_ref =
  ref_backend :: string
  ref_weight :: int

record model_entry =
  me_name :: string
  me_backends :: "model_backend_ref list"

record rate_limit_cfg =
  rlc_rate :: real
  rlc_burst :: int
  rlc_ttl :: int

record user_config =
  api_key_hash :: string
  rate_limit :: "rate_limit_cfg option"
  model_allow :: "string list"
  model_deny :: "string list"
  aliases :: "string gomap"

record model_pricing =
  input_per_1m :: real
  output_per_1m :: real

record pricing_config =
  default_input_per_1m :: real
  default_output_per_1m :: real
  pricing_models :: "model_pricing gomap"

type_synonym catalog = "model_entry gomap"

record config =
  cfg_server :: server_config
  cfg_admin_token_hash :: string
  cfg_rate_limit :: rate_limiting_config
  cfg_backends :: "backend_cfg list"
  cfg_models :: catalog
  cfg_users :: "user_config gomap"
  cfg_pricing :: pricing_config
  cfg_database_path :: string
  cfg_health :: health_check_config

definition second :: int where
  "second = 1000000000"

section \<open>Defaults\<close>

definition default_backend_weight :: int where
  "default_backend_weight = 1"

definition default_write_timeout :: int where
  "default_write_timeout = 120 * second"

definition default_bucket_ttl :: int where
  "default_bucket_ttl = 3600 * second"

definition server_defaults :: "server_config \<Rightarrow> server_config" where
  "server_defaults s = s\<lparr>
     listen_addr := (if listen_addr s = [] then ''0.0.0.0:4080'' else listen_addr s),
     read_timeout := (if read_timeout s = 0 then 30 * second else read_timeout s),
     write_timeout := (if write_timeout s = 0 then default_write_timeout else write_timeout s),
     idle_timeout := (if idle_timeout s = 0 then 120 * second else idle_timeout s),
     tls_check_interval :=
       (if tls_check_interval s \<le> 0 then 86400 * second else tls_check_interval s),
     tls_expiry_warning_days :=
       (if tls_expiry_warning_days s \<le> 0 then 30 else tls_expiry_warning_days s)\<rparr>"

definition backend_defaults :: "backend_cfg \<Rightarrow> backend_cfg" where
  "backend_defaults b = b\<lparr>
     bc_weight := (if bc_weight b \<le> 0 then default_backend_weight else bc_weight b),
     bc_timeout := (if bc_timeout b = 0 then default_write_timeout else bc_timeout b),
     bc_health_path := (if bc_health_path b = [] then ''/api/version'' else bc_health_path b)\<rparr>"

definition ref_default :: "model_backend_ref \<Rightarrow> model_backend_ref" where
  "ref_default r = r\<lparr>ref_weight := (if ref_weight r \<le> 0 then default_backend_weight else ref_weight r)\<rparr>"

definition models_defaults :: "catalog \<Rightarrow> catalog" where
  "models_defaults ms =
     map (\<lambda>(k, m). (k, m\<lparr>me_name := k, me_backends := map ref_default (me_backends m)\<rparr>)) ms"

definition rate_defaults :: "rate_limiting_config \<Rightarrow> rate_limiting_config" where
  "rate_defaults r = r\<lparr>
     default_rate := (if default_rate r \<le> 0 then 10 else default_rate r),
     default_burst := (if default_burst r \<le> 0 then 50 else default_burst r),
     default_ttl := (if default_ttl r = 0 then default_bucket_ttl else default_ttl r),
     rl_backend := (if rl_backend r = [] then ''local'' else rl_backend r),
     redis_timeout_sec := (if redis_timeout_sec r \<le> 0 then 2 else redis_timeout_sec r),
     redis_fallback_to_local :=
       (if \<not> redis_fallback_to_local r then True else redis_fallback_to_local r)\<rparr>"

definition user_ttl_default :: "int \<Rightarrow> user_config \<Rightarrow> user_config" where
  "user_ttl_default ttl u =
     (case rate_limit u of
        Some rl \<Rightarrow> if rlc_ttl rl = 0 then u\<lparr>rate_limit := Some (rl\<lparr>rlc_ttl := ttl\<rparr>)\<rparr> else u
      | None \<Rightarrow> u)"

definition health_defaults :: "health_check_config \<Rightarrow> health_check_config" where
  "health_defaults h = h\<lparr>
     interval_seconds := (if interval_seconds h \<le> 0 then 10 else interval_seconds h),
     timeout_seconds := (if timeout_seconds h \<le> 0 then 5 else timeout_seconds h),
     unhealthy_threshold := (if unhealthy_threshold h \<le> 0 then 3 else unhealthy_threshold h)\<rparr>"

definition apply_defaults :: "config \<Rightarrow> config" where
  "apply_defaults c =
     (let rl = rate_defaults (cfg_rate_limit c) in
      c\<lparr>cfg_server := server_defaults (cfg_server c),
        cfg_backends := map backend_defaults (cfg_backends c),
        cfg_models := models_defaults (cfg_models c),
        cfg_rate_limit := rl,
        cfg_users := map (\<lambda>(k, u). (k, user_ttl_default (default_ttl rl) u)) (cfg_users c),
        cfg_health := health_defaults (cfg_health c),
        cfg_database_path :=
          (if trim_space (cfg_database_path c) = [] then ''/var/lib/ollama-gateway/gateway.db''
           else cfg_database_path c)\<rparr>)"

section \<open>Validation\<close>

datatype config_error =
    TlsPathsMismatch
  | TlsCertUnreadable
  | TlsKeyUnreadable
  | TlsIntervalNotPositive
  | TlsWarningNotPositive
  | NoBackendConfigured
  | BackendNameMissing
  | BackendDuplicate string
  | BackendUrlMissing string
  | BackendUrlNoScheme string
  | BackendUrlScheme string string
  | ModelNoBackend string
  | ModelUnknownBackend string string
  | UserHashMissing string
  | ConfigUnreadable
  | ConfigBadYaml
  | NoConfigFile

fun validate_backends :: "string list \<Rightarrow> backend_cfg list \<Rightarrow> config_error option" where
  "validate_backends seen [] = None"
| "validate_backends seen (b # bs) =
     (if bc_name b = [] then Some BackendNameMissing
      else if bc_name b \<in> set seen then Some (BackendDuplicate (bc_name b))
      else if bc_url b = [] then Some (BackendUrlMissing (bc_name b))
      else case url_parse (bc_url b) of
          None \<Rightarrow> Some (BackendUrlNoScheme (bc_name b))
        | Some u \<Rightarrow>
            if u_scheme u = [] then Some (BackendUrlNoScheme (bc_name b))
            else if \<not> has_prefix (u_scheme u) ''http'' then Some (BackendUrlScheme (bc_name b) (u_scheme u))
            else validate_backends (bc_name b # seen) bs)"

fun validate_refs :: "string \<Rightarrow> string list \<Rightarrow> model_backend_ref list \<Rightarrow> config_error option" where
  "validate_refs k names [] = None"
| "validate_refs k names (r # rs) =
     (if ref_backend r \<in> set names then validate_refs k names rs
      else Some (ModelUnknownBackend k (ref_backend r)))"

fun validate_models :: "string list \<Rightarrow> catalog \<Rightarrow> config_error option" where
  "validate_models names [] = None"
| "validate_models names ((k, m) # ms) =
     (if me_backends m = [] then Some (ModelNoBackend k)
      else case validate_refs k names (me_backends m) of
          Some e \<Rightarrow> Some e
        | None \<Rightarrow> validate_models names ms)"

fun validate_users :: "user_config gomap \<Rightarrow> config_error option" where
  "validate_users [] = None"
| "validate_users ((k, u) # us) =
     (if api_key_hash u = [] then Some (UserHashMissing k) else validate_users us)"

definition validate_tls :: "(string \<Rightarrow> bool) \<Rightarrow> server_config \<Rightarrow> config_error option" where
  "validate_tls readable s =
     (let cert = trim_space (tls_cert_path s); key = trim_space (tls_key_path s) in
      if (cert = []) \<noteq> (key = []) then Some TlsPathsMismatch
      else if cert \<noteq> [] \<and> \<not> readable cert then Some TlsCertUnreadable
      else if cert \<noteq> [] \<and> \<not> readable key then Some TlsKeyUnreadable
      else if tls_check_interval s \<le> 0 then Some TlsIntervalNotPositive
      else if tls_expiry_warning_days s \<le> 0 then Some TlsWarningNotPositive
      else None)"

definition validate :: "(string \<Rightarrow> bool) \<Rightarrow> config \<Rightarrow> config_error option" where
  "validate readable c =
     (case validate_tls readable (cfg_server c) of Some e \<Rightarrow> Some e
      | None \<Rightarrow>
        if cfg_backends c = [] then Some NoBackendConfigured
        else case validate_backends [] (cfg_backends c) of Some e \<Rightarrow> Some e
          | None \<Rightarrow>
            (case validate_models (map bc_name (cfg_backends c)) (cfg_models c) of Some e \<Rightarrow> Some e
             | None \<Rightarrow> validate_users (cfg_users c)))"

text \<open>\<open>fs\<close> gives a file's content, \<open>yaml\<close> decodes it (gopkg.in/yaml.v3).\<close>

definition load ::
  "(string \<Rightarrow> string option) \<Rightarrow> (string \<Rightarrow> config option) \<Rightarrow> string \<Rightarrow> (config_error, config) result" where
  "load fs yaml path =
     (case fs path of None \<Rightarrow> Inl ConfigUnreadable
      | Some data \<Rightarrow>
        (case yaml data of None \<Rightarrow> Inl ConfigBadYaml
         | Some c \<Rightarrow>
           (let c' = apply_defaults c in
            case validate (\<lambda>p. fs p \<noteq> None) c' of Some e \<Rightarrow> Inl e | None \<Rightarrow> Inr c')))"

section \<open>Choosing the file\<close>

definition resolve_example_config :: "(string \<Rightarrow> bool) \<Rightarrow> string \<Rightarrow> string option" where
  "resolve_example_config exists dir =
     (if dir = ''.'' \<or> dir = [] then None
      else List.find exists [path_join dir ''config.example.yaml'', path_join dir ''config.yaml.example''])"

definition repo_candidates :: "string list" where
  "repo_candidates = [''configs/config.yaml'', ''configs/config.example.yaml'',
     ''../configs/config.yaml'', ''../configs/config.example.yaml'']"

definition resolve_config_path ::
  "(string \<Rightarrow> bool) \<Rightarrow> string \<Rightarrow> string \<Rightarrow> (config_error, string) result" where
  "resolve_config_path exists config_file default_path =
     (let repo = (case List.find exists repo_candidates of
          Some p \<Rightarrow> Inr p | None \<Rightarrow> Inl NoConfigFile) in
      if config_file \<noteq> [] then
        (if exists config_file then Inr config_file
         else case resolve_example_config exists (path_dir config_file) of
             Some p \<Rightarrow> Inr p | None \<Rightarrow> Inr config_file)
      else if default_path \<noteq> [] then
        (if exists default_path then Inr default_path
         else case resolve_example_config exists (path_dir default_path) of
             Some p \<Rightarrow> Inr p | None \<Rightarrow> repo)
      else repo)"

section \<open>Runtime policy\<close>

record runtime_policy =
  allow_admin_token_hash :: bool
  allow_backends :: bool
  allow_tls_paths :: bool

definition default_runtime_policy :: runtime_policy where
  "default_runtime_policy =
     \<lparr>allow_admin_token_hash = True, allow_backends = True, allow_tls_paths = True\<rparr>"

datatype policy_error =
    PolicyNeedsConfigs
  | RestartListenAddr | RestartReadTimeout | RestartWriteTimeout | RestartIdleTimeout
  | RestartDatabasePath | RestartHealthInterval | RestartHealthTimeout | RestartUnhealthyThreshold
  | RestartTlsToggle | TlsPathsDisabled | AdminTokenDisabled | BackendsDisabled

definition tls_paths_enabled :: "string \<Rightarrow> string \<Rightarrow> bool" where
  "tls_paths_enabled cert key \<longleftrightarrow> trim_space cert \<noteq> [] \<and> trim_space key \<noteq> []"

text \<open>A missing key reads as the empty string, as an index expression on a Go map does.\<close>

definition headers_agree :: "string gomap \<Rightarrow> string gomap \<Rightarrow> bool" where
  "headers_agree a b \<longleftrightarrow> length a = length b \<and>
     list_all (\<lambda>(k, v). (case gm_get b k of Some w \<Rightarrow> w | None \<Rightarrow> []) = v) a"

definition backend_cfg_equal :: "backend_cfg \<Rightarrow> backend_cfg \<Rightarrow> bool" where
  "backend_cfg_equal a b \<longleftrightarrow>
     bc_name a = bc_name b \<and> bc_url a = bc_url b \<and> bc_weight a = bc_weight b \<and>
     bc_tag a = bc_tag b \<and> bc_timeout a = bc_timeout b \<and> bc_health_path a = bc_health_path b \<and>
     headers_agree (bc_headers a) (bc_headers b)"

definition backends_equal :: "backend_cfg list \<Rightarrow> backend_cfg list \<Rightarrow> bool" where
  "backends_equal a b \<longleftrightarrow> list_all2 backend_cfg_equal a b"

definition validate_runtime_change ::
  "runtime_policy \<Rightarrow> config option \<Rightarrow> config option \<Rightarrow> policy_error option" where
  "validate_runtime_change p current next =
     (case (current, next) of
        (Some c, Some n) \<Rightarrow>
          (let cs = cfg_server c; ns = cfg_server n; ch = cfg_health c; nh = cfg_health n in
           if listen_addr cs \<noteq> listen_addr ns then Some RestartListenAddr
           else if read_timeout cs \<noteq> read_timeout ns then Some RestartReadTimeout
           else if write_timeout cs \<noteq> write_timeout ns then Some RestartWriteTimeout
           else if idle_timeout cs \<noteq> idle_timeout ns then Some RestartIdleTimeout
           else if cfg_database_path c \<noteq> cfg_database_path n then Some RestartDatabasePath
           else if interval_seconds ch \<noteq> interval_seconds nh then Some RestartHealthInterval
           else if timeout_seconds ch \<noteq> timeout_seconds nh then Some RestartHealthTimeout
           else if unhealthy_threshold ch \<noteq> unhealthy_threshold nh then Some RestartUnhealthyThreshold
           else if tls_paths_enabled (tls_cert_path cs) (tls_key_path cs)
                \<noteq> tls_paths_enabled (tls_cert_path ns) (tls_key_path ns) then Some RestartTlsToggle
           else if \<not> allow_tls_paths p \<and>
                (tls_cert_path cs \<noteq> tls_cert_path ns \<or> tls_key_path cs \<noteq> tls_key_path ns)
             then Some TlsPathsDisabled
           else if \<not> allow_admin_token_hash p \<and> cfg_admin_token_hash c \<noteq> cfg_admin_token_hash n
             then Some AdminTokenDisabled
           else if \<not> allow_backends p \<and> \<not> backends_equal (cfg_backends c) (cfg_backends n)
             then Some BackendsDisabled
           else None)
      | _ \<Rightarrow> Some PolicyNeedsConfigs)"

section \<open>Lemmas\<close>

lemma validate_backends_names:
  "validate_backends seen bs = None \<Longrightarrow>
     distinct (map bc_name bs) \<and> set (map bc_name bs) \<inter> set seen = {}"
  by (induction seen bs rule: validate_backends.induct)
    (auto split: if_splits option.splits)

definition backend_cfg_ok :: "backend_cfg \<Rightarrow> bool" where
  "backend_cfg_ok b \<longleftrightarrow> bc_name b \<noteq> [] \<and>
     (case url_parse (bc_url b) of None \<Rightarrow> False | Some u \<Rightarrow> has_prefix (u_scheme u) ''http'')"

lemma validate_backends_ok:
  "validate_backends seen bs = None \<Longrightarrow> b \<in> set bs \<Longrightarrow> backend_cfg_ok b"
  by (induction seen bs rule: validate_backends.induct)
    (auto split: if_splits option.splits simp: backend_cfg_ok_def)

lemma validate_refs_None: "validate_refs k names rs = None \<longleftrightarrow> ref_backend ` set rs \<subseteq> set names"
  by (induction rs) auto

lemma validate_models_ok:
  "validate_models names ms = None \<Longrightarrow> (k, m) \<in> set ms \<Longrightarrow>
     me_backends m \<noteq> [] \<and> ref_backend ` set (me_backends m) \<subseteq> set names"
  by (induction names ms rule: validate_models.induct)
    (auto split: if_splits option.splits simp: validate_refs_None)

lemma validate_users_ok:
  "validate_users us = None \<Longrightarrow> (k, u) \<in> set us \<Longrightarrow> api_key_hash u \<noteq> []"
  by (induction us rule: validate_users.induct) (auto split: if_splits)

lemma validate_NoneD:
  assumes "validate readable c = None"
  shows "validate_tls readable (cfg_server c) = None" "cfg_backends c \<noteq> []"
    "validate_backends [] (cfg_backends c) = None"
    "validate_models (map bc_name (cfg_backends c)) (cfg_models c) = None"
    "validate_users (cfg_users c) = None"
  using assms by (simp_all add: validate_def split: option.splits if_splits)

lemma load_InrD:
  assumes "load fs yaml path = Inr c"
  obtains data c0 where "fs path = Some data" "yaml data = Some c0" "c = apply_defaults c0"
    "validate (\<lambda>p. fs p \<noteq> None) c = None"
  using assms by (auto simp: load_def Let_def split: option.splits)

lemma ref_default_idem [simp]: "ref_default (ref_default r) = ref_default r"
  by (simp add: ref_default_def default_backend_weight_def)

lemma backend_defaults_idem [simp]: "backend_defaults (backend_defaults b) = backend_defaults b"
  by (simp add: backend_defaults_def default_backend_weight_def default_write_timeout_def second_def)

lemma models_defaults_idem [simp]: "models_defaults (models_defaults ms) = models_defaults ms"
  by (auto simp: models_defaults_def)

lemma server_defaults_idem [simp]: "server_defaults (server_defaults s) = server_defaults s"
  by (simp add: server_defaults_def default_write_timeout_def second_def)

lemma rate_defaults_idem [simp]: "rate_defaults (rate_defaults r) = rate_defaults r"
  by (simp add: rate_defaults_def default_bucket_ttl_def second_def)

lemma health_defaults_idem [simp]: "health_defaults (health_defaults h) = health_defaults h"
  by (simp add: health_defaults_def)

lemma user_ttl_default_idem [simp]:
  "user_ttl_default ttl (user_ttl_default ttl u) = user_ttl_default ttl u"
  by (auto simp: user_ttl_default_def split: option.splits)

section \<open>Properties\<close>

text \<open>What the rest of the gateway assumes of a configuration.\<close>

definition config_ok :: "config \<Rightarrow> bool" where
  "config_ok c \<longleftrightarrow>
     cfg_backends c \<noteq> [] \<and> distinct (map bc_name (cfg_backends c)) \<and>
     list_all (\<lambda>b. backend_cfg_ok b \<and> 1 \<le> bc_weight b \<and> bc_timeout b \<noteq> 0 \<and> bc_health_path b \<noteq> [])
       (cfg_backends c) \<and>
     list_all (\<lambda>(k, m). me_name m = k \<and> me_backends m \<noteq> [] \<and>
         list_all (\<lambda>r. ref_backend r \<in> set (map bc_name (cfg_backends c)) \<and> 1 \<le> ref_weight r)
           (me_backends m)) (cfg_models c) \<and>
     list_all (\<lambda>(k, u). api_key_hash u \<noteq> []) (cfg_users c) \<and>
     0 < default_rate (cfg_rate_limit c) \<and> 0 < default_burst (cfg_rate_limit c) \<and>
     default_ttl (cfg_rate_limit c) \<noteq> 0 \<and>
     0 < interval_seconds (cfg_health c) \<and> 0 < timeout_seconds (cfg_health c) \<and>
     0 < tls_check_interval (cfg_server c) \<and> cfg_database_path c \<noteq> []"

lemma apply_defaults_backends: "cfg_backends (apply_defaults c) = map backend_defaults (cfg_backends c)"
  by (simp add: apply_defaults_def Let_def)

lemma apply_defaults_positive:
  "0 < default_rate (cfg_rate_limit (apply_defaults c))"
  "0 < default_burst (cfg_rate_limit (apply_defaults c))"
  "default_ttl (cfg_rate_limit (apply_defaults c)) \<noteq> 0"
  "0 < interval_seconds (cfg_health (apply_defaults c))"
  "0 < timeout_seconds (cfg_health (apply_defaults c))"
  "0 < tls_check_interval (cfg_server (apply_defaults c))"
  "cfg_database_path (apply_defaults c) \<noteq> []"
  by (auto simp: apply_defaults_def Let_def rate_defaults_def health_defaults_def server_defaults_def
      default_bucket_ttl_def second_def)

lemma apply_defaults_backend_in:
  "b \<in> set (cfg_backends (apply_defaults c)) \<Longrightarrow>
     1 \<le> bc_weight b \<and> bc_timeout b \<noteq> 0 \<and> bc_health_path b \<noteq> []"
  by (auto simp: apply_defaults_backends backend_defaults_def default_backend_weight_def
      default_write_timeout_def second_def split: if_splits)

lemma apply_defaults_model_in:
  "(k, m) \<in> set (cfg_models (apply_defaults c)) \<Longrightarrow>
     me_name m = k \<and> (\<forall>r \<in> set (me_backends m). 1 \<le> ref_weight r)"
  by (auto simp: apply_defaults_def Let_def models_defaults_def ref_default_def
      default_backend_weight_def)

lemma config_ok_load:
  assumes "load fs yaml path = Inr c"
  shows "config_ok c"
proof -
  obtain data c0 where c: "c = apply_defaults c0" and v: "validate (\<lambda>p. fs p \<noteq> None) c = None"
    using load_InrD [OF assms] by metis
  note V = validate_NoneD [OF v]
  have "list_all (\<lambda>b. backend_cfg_ok b \<and> 1 \<le> bc_weight b \<and> bc_timeout b \<noteq> 0 \<and> bc_health_path b \<noteq> [])
      (cfg_backends c)"
    using validate_backends_ok [OF V(3)] apply_defaults_backend_in [of _ c0]
    by (auto simp: list_all_iff c)
  moreover have "list_all (\<lambda>(k, m). me_name m = k \<and> me_backends m \<noteq> [] \<and>
         list_all (\<lambda>r. ref_backend r \<in> set (map bc_name (cfg_backends c)) \<and> 1 \<le> ref_weight r)
           (me_backends m)) (cfg_models c)"
    using validate_models_ok [OF V(4)] apply_defaults_model_in [of _ _ c0]
    by (fastforce simp: list_all_iff c)
  ultimately show ?thesis
    using V(2) validate_backends_names [OF V(3)] validate_users_ok [OF V(5)]
      apply_defaults_positive [of c0]
    by (auto simp: config_ok_def list_all_iff c)
qed

text \<open>A configuration that \<open>Load\<close> returns is well formed: its backends are non-empty, have
  distinct non-empty names, http or https URLs and positive weights; every model of its catalog
  refers to configured backends only; every user has a key hash; every limit has a usable value.\<close>

theorem load_config_ok:
  assumes "load fs yaml path = Inr c"
  shows "config_ok c"
  by (rule config_ok_load [OF assms])

definition sample_config :: config where
  "sample_config = \<lparr>
     cfg_server = \<lparr>listen_addr = [], read_timeout = 0, write_timeout = 0, idle_timeout = 0,
       tls_cert_path = [], tls_key_path = [], tls_check_interval = 0, tls_expiry_warning_days = 0\<rparr>,
     cfg_admin_token_hash = ''ab'',
     cfg_rate_limit = \<lparr>default_rate = 0, default_burst = 0, default_ttl = 0, rl_backend = [],
       redis_addr = [], redis_timeout_sec = 0, redis_fallback_to_local = False\<rparr>,
     cfg_backends = [\<lparr>bc_name = ''a'', bc_url = ''http://h'', bc_weight = 0, bc_tag = [],
       bc_headers = [], bc_timeout = 0, bc_health_path = []\<rparr>],
     cfg_models = [(''m'', \<lparr>me_name = [], me_backends = [\<lparr>ref_backend = ''a'', ref_weight = 0\<rparr>]\<rparr>)],
     cfg_users = [(''u'', \<lparr>api_key_hash = ''00'', rate_limit = None, model_allow = [],
       model_deny = [], aliases = []\<rparr>)],
     cfg_pricing = \<lparr>default_input_per_1m = 0, default_output_per_1m = 0, pricing_models = []\<rparr>,
     cfg_database_path = [],
     cfg_health = \<lparr>interval_seconds = 0, timeout_seconds = 0, unhealthy_threshold = 0\<rparr>\<rparr>"

lemma sample_url: "url_parse ''http://h'' \<noteq> None \<and> u_scheme (the (url_parse ''http://h'')) = ''http''"
  by (simp add: url_parse_def url_parse_rest_def is_ctl_def is_letter_def is_digit_def to_lower_def
      lower_char_def has_prefix_def cut_last_def parse_host_ok_def host_char_ok_def Let_def)

lemma sample_load:
  "load (\<lambda>p. Some []) (\<lambda>d. Some sample_config) ''c.yaml'' = Inr (apply_defaults sample_config)"
  using sample_url
  by (auto simp: load_def validate_def validate_tls_def apply_defaults_def Let_def sample_config_def
      server_defaults_def second_def backend_defaults_def models_defaults_def ref_default_def
      user_ttl_default_def has_prefix_def)

theorem load_config_ok_witness: "config_ok (apply_defaults sample_config)"
  by (rule load_config_ok [OF sample_load])

text \<open>Applying the defaults twice is applying them once.\<close>

lemma apply_defaults_idem: "apply_defaults (apply_defaults c) = apply_defaults c"
proof -
  have b: "backend_defaults \<circ> backend_defaults = backend_defaults" by (simp add: fun_eq_iff)
  have u: "(\<lambda>(k, u). (k, user_ttl_default t u)) \<circ> (\<lambda>(k, u). (k, user_ttl_default t u))
      = (\<lambda>(k, u). (k, user_ttl_default t u))" for t :: int and k :: string
    by (auto simp: fun_eq_iff)
  have "trim_space (cfg_database_path (apply_defaults c)) \<noteq> []"
    by (simp add: apply_defaults_def Let_def trim_space_def trim_left_def trim_right_def is_space_def)
  then show ?thesis
    by (simp add: apply_defaults_def Let_def b u)
qed

end
