(* ===== verification/Json.thy ===== *)
theory Json
  imports GoUrl Float64 "HOL-Library.Multiset"
begin

text \<open>
  Go's \<open>encoding/json\<close> as the gateway uses it: a decoder for arbitrary JSON text, the encoder
  for lists and maps of strings (the JSON columns of the user table), and the conversions that
  \<open>json.Unmarshal\<close> makes into \<open>[]string\<close> and \<open>map[string]string\<close>.  Bytes above 127 pass through
  (the text is taken to be valid UTF-8); the decoder has no nesting limit.  A number keeps its
  literal, which decides whether it is an integer, beside its value.  The decoder runs on
  fuel; \<open>json_parse\<close> supplies \<open>2 * length + 2\<close> units, one per value and per list position.
\<close>

datatype json =
    JNull | JBool bool | JNum string real | JStr string | JArr "json list" | JObj "(string \<times> json) list"

section \<open>Decoding\<close>

definition json_ws :: "char \<Rightarrow> bool" where
  "json_ws c \<longleftrightarrow> c = CHR '' '' \<or> c = CHR 0x09 \<or> c = CHR 0x0A \<or> c = CHR 0x0D"

definition skip_ws :: "string \<Rightarrow> string" where
  "skip_ws s = dropWhile json_ws s"

fun hex4 :: "string \<Rightarrow> (nat \<times> string) option" where
  "hex4 (a # b # c # d # s) =
     (case (unhex a, unhex b, unhex c, unhex d) of
        (Some w, Some x, Some y, Some z) \<Rightarrow> Some (((w * 16 + x) * 16 + y) * 16 + z, s)
      | _ \<Rightarrow> None)"
| "hex4 _ = None"

definition utf8 :: "nat \<Rightarrow> string" where
  "utf8 n =
     (if n < 128 then [char_of n]
      else if n < 2048 then [char_of (192 + n div 64), char_of (128 + n mod 64)]
      else if n < 65536 then
        [char_of (224 + n div 4096), char_of (128 + n div 64 mod 64), char_of (128 + n mod 64)]
      else [char_of (240 + n div 262144), char_of (128 + n div 4096 mod 64),
            char_of (128 + n div 64 mod 64), char_of (128 + n mod 64)])"

text \<open>A code unit after \<open>\u\<close>: a surrogate pair is joined, a lone surrogate is U+FFFD.\<close>

definition code_unit :: "nat \<Rightarrow> string \<Rightarrow> string \<times> string" where
  "code_unit n rest =
     (if n < 55296 \<or> 57343 < n then (utf8 n, rest)
      else if n < 56320 \<and> has_prefix rest (CHR 0x5C # ''u'') then
        (case hex4 (drop 2 rest) of
           Some (m, rest') \<Rightarrow>
             if 56320 \<le> m \<and> m \<le> 57343
             then (utf8 (65536 + (n - 55296) * 1024 + (m - 56320)), rest')
             else (utf8 65533, rest)
         | None \<Rightarrow> (utf8 65533, rest))
      else (utf8 65533, rest))"

definition json_escape :: "char \<Rightarrow> char option" where
  "json_escape e =
     (if e = CHR 0x22 \<or> e = CHR 0x5C \<or> e = CHR ''/'' then Some e
      else if e = CHR ''b'' then Some (CHR 0x08)
      else if e = CHR ''f'' then Some (CHR 0x0C)
      else if e = CHR ''n'' then Some (CHR 0x0A)
      else if e = CHR ''r'' then Some (CHR 0x0D)
      else if e = CHR ''t'' then Some (CHR 0x09)
      else None)"

definition prepend :: "string \<Rightarrow> (string \<times> string) option \<Rightarrow> (string \<times> string) option" where
  "prepend p r = map_option (\<lambda>(a, b). (p @ a, b)) r"

text \<open>The text of a string after its opening quote.\<close>

fun json_str :: "nat \<Rightarrow> string \<Rightarrow> (string \<times> string) option" where
  "json_str 0 s = None"
| "json_str (Suc n) [] = None"
| "json_str (Suc n) (c # s) =
     (if c = CHR 0x22 then Some ([], s)
      else if c = CHR 0x5C then
        (case s of
           [] \<Rightarrow> None
         | e # t \<Rightarrow>
             if e = CHR ''u'' then
               (case hex4 t of
                  None \<Rightarrow> None
                | Some (k, r) \<Rightarrow> (let (p, r') = code_unit k r in prepend p (json_str n r')))
             else (case json_escape e of None \<Rightarrow> None | Some x \<Rightarrow> prepend [x] (json_str n t)))
      else if (of_char c :: nat) < 32 then None
      else prepend [c] (json_str n s))"

definition take_digits :: "string \<Rightarrow> string \<times> string" where
  "take_digits s = (takeWhile is_digit s, dropWhile is_digit s)"

definition dec_nat :: "string \<Rightarrow> int" where
  "dec_nat ds = (case digits_val 0 ds of Some n \<Rightarrow> n | None \<Rightarrow> 0)"

fun json_exp :: "string \<Rightarrow> (int \<times> string) option" where
  "json_exp [] = Some (0, [])"
| "json_exp (c # s) =
     (if c = CHR ''e'' \<or> c = CHR ''E'' then
        (let neg = has_prefix s ''-'';
             t = (if has_prefix s ''-'' \<or> has_prefix s ''+'' then drop 1 s else s);
             (ds, r) = take_digits t
         in if ds = [] then None else Some (if neg then - dec_nat ds else dec_nat ds, r))
      else Some (0, c # s))"

definition json_num :: "string \<Rightarrow> (real \<times> string) option" where
  "json_num s =
     (let neg = has_prefix s ''-'';
          (ds, r) = take_digits (if neg then drop 1 s else s)
      in if ds = [] \<or> (hd ds = CHR ''0'' \<and> tl ds \<noteq> []) then None
         else
           (let (fs, r2, bad) =
              (if has_prefix r ''.'' then
                 (let (f, q) = take_digits (drop 1 r) in (f, q, f = []))
               else ([], r, False))
            in if bad then None
               else (case json_exp r2 of
                   None \<Rightarrow> None
                 | Some (e, r3) \<Rightarrow>
                     Some (fl64 ((if neg then - 1 else 1) * of_int (dec_nat (ds @ fs))
                             * 10 powi (e - int (length fs))), r3))))"

fun json_value :: "nat \<Rightarrow> string \<Rightarrow> (json \<times> string) option"
and json_elems :: "nat \<Rightarrow> string \<Rightarrow> (json list \<times> string) option"
and json_members :: "nat \<Rightarrow> string \<Rightarrow> ((string \<times> json) list \<times> string) option" where
  "json_value 0 s = None"
| "json_value (Suc n) s0 =
     (let s = skip_ws s0 in
      if has_prefix s ''{'' then
        (let t = skip_ws (drop 1 s) in
         if has_prefix t ''}'' then Some (JObj [], drop 1 t)
         else map_option (\<lambda>(m, r). (JObj m, r)) (json_members n t))
      else if has_prefix s ''['' then
        (let t = skip_ws (drop 1 s) in
         if has_prefix t '']'' then Some (JArr [], drop 1 t)
         else map_option (\<lambda>(vs, r). (JArr vs, r)) (json_elems n t))
      else if has_prefix s [CHR 0x22] then
        map_option (\<lambda>(x, r). (JStr x, r)) (json_str (length s) (drop 1 s))
      else if has_prefix s ''null'' then Some (JNull, drop 4 s)
      else if has_prefix s ''true'' then Some (JBool True, drop 4 s)
      else if has_prefix s ''false'' then Some (JBool False, drop 5 s)
      else map_option (\<lambda>(x, r). (JNum (take (length s - length r) s) x, r)) (json_num s))"
| "json_elems 0 s = None"
| "json_elems (Suc n) s =
     (case json_value n s of
        None \<Rightarrow> None
      | Some (v, r) \<Rightarrow>
          (let r' = skip_ws r in
           if has_prefix r' '','' then map_option (\<lambda>(vs, q). (v # vs, q)) (json_elems n (drop 1 r'))
           else if has_prefix r' '']'' then Some ([v], drop 1 r')
           else None))"
| "json_members 0 s = None"
| "json_members (Suc n) s =
     (let k0 = skip_ws s in
      if \<not> has_prefix k0 [CHR 0x22] then None
      else (case json_str (length k0) (drop 1 k0) of
          None \<Rightarrow> None
        | Some (k, r) \<Rightarrow>
            (let c = skip_ws r in
             if \<not> has_prefix c '':'' then None
             else (case json_value n (drop 1 c) of
                 None \<Rightarrow> None
               | Some (v, q) \<Rightarrow>
                   (let q' = skip_ws q in
                    if has_prefix q' '','' then
                      map_option (\<lambda>(ms, z). ((k, v) # ms, z)) (json_members n (drop 1 q'))
                    else if has_prefix q' ''}'' then Some ([(k, v)], drop 1 q')
                    else None)))))"

definition json_parse :: "string \<Rightarrow> json option" where
  "json_parse s =
     (case json_value (2 * length s + 2) s of
        Some (v, r) \<Rightarrow> if skip_ws r = [] then Some v else None
      | None \<Rightarrow> None)"

text \<open>\<open>json.Unmarshal\<close> into \<open>[]string\<close>, \<open>map[string]string\<close> and \<open>map[string]any\<close>, errors ignored:
  a value of the wrong type leaves the zero value.\<close>

definition json_string_or_zero :: "json \<Rightarrow> string" where
  "json_string_or_zero v = (case v of JStr s \<Rightarrow> s | _ \<Rightarrow> [])"

definition unmarshal_strings :: "string \<Rightarrow> string list" where
  "unmarshal_strings s =
     (case json_parse s of Some (JArr vs) \<Rightarrow> map json_string_or_zero vs | _ \<Rightarrow> [])"

definition unmarshal_string_map :: "string \<Rightarrow> string gomap" where
  "unmarshal_string_map s =
     (case json_parse s of
        Some (JObj kvs) \<Rightarrow> fold (\<lambda>(k, v) m. gm_put k (json_string_or_zero v) m) kvs []
      | _ \<Rightarrow> [])"

text \<open>Into a map of arbitrary values: \<open>None\<close> is an error.\<close>

definition unmarshal_any_map :: "string \<Rightarrow> json gomap option" where
  "unmarshal_any_map s =
     (case json_parse s of
        Some (JObj kvs) \<Rightarrow> Some (fold (\<lambda>(k, v) m. gm_put k v m) kvs [])
      | Some JNull \<Rightarrow> Some []
      | _ \<Rightarrow> None)"

section \<open>Encoding\<close>

definition hex_lower :: "nat \<Rightarrow> char" where
  "hex_lower n = (if n < 10 then char_of (48 + n) else char_of (87 + n))"

definition json_esc :: "char \<Rightarrow> string" where
  "json_esc c =
     (if c = CHR 0x22 \<or> c = CHR 0x5C then [CHR 0x5C, c]
      else if c = CHR 0x08 then CHR 0x5C # ''b''
      else if c = CHR 0x0C then CHR 0x5C # ''f''
      else if c = CHR 0x0A then CHR 0x5C # ''n''
      else if c = CHR 0x0D then CHR 0x5C # ''r''
      else if c = CHR 0x09 then CHR 0x5C # ''t''
      else (let n = of_char c :: nat in
        if n < 32 \<or> c = CHR ''<'' \<or> c = CHR ''>'' \<or> c = CHR ''&''
        then CHR 0x5C # ''u00'' @ [hex_lower (n div 16), hex_lower (n mod 16)]
        else [c]))"

definition json_quote :: "string \<Rightarrow> string" where
  "json_quote s = CHR 0x22 # concat (map json_esc s) @ [CHR 0x22]"

definition marshal_strings :: "string list \<Rightarrow> string" where
  "marshal_strings xs = ''['' @ str_join '','' (map json_quote xs) @ '']''"

definition marshal_string_map :: "string gomap \<Rightarrow> string" where
  "marshal_string_map m =
     ''{'' @ str_join '','' (map (\<lambda>(k, v). json_quote k @ '':'' @ json_quote v) (sort_key fst m)) @ ''}''"

section \<open>Round trip\<close>

lemma prepend_Some [simp]: "prepend p (Some (a, b)) = Some (p @ a, b)"
  by (simp add: prepend_def)

lemma unhex_hex_lower: "n < 16 \<Longrightarrow> unhex (hex_lower n) = Some n"
  by (simp add: unhex_def hex_lower_def Let_def of_char_char_of_small)

lemma unhex_0: "unhex (CHR ''0'') = Some 0"
  by (simp add: unhex_def)

lemma json_str_step: "json_str (Suc m) (json_esc c @ r) = prepend [c] (json_str m r)"
proof (cases "c \<in> {CHR 0x22, CHR 0x5C, CHR 0x08, CHR 0x0C, CHR 0x0A, CHR 0x0D, CHR 0x09}")
  case True
  then show ?thesis by (elim insertE) (simp_all add: json_esc_def json_escape_def)
next
  case spec: False
  let ?n = "of_char c :: nat"
  show ?thesis
  proof (cases "?n < 32 \<or> c = CHR ''<'' \<or> c = CHR ''>'' \<or> c = CHR ''&''")
    case True
    then have small: "?n < 128" by auto
    have nd: "?n div 16 < 16" "?n mod 16 < 16" using small by auto
    have val: "(?n div 16) * 16 + ?n mod 16 = ?n" by simp
    have "utf8 ?n = [c]" using small by (simp add: utf8_def)
    then have cu: "code_unit ?n r = ([c], r)" using small by (simp add: code_unit_def)
    have "json_esc c = CHR 0x5C # ''u00'' @ [hex_lower (?n div 16), hex_lower (?n mod 16)]"
      using spec True by (simp add: json_esc_def Let_def)
    then show ?thesis
      using nd val cu by (simp add: unhex_0 unhex_hex_lower)
  next
    case False
    then show ?thesis using spec by (simp add: json_esc_def Let_def)
  qed
qed

lemma length_json_esc: "1 \<le> length (json_esc c)"
  by (simp add: json_esc_def Let_def)

lemma length_concat_esc: "length s \<le> length (concat (map json_esc s))"
proof (induction s)
  case (Cons c s)
  then show ?case using length_json_esc [of c] by simp
qed simp

lemma json_str_quoted:
  "length s < n \<Longrightarrow> json_str n (concat (map json_esc s) @ CHR 0x22 # r) = Some (s, r)"
proof (induction s arbitrary: n)
  case Nil
  then show ?case by (cases n) auto
next
  case (Cons c s)
  then obtain m where m: "n = Suc m" "length s < m" by (cases n) auto
  have "json_str n (json_esc c @ concat (map json_esc s) @ CHR 0x22 # r)
     = prepend [c] (json_str m (concat (map json_esc s) @ CHR 0x22 # r))"
    using json_str_step by (simp add: m)
  then show ?case using Cons.IH [OF m(2)] by simp
qed

lemma skip_ws_quote [simp]: "skip_ws (CHR 0x22 # s) = CHR 0x22 # s"
  by (simp add: skip_ws_def json_ws_def)

lemma skip_ws_punct [simp]:
  "skip_ws (CHR '','' # s) = CHR '','' # s" "skip_ws (CHR '']'' # s) = CHR '']'' # s"
  "skip_ws (CHR ''}'' # s) = CHR ''}'' # s" "skip_ws (CHR '':'' # s) = CHR '':'' # s"
  "skip_ws (CHR ''['' # s) = CHR ''['' # s" "skip_ws (CHR ''{'' # s) = CHR ''{'' # s"
  "skip_ws [] = []"
  by (simp_all add: skip_ws_def json_ws_def)

lemma json_quote_append: "json_quote s @ r = CHR 0x22 # concat (map json_esc s) @ CHR 0x22 # r"
  by (simp add: json_quote_def)

lemma json_str_of_quote:
  "json_str (length (json_quote s @ r)) (drop 1 (json_quote s @ r)) = Some (s, r)"
  using json_str_quoted [of s "length (json_quote s @ r)" r] length_concat_esc [of s]
  by (simp add: json_quote_def)

lemmas json_str_of_quote' = json_str_of_quote [unfolded One_nat_def]

lemma has_prefix_Cons: "has_prefix (c # s) (d # p) \<longleftrightarrow> c = d \<and> has_prefix s p"
  by (auto simp: has_prefix_def)

lemma has_prefix_Nil [simp]: "has_prefix s []"
  by (simp add: has_prefix_def)

lemma skip_ws_json_quote: "skip_ws (json_quote s @ r) = json_quote s @ r"
  by (simp add: json_quote_append)

lemma has_prefix_json_quote: "has_prefix (json_quote s @ r) (d # p) \<longleftrightarrow>
    d = CHR 0x22 \<and> has_prefix (concat (map json_esc s) @ CHR 0x22 # r) p"
  by (auto simp: json_quote_append has_prefix_Cons)

lemma json_value_quote: "json_value (Suc n) (json_quote s @ r) = Some (JStr s, r)"
  by (simp only: json_value.simps Let_def skip_ws_json_quote has_prefix_json_quote json_str_of_quote)
    simp

lemma json_elems_strings:
  "xs \<noteq> [] \<Longrightarrow> length xs \<le> n \<Longrightarrow>
   json_elems (Suc n) (str_join '','' (map json_quote xs) @ CHR '']'' # r) = Some (map JStr xs, r)"
proof (induction xs arbitrary: n)
  case (Cons x xs)
  then obtain m where m: "n = Suc m" by (cases n) auto
  show ?case
  proof (cases xs)
    case Nil
    then show ?thesis by (simp add: m json_value_quote has_prefix_Cons del: json_value.simps)
  next
    case (Cons y ys)
    with Cons.prems Cons.IH [of m] m
    have "json_elems (Suc m) (str_join '','' (map json_quote xs) @ CHR '']'' # r) = Some (map JStr xs, r)"
      by simp
    then show ?thesis
      by (simp add: m Cons json_value_quote has_prefix_Cons del: json_value.simps json_elems.simps)
        (simp add: json_value_quote has_prefix_Cons del: json_value.simps)
  qed
qed simp

lemma length_json_quote: "2 \<le> length (json_quote s)"
  by (simp add: json_quote_def)

lemma length_str_join: "(\<And>x. x \<in> set xs \<Longrightarrow> 1 \<le> length (f x)) \<Longrightarrow> length xs \<le> length (str_join sep (map f xs))"
proof (induction xs)
  case (Cons x xs)
  then show ?case
  proof (cases xs)
    case Nil
    then show ?thesis using Cons.prems [of x] by simp
  next
    case (Cons y ys)
    with Cons.IH Cons.prems have "length xs \<le> length (str_join sep (map f xs))" by simp
    then show ?thesis using Cons.prems [of x] Cons by simp
  qed
qed simp

lemma json_parse_strings: "json_parse (marshal_strings xs) = Some (JArr (map JStr xs))"
proof (cases "xs = []")
  case True
  then show ?thesis
    by (simp add: json_parse_def marshal_strings_def has_prefix_Cons eval_nat_numeral)
next
  case False
  let ?body = "str_join '','' (map json_quote xs)"
  have q: "\<exists>t. ?body = CHR 0x22 # t"
    using False by (cases xs rule: remdups_adj.cases) (auto simp: json_quote_def)
  have "length xs \<le> length ?body"
    by (rule length_str_join) (use length_json_quote in \<open>simp add: order.trans [OF _ length_json_quote]\<close>)
  then have n: "length xs \<le> 2 * length (marshal_strings xs)" by (simp add: marshal_strings_def)
  have "json_elems (Suc (2 * length (marshal_strings xs))) (?body @ '']'') = Some (map JStr xs, [])"
    using json_elems_strings [OF False n, of "[]"] by simp
  then show ?thesis using q
    by (auto simp: json_parse_def marshal_strings_def has_prefix_Cons simp del: json_elems.simps)
qed

lemma unmarshal_marshal_strings [simp]: "unmarshal_strings (marshal_strings xs) = xs"
  by (simp add: unmarshal_strings_def json_parse_strings json_string_or_zero_def comp_def)

abbreviation json_pair :: "string \<times> string \<Rightarrow> string" where
  "json_pair \<equiv> (\<lambda>(k, v). json_quote k @ '':'' @ json_quote v)"

lemma json_members_strings:
  "kvs \<noteq> [] \<Longrightarrow> length kvs \<le> n \<Longrightarrow>
   json_members (Suc n) (str_join '','' (map json_pair kvs) @ CHR ''}'' # r)
     = Some (map (\<lambda>(k, v). (k, JStr v)) kvs, r)"
proof (induction kvs arbitrary: n)
  case (Cons kv kvs)
  then obtain m where m: "n = Suc m" by (cases n) auto
  obtain k v where kv: "kv = (k, v)" by (cases kv)
  note step = skip_ws_json_quote has_prefix_json_quote json_str_of_quote json_str_of_quote'
    json_value_quote has_prefix_Cons Let_def
  show ?case
  proof (cases kvs)
    case Nil
    then show ?thesis
      by (simp add: m kv step del: json_value.simps drop_append length_append)
  next
    case (Cons y ys)
    with Cons.prems Cons.IH [of m] m
    have ih: "json_members (Suc m) (str_join '','' (map json_pair kvs) @ CHR ''}'' # r)
        = Some (map (\<lambda>(k, v). (k, JStr v)) kvs, r)"
      by simp
    have j: "str_join '','' (map json_pair (kv # kvs)) @ CHR ''}'' # r
        = json_quote k @ CHR '':'' # json_quote v @ CHR '','' # str_join '','' (map json_pair kvs) @ CHR ''}'' # r"
      by (simp add: kv Cons)
    show ?thesis unfolding j
      using ih by (simp add: m kv step del: json_value.simps json_members.simps(2) drop_append length_append
          add: json_members.simps(2) [of "Suc m"])
  qed
qed simp

lemma json_parse_string_map:
  "json_parse (''{'' @ str_join '','' (map json_pair kvs) @ ''}'') = Some (JObj (map (\<lambda>(k, v). (k, JStr v)) kvs))"
proof (cases "kvs = []")
  case True
  then show ?thesis by (simp add: json_parse_def has_prefix_Cons eval_nat_numeral)
next
  case False
  let ?body = "str_join '','' (map json_pair kvs)"
  have q: "\<exists>t. ?body = CHR 0x22 # t"
    using False by (cases kvs rule: remdups_adj.cases) (auto simp: json_quote_def)
  have "length kvs \<le> length ?body"
    by (rule length_str_join) (auto simp: json_quote_def)
  then have n: "length kvs \<le> 2 * length (''{'' @ ?body @ ''}'')" by simp
  have "json_members (Suc (2 * length (''{'' @ ?body @ ''}''))) (?body @ ''}'')
      = Some (map (\<lambda>(k, v). (k, JStr v)) kvs, [])"
    using json_members_strings [OF False n, of "[]"] by simp
  then show ?thesis using q
    by (auto simp: json_parse_def has_prefix_Cons simp del: json_members.simps)
qed

lemma gm_put_new: "k \<notin> fst ` set m \<Longrightarrow> gm_put k v m = m @ [(k, v)]"
  by (induction m) (auto simp: gm_put_def)

lemma fold_gm_put:
  "distinct (map fst (acc @ kvs)) \<Longrightarrow> fold (\<lambda>(k, v). gm_put k v) kvs acc = acc @ kvs"
  by (induction kvs arbitrary: acc) (auto simp: gm_put_new)

lemma sort_key_map_of:
  assumes "distinct (map fst m)"
  shows "map_of (sort_key fst m) = map_of m"
proof -
  have s: "set (sort_key fst m) = set m" by simp
  have "distinct (map fst (sort_key fst m))"
    using assms by (metis distinct_count_atmost_1 mset_map mset_sort mset_eq_imp_distinct_iff)
  then show ?thesis using assms s by (metis map_of_inject_set)
qed

lemma unmarshal_marshal_string_map:
  assumes "gm_ok m"
  shows "unmarshal_string_map (marshal_string_map m) = sort_key fst m"
    and "gm_get (unmarshal_string_map (marshal_string_map m)) k = gm_get m k"
proof -
  let ?s = "sort_key fst m"
  have "distinct (map fst ?s)"
    using assms by (metis gm_ok_def mset_map mset_sort mset_eq_imp_distinct_iff)
  then have "fold (\<lambda>(k, v). gm_put k v) ?s [] = ?s" using fold_gm_put [of "[]" ?s] by simp
  moreover have "fold (\<lambda>(k, v) m. gm_put k (json_string_or_zero v) m) (map (\<lambda>(k, v). (k, JStr v)) xs) acc
      = fold (\<lambda>(k, v). gm_put k v) xs acc" for xs acc
    by (induction xs arbitrary: acc) (auto simp: json_string_or_zero_def)
  ultimately show eq: "unmarshal_string_map (marshal_string_map m) = ?s"
    using json_parse_string_map [of ?s] by (simp add: unmarshal_string_map_def marshal_string_map_def)
  show "gm_get (unmarshal_string_map (marshal_string_map m)) k = gm_get m k"
    unfolding eq using assms by (simp add: gm_get_def gm_ok_def sort_key_map_of)
qed

end
