(* ===== verification/Db.thy ===== *)
theory Db
  imports Config Json
begin

text \<open>
  The SQLite database of the gateway: one record per table of \<open>usage.Store.Init\<close>
  (internal/usage/store.go), rows as records, the statements that several components share as
  functions on tables, and the schema's invariant (primary keys and the foreign key of
  \<open>model_backends\<close>).  Columns that only hold timestamps of row changes are left out, except that a user
  row records whether \<open>disabled_at\<close> is set.
\<close>

section \<open>Rows and tables\<close>

record user_row =
  ur_id :: string
  ur_key_hash :: string
  ur_rate :: "real option"
  ur_burst :: "int option"
  ur_ttl :: "int option"
  ur_allow :: string
  ur_deny :: string
  ur_aliases :: string
  ur_disabled :: bool

record model_row =
  mr_name :: string
  mr_display :: "string option"
  mr_active :: bool

record ref_row =
  rr_model :: string
  rr_backend :: string
  rr_weight :: int

record pricing_row =
  pr_model :: string
  pr_input :: real
  pr_output :: real

record backend_row =
  br_name :: string
  br_url :: string
  br_weight :: int
  br_timeout_ms :: int
  br_health_path :: string
  br_tag :: "string option"
  br_active :: bool

record usage_record =
  us_id :: int
  us_timestamp :: string
  us_key :: string
  us_model :: string
  us_backend :: string
  us_prompt :: int
  us_completion :: int
  us_duration :: int
  us_cost :: real

record db =
  api_users :: "user_row list"
  models_t :: "model_row list"
  model_backends_t :: "ref_row list"
  model_pricing_t :: "pricing_row list"
  backend_configs_t :: "backend_row list"
  usage_t :: "usage_record list"

section \<open>Tables with a text primary key\<close>

definition tbl_get :: "('r \<Rightarrow> string) \<Rightarrow> 'r list \<Rightarrow> string \<Rightarrow> 'r option" where
  "tbl_get key t k = List.find (\<lambda>r. key r = k) t"

definition tbl_ok :: "('r \<Rightarrow> string) \<Rightarrow> 'r list \<Rightarrow> bool" where
  "tbl_ok key t \<longleftrightarrow> distinct (map key t)"

text \<open>\<open>UPDATE t SET ... WHERE p\<close>, the number of rows it changes, and \<open>DELETE FROM t WHERE p\<close>.\<close>

definition tbl_update :: "('r \<Rightarrow> bool) \<Rightarrow> ('r \<Rightarrow> 'r) \<Rightarrow> 'r list \<Rightarrow> 'r list" where
  "tbl_update p f t = map (\<lambda>r. if p r then f r else r) t"

definition tbl_affected :: "('r \<Rightarrow> bool) \<Rightarrow> 'r list \<Rightarrow> nat" where
  "tbl_affected p t = length (filter p t)"

definition tbl_delete :: "('r \<Rightarrow> bool) \<Rightarrow> 'r list \<Rightarrow> 'r list" where
  "tbl_delete p t = filter (\<lambda>r. \<not> p r) t"

text \<open>\<open>INSERT ... ON CONFLICT(key) DO UPDATE SET\<close> the result of \<open>f\<close> on the row in place.\<close>

definition tbl_upsert :: "('r \<Rightarrow> string) \<Rightarrow> 'r \<Rightarrow> ('r \<Rightarrow> 'r) \<Rightarrow> 'r list \<Rightarrow> 'r list" where
  "tbl_upsert key r f t =
     (if \<exists>x \<in> set t. key x = key r then tbl_update (\<lambda>x. key x = key r) f t else t @ [r])"

lemma tbl_get_Some: "tbl_get key t k = Some r \<Longrightarrow> r \<in> set t \<and> key r = k"
  unfolding tbl_get_def by (rule find_Some_in)

lemma tbl_get_None: "tbl_get key t k = None \<longleftrightarrow> k \<notin> key ` set t"
  by (auto simp: tbl_get_def find_None_all)

lemma tbl_get_iff:
  assumes "tbl_ok key t"
  shows "tbl_get key t k = Some r \<longleftrightarrow> r \<in> set t \<and> key r = k"
proof
  assume r: "r \<in> set t \<and> key r = k"
  show "tbl_get key t k = Some r"
    unfolding tbl_get_def
  proof (rule find_unique)
    fix y assume "y \<in> set t" "key y = k"
    with r assms show "y = r" by (auto simp: tbl_ok_def distinct_map dest: inj_onD)
  qed (use r in auto)
qed (rule tbl_get_Some)

lemma tbl_ok_Nil [simp]: "tbl_ok key []"
  by (simp add: tbl_ok_def)

lemma map_key_update: "(\<And>r. p r \<Longrightarrow> key (f r) = key r) \<Longrightarrow> map key (tbl_update p f t) = map key t"
  by (induction t) (auto simp: tbl_update_def)

lemma keys_update: "(\<And>r. p r \<Longrightarrow> key (f r) = key r) \<Longrightarrow> key ` set (tbl_update p f t) = key ` set t"
  using map_key_update [of p key f t] by (metis list.set_map)

lemma tbl_ok_update [inv_intros]:
  "tbl_ok key t \<Longrightarrow> (\<And>r. p r \<Longrightarrow> key (f r) = key r) \<Longrightarrow> tbl_ok key (tbl_update p f t)"
  by (simp add: tbl_ok_def map_key_update)

lemma tbl_ok_delete [inv_intros]: "tbl_ok key t \<Longrightarrow> tbl_ok key (tbl_delete p t)"
  by (simp add: tbl_ok_def tbl_delete_def distinct_map_filter)

lemma tbl_ok_append [inv_intros]: "tbl_ok key t \<Longrightarrow> key r \<notin> key ` set t \<Longrightarrow> tbl_ok key (t @ [r])"
  by (simp add: tbl_ok_def)

lemma tbl_ok_upsert [inv_intros]:
  "tbl_ok key t \<Longrightarrow> (\<And>x. key (f x) = key x) \<Longrightarrow> tbl_ok key (tbl_upsert key r f t)"
  by (auto simp: tbl_upsert_def image_iff intro!: tbl_ok_update tbl_ok_append dest: sym)

lemma tbl_get_update_key:
  "(\<And>r. p r \<Longrightarrow> key (f r) = key r) \<Longrightarrow>
   tbl_get key (tbl_update p f t) k = map_option (\<lambda>r. if p r then f r else r) (tbl_get key t k)"
  by (induction t) (auto simp: tbl_update_def tbl_get_def)

lemma tbl_get_delete_key:
  "tbl_get key (tbl_delete (\<lambda>r. key r = k) t) k' = (if k' = k then None else tbl_get key t k')"
  by (induction t) (auto simp: tbl_delete_def tbl_get_def)

lemma tbl_get_append: "tbl_get key (t @ u) k = (case tbl_get key t k of Some r \<Rightarrow> Some r | None \<Rightarrow> tbl_get key u k)"
  by (induction t) (auto simp: tbl_get_def)

lemma tbl_get_upsert:
  assumes "\<And>x. key x = key r \<Longrightarrow> key (f x) = key x"
  shows "tbl_get key (tbl_upsert key r f t) k =
    (if k = key r then Some (case tbl_get key t k of None \<Rightarrow> r | Some x \<Rightarrow> f x) else tbl_get key t k)"
proof (cases "\<exists>x \<in> set t. key x = key r")
  case True
  then have "key r \<in> key ` set t" by (metis imageI)
  then have "tbl_get key t (key r) \<noteq> None" by (simp add: tbl_get_None)
  then obtain y where y: "tbl_get key t (key r) = Some y" by blast
  have u: "tbl_get key (tbl_update (\<lambda>x. key x = key r) f t) k
      = map_option (\<lambda>x. if key x = key r then f x else x) (tbl_get key t k)"
    by (rule tbl_get_update_key) (rule assms)
  show ?thesis
  proof (cases "k = key r")
    case True
    then show ?thesis using u y tbl_get_Some [OF y] \<open>\<exists>x \<in> set t. key x = key r\<close>
      by (simp add: tbl_upsert_def)
  next
    case neq: False
    show ?thesis
    proof (cases "tbl_get key t k")
      case None
      then show ?thesis using u neq \<open>\<exists>x \<in> set t. key x = key r\<close> by (simp add: tbl_upsert_def)
    next
      case (Some z)
      then show ?thesis using u neq tbl_get_Some [OF Some] \<open>\<exists>x \<in> set t. key x = key r\<close>
        by (simp add: tbl_upsert_def)
    qed
  qed
next
  case False
  then have "key r \<notin> key ` set t" by (metis imageE)
  then have n: "tbl_get key t (key r) = None" by (simp add: tbl_get_None)
  have s: "tbl_get key [r] k = (if k = key r then Some r else None)" by (simp add: tbl_get_def)
  have e: "tbl_upsert key r f t = t @ [r]" using False by (simp add: tbl_upsert_def)
  show ?thesis unfolding e tbl_get_append s using n by (cases "tbl_get key t k") auto
qed

lemma tbl_affected_0: "tbl_affected p t = 0 \<longleftrightarrow> (\<forall>r \<in> set t. \<not> p r)"
  by (auto simp: tbl_affected_def filter_empty_conv)

lemma tbl_update_none: "tbl_affected p t = 0 \<Longrightarrow> tbl_update p f t = t"
  by (induction t) (auto simp: tbl_affected_def tbl_update_def split: if_splits)

section \<open>Schema invariant\<close>

definition db_ok :: "db \<Rightarrow> bool" where
  "db_ok d \<longleftrightarrow>
     tbl_ok ur_id (api_users d) \<and> tbl_ok mr_name (models_t d) \<and>
     distinct (map (\<lambda>r. (rr_model r, rr_backend r)) (model_backends_t d)) \<and>
     rr_model ` set (model_backends_t d) \<subseteq> mr_name ` set (models_t d) \<and>
     tbl_ok pr_model (model_pricing_t d) \<and> pr_model ` set (model_pricing_t d) \<subseteq> mr_name ` set (models_t d) \<and>
     tbl_ok br_name (backend_configs_t d)"

definition empty_db :: db where
  "empty_db = \<lparr>api_users = [], models_t = [], model_backends_t = [], model_pricing_t = [],
     backend_configs_t = [], usage_t = []\<rparr>"

lemma db_ok_empty [simp]: "db_ok empty_db"
  by (simp add: db_ok_def empty_db_def)

end
