(* ===== verification/ApiKey.thy ===== *)
theory ApiKey
  imports GoUrl
begin

text \<open>
  internal/auth/apikey.go: hashing of raw secrets and their verification against a configured
  hex digest.  \<open>sha256\<close> is SHA-256 (FIPS 180-4, Go's \<open>crypto/sha256\<close>) on bytes, and
  \<open>hex_encode\<close>, \<open>hex_decode\<close> are Go's \<open>encoding/hex\<close>.
\<close>

unbundle bit_operations_syntax

section \<open>SHA-256\<close>

type_synonym w32 = "32 word"

text \<open>The round constants, in decimal: the first 32 fractional bits of the cube roots of the first
  64 primes.\<close>

definition sha_k :: "w32 list" where
  "sha_k = [
     1116352408, 1899447441, 3049323471, 3921009573, 961987163, 1508970993,
     2453635748, 2870763221, 3624381080, 310598401, 607225278, 1426881987,
     1925078388, 2162078206, 2614888103, 3248222580, 3835390401, 4022224774,
     264347078, 604807628, 770255983, 1249150122, 1555081692, 1996064986,
     2554220882, 2821834349, 2952996808, 3210313671, 3336571891, 3584528711,
     113926993, 338241895, 666307205, 773529912, 1294757372, 1396182291,
     1695183700, 1986661051, 2177026350, 2456956037, 2730485921, 2820302411,
     3259730800, 3345764771, 3516065817, 3600352804, 4094571909, 275423344,
     430227734, 506948616, 659060556, 883997877, 958139571, 1322822218,
     1537002063, 1747873779, 1955562222, 2024104815, 2227730452, 2361852424,
     2428436474, 2756734187, 3204031479, 3329325298]"

definition rotr :: "nat \<Rightarrow> w32 \<Rightarrow> w32" where
  "rotr n w = drop_bit n w OR push_bit (32 - n) w"

definition sha_pad :: "string \<Rightarrow> string" where
  "sha_pad m =
     (let n = length m; z = (119 - n mod 64) mod 64; bits = 8 * n in
      m @ [char_of (128 :: nat)] @ replicate z (char_of (0 :: nat)) @
      map (\<lambda>i. char_of (bits div 256 ^ i mod 256)) (rev [0..<8]))"

fun sha_words :: "string \<Rightarrow> w32 list" where
  "sha_words (a # b # c # d # s) =
     of_nat (((of_char a * 256 + of_char b) * 256 + of_char c) * 256 + of_char d) # sha_words s"
| "sha_words _ = []"

fun sha_extend :: "nat \<Rightarrow> w32 list \<Rightarrow> w32 list" where
  "sha_extend 0 ws = ws"
| "sha_extend (Suc n) ws =
     (let t = length ws; w15 = ws ! (t - 15); w2 = ws ! (t - 2);
          s0 = rotr 7 w15 XOR rotr 18 w15 XOR drop_bit 3 w15;
          s1 = rotr 17 w2 XOR rotr 19 w2 XOR drop_bit 10 w2
      in sha_extend n (ws @ [ws ! (t - 16) + s0 + ws ! (t - 7) + s1]))"

type_synonym sha_state = "w32 \<times> w32 \<times> w32 \<times> w32 \<times> w32 \<times> w32 \<times> w32 \<times> w32"

fun sha_round :: "w32 \<times> w32 \<Rightarrow> sha_state \<Rightarrow> sha_state" where
  "sha_round (k, w) (a, b, c, d, e, f, g, h) =
     (let t1 = h + (rotr 6 e XOR rotr 11 e XOR rotr 25 e) + ((e AND f) XOR (NOT e AND g)) + k + w;
          t2 = (rotr 2 a XOR rotr 13 a XOR rotr 22 a) + ((a AND b) XOR (a AND c) XOR (b AND c))
      in (t1 + t2, a, b, c, d + t1, e, f, g))"

fun sha_add :: "sha_state \<Rightarrow> sha_state \<Rightarrow> sha_state" where
  "sha_add (a, b, c, d, e, f, g, h) (a', b', c', d', e', f', g', h') =
     (a + a', b + b', c + c', d + d', e + e', f + f', g + g', h + h')"

definition sha_block :: "w32 list \<Rightarrow> sha_state \<Rightarrow> sha_state" where
  "sha_block ws st = sha_add st (fold sha_round (zip sha_k (sha_extend 48 ws)) st)"

fun sha_blocks :: "nat \<Rightarrow> w32 list \<Rightarrow> sha_state \<Rightarrow> sha_state" where
  "sha_blocks 0 ws st = st"
| "sha_blocks (Suc n) ws st = sha_blocks n (drop 16 ws) (sha_block (take 16 ws) st)"

definition sha_init :: sha_state where
  "sha_init = (0x6a09e667, 0xbb67ae85, 0x3c6ef372, 0xa54ff53a, 0x510e527f, 0x9b05688c, 0x1f83d9ab, 0x5be0cd19)"

definition w32_bytes :: "w32 \<Rightarrow> string" where
  "w32_bytes w = (let n = unat w in
     [char_of (n div 256 ^ 3 mod 256), char_of (n div 256 ^ 2 mod 256),
      char_of (n div 256 mod 256), char_of (n mod 256)])"

fun sha_digest :: "sha_state \<Rightarrow> string" where
  "sha_digest (a, b, c, d, e, f, g, h) =
     w32_bytes a @ w32_bytes b @ w32_bytes c @ w32_bytes d @
     w32_bytes e @ w32_bytes f @ w32_bytes g @ w32_bytes h"

definition sha256 :: "string \<Rightarrow> string" where
  "sha256 m = (let ws = sha_words (sha_pad m) in sha_digest (sha_blocks (length ws div 16) ws sha_init))"

lemma length_w32_bytes [simp]: "length (w32_bytes w) = 4"
  by (simp add: w32_bytes_def Let_def)

lemma length_sha256 [simp]: "length (sha256 m) = 32"
proof -
  have "length (sha_digest st) = 32" for st
    by (cases st rule: sha_digest.cases) simp
  then show ?thesis by (simp add: sha256_def Let_def)
qed

section \<open>Hexadecimal\<close>

definition hex_digit :: "nat \<Rightarrow> char" where
  "hex_digit n = (if n < 10 then char_of (48 + n) else char_of (87 + n))"

definition hex_byte :: "char \<Rightarrow> string" where
  "hex_byte c = (let n = of_char c :: nat in [hex_digit (n div 16), hex_digit (n mod 16)])"

definition hex_encode :: "string \<Rightarrow> string" where
  "hex_encode s = concat (map hex_byte s)"

fun hex_decode :: "string \<Rightarrow> string option" where
  "hex_decode [] = Some []"
| "hex_decode [c] = None"
| "hex_decode (h # l # s) =
     (case (unhex h, unhex l) of
        (Some a, Some b) \<Rightarrow> map_option (\<lambda>r. char_of (16 * a + b) # r) (hex_decode s)
      | _ \<Rightarrow> None)"

lemma unhex_hex_digit: "n < 16 \<Longrightarrow> unhex (hex_digit n) = Some n"
  by (simp add: unhex_def hex_digit_def Let_def of_char_char_of_small)

lemma hex_decode_encode [simp]: "hex_decode (hex_encode s) = Some s"
proof (induction s)
  case (Cons c s)
  have b: "(of_char c :: nat) div 16 < 16" "(of_char c :: nat) mod 16 < 16"
    using nat_of_char_less_256 [of c] by (auto simp: less_mult_imp_div_less)
  have "16 * ((of_char c :: nat) div 16) + (of_char c :: nat) mod 16 = of_char c" by simp
  with Cons b show ?case by (simp add: hex_encode_def hex_byte_def Let_def unhex_hex_digit)
qed (simp add: hex_encode_def)

lemma hex_decode_shape:
  "hex_decode e = Some b \<Longrightarrow> length e = 2 * length b \<and> list_all (\<lambda>c. unhex c \<noteq> None) e"
  by (induction e arbitrary: b rule: hex_decode.induct) (auto split: option.splits)

lemma length_hex_encode: "length (hex_encode s) = 2 * length s"
  by (induction s) (auto simp: hex_encode_def hex_byte_def Let_def)

lemma hex_encode_inj: "hex_encode a = hex_encode b \<Longrightarrow> a = b"
  by (metis hex_decode_encode option.inject)

section \<open>API keys\<close>

record api_key =
  ak_id :: string
  ak_name :: string
  ak_is_admin :: bool

definition hash_api_key :: "string \<Rightarrow> string" where
  "hash_api_key raw = hex_encode (sha256 raw)"

definition constant_time_compare :: "string \<Rightarrow> string \<Rightarrow> bool" where
  "constant_time_compare a b = (length a = length b \<and> list_all2 (=) a b)"

definition verify_hash :: "string \<Rightarrow> string \<Rightarrow> bool" where
  "verify_hash expected raw =
     (if expected = [] then False
      else (case (hex_decode expected, hex_decode (hex_encode (sha256 raw))) of
          (Some e, Some a) \<Rightarrow> if length e \<noteq> length a then False else constant_time_compare e a
        | _ \<Rightarrow> False))"

definition verify_api_key_hash :: "string \<Rightarrow> string \<Rightarrow> bool" where
  "verify_api_key_hash expected raw = verify_hash expected raw"

definition verify_admin_token :: "string \<Rightarrow> string \<Rightarrow> bool" where
  "verify_admin_token expected raw = verify_hash expected raw"

lemma constant_time_compare_eq: "constant_time_compare a b \<longleftrightarrow> a = b"
  by (auto simp: constant_time_compare_def list_all2_eq [symmetric])

lemma verify_hash_iff: "verify_hash expected raw \<longleftrightarrow> hex_decode expected = Some (sha256 raw)"
proof -
  have "hex_decode [] \<noteq> Some (sha256 raw)"
    by (metis hex_decode.simps(1) length_sha256 list.size(3) option.inject zero_neq_numeral)
  then show ?thesis
    by (auto simp: verify_hash_def constant_time_compare_eq split: option.splits)
qed

lemma hash_api_key_inj: "hash_api_key a = hash_api_key b \<longleftrightarrow> sha256 a = sha256 b"
  by (auto simp: hash_api_key_def dest: hex_encode_inj)

lemma length_hash_api_key [simp]: "length (hash_api_key raw) = 64"
  by (simp add: hash_api_key_def length_hex_encode)

lemma hash_api_key_not_Nil [simp]: "hash_api_key raw \<noteq> []"
  using length_hash_api_key [of raw] by fastforce

lemma verify_api_key_hash_iff [simp]:
  "verify_api_key_hash expected raw \<longleftrightarrow> hex_decode expected = Some (sha256 raw)"
  by (simp add: verify_api_key_hash_def verify_hash_iff)

lemma verify_admin_token_iff [simp]:
  "verify_admin_token expected raw \<longleftrightarrow> hex_decode expected = Some (sha256 raw)"
  by (simp add: verify_admin_token_def verify_hash_iff)

section \<open>Properties\<close>

text \<open>Verification accepts a raw secret exactly when the configured digest, read as
  hexadecimal of either case, is the SHA-256 of the secret; a key always verifies against its own
  hash; and an accepted digest is a string of 64 hexadecimal digits.\<close>

theorem verify_hash_correct:
  "(verify_hash expected raw \<longleftrightarrow> hex_decode expected = Some (sha256 raw)) \<and>
   verify_hash (hash_api_key raw) raw \<and>
   (verify_hash expected raw \<longrightarrow>
      length expected = 64 \<and> list_all (\<lambda>c. unhex c \<noteq> None) expected)"
  by (auto simp: verify_hash_iff hash_api_key_def dest: hex_decode_shape)

theorem verify_hash_correct_witness:
  "verify_hash (hash_api_key ''k'') ''k'' \<and> length (hash_api_key ''k'') = 64"
  using verify_hash_correct [of "hash_api_key ''k''" "''k''"] by (blast intro: length_hash_api_key)

end
