(* ===== verification/AuthStore.thy ===== *)
theory AuthStore
  imports Db ApiKey
begin

text \<open>
  internal/auth/store.go: users and the admin token, kept in the configuration and, when a
  database is attached, in its table \<open>api_users\<close>.  Every operation takes a schedule of statement
  faults and the store, and returns Go's results with the store it leaves.  Statements of an
  operation are numbered in the order the code issues them (a \<open>RowsAffected\<close> call counts as one).
\<close>

section \<open>State and errors\<close>

record auth_store =
  as_cfg :: config
  as_db :: "db option"

datatype auth_err =
    UserNameRequired | KeyHashRequired | RawKeyRequired
  | ErrUserExists | ErrUserNotFound | ErrUserDeactivated
  | NoUsersConfigured | UserKeyHashMissing string | AuthDbError

definition as_users :: "auth_store \<Rightarrow> user_config gomap" where
  "as_users st = cfg_users (as_cfg st)"

definition set_yaml_users :: "auth_store \<Rightarrow> user_config gomap \<Rightarrow> auth_store" where
  "set_yaml_users st us = st\<lparr>as_cfg := (as_cfg st)\<lparr>cfg_users := us\<rparr>\<rparr>"

definition set_rows :: "auth_store \<Rightarrow> db \<Rightarrow> user_row list \<Rightarrow> auth_store" where
  "set_rows st d rows = st\<lparr>as_db := Some (d\<lparr>api_users := rows\<rparr>)\<rparr>"

section \<open>Lookups\<close>

text \<open>The scan of the YAML users, in the order the map is visited.\<close>

fun yaml_lookup :: "user_config gomap \<Rightarrow> string \<Rightarrow> api_key option" where
  "yaml_lookup [] raw = None"
| "yaml_lookup ((uid, uc) # us) raw =
     (if api_key_hash uc = [] then yaml_lookup us raw
      else if verify_api_key_hash (api_key_hash uc) raw
        then Some \<lparr>ak_id = uid, ak_name = uid, ak_is_admin = False\<rparr>
      else yaml_lookup us raw)"

definition lookup_api_key :: "faults \<Rightarrow> auth_store \<Rightarrow> string \<Rightarrow> api_key option" where
  "lookup_api_key flt st raw =
     (case as_db st of
        Some d \<Rightarrow>
          if flt 0 then None
          else (case List.find (\<lambda>r. ur_key_hash r = hash_api_key raw \<and> \<not> ur_disabled r) (api_users d) of
              Some r \<Rightarrow> Some \<lparr>ak_id = ur_id r, ak_name = ur_id r, ak_is_admin = False\<rparr>
            | None \<Rightarrow> yaml_lookup (as_users st) raw)
      | None \<Rightarrow> yaml_lookup (as_users st) raw)"

definition check_admin_token :: "auth_store \<Rightarrow> string \<Rightarrow> bool" where
  "check_admin_token st raw =
     (if cfg_admin_token_hash (as_cfg st) = [] then False
      else verify_admin_token (cfg_admin_token_hash (as_cfg st)) raw)"

definition get_admin_token_hash :: "auth_store \<Rightarrow> string" where
  "get_admin_token_hash st = cfg_admin_token_hash (as_cfg st)"

definition time_from_seconds :: "int \<Rightarrow> int" where
  "time_from_seconds s = (if s \<le> 0 then 0 else i64 (s * second))"

definition row_rate_limit :: "user_row \<Rightarrow> rate_limit_cfg option" where
  "row_rate_limit r =
     (if ur_rate r \<noteq> None \<or> ur_burst r \<noteq> None \<or> ur_ttl r \<noteq> None then
        Some \<lparr>rlc_rate = (case ur_rate r of Some x \<Rightarrow> x | None \<Rightarrow> 0),
              rlc_burst = (case ur_burst r of Some b \<Rightarrow> b | None \<Rightarrow> 0),
              rlc_ttl = (case ur_ttl r of Some t \<Rightarrow> time_from_seconds t | None \<Rightarrow> 0)\<rparr>
      else None)"

definition row_user_config :: "user_row \<Rightarrow> user_config" where
  "row_user_config r = \<lparr>
     api_key_hash = ur_key_hash r,
     rate_limit = row_rate_limit r,
     model_allow = (if ur_allow r \<noteq> [] then unmarshal_strings (ur_allow r) else []),
     model_deny = (if ur_deny r \<noteq> [] then unmarshal_strings (ur_deny r) else []),
     aliases = (if ur_aliases r \<noteq> [] then unmarshal_string_map (ur_aliases r) else [])\<rparr>"

definition get_user_config :: "faults \<Rightarrow> auth_store \<Rightarrow> string \<Rightarrow> user_config option" where
  "get_user_config flt st uid =
     (case as_db st of
        Some d \<Rightarrow>
          if flt 0 then None
          else (case List.find (\<lambda>r. ur_id r = uid \<and> \<not> ur_disabled r) (api_users d) of
              Some r \<Rightarrow> Some (row_user_config r)
            | None \<Rightarrow> gm_get (as_users st) uid)
      | None \<Rightarrow> gm_get (as_users st) uid)"

definition list_users :: "faults \<Rightarrow> auth_store \<Rightarrow> (auth_err, user_config gomap) result" where
  "list_users flt st =
     (case as_db st of
        None \<Rightarrow> Inr (fold (\<lambda>(k, v). gm_put k v) (as_users st) [])
      | Some d \<Rightarrow>
          if flt 0 then Inl AuthDbError
          else Inr (fold (\<lambda>r. gm_put (ur_id r) (row_user_config r))
                 (sort_key ur_id (filter (\<lambda>r. \<not> ur_disabled r) (api_users d))) []))"

section \<open>Mutations\<close>

definition marshal_user_fields :: "user_config \<Rightarrow> string \<times> string \<times> string" where
  "marshal_user_fields uc =
     (marshal_strings (model_allow uc), marshal_strings (model_deny uc), marshal_string_map (aliases uc))"

definition burst_arg :: "rate_limit_cfg \<Rightarrow> int option" where
  "burst_arg rl = (if 0 < rlc_burst rl then Some (rlc_burst rl) else None)"

definition ttl_arg :: "rate_limit_cfg \<Rightarrow> int option" where
  "ttl_arg rl = (if 0 < rlc_ttl rl then Some \<lfloor>duration_seconds (rlc_ttl rl)\<rfloor> else None)"

definition create_row :: "string \<Rightarrow> user_config \<Rightarrow> user_row" where
  "create_row uid uc =
     (let (allow, deny, als) = marshal_user_fields uc in
      \<lparr>ur_id = uid, ur_key_hash = api_key_hash uc,
       ur_rate = map_option rlc_rate (rate_limit uc),
       ur_burst = Option.bind (rate_limit uc) burst_arg,
       ur_ttl = Option.bind (rate_limit uc) ttl_arg,
       ur_allow = allow, ur_deny = deny, ur_aliases = als, ur_disabled = False\<rparr>)"

definition create_user ::
  "faults \<Rightarrow> auth_store \<Rightarrow> string \<Rightarrow> user_config \<Rightarrow> auth_err option \<times> auth_store" where
  "create_user flt st uid0 uc =
     (let uid = trim_space uid0 in
      if uid = [] then (Some UserNameRequired, st)
      else if api_key_hash uc = [] then (Some KeyHashRequired, st)
      else (case as_db st of
          None \<Rightarrow>
            if gm_get (as_users st) uid \<noteq> None then (Some ErrUserExists, st)
            else (None, set_yaml_users st (gm_put uid uc (as_users st)))
        | Some d \<Rightarrow>
            if flt 0 then (Some AuthDbError, st)
            else if tbl_get ur_id (api_users d) uid \<noteq> None then (Some ErrUserExists, st)
            else (None, set_rows st d (api_users d @ [create_row uid uc]))))"

definition update_row :: "user_config \<Rightarrow> user_row \<Rightarrow> user_row" where
  "update_row uc r =
     (let (allow, deny, als) = marshal_user_fields uc in
      r\<lparr>ur_key_hash := api_key_hash uc,
        ur_rate := Option.bind (rate_limit uc) (\<lambda>rl. if 0 < rlc_rate rl then Some (rlc_rate rl) else None),
        ur_burst := Option.bind (rate_limit uc) burst_arg,
        ur_ttl := Option.bind (rate_limit uc) ttl_arg,
        ur_allow := allow, ur_deny := deny, ur_aliases := als\<rparr>)"

definition keep_hash :: "user_config \<Rightarrow> user_config \<Rightarrow> user_config" where
  "keep_hash existing uc =
     (if api_key_hash uc = [] then uc\<lparr>api_key_hash := api_key_hash existing\<rparr> else uc)"

definition update_user ::
  "faults \<Rightarrow> auth_store \<Rightarrow> string \<Rightarrow> user_config \<Rightarrow> auth_err option \<times> auth_store" where
  "update_user flt st uid0 uc =
     (let uid = trim_space uid0 in
      if uid = [] then (Some UserNameRequired, st)
      else (case as_db st of
          None \<Rightarrow>
            (case gm_get (as_users st) uid of
               None \<Rightarrow> (Some ErrUserNotFound, st)
             | Some existing \<Rightarrow> (None, set_yaml_users st (gm_put uid (keep_hash existing uc) (as_users st))))
        | Some d \<Rightarrow>
            (case get_user_config flt st uid of
               None \<Rightarrow> (Some ErrUserNotFound, st)
             | Some existing \<Rightarrow>
                 if flt 1 then (Some AuthDbError, st)
                 else (let hit = (\<lambda>r. ur_id r = uid);
                           st' = set_rows st d (tbl_update hit (update_row (keep_hash existing uc)) (api_users d))
                       in if flt 2 then (Some AuthDbError, st')
                          else if tbl_affected hit (api_users d) = 0 then (Some ErrUserNotFound, st')
                          else (None, st')))))"

definition rotate_user_key ::
  "faults \<Rightarrow> auth_store \<Rightarrow> string \<Rightarrow> string \<Rightarrow> (auth_err, string \<times> string) result \<times> auth_store" where
  "rotate_user_key flt st uid0 raw =
     (let uid = trim_space uid0; h = hash_api_key raw in
      if uid = [] then (Inl UserNameRequired, st)
      else if raw = [] then (Inl RawKeyRequired, st)
      else (case as_db st of
          None \<Rightarrow>
            (case gm_get (as_users st) uid of
               None \<Rightarrow> (Inl ErrUserNotFound, st)
             | Some uc \<Rightarrow> (Inr (raw, h), set_yaml_users st (gm_put uid (uc\<lparr>api_key_hash := h\<rparr>) (as_users st))))
        | Some d \<Rightarrow>
            if flt 0 then (Inl AuthDbError, st)
            else (let hit = (\<lambda>r. ur_id r = uid \<and> \<not> ur_disabled r);
                      st' = set_rows st d (tbl_update hit (\<lambda>r. r\<lparr>ur_key_hash := h\<rparr>) (api_users d))
                  in if flt 1 then (Inl AuthDbError, st')
                     else if tbl_affected hit (api_users d) = 0 then (Inl ErrUserNotFound, st')
                     else (Inr (raw, h), st'))))"

definition deactivate_user :: "faults \<Rightarrow> auth_store \<Rightarrow> string \<Rightarrow> auth_err option \<times> auth_store" where
  "deactivate_user flt st uid0 =
     (let uid = trim_space uid0 in
      if uid = [] then (Some UserNameRequired, st)
      else (case as_db st of
          None \<Rightarrow>
            if gm_get (as_users st) uid = None then (Some ErrUserNotFound, st)
            else (None, set_yaml_users st (gm_del uid (as_users st)))
        | Some d \<Rightarrow>
            if flt 0 then (Some AuthDbError, st)
            else (let hit = (\<lambda>r. ur_id r = uid \<and> \<not> ur_disabled r);
                      st' = set_rows st d (tbl_update hit (\<lambda>r. r\<lparr>ur_disabled := True\<rparr>) (api_users d))
                  in if flt 1 then (Some AuthDbError, st')
                     else if tbl_affected hit (api_users d) = 0 then
                       (if flt 2 then (Some AuthDbError, st')
                        else if 0 < tbl_affected (\<lambda>r. ur_id r = uid) (api_users d)
                          then (Some ErrUserDeactivated, st')
                        else (Some ErrUserNotFound, st'))
                     else (None, st'))))"

definition apply_runtime_config :: "auth_store \<Rightarrow> config option \<Rightarrow> auth_store" where
  "apply_runtime_config st c = (case c of None \<Rightarrow> st | Some cfg \<Rightarrow> st\<lparr>as_cfg := cfg\<rparr>)"

definition apply_admin_token_hash :: "auth_store \<Rightarrow> string \<Rightarrow> auth_store" where
  "apply_admin_token_hash st h = st\<lparr>as_cfg := (as_cfg st)\<lparr>cfg_admin_token_hash := h\<rparr>\<rparr>"

section \<open>Start-up validation\<close>

text \<open>The loop of \<open>bootstrapUsersFromConfig\<close>; the \<open>k\<close>-th insertion is statement \<open>k\<close>.\<close>

fun bootstrap_loop ::
  "faults \<Rightarrow> auth_store \<Rightarrow> user_config gomap \<Rightarrow> auth_err option \<times> auth_store" where
  "bootstrap_loop flt st [] = (None, st)"
| "bootstrap_loop flt st ((uid, uc) # us) =
     (if api_key_hash uc = [] then (Some (UserKeyHashMissing uid), st)
      else (case create_user flt st uid uc of
          (None, st') \<Rightarrow> bootstrap_loop (later 1 flt) st' us
        | (Some ErrUserExists, st') \<Rightarrow> bootstrap_loop (later 1 flt) st' us
        | (Some e, st') \<Rightarrow> (Some e, st')))"

definition bootstrap_users :: "faults \<Rightarrow> auth_store \<Rightarrow> auth_err option \<times> auth_store" where
  "bootstrap_users flt st =
     (case as_db st of None \<Rightarrow> (None, st)
      | Some d \<Rightarrow>
          if flt 0 then (Some AuthDbError, st)
          else if api_users d \<noteq> [] then (None, st)
          else bootstrap_loop (later 1 flt) st (as_users st))"

fun validate_yaml_users :: "user_config gomap \<Rightarrow> auth_err option" where
  "validate_yaml_users [] = None"
| "validate_yaml_users ((uid, uc) # us) =
     (if api_key_hash uc = [] then Some (UserKeyHashMissing uid) else validate_yaml_users us)"

text \<open>Statements 0 and 1 create and alter the table, 2 is the final count, the rest are the
  bootstrap's.\<close>

definition validate_store :: "faults \<Rightarrow> auth_store \<Rightarrow> auth_err option \<times> auth_store" where
  "validate_store flt st =
     (case as_db st of
        Some d \<Rightarrow>
          if flt 0 \<or> flt 1 then (Some AuthDbError, st)
          else (case bootstrap_users (later 3 flt) st of
              (Some e, st') \<Rightarrow> (Some e, st')
            | (None, st') \<Rightarrow>
                if flt 2 then (Some AuthDbError, st')
                else (case as_db st' of
                    Some d' \<Rightarrow> if api_users d' = [] then (Some NoUsersConfigured, st') else (None, st')
                  | None \<Rightarrow> (None, st')))
      | None \<Rightarrow>
          if as_users st = [] then (Some NoUsersConfigured, st)
          else (validate_yaml_users (as_users st), st))"

end
