(* ===== verification/AuthStoreProps.thy ===== *)
theory AuthStoreProps
  imports AuthStore
begin

text \<open>
  Correctness of the user store: its invariant, what a lookup returns, the round trip of a user
  through the table, and what rotation and deactivation do to authentication.
\<close>

named_theorems auth_defs "definitions of the user store's operations"

lemmas [auth_defs] = as_users_def set_yaml_users_def set_rows_def Let_def

section \<open>Invariant\<close>

definition auth_ok :: "auth_store \<Rightarrow> bool" where
  "auth_ok st \<longleftrightarrow> gm_ok (as_users st) \<and> (case as_db st of None \<Rightarrow> True | Some d \<Rightarrow> db_ok d)"

lemma auth_ok_rows:
  "auth_ok st \<Longrightarrow> as_db st = Some d \<Longrightarrow> tbl_ok ur_id (api_users d)"
  by (simp add: auth_ok_def db_ok_def)

lemma auth_ok_set_yaml [inv_intros]: "auth_ok st \<Longrightarrow> gm_ok us \<Longrightarrow> auth_ok (set_yaml_users st us)"
  by (simp add: auth_ok_def auth_defs)

lemma auth_ok_set_rows [inv_intros]:
  "auth_ok st \<Longrightarrow> as_db st = Some d \<Longrightarrow> tbl_ok ur_id rows \<Longrightarrow> auth_ok (set_rows st d rows)"
  by (simp add: auth_ok_def auth_defs db_ok_def)

lemma update_row_id [simp]: "ur_id (update_row uc r) = ur_id r"
  by (simp add: update_row_def marshal_user_fields_def)

lemma create_row_id [simp]: "ur_id (create_row uid uc) = uid"
  by (simp add: create_row_def marshal_user_fields_def)

lemma gm_ok_as_users: "auth_ok st \<Longrightarrow> gm_ok (as_users st)"
  by (simp add: auth_ok_def)

lemma auth_ok_create: "auth_ok st \<Longrightarrow> auth_ok (snd (create_user flt st uid uc))"
  by (auto simp: create_user_def Let_def tbl_get_None gm_ok_as_users
      intro!: auth_ok_set_yaml auth_ok_set_rows tbl_ok_append auth_ok_rows split: option.split)

lemma auth_ok_update: "auth_ok st \<Longrightarrow> auth_ok (snd (update_user flt st uid uc))"
  by (auto simp: update_user_def Let_def gm_ok_as_users
      intro!: auth_ok_set_yaml auth_ok_set_rows tbl_ok_update auth_ok_rows split: option.split)

lemma auth_ok_rotate: "auth_ok st \<Longrightarrow> auth_ok (snd (rotate_user_key flt st uid raw))"
  by (auto simp: rotate_user_key_def Let_def gm_ok_as_users
      intro!: auth_ok_set_yaml auth_ok_set_rows tbl_ok_update auth_ok_rows split: option.split)

lemma auth_ok_deactivate: "auth_ok st \<Longrightarrow> auth_ok (snd (deactivate_user flt st uid))"
  by (auto simp: deactivate_user_def Let_def gm_ok_as_users
      intro!: auth_ok_set_yaml auth_ok_set_rows tbl_ok_update auth_ok_rows split: option.split)

lemma auth_ok_bootstrap_loop: "auth_ok st \<Longrightarrow> auth_ok (snd (bootstrap_loop flt st us))"
proof (induction flt st us rule: bootstrap_loop.induct)
  case (2 flt st uid uc us)
  show ?case
  proof (cases "create_user flt st uid uc")
    case (Pair r st')
    then have "auth_ok st'" using auth_ok_create [OF "2.prems", of flt uid uc] by simp
    then show ?thesis using Pair "2.IH" "2.prems" by (auto split: option.split auth_err.split)
  qed
qed simp

lemma auth_ok_validate: "auth_ok st \<Longrightarrow> auth_ok (snd (validate_store flt st))"
proof -
  assume ok: "auth_ok st"
  have "auth_ok (snd (bootstrap_users f st))" for f
    using ok auth_ok_bootstrap_loop [OF ok] by (auto simp: bootstrap_users_def split: option.split)
  then have "\<And>r st' f. bootstrap_users f st = (r, st') \<Longrightarrow> auth_ok st'" by (metis snd_conv)
  then show ?thesis using ok
    by (auto simp: validate_store_def split: option.split prod.split)
qed

section \<open>Lookup\<close>

lemma yaml_lookup_Some:
  "yaml_lookup us raw = Some k \<Longrightarrow>
     \<exists>uc. (ak_id k, uc) \<in> set us \<and> hex_decode (api_key_hash uc) = Some (sha256 raw) \<and>
       ak_name k = ak_id k \<and> \<not> ak_is_admin k"
  by (induction us raw rule: yaml_lookup.induct) (auto split: if_splits)

lemma yaml_lookup_None:
  "yaml_lookup us raw = None \<longleftrightarrow> (\<forall>(uid, uc) \<in> set us. hex_decode (api_key_hash uc) \<noteq> Some (sha256 raw))"
proof (induction us raw rule: yaml_lookup.induct)
  case (2 uid uc us raw)
  have "hex_decode [] \<noteq> Some (sha256 raw)"
    using length_sha256 [of raw] by (auto simp del: length_sha256)
  with 2 show ?case by auto
qed simp

text \<open>A user whose configured digest verifies a raw key, and a row of the table that accepts it.\<close>

definition yaml_accepts :: "auth_store \<Rightarrow> string \<Rightarrow> string \<Rightarrow> bool" where
  "yaml_accepts st raw uid \<longleftrightarrow>
     (\<exists>uc. (uid, uc) \<in> set (as_users st) \<and> hex_decode (api_key_hash uc) = Some (sha256 raw))"

definition row_accepts :: "auth_store \<Rightarrow> string \<Rightarrow> string \<Rightarrow> bool" where
  "row_accepts st raw uid \<longleftrightarrow>
     (\<exists>d r. as_db st = Some d \<and> r \<in> set (api_users d) \<and> ur_id r = uid \<and> \<not> ur_disabled r \<and>
        ur_key_hash r = hash_api_key raw)"

lemma yaml_lookup_accepts:
  "yaml_lookup (as_users st) raw = Some k \<Longrightarrow> yaml_accepts st raw (ak_id k) \<and> ak_name k = ak_id k \<and> \<not> ak_is_admin k"
  using yaml_lookup_Some [of "as_users st" raw k] by (auto simp: yaml_accepts_def)

lemma lookup_sound:
  "lookup_api_key flt st raw = Some k \<Longrightarrow>
     (row_accepts st raw (ak_id k) \<or> yaml_accepts st raw (ak_id k)) \<and>
     ak_name k = ak_id k \<and> \<not> ak_is_admin k"
  by (auto simp: lookup_api_key_def row_accepts_def dest!: find_Some_in dest: yaml_lookup_accepts
      split: option.splits if_splits)

lemma yaml_accepts_lookup: "yaml_lookup (as_users st) raw = None \<longleftrightarrow> (\<forall>uid. \<not> yaml_accepts st raw uid)"
  by (auto simp: yaml_accepts_def yaml_lookup_None)

lemma lookup_complete:
  assumes "row_accepts st raw uid \<or> yaml_accepts st raw uid"
  shows "lookup_api_key no_faults st raw \<noteq> None"
proof -
  have "\<not> row_accepts st raw uid" if "lookup_api_key no_faults st raw = None"
    using that by (auto simp: lookup_api_key_def row_accepts_def find_None_all split: option.splits)
  moreover have "yaml_lookup (as_users st) raw = None" if "lookup_api_key no_faults st raw = None"
    using that by (auto simp: lookup_api_key_def split: option.splits)
  ultimately show ?thesis using assms by (auto simp: yaml_accepts_lookup)
qed

lemma yaml_accepts_set_rows [simp]: "yaml_accepts (set_rows st d rows) raw uid = yaml_accepts st raw uid"
  by (simp add: yaml_accepts_def auth_defs)

text \<open>C30: an API key authenticates exactly when an enabled row of the table stores its hash or a
  user of the YAML configuration has a digest that verifies it; the identity returned belongs to
  such a row or user and is never an administrator; a failing query rejects every key.\<close>

theorem lookup_api_key_exact:
  "(lookup_api_key no_faults st raw = None \<longleftrightarrow> (\<forall>uid. \<not> row_accepts st raw uid \<and> \<not> yaml_accepts st raw uid)) \<and>
   (\<forall>flt k. lookup_api_key flt st raw = Some k \<longrightarrow>
      (row_accepts st raw (ak_id k) \<or> yaml_accepts st raw (ak_id k)) \<and> ak_name k = ak_id k \<and> \<not> ak_is_admin k) \<and>
   (\<forall>flt. flt 0 \<longrightarrow> as_db st \<noteq> None \<longrightarrow> lookup_api_key flt st raw = None)"
proof (intro conjI allI impI)
  show "lookup_api_key no_faults st raw = None \<longleftrightarrow> (\<forall>uid. \<not> row_accepts st raw uid \<and> \<not> yaml_accepts st raw uid)"
    using lookup_complete lookup_sound by (metis not_Some_eq)
next
  fix flt :: faults assume "flt 0" "as_db st \<noteq> None"
  then show "lookup_api_key flt st raw = None" by (auto simp: lookup_api_key_def)
qed (use lookup_sound in blast)+

theorem lookup_api_key_exact_witness:
  "lookup_api_key (\<lambda>_. True) \<lparr>as_cfg = sample_config, as_db = Some empty_db\<rparr> ''k'' = None"
  using lookup_api_key_exact [of "\<lparr>as_cfg = sample_config, as_db = Some empty_db\<rparr>" "''k''"] by simp

section \<open>Round trip through the table\<close>

text \<open>What a created user looks like when it is read back: the aliases in key order, a limit
  without positive burst or lifetime as zero, a lifetime in whole seconds.\<close>

definition stored_limit :: "rate_limit_cfg \<Rightarrow> rate_limit_cfg" where
  "stored_limit rl = \<lparr>rlc_rate = rlc_rate rl,
     rlc_burst = (if 0 < rlc_burst rl then rlc_burst rl else 0),
     rlc_ttl = (if 0 < rlc_ttl rl then time_from_seconds \<lfloor>duration_seconds (rlc_ttl rl)\<rfloor> else 0)\<rparr>"

definition stored_config :: "user_config \<Rightarrow> user_config" where
  "stored_config uc = uc\<lparr>aliases := sort_key fst (aliases uc),
     rate_limit := map_option stored_limit (rate_limit uc)\<rparr>"

lemma marshal_strings_not_Nil [simp]: "marshal_strings xs \<noteq> []"
  by (simp add: marshal_strings_def)

lemma marshal_string_map_not_Nil [simp]: "marshal_string_map m \<noteq> []"
  by (simp add: marshal_string_map_def)

lemma row_of_create:
  "gm_ok (aliases uc) \<Longrightarrow> row_user_config (create_row uid uc) = stored_config uc"
  by (cases "rate_limit uc")
    (auto simp: row_user_config_def create_row_def marshal_user_fields_def stored_config_def
      row_rate_limit_def burst_arg_def ttl_arg_def stored_limit_def unmarshal_marshal_string_map)

lemma create_user_db_ok:
  assumes "create_user flt st uid uc = (None, st')" "as_db st = Some d"
  shows "st' = set_rows st d (api_users d @ [create_row (trim_space uid) uc])"
    "tbl_get ur_id (api_users d) (trim_space uid) = None" "api_key_hash uc \<noteq> []"
  using assms by (auto simp: create_user_def Let_def split: if_splits option.splits)

lemma find_append: "List.find P (xs @ ys) = (case List.find P xs of Some x \<Rightarrow> Some x | None \<Rightarrow> List.find P ys)"
  by (induction xs) auto

lemma find_none_of_key:
  "tbl_get ur_id rows uid = None \<Longrightarrow> List.find (\<lambda>r. ur_id r = uid \<and> \<not> ur_disabled r) rows = None"
  by (auto simp: tbl_get_def find_None_all)

lemma create_row_enabled [simp]: "\<not> ur_disabled (create_row uid uc)"
  by (simp add: create_row_def marshal_user_fields_def)

lemma create_row_hash [simp]: "ur_key_hash (create_row uid uc) = api_key_hash uc"
  by (simp add: create_row_def marshal_user_fields_def)

text \<open>C34: a user that \<open>CreateUser\<close> accepts is read back with the configuration it was created
  with (up to the table's normal form of limits and alias order), its key authenticates, and no
  other user's configuration changes.\<close>

theorem create_user_roundtrip:
  assumes "create_user flt st uid uc = (None, st')" and "as_db st = Some d"
    and "gm_ok (aliases uc)"
  shows "get_user_config no_faults st' (trim_space uid) = Some (stored_config uc) \<and>
    (\<forall>raw. api_key_hash uc = hash_api_key raw \<longrightarrow> lookup_api_key no_faults st' raw \<noteq> None) \<and>
    (\<forall>v. v \<noteq> trim_space uid \<longrightarrow> get_user_config no_faults st' v = get_user_config no_faults st v)"
proof -
  note cr = create_user_db_ok [OF assms(1,2)]
  let ?r = "create_row (trim_space uid) uc"
  have "get_user_config no_faults st' (trim_space uid) = Some (row_user_config ?r)"
    using find_none_of_key [OF cr(2)] by (simp add: cr(1) get_user_config_def auth_defs find_append)
  moreover have "lookup_api_key no_faults st' raw \<noteq> None" if "api_key_hash uc = hash_api_key raw" for raw
    using that by (intro lookup_complete [of _ _ "trim_space uid"])
      (auto simp: row_accepts_def cr(1) auth_defs)
  moreover have "get_user_config no_faults st' v = get_user_config no_faults st v"
    if "v \<noteq> trim_space uid" for v
    using that assms(2) by (auto simp: get_user_config_def cr(1) auth_defs find_append split: option.split)
  ultimately show ?thesis using row_of_create [OF assms(3)] by metis
qed

definition sample_user :: user_config where
  "sample_user = \<lparr>api_key_hash = hash_api_key ''k'', rate_limit = None, model_allow = [''m''],
     model_deny = [], aliases = []\<rparr>"

definition sample_auth :: auth_store where
  "sample_auth = \<lparr>as_cfg = sample_config\<lparr>cfg_users := []\<rparr>, as_db = Some empty_db\<rparr>"

lemma trim_bob [simp]: "trim_space ''bob'' = ''bob''"
  by (rule trim_space_tight) (simp add: tight_def is_space_def)

lemma sample_create:
  "create_user no_faults sample_auth ''bob'' sample_user
     = (None, set_rows sample_auth empty_db [create_row ''bob'' sample_user])"
  by (simp add: create_user_def sample_auth_def sample_user_def empty_db_def tbl_get_def)

theorem create_user_roundtrip_witness:
  "get_user_config no_faults (set_rows sample_auth empty_db [create_row ''bob'' sample_user]) ''bob''
     = Some (stored_config sample_user)"
  using create_user_roundtrip [OF sample_create, of empty_db]
  by (simp add: sample_auth_def sample_user_def)

section \<open>Deactivation and rotation\<close>

lemma set_rows_self: "as_db st = Some d \<Longrightarrow> set_rows st d (api_users d) = st"
  by (simp add: set_rows_def)

lemma deactivate_db:
  assumes "deactivate_user flt st uid = (None, st')" "as_db st = Some d"
  shows "st' = set_rows st d (tbl_update (\<lambda>r. ur_id r = trim_space uid \<and> \<not> ur_disabled r)
           (\<lambda>r. r\<lparr>ur_disabled := True\<rparr>) (api_users d))"
    "\<exists>r \<in> set (api_users d). ur_id r = trim_space uid \<and> \<not> ur_disabled r" "trim_space uid \<noteq> []"
  using assms by (auto simp: deactivate_user_def Let_def tbl_affected_0 split: if_splits)

lemma row_accepts_set_rows:
  "row_accepts (set_rows st d rows) raw v \<longleftrightarrow>
     (\<exists>r \<in> set rows. ur_id r = v \<and> \<not> ur_disabled r \<and> ur_key_hash r = hash_api_key raw)"
  by (auto simp: row_accepts_def auth_defs)

lemma row_accepts_db:
  "as_db st = Some d \<Longrightarrow> row_accepts st raw v \<longleftrightarrow>
     (\<exists>r \<in> set (api_users d). ur_id r = v \<and> \<not> ur_disabled r \<and> ur_key_hash r = hash_api_key raw)"
  by (auto simp: row_accepts_def)

lemma row_accepts_update_other:
  assumes "as_db st = Some d" "\<And>r. p r \<Longrightarrow> ur_id r \<noteq> v" "\<And>r. ur_id (f r) = ur_id r"
  shows "row_accepts (set_rows st d (tbl_update p f (api_users d))) raw v = row_accepts st raw v"
  using assms by (fastforce simp: row_accepts_set_rows row_accepts_db tbl_update_def)

lemma deactivate_again:
  assumes "deactivate_user flt st uid = (None, st')" "as_db st = Some d"
  shows "deactivate_user no_faults st' uid = (Some ErrUserDeactivated, st')"
proof -
  note D = deactivate_db [OF assms]
  let ?hit = "\<lambda>r. ur_id r = trim_space uid \<and> \<not> ur_disabled r"
  let ?rows = "tbl_update ?hit (\<lambda>r. r\<lparr>ur_disabled := True\<rparr>) (api_users d)"
  have none: "tbl_affected ?hit ?rows = 0" by (auto simp: tbl_affected_0 tbl_update_def)
  have "ur_id ` set ?rows = ur_id ` set (api_users d)"
    by (rule keys_update) simp
  moreover obtain r where "r \<in> set (api_users d)" "ur_id r = trim_space uid" using D(2) by blast
  ultimately have "trim_space uid \<in> ur_id ` set ?rows" by (metis imageI)
  then obtain x where x: "x \<in> set ?rows" "ur_id x = trim_space uid" by (elim imageE) simp
  have some: "0 < tbl_affected (\<lambda>r. ur_id r = trim_space uid) ?rows"
  proof (rule gr0I)
    assume "tbl_affected (\<lambda>r. ur_id r = trim_space uid) ?rows = 0"
    then have "\<forall>r \<in> set ?rows. ur_id r \<noteq> trim_space uid" unfolding tbl_affected_0 .
    with x show False by blast
  qed
  have db: "as_db st' = Some (d\<lparr>api_users := ?rows\<rparr>)" by (simp add: D(1) set_rows_def)
  show ?thesis
    using none some D(3) db set_rows_self [OF db]
    by (simp add: deactivate_user_def Let_def tbl_update_none)
qed

text \<open>Deactivation of a database user removes exactly that user from the rows that accept keys,
  keeps its row, cannot be repeated, and leaves the user name reachable by a key only when the YAML
  configuration still lists it.\<close>

theorem deactivate_user_effect:
  assumes "deactivate_user flt st uid = (None, st')" and "as_db st = Some d"
  shows "(\<forall>raw v. row_accepts st' raw v \<longleftrightarrow> v \<noteq> trim_space uid \<and> row_accepts st raw v) \<and>
    (\<exists>d'. as_db st' = Some d' \<and> map ur_id (api_users d') = map ur_id (api_users d)) \<and>
    deactivate_user no_faults st' uid = (Some ErrUserDeactivated, st') \<and>
    (\<forall>flt raw k. lookup_api_key flt st' raw = Some k \<longrightarrow> ak_id k = trim_space uid \<longrightarrow>
       yaml_accepts st raw (trim_space uid))"
proof -
  note D = deactivate_db [OF assms]
  have gone: "\<not> row_accepts st' raw (trim_space uid)" for raw
    by (auto simp: D(1) row_accepts_set_rows tbl_update_def split: if_splits)
  have other: "row_accepts st' raw v = row_accepts st raw v" if "v \<noteq> trim_space uid" for raw v
    unfolding D(1) by (rule row_accepts_update_other [OF assms(2)]) (use that in auto)
  have ids: "map ur_id (tbl_update p (\<lambda>r. r\<lparr>ur_disabled := True\<rparr>) rows) = map ur_id rows" for p rows
    by (rule map_key_update) simp
  have "yaml_accepts st' raw v = yaml_accepts st raw v" for raw v by (simp add: D(1))
  then have yaml: "lookup_api_key flt st' raw = Some k \<Longrightarrow> ak_id k = trim_space uid \<Longrightarrow>
      yaml_accepts st raw (trim_space uid)" for flt raw k
    using gone lookup_sound by metis
  have db: "as_db st' = Some (d\<lparr>api_users := tbl_update (\<lambda>r. ur_id r = trim_space uid \<and> \<not> ur_disabled r)
           (\<lambda>r. r\<lparr>ur_disabled := True\<rparr>) (api_users d)\<rparr>)"
    by (simp add: D(1) set_rows_def)
  then have keep: "\<exists>d'. as_db st' = Some d' \<and> map ur_id (api_users d') = map ur_id (api_users d)"
    by (simp add: ids)
  show ?thesis
    using gone other yaml keep deactivate_again [OF assms] by metis
qed

definition sample_row :: user_row where
  "sample_row = create_row ''bob'' sample_user"

definition sample_auth2 :: auth_store where
  "sample_auth2 = \<lparr>as_cfg = sample_config\<lparr>cfg_users := [(''bob'', sample_user)]\<rparr>,
     as_db = Some (empty_db\<lparr>api_users := [sample_row]\<rparr>)\<rparr>"

lemma sample_deactivate:
  "fst (deactivate_user no_faults sample_auth2 ''bob'') = None"
  by (simp add: deactivate_user_def sample_auth2_def sample_row_def tbl_affected_def Let_def)

theorem deactivate_user_effect_witness:
  "\<not> row_accepts (snd (deactivate_user no_faults sample_auth2 ''bob'')) ''k'' ''bob''"
  using deactivate_user_effect [of no_faults sample_auth2 "''bob''"
      "snd (deactivate_user no_faults sample_auth2 ''bob'')" "empty_db\<lparr>api_users := [sample_row]\<rparr>"]
    sample_deactivate
  by (simp add: prod_eq_iff) (simp add: sample_auth2_def)

lemma yaml_lookup_unique:
  assumes "yaml_accepts st raw uid" "\<And>v. yaml_accepts st raw v \<Longrightarrow> v = uid"
  shows "yaml_lookup (as_users st) raw = Some \<lparr>ak_id = uid, ak_name = uid, ak_is_admin = False\<rparr>"
proof -
  obtain k where k: "yaml_lookup (as_users st) raw = Some k"
    using assms(1) yaml_accepts_lookup [of st raw] by (cases "yaml_lookup (as_users st) raw") auto
  from yaml_lookup_accepts [OF this] assms(2) have "ak_id k = uid" "ak_name k = uid" "\<not> ak_is_admin k"
    by auto
  with k show ?thesis by simp
qed

text \<open>Rotation.\<close>

lemma rotate_db:
  assumes "rotate_user_key flt st uid raw = (Inr out, st')" "as_db st = Some d"
  shows "st' = set_rows st d (tbl_update (\<lambda>r. ur_id r = trim_space uid \<and> \<not> ur_disabled r)
           (\<lambda>r. r\<lparr>ur_key_hash := hash_api_key raw\<rparr>) (api_users d))"
    "\<exists>r \<in> set (api_users d). ur_id r = trim_space uid \<and> \<not> ur_disabled r" "trim_space uid \<noteq> []" "raw \<noteq> []"
    "out = (raw, hash_api_key raw)"
  using assms by (auto simp: rotate_user_key_def Let_def tbl_affected_0 split: if_splits)

lemma rotate_rows:
  assumes "rotate_user_key flt st uid raw = (Inr out, st')" "as_db st = Some d"
  shows "row_accepts st' k (trim_space uid) \<longleftrightarrow> hash_api_key k = hash_api_key raw"
proof -
  note D = rotate_db [OF assms]
  obtain r where r: "r \<in> set (api_users d)" "ur_id r = trim_space uid" "\<not> ur_disabled r"
    using D(2) by blast
  show ?thesis
  proof
    assume "row_accepts st' k (trim_space uid)"
    then show "hash_api_key k = hash_api_key raw"
      by (auto simp: D(1) row_accepts_set_rows tbl_update_def split: if_splits)
  next
    assume "hash_api_key k = hash_api_key raw"
    then have "ur_key_hash (r\<lparr>ur_key_hash := hash_api_key raw\<rparr>) = hash_api_key k" by simp
    moreover have "r\<lparr>ur_key_hash := hash_api_key raw\<rparr> \<in> set (tbl_update (\<lambda>r. ur_id r = trim_space uid \<and> \<not> ur_disabled r)
           (\<lambda>r. r\<lparr>ur_key_hash := hash_api_key raw\<rparr>) (api_users d))"
      using r by (force simp: tbl_update_def)
    moreover have "ur_id (r\<lparr>ur_key_hash := hash_api_key raw\<rparr>) = trim_space uid"
        "\<not> ur_disabled (r\<lparr>ur_key_hash := hash_api_key raw\<rparr>)" using r by simp_all
    ultimately show "row_accepts st' k (trim_space uid)"
      unfolding D(1) row_accepts_set_rows by blast
  qed
qed

text \<open>Rotating the key of a database user makes exactly the new key valid for its row, whatever
  keys were valid before, leaves every other user's keys alone, and returns the raw key with the
  hash that was stored.\<close>

theorem rotate_user_key_effect:
  assumes "rotate_user_key flt st uid raw = (Inr (raw', h), st')" and "as_db st = Some d"
  shows "(\<forall>k v. row_accepts st' k v \<longleftrightarrow>
      (if v = trim_space uid then hash_api_key k = hash_api_key raw else row_accepts st k v)) \<and>
    lookup_api_key no_faults st' raw \<noteq> None \<and> raw' = raw \<and> h = hash_api_key raw"
proof -
  note D = rotate_db [OF assms]
  have "row_accepts st' k v \<longleftrightarrow>
      (if v = trim_space uid then hash_api_key k = hash_api_key raw else row_accepts st k v)" for k v
  proof (cases "v = trim_space uid")
    case True
    then show ?thesis using rotate_rows [OF assms] by simp
  next
    case False
    have "row_accepts st' k v = row_accepts st k v"
      unfolding D(1) by (rule row_accepts_update_other [OF assms(2)]) (use False in auto)
    then show ?thesis using False by simp
  qed
  moreover have "lookup_api_key no_faults st' raw \<noteq> None"
    using rotate_rows [OF assms, of raw] by (intro lookup_complete [of _ _ "trim_space uid"]) simp
  ultimately show ?thesis using D(5) by blast
qed

lemma trim_Nil [simp]: "trim_space [] = []"
  by (rule trim_space_tight) (simp add: tight_def)

lemma sample_rotate:
  "rotate_user_key no_faults sample_auth2 ''bob'' ''n'' = (Inr (''n'', hash_api_key ''n''),
     snd (rotate_user_key no_faults sample_auth2 ''bob'' ''n''))"
  by (simp add: rotate_user_key_def sample_auth2_def sample_row_def tbl_affected_def Let_def)

theorem rotate_user_key_effect_witness:
  "row_accepts (snd (rotate_user_key no_faults sample_auth2 ''bob'' ''n'')) ''n'' ''bob''"
  using rotate_user_key_effect [OF sample_rotate, of "empty_db\<lparr>api_users := [sample_row]\<rparr>"]
  by (simp add: sample_auth2_def)

section \<open>Failures\<close>

definition auth_domain_error :: "auth_err \<Rightarrow> bool" where
  "auth_domain_error e \<longleftrightarrow> e \<noteq> AuthDbError"

lemma update_none_rows: "as_db st = Some d \<Longrightarrow> tbl_affected p (api_users d) = 0 \<Longrightarrow>
    set_rows st d (tbl_update p f (api_users d)) = st"
  by (simp add: tbl_update_none set_rows_self)

text \<open>An operation of the user store that reports a domain error (a missing name, hash or raw
  key, a user that exists, is unknown or is already deactivated) leaves the store as it found
  it; only a failing statement can leave a partial effect.\<close>

theorem auth_domain_errors_change_nothing:
  assumes "auth_domain_error e"
  shows "(create_user flt st uid uc = (Some e, st1) \<longrightarrow> st1 = st) \<and>
    (update_user flt st uid uc = (Some e, st1) \<longrightarrow> st1 = st) \<and>
    (rotate_user_key flt st uid raw = (Inl e, st1) \<longrightarrow> st1 = st) \<and>
    (deactivate_user flt st uid = (Some e, st1) \<longrightarrow> st1 = st)"
proof (intro conjI impI)
  show "create_user flt st uid uc = (Some e, st1) \<Longrightarrow> st1 = st"
    by (auto simp: create_user_def Let_def split: if_splits option.splits)
  show "update_user flt st uid uc = (Some e, st1) \<Longrightarrow> st1 = st"
    using assms by (auto simp: update_user_def Let_def auth_domain_error_def update_none_rows
        split: if_splits option.splits)
  show "rotate_user_key flt st uid raw = (Inl e, st1) \<Longrightarrow> st1 = st"
    using assms by (auto simp: rotate_user_key_def Let_def auth_domain_error_def update_none_rows
        split: if_splits option.splits)
  show "deactivate_user flt st uid = (Some e, st1) \<Longrightarrow> st1 = st"
    using assms by (auto simp: deactivate_user_def Let_def auth_domain_error_def update_none_rows
        split: if_splits option.splits)
qed

theorem auth_domain_errors_change_nothing_witness:
  "create_user no_faults sample_auth2 [] sample_user = (Some UserNameRequired, sample_auth2)"
proof -
  have "auth_domain_error UserNameRequired" by (simp add: auth_domain_error_def)
  moreover have "create_user no_faults sample_auth2 [] sample_user
      = (Some UserNameRequired, snd (create_user no_faults sample_auth2 [] sample_user))"
    by (simp add: create_user_def)
  ultimately show ?thesis
    using auth_domain_errors_change_nothing [of UserNameRequired no_faults sample_auth2 "[]" sample_user
        "snd (create_user no_faults sample_auth2 [] sample_user)" "[]"] by simp
qed

section \<open>The store as a state machine\<close>

inductive auth_step :: "auth_store \<Rightarrow> auth_store \<Rightarrow> bool" where
  create: "create_user flt st uid uc = (r, st') \<Longrightarrow> auth_step st st'"
| update: "update_user flt st uid uc = (r, st') \<Longrightarrow> auth_step st st'"
| rotate: "rotate_user_key flt st uid raw = (q, st') \<Longrightarrow> auth_step st st'"
| deactivate: "deactivate_user flt st uid = (r, st') \<Longrightarrow> auth_step st st'"
| validate: "validate_store flt st = (r, st') \<Longrightarrow> auth_step st st'"
| reload: "gm_ok (cfg_users cfg) \<Longrightarrow> auth_step st (apply_runtime_config st (Some cfg))"
| token: "auth_step st (apply_admin_token_hash st h)"

lemma auth_ok_step [inv_intros]: "auth_step st st' \<Longrightarrow> auth_ok st \<Longrightarrow> auth_ok st'"
proof (induction rule: auth_step.induct)
  case (create flt st uid uc r st')
  then show ?case using auth_ok_create by (metis snd_conv)
next
  case (update flt st uid uc r st')
  then show ?case using auth_ok_update by (metis snd_conv)
next
  case (rotate flt st uid raw q st')
  then show ?case using auth_ok_rotate by (metis snd_conv)
next
  case (deactivate flt st uid r st')
  then show ?case using auth_ok_deactivate by (metis snd_conv)
next
  case (validate flt st r st')
  then show ?case using auth_ok_validate by (metis snd_conv)
qed (auto simp: auth_ok_def as_users_def apply_runtime_config_def apply_admin_token_hash_def)

interpretation auth_history: kept_by_steps auth_step auth_ok
  by unfold_locales (rule auth_ok_step)

text \<open>Every history of the user store, whatever statements fail on the way, keeps the schema:
  user names are unique in the configuration and in the table, so that a name has at most one
  row, which the lookup by name finds.\<close>

theorem auth_store_invariant:
  assumes "auth_step\<^sup>*\<^sup>* st st'" and "auth_ok st"
  shows "auth_ok st' \<and> (\<forall>d r. as_db st' = Some d \<longrightarrow> r \<in> set (api_users d) \<longrightarrow> \<not> ur_disabled r \<longrightarrow>
     get_user_config no_faults st' (ur_id r) = Some (row_user_config r))"
proof -
  have ok: "auth_ok st'" using assms by (rule auth_history.history_keeps)
  have "get_user_config no_faults st' (ur_id r) = Some (row_user_config r)"
    if d: "as_db st' = Some d" and r: "r \<in> set (api_users d)" "\<not> ur_disabled r" for d r
  proof -
    have "List.find (\<lambda>x. ur_id x = ur_id r \<and> \<not> ur_disabled x) (api_users d) = Some r"
    proof (rule find_unique)
      fix y assume "y \<in> set (api_users d)" "ur_id y = ur_id r \<and> \<not> ur_disabled y"
      then show "y = r" using auth_ok_rows [OF ok d] r by (auto simp: tbl_ok_def distinct_map dest: inj_onD)
    qed (use r in auto)
    then show ?thesis by (simp add: get_user_config_def d)
  qed
  with ok show ?thesis by blast
qed

theorem auth_store_invariant_witness:
  "auth_ok (snd (deactivate_user no_faults sample_auth2 ''bob''))"
proof -
  have "auth_step\<^sup>*\<^sup>* sample_auth2 (snd (deactivate_user no_faults sample_auth2 ''bob''))"
    by (rule r_into_rtranclp, rule auth_step.deactivate [of no_faults _ "''bob''" "fst (deactivate_user no_faults sample_auth2 ''bob'')"]) simp
  moreover have "auth_ok sample_auth2"
    by (simp add: auth_ok_def sample_auth2_def as_users_def gm_ok_def db_ok_def empty_db_def tbl_ok_def)
  ultimately show ?thesis using auth_store_invariant by blast
qed

text \<open>Deactivating a user that the YAML configuration also lists does not stop its key: the
  lookup finds no enabled row, falls back to the configuration and authenticates the deactivated
  user.  (Start-up copies the YAML users into the table, so this is every bootstrapped user.)\<close>

theorem deactivated_yaml_user_authenticates:
  assumes "deactivate_user flt st uid = (None, st')" and "as_db st = Some d"
    and "yaml_accepts st raw (trim_space uid)"
    and "\<And>v. yaml_accepts st raw v \<or> row_accepts st raw v \<Longrightarrow> v = trim_space uid"
  shows "lookup_api_key no_faults st' raw =
    Some \<lparr>ak_id = trim_space uid, ak_name = trim_space uid, ak_is_admin = False\<rparr>"
proof -
  note D = deactivate_db [OF assms(1,2)]
  have "\<not> row_accepts st' raw v" for v
    using assms(4) row_accepts_update_other [OF assms(2)]
    by (auto simp: D(1) row_accepts_set_rows row_accepts_db [OF assms(2)] tbl_update_def split: if_splits)
  then have "List.find (\<lambda>r. ur_key_hash r = hash_api_key raw \<and> \<not> ur_disabled r)
      (tbl_update (\<lambda>r. ur_id r = trim_space uid \<and> \<not> ur_disabled r)
           (\<lambda>r. r\<lparr>ur_disabled := True\<rparr>) (api_users d)) = None"
    by (auto simp: find_None_all D(1) row_accepts_set_rows)
  moreover have "as_users st' = as_users st" by (simp add: D(1) auth_defs)
  moreover have "as_db st' = Some (d\<lparr>api_users := tbl_update (\<lambda>r. ur_id r = trim_space uid \<and> \<not> ur_disabled r)
           (\<lambda>r. r\<lparr>ur_disabled := True\<rparr>) (api_users d)\<rparr>)"
    by (simp add: D(1) set_rows_def)
  moreover have "yaml_lookup (as_users st) raw
      = Some \<lparr>ak_id = trim_space uid, ak_name = trim_space uid, ak_is_admin = False\<rparr>"
    by (rule yaml_lookup_unique [OF assms(3)]) (use assms(4) in blast)
  ultimately show ?thesis by (simp add: lookup_api_key_def)
qed

lemma sample_accepts:
  "yaml_accepts sample_auth2 ''k'' v \<longleftrightarrow> v = ''bob''" "row_accepts sample_auth2 ''k'' v \<longleftrightarrow> v = ''bob''"
  by (auto simp: yaml_accepts_def row_accepts_def sample_auth2_def sample_user_def as_users_def
      hash_api_key_def sample_row_def)

theorem deactivated_yaml_user_authenticates_witness:
  "fst (deactivate_user no_faults sample_auth2 ''bob'') = None \<and>
   lookup_api_key no_faults (snd (deactivate_user no_faults sample_auth2 ''bob'')) ''k''
     = Some \<lparr>ak_id = ''bob'', ak_name = ''bob'', ak_is_admin = False\<rparr>"
proof -
  have "deactivate_user no_faults sample_auth2 ''bob''
      = (None, snd (deactivate_user no_faults sample_auth2 ''bob''))"
    using sample_deactivate by (simp add: prod_eq_iff)
  from deactivated_yaml_user_authenticates [OF this, of "empty_db\<lparr>api_users := [sample_row]\<rparr>" "''k''"]
  show ?thesis using sample_accepts sample_deactivate by (simp) (simp add: sample_auth2_def)
qed

end
