(* ===== verification/Http.thy ===== *)
theory Http
  imports Json
begin

text \<open>
  The parts of \<open>net/http\<close> that the gateway's handlers read and write: requests, responses, header
  lookup by canonical name (\<open>Header.Get\<close>, \<open>Header.Set\<close>, \<open>Header.Add\<close>), the JSON error body shared by the
  middleware, and redirects.
\<close>

record http_request =
  rq_method :: string
  rq_path :: string
  rq_query :: string
  rq_headers :: "string list gomap"
  rq_remote :: string
  rq_body :: string

record http_response =
  rs_status :: nat
  rs_headers :: "string list gomap"
  rs_body :: string

section \<open>Headers\<close>

text \<open>\<open>CanonicalMIMEHeaderKey\<close> on the names of header tokens: a capital after the start and after
  each hyphen, lower case elsewhere.\<close>

fun canonical_aux :: "bool \<Rightarrow> string \<Rightarrow> string" where
  "canonical_aux up [] = []"
| "canonical_aux up (c # s) = (if up then upper_char c else lower_char c) # canonical_aux (c = CHR ''-'') s"

definition canonical_key :: "string \<Rightarrow> string" where
  "canonical_key s = canonical_aux True s"

definition hdr_get :: "string list gomap \<Rightarrow> string \<Rightarrow> string" where
  "hdr_get h k = (case gm_get h (canonical_key k) of Some (v # _) \<Rightarrow> v | _ \<Rightarrow> [])"

definition hdr_set :: "string \<Rightarrow> string \<Rightarrow> string list gomap \<Rightarrow> string list gomap" where
  "hdr_set k v h = gm_put (canonical_key k) [v] h"

definition hdr_add :: "string \<Rightarrow> string \<Rightarrow> string list gomap \<Rightarrow> string list gomap" where
  "hdr_add k v h = gm_put (canonical_key k)
     ((case gm_get h (canonical_key k) of Some vs \<Rightarrow> vs | None \<Rightarrow> []) @ [v]) h"

definition hdr_del :: "string \<Rightarrow> string list gomap \<Rightarrow> string list gomap" where
  "hdr_del k h = gm_del (canonical_key k) h"

lemma hdr_get_set [simp, gm_simps]:
  "hdr_get (hdr_set k v h) k' = (if canonical_key k' = canonical_key k then v else hdr_get h k')"
  by (simp add: hdr_get_def hdr_set_def)

lemma hdr_get_del [simp, gm_simps]:
  "hdr_get (hdr_del k h) k' = (if canonical_key k' = canonical_key k then [] else hdr_get h k')"
  by (simp add: hdr_get_def hdr_del_def)

lemma hdr_get_add:
  "canonical_key k' \<noteq> canonical_key k \<Longrightarrow> hdr_get (hdr_add k v h) k' = hdr_get h k'"
  by (simp add: hdr_get_def hdr_add_def)

section \<open>Responses\<close>

text \<open>\<open>json.NewEncoder(w).Encode\<close> of a string map: its JSON text and a newline.\<close>

definition error_body :: "string \<Rightarrow> string" where
  "error_body msg = marshal_string_map [(''error'', msg)] @ [CHR 0x0A]"

definition error_response :: "nat \<Rightarrow> string \<Rightarrow> http_response" where
  "error_response code msg = \<lparr>rs_status = code,
     rs_headers = hdr_set ''Content-Type'' ''application/json'' [], rs_body = error_body msg\<rparr>"

lemma error_response_simps [simp]:
  "rs_status (error_response code msg) = code"
  "rs_body (error_response code msg) = error_body msg"
  by (simp_all add: error_response_def)

text \<open>\<open>http.Error\<close>: the message as plain text.\<close>

definition http_error :: "nat \<Rightarrow> string \<Rightarrow> http_response" where
  "http_error code msg = \<lparr>rs_status = code,
     rs_headers = hdr_set ''X-Content-Type-Options'' ''nosniff''
       (hdr_set ''Content-Type'' ''text/plain; charset=utf-8'' []), rs_body = msg @ [CHR 0x0A]\<rparr>"

lemma http_error_status [simp]: "rs_status (http_error code msg) = code"
  by (simp add: http_error_def)

definition redirect :: "nat \<Rightarrow> string \<Rightarrow> http_response" where
  "redirect code target = \<lparr>rs_status = code, rs_headers = hdr_set ''Location'' target [], rs_body = []\<rparr>"

lemma redirect_status [simp]: "rs_status (redirect code target) = code"
  by (simp add: redirect_def)

end
