(* ===== verification/AuthMiddleware.thy ===== *)
theory AuthMiddleware
  imports AuthStoreProps Http
begin

text \<open>
  internal/auth/middleware.go: which credential a request carries, and the two gates in front of
  the API routes and of the administration routes.  The handler behind a gate is an argument; the
  result \<open>Inl\<close> is the gate's own answer, \<open>Inr\<close> the call of the next handler with its context.
\<close>

record auth_context =
  ac_key_id :: string
  ac_key_name :: string
  ac_is_admin :: bool

definition bearer_token_from_header :: "string \<Rightarrow> string" where
  "bearer_token_from_header h =
     (let parts = str_fields (trim_space h) in
      if length parts \<noteq> 2 \<or> \<not> equal_fold (parts ! 0) ''Bearer'' then []
      else trim_space (parts ! 1))"

definition api_key_from_request :: "http_request \<Rightarrow> string" where
  "api_key_from_request r =
     (let raw = trim_space (hdr_get (rq_headers r) ''X-API-Key'') in
      if raw \<noteq> [] then raw
      else bearer_token_from_header (hdr_get (rq_headers r) ''Authorization''))"

definition admin_token_from_request :: "http_request \<Rightarrow> string" where
  "admin_token_from_request r =
     (let raw = trim_space (hdr_get (rq_headers r) ''X-Admin-Token'') in
      if raw \<noteq> [] then raw
      else bearer_token_from_header (hdr_get (rq_headers r) ''Authorization''))"

definition auth_middleware ::
  "faults \<Rightarrow> auth_store \<Rightarrow> (auth_context option \<Rightarrow> http_request \<Rightarrow> 'a) \<Rightarrow> http_request \<Rightarrow> http_response + 'a" where
  "auth_middleware flt st next_handler r =
     (let raw = api_key_from_request r in
      if raw = [] then Inl (error_response 401 ''missing API key'')
      else (case lookup_api_key flt st raw of
          None \<Rightarrow> Inl (error_response 401 ''invalid API key'')
        | Some k \<Rightarrow> Inr (next_handler
            (Some \<lparr>ac_key_id = ak_id k, ac_key_name = ak_name k, ac_is_admin = ak_is_admin k\<rparr>) r)))"

definition admin_middleware ::
  "auth_store \<Rightarrow> (auth_context option \<Rightarrow> http_request \<Rightarrow> 'a) \<Rightarrow> auth_context option \<Rightarrow> http_request
     \<Rightarrow> http_response + 'a" where
  "admin_middleware st next_handler ctx r =
     (let raw = admin_token_from_request r in
      if raw = [] then Inl (error_response 403 ''missing admin token'')
      else if \<not> check_admin_token st raw then Inl (error_response 403 ''invalid admin token'')
      else Inr (next_handler ctx r))"

section \<open>Credentials\<close>

lemma fields_two: "str_fields s = [a, b] \<Longrightarrow> b \<noteq> [] \<and> (\<forall>c \<in> set b. \<not> is_space c)"
  using str_fields_mem [of b s] by simp

lemma tight_word: "\<forall>c \<in> set b. \<not> is_space c \<Longrightarrow> tight b"
  by (cases "b = []") (simp_all add: tight_def)

lemma trim_word: "\<forall>c \<in> set b. \<not> is_space c \<Longrightarrow> trim_space b = b"
  by (rule trim_space_tight, rule tight_word)

text \<open>A bearer token never contains white space and the trimming of it changes nothing.\<close>

lemma bearer_token_word:
  "bearer_token_from_header h = t \<Longrightarrow> t = [] \<or> (\<forall>c \<in> set t. \<not> is_space c)"
proof -
  assume t: "bearer_token_from_header h = t"
  show ?thesis
  proof (cases "length (str_fields (trim_space h)) = 2")
    case True
    then obtain a b where ab: "str_fields (trim_space h) = [a, b]"
      by (metis (no_types) length_0_conv length_Suc_conv numeral_2_eq_2)
    note w = fields_two [OF ab]
    show ?thesis using t w trim_word [of b] by (auto simp: bearer_token_from_header_def Let_def ab split: if_splits)
  next
    case False
    then show ?thesis using t by (simp add: bearer_token_from_header_def Let_def)
  qed
qed

lemma fields_bearer: "\<forall>c \<in> set t. \<not> is_space c \<Longrightarrow> t \<noteq> [] \<Longrightarrow> str_fields (''Bearer '' @ t) = [''Bearer'', t]"
proof -
  assume t: "\<forall>c \<in> set t. \<not> is_space c" "t \<noteq> []"
  have w: "str_fields_aux acc u = [acc @ u]" if "\<forall>c \<in> set u. \<not> is_space c" "u \<noteq> [] \<or> acc \<noteq> []" for acc u
    using that by (induction u arbitrary: acc) auto
  show ?thesis using w [of t "[]"] t by (simp add: str_fields_def is_space_def)
qed

lemma bearer_round:
  assumes "\<forall>c \<in> set t. \<not> is_space c" "t \<noteq> []"
  shows "bearer_token_from_header (''Bearer '' @ t) = t"
proof -
  have tr: "trim_space (''Bearer '' @ t) = ''Bearer '' @ t"
    by (rule trim_space_tight) (use assms in \<open>simp add: tight_def is_space_def\<close>)
  show ?thesis
    unfolding bearer_token_from_header_def tr fields_bearer [OF assms]
    by (simp add: equal_fold_def to_lower_def trim_word [OF assms(1)])
qed

section \<open>The gates\<close>

lemma auth_middleware_Inr:
  "auth_middleware flt st nx r = Inr x \<longleftrightarrow>
     (\<exists>k. lookup_api_key flt st (api_key_from_request r) = Some k \<and> api_key_from_request r \<noteq> [] \<and>
        x = nx (Some \<lparr>ac_key_id = ak_id k, ac_key_name = ak_name k, ac_is_admin = ak_is_admin k\<rparr>) r)"
  by (auto simp: auth_middleware_def Let_def split: option.splits)

lemma auth_middleware_Inl:
  "auth_middleware flt st nx r = Inl resp \<Longrightarrow> rs_status resp = 401 \<and>
     resp \<in> {error_response 401 ''missing API key'', error_response 401 ''invalid API key''}"
  by (auto simp: auth_middleware_def Let_def split: option.splits if_splits)

lemma api_key_from_bearer:
  assumes "trim_space (hdr_get (rq_headers r) ''X-API-Key'') = []"
    and "hdr_get (rq_headers r) ''Authorization'' = ''Bearer '' @ t"
    and "\<forall>c \<in> set t. \<not> is_space c" and "t \<noteq> []"
  shows "api_key_from_request r = t"
  using assms bearer_round by (simp add: api_key_from_request_def)

lemma str_fields_aux_skip: "\<forall>c \<in> set w. is_space c \<Longrightarrow> str_fields_aux [] (w @ s) = str_fields_aux [] s"
  by (induction w) auto

lemma str_fields_aux_tail: "\<forall>c \<in> set w. is_space c \<Longrightarrow> str_fields_aux acc (s @ w) = str_fields_aux acc s"
proof (induction s arbitrary: acc)
  case Nil
  then show ?case using str_fields_aux_skip [of "tl w" "[]"] by (cases w) auto
qed auto

text \<open>Trimming a header value does not change its words.\<close>

lemma str_fields_trim: "str_fields (trim_space s) = str_fields s"
proof -
  have left: "str_fields_aux [] (trim_left u) = str_fields_aux [] u" for u
  proof -
    have "\<forall>c \<in> set (takeWhile is_space u). is_space c" by (auto dest: set_takeWhileD)
    from str_fields_aux_skip [OF this, of "dropWhile is_space u"] show ?thesis by (simp add: trim_left_def)
  qed
  have right: "str_fields_aux [] (trim_right u) = str_fields_aux [] u" for u
  proof -
    let ?w = "rev (takeWhile is_space (rev u))"
    have "\<forall>c \<in> set ?w. is_space c" by (auto dest: set_takeWhileD)
    moreover have "u = trim_right u @ ?w"
      unfolding trim_right_def by (metis rev_append rev_rev_ident takeWhile_dropWhile_id)
    ultimately show ?thesis using str_fields_aux_tail [of ?w "[]" "trim_right u"] by metis
  qed
  show ?thesis by (simp add: str_fields_def trim_space_def left right)
qed

text \<open>What it means that a request presents the key \<open>t\<close>: the \<open>X-API-Key\<close> header says so, or
  that header is blank and the \<open>Authorization\<close> header is the word bearer, in any case, and \<open>t\<close>.\<close>

definition presents_key :: "http_request \<Rightarrow> string \<Rightarrow> bool" where
  "presents_key r t \<longleftrightarrow> t \<noteq> [] \<and>
     (let own = trim_space (hdr_get (rq_headers r) ''X-API-Key'') in
      own = t \<or>
      own = [] \<and> (\<exists>b. str_fields (hdr_get (rq_headers r) ''Authorization'') = [b, t] \<and> to_lower b = ''bearer''))"

lemma length_two: "length xs = 2 \<longleftrightarrow> (\<exists>a b. xs = [a, b])"
  by (metis (no_types) length_0_conv length_Suc_conv numeral_2_eq_2)

lemma lower_bearer: "to_lower ''Bearer'' = ''bearer''"
  by code_simp

lemma bearer_exact:
  "t \<noteq> [] \<Longrightarrow> bearer_token_from_header h = t \<longleftrightarrow> (\<exists>b. str_fields h = [b, t] \<and> to_lower b = ''bearer'')"
proof -
  assume t: "t \<noteq> []"
  have low: "equal_fold b ''Bearer'' \<longleftrightarrow> to_lower b = ''bearer''" for b
    by (simp add: equal_fold_def lower_bearer)
  have word: "trim_space b = b" if "str_fields h = [a, b]" for a b
    using fields_two [OF that] trim_word by blast
  show ?thesis using t
    by (auto simp: bearer_token_from_header_def Let_def str_fields_trim low length_two word split: if_splits)
qed

lemma presents_key_iff: "presents_key r t \<longleftrightarrow> t \<noteq> [] \<and> api_key_from_request r = t"
  using bearer_exact [of t "hdr_get (rq_headers r) ''Authorization''"]
  by (auto simp: presents_key_def api_key_from_request_def Let_def)

text \<open>A user who accepts a key is found whenever the query for it does not fail, the table first.\<close>

lemma lookup_found:
  assumes "row_accepts st t uid \<or> yaml_accepts st t uid" and "flt 0 \<longrightarrow> as_db st = None"
  obtains v where "lookup_api_key flt st t = Some \<lparr>ak_id = v, ak_name = v, ak_is_admin = False\<rparr>"
    "row_accepts st t v \<or> yaml_accepts st t v" "row_accepts st t uid \<Longrightarrow> row_accepts st t v"
proof -
  have "lookup_api_key flt st t = lookup_api_key no_faults st t"
    using assms(2) by (auto simp: lookup_api_key_def split: option.split)
  then obtain k where k: "lookup_api_key flt st t = Some k" using lookup_complete [OF assms(1)] by auto
  have "row_accepts st t (ak_id k)" if "row_accepts st t uid"
    using that k by (auto simp: row_accepts_def lookup_api_key_def find_None_all dest!: find_Some_in
      split: if_splits option.splits)
  then show thesis using that [of "ak_id k"] k lookup_sound [OF k] by (cases k) auto
qed

text \<open>C1: no request reaches an API handler without a key that an enabled row of the table or a YAML
  user accepts; the handler then sees that user's identity, without administrator rights.  A key counts as
  presented in the \<open>X-API-Key\<close> header or, when that header is blank, as a bearer token, and a request
  that presents an accepted key in either way is let through under the identity of a user who accepts it, of the
  table where a row does; only a failing query turns it away.  Every other request, with no key or with one that nobody
  accepts, is answered 401 by the gate.\<close>

theorem auth_middleware_gate:
  "(\<forall>x. auth_middleware flt st (\<lambda>c q. (c, q)) r = Inr x \<longrightarrow>
      (\<exists>t uid. presents_key r t \<and> x = (Some \<lparr>ac_key_id = uid, ac_key_name = uid, ac_is_admin = False\<rparr>, r) \<and>
         (row_accepts st t uid \<or> yaml_accepts st t uid))) \<and>
   (\<forall>nx resp. auth_middleware flt st nx r = Inl (resp :: http_response) \<longrightarrow> rs_status resp = 401) \<and>
   (\<forall>(nx :: auth_context option \<Rightarrow> http_request \<Rightarrow> 'a) t uid. presents_key r t \<longrightarrow>
      row_accepts st t uid \<or> yaml_accepts st t uid \<longrightarrow> \<not> flt 0 \<or> as_db st = None \<longrightarrow>
      (\<exists>v. auth_middleware flt st nx r = Inr (nx (Some \<lparr>ac_key_id = v, ac_key_name = v, ac_is_admin = False\<rparr>) r) \<and>
         (row_accepts st t v \<or> yaml_accepts st t v) \<and> (row_accepts st t uid \<longrightarrow> row_accepts st t v))) \<and>
   (\<forall>nx :: auth_context option \<Rightarrow> http_request \<Rightarrow> 'a.
      (\<forall>t uid. presents_key r t \<longrightarrow> \<not> row_accepts st t uid \<and> \<not> yaml_accepts st t uid) \<or> flt 0 \<and> as_db st \<noteq> None \<longrightarrow>
      (\<exists>resp. auth_middleware flt st nx r = Inl resp \<and> rs_status resp = 401)) \<and>
   (\<forall>t. t \<noteq> [] \<longrightarrow> (\<forall>c \<in> set t. \<not> is_space c) \<longrightarrow>
      trim_space (hdr_get (rq_headers r) ''X-API-Key'') = t \<or>
      trim_space (hdr_get (rq_headers r) ''X-API-Key'') = [] \<and>
        hdr_get (rq_headers r) ''Authorization'' = ''Bearer '' @ t \<longrightarrow> presents_key r t)"
proof (intro conjI allI impI)
  fix x assume "auth_middleware flt st (\<lambda>c q. (c, q)) r = Inr x"
  then obtain k where k: "lookup_api_key flt st (api_key_from_request r) = Some k" "api_key_from_request r \<noteq> []"
      "x = (Some \<lparr>ac_key_id = ak_id k, ac_key_name = ak_name k, ac_is_admin = ak_is_admin k\<rparr>, r)"
    by (auto simp: auth_middleware_Inr)
  with lookup_sound [OF k(1)]
  show "\<exists>t uid. presents_key r t \<and> x = (Some \<lparr>ac_key_id = uid, ac_key_name = uid, ac_is_admin = False\<rparr>, r) \<and>
         (row_accepts st t uid \<or> yaml_accepts st t uid)"
    by (intro exI [of _ "api_key_from_request r"] exI [of _ "ak_id k"]) (simp add: presents_key_iff)
next
  fix nx :: "auth_context option \<Rightarrow> http_request \<Rightarrow> 'b" and resp :: http_response
  assume "auth_middleware flt st nx r = Inl resp"
  then show "rs_status resp = 401" by (rule auth_middleware_Inl [THEN conjunct1])
next
  fix nx :: "auth_context option \<Rightarrow> http_request \<Rightarrow> 'a" and t uid
  assume t: "presents_key r t" and a: "row_accepts st t uid \<or> yaml_accepts st t uid" and f: "\<not> flt 0 \<or> as_db st = None"
  from f have "flt 0 \<longrightarrow> as_db st = None" by blast
  from lookup_found [of st t uid flt, OF a this] obtain v where
    v: "lookup_api_key flt st t = Some \<lparr>ak_id = v, ak_name = v, ak_is_admin = False\<rparr>"
      "row_accepts st t v \<or> yaml_accepts st t v" "row_accepts st t uid \<Longrightarrow> row_accepts st t v" by blast
  have "api_key_from_request r = t" "t \<noteq> []" using t by (simp_all add: presents_key_iff)
  with v show "\<exists>v. auth_middleware flt st nx r = Inr (nx (Some \<lparr>ac_key_id = v, ac_key_name = v, ac_is_admin = False\<rparr>) r) \<and>
      (row_accepts st t v \<or> yaml_accepts st t v) \<and> (row_accepts st t uid \<longrightarrow> row_accepts st t v)"
    by (intro exI [of _ v]) (simp add: auth_middleware_def)
next
  fix nx :: "auth_context option \<Rightarrow> http_request \<Rightarrow> 'a"
  assume n: "(\<forall>t uid. presents_key r t \<longrightarrow> \<not> row_accepts st t uid \<and> \<not> yaml_accepts st t uid) \<or> flt 0 \<and> as_db st \<noteq> None"
  have "lookup_api_key flt st (api_key_from_request r) = None" if "api_key_from_request r \<noteq> []"
  proof (rule ccontr)
    assume "lookup_api_key flt st (api_key_from_request r) \<noteq> None"
    then obtain k where k: "lookup_api_key flt st (api_key_from_request r) = Some k" by blast
    then have "\<not> (flt 0 \<and> as_db st \<noteq> None)" by (auto simp: lookup_api_key_def split: option.splits)
    then show False using n lookup_sound [OF k] that by (auto simp: presents_key_iff)
  qed
  then show "\<exists>resp. auth_middleware flt st nx r = Inl resp \<and> rs_status resp = 401"
    by (auto simp: auth_middleware_def Let_def error_response_def)
next
  fix t assume t: "t \<noteq> []" "\<forall>c \<in> set t. \<not> is_space c"
    and h: "trim_space (hdr_get (rq_headers r) ''X-API-Key'') = t \<or>
      trim_space (hdr_get (rq_headers r) ''X-API-Key'') = [] \<and> hdr_get (rq_headers r) ''Authorization'' = ''Bearer '' @ t"
  show "presents_key r t"
    using h t fields_bearer [OF t(2,1)] lower_bearer by (auto simp: presents_key_def)
qed

definition sample_request :: http_request where
  "sample_request = \<lparr>rq_method = ''GET'', rq_path = ''/'', rq_query = [],
     rq_headers = [(''Authorization'', [''Bearer k''])], rq_remote = [], rq_body = []\<rparr>"

definition sample_keyed :: http_request where
  "sample_keyed = sample_request\<lparr>rq_headers := [(''X-Api-Key'', [''k''])]\<rparr>"

text \<open>Both ways of presenting the key \<open>k\<close> of the user \<open>bob\<close>, and a request without a key.\<close>

theorem auth_middleware_gate_witness:
  "auth_middleware no_faults sample_auth2 (\<lambda>c _. c) sample_request
      = Inr (Some \<lparr>ac_key_id = ''bob'', ac_key_name = ''bob'', ac_is_admin = False\<rparr>) \<and>
   auth_middleware no_faults sample_auth2 (\<lambda>c _. c) sample_keyed
      = Inr (Some \<lparr>ac_key_id = ''bob'', ac_key_name = ''bob'', ac_is_admin = False\<rparr>) \<and>
   (\<exists>resp. auth_middleware no_faults sample_auth2 (\<lambda>c _. c) (sample_request\<lparr>rq_headers := []\<rparr>) = Inl resp \<and>
      rs_status resp = 401)"
proof -
  note hd = sample_request_def sample_keyed_def hdr_get_def canonical_key_def upper_char_def lower_char_def gm_get_def
  have sp: "\<forall>c \<in> set ''k''. \<not> is_space c" "''k'' \<noteq> []" by (simp_all add: is_space_def)
  have tk: "trim_space ''k'' = ''k''" by (rule trim_word) (simp add: is_space_def)
  have blank: "trim_space (hdr_get (rq_headers sample_request) ''X-API-Key'') = []"
      "hdr_get (rq_headers sample_request) ''Authorization'' = ''Bearer '' @ ''k''"
      "trim_space (hdr_get (rq_headers sample_keyed) ''X-API-Key'') = ''k''"
    by (simp_all add: hd tk) (code_simp)
  have pres: "presents_key sample_request ''k''" "presents_key sample_keyed ''k''"
    using auth_middleware_gate [of no_faults sample_auth2 sample_request, THEN conjunct2, THEN conjunct2, THEN conjunct2, THEN conjunct2]
      auth_middleware_gate [of no_faults sample_auth2 sample_keyed, THEN conjunct2, THEN conjunct2, THEN conjunct2, THEN conjunct2] sp blank
    by blast+
  have acc: "row_accepts sample_auth2 ''k'' ''bob'' \<or> yaml_accepts sample_auth2 ''k'' ''bob''"
    by (simp add: sample_accepts)
  have who: "row_accepts sample_auth2 t v \<or> yaml_accepts sample_auth2 t v \<Longrightarrow> v = ''bob''" for t v
    by (auto simp: row_accepts_def yaml_accepts_def sample_auth2_def sample_row_def create_row_def
      marshal_user_fields_def as_users_def)
  have pass: "auth_middleware no_faults sample_auth2 (\<lambda>c _. c) r
      = Inr (Some \<lparr>ac_key_id = ''bob'', ac_key_name = ''bob'', ac_is_admin = False\<rparr>)" if "presents_key r ''k''" for r
  proof -
    have "\<not> no_faults 0 \<or> as_db sample_auth2 = None" by simp
    from auth_middleware_gate [of no_faults sample_auth2 r, THEN conjunct2, THEN conjunct2, THEN conjunct1,
        THEN spec [of _ "\<lambda>c _. c"], THEN spec [of _ "''k''"], THEN spec [of _ "''bob''"], THEN mp, OF that,
        THEN mp, OF acc, THEN mp, OF this]
    obtain v where "auth_middleware no_faults sample_auth2 (\<lambda>c _. c) r
        = Inr (Some \<lparr>ac_key_id = v, ac_key_name = v, ac_is_admin = False\<rparr>)"
        "row_accepts sample_auth2 ''k'' v \<or> yaml_accepts sample_auth2 ''k'' v" by (elim exE conjE)
    then show ?thesis using who [of "''k''" v] by simp
  qed
  have "\<not> presents_key (sample_request\<lparr>rq_headers := []\<rparr>) t" for t
    by (cases t) (simp_all add: presents_key_def hd str_fields_def Let_def)
  then have "(\<forall>t uid. presents_key (sample_request\<lparr>rq_headers := []\<rparr>) t \<longrightarrow>
      \<not> row_accepts sample_auth2 t uid \<and> \<not> yaml_accepts sample_auth2 t uid) \<or> no_faults 0 \<and> as_db sample_auth2 \<noteq> None"
    by simp
  note auth_middleware_gate [of no_faults sample_auth2 "sample_request\<lparr>rq_headers := []\<rparr>", THEN conjunct2,
    THEN conjunct2, THEN conjunct2, THEN conjunct1, THEN spec [of _ "\<lambda>c _. c"], THEN mp, OF this]
  then show ?thesis using pass pres by blast
qed

text \<open>The administration gate lets a request through exactly when the SHA-256 digest of its
  token is the configured one; with no digest configured it admits nobody, and it answers 403.\<close>

theorem admin_middleware_gate:
  "((\<exists>x. admin_middleware st nx ctx r = Inr (x :: 'a)) \<longleftrightarrow>
      admin_token_from_request r \<noteq> [] \<and>
      hex_decode (cfg_admin_token_hash (as_cfg st)) = Some (sha256 (admin_token_from_request r))) \<and>
   (cfg_admin_token_hash (as_cfg st) = [] \<longrightarrow> (\<exists>resp. admin_middleware st nx ctx r = Inl resp)) \<and>
   (\<forall>resp. admin_middleware st nx ctx r = Inl resp \<longrightarrow> rs_status resp = 403)"
proof -
  have "hex_decode [] \<noteq> Some (sha256 raw)" for raw
    using length_sha256 [of raw] by (auto simp del: length_sha256)
  then have "check_admin_token st raw \<longleftrightarrow>
      hex_decode (cfg_admin_token_hash (as_cfg st)) = Some (sha256 raw)" for raw
    by (simp add: check_admin_token_def)
  moreover have "cfg_admin_token_hash (as_cfg st) = [] \<Longrightarrow> \<not> check_admin_token st raw" for raw
    by (simp add: check_admin_token_def)
  ultimately show ?thesis by (simp add: admin_middleware_def Let_def)
qed

theorem admin_middleware_gate_witness:
  "\<exists>resp. admin_middleware (apply_admin_token_hash sample_auth2 []) (\<lambda>_ _. 0 :: nat) None sample_request
     = Inl resp \<and> rs_status resp = 403"
  using admin_middleware_gate [of "apply_admin_token_hash sample_auth2 []" "\<lambda>_ _. 0 :: nat" None sample_request]
  by (simp add: apply_admin_token_hash_def) blast

end
