(* ===== verification/RateLimit.thy ===== *)
theory RateLimit
  imports AuthMiddleware
begin

text \<open>
  internal/ratelimit/limiter.go and middleware.go: the token bucket, the resolution of a key's
  settings, the local and the Redis backend, the limiter store and the middleware.  Times are
  monotonic nanoseconds, an argument of every operation that reads the clock; floating-point
  values are finite (the configuration holds no infinity or NaN) and rounded after every operation.
\<close>

section \<open>Token bucket\<close>

record token_bucket =
  tb_capacity :: real
  tb_tokens :: real
  tb_rate :: real
  tb_last :: int

definition new_token_bucket :: "int \<Rightarrow> real \<Rightarrow> real \<Rightarrow> token_bucket" where
  "new_token_bucket now capacity rate =
     \<lparr>tb_capacity = max 0 capacity, tb_tokens = capacity, tb_rate = max 0 rate, tb_last = now\<rparr>"

text \<open>\<open>time.Time.Sub\<close>: the difference, saturated at the bounds of a duration.\<close>

definition time_sub :: "int \<Rightarrow> int \<Rightarrow> int" where
  "time_sub a b = max (- (2 ^ 63)) (min max_int (a - b))"

definition tb_refill :: "int \<Rightarrow> token_bucket \<Rightarrow> token_bucket" where
  "tb_refill now b =
     (let elapsed = duration_seconds (time_sub now (tb_last b)) in
      b\<lparr>tb_tokens := min (tb_capacity b) (fl64 (tb_tokens b + fl64 (elapsed * tb_rate b))),
        tb_last := now\<rparr>)"

definition tb_take :: "int \<Rightarrow> int \<Rightarrow> token_bucket \<Rightarrow> bool \<times> token_bucket" where
  "tb_take now n b =
     (if n \<le> 0 then (True, b)
      else (let b' = tb_refill now b in
        if fl64 (of_int n) \<le> tb_tokens b'
        then (True, b'\<lparr>tb_tokens := fl64 (tb_tokens b' - fl64 (of_int n))\<rparr>)
        else (False, b')))"

text \<open>\<open>int(x)\<close>: truncation, and on amd64 the smallest integer when the value does not fit.\<close>

definition f64_to_int :: "real \<Rightarrow> int" where
  "f64_to_int x =
     (let n = (if 0 \<le> x then \<lfloor>x\<rfloor> else \<lceil>x\<rceil>) in if - (2 ^ 63) \<le> n \<and> n < 2 ^ 63 then n else - (2 ^ 63))"

definition retry_after_seconds :: "token_bucket \<Rightarrow> int" where
  "retry_after_seconds b =
     (if tb_rate b \<le> 0 then 0
      else (let needed = fl64 (1 - tb_tokens b) in
        if needed \<le> 0 then 0
        else f64_to_int (of_int \<lceil>fl64 (needed / tb_rate b)\<rceil>)))"

section \<open>Settings of a key\<close>

definition override_settings :: "rate_limit_cfg \<Rightarrow> real \<times> int \<times> int \<Rightarrow> real \<times> int \<times> int" where
  "override_settings rl s = (case s of (rate, burst, ttl) \<Rightarrow>
     (if 0 < rlc_rate rl then rlc_rate rl else rate,
      if 0 < rlc_burst rl then rlc_burst rl else burst,
      if 0 < rlc_ttl rl then rlc_ttl rl else ttl))"

definition default_settings :: "config \<Rightarrow> real \<times> int \<times> int" where
  "default_settings c =
     (default_rate (cfg_rate_limit c), default_burst (cfg_rate_limit c), default_ttl (cfg_rate_limit c))"

definition config_settings :: "config \<Rightarrow> string \<Rightarrow> real \<times> int \<times> int" where
  "config_settings c key =
     (case gm_get (cfg_users c) key of
        Some uc \<Rightarrow> (case rate_limit uc of
            Some rl \<Rightarrow> override_settings rl (default_settings c)
          | None \<Rightarrow> default_settings c)
      | None \<Rightarrow> default_settings c)"

section \<open>Backends\<close>

record local_backend =
  lb_cfg :: "config option"
  lb_buckets :: "token_bucket gomap"

definition new_local_backend :: "config option \<Rightarrow> local_backend" where
  "new_local_backend c = \<lparr>lb_cfg = c, lb_buckets = []\<rparr>"

definition get_or_create_bucket ::
  "int \<Rightarrow> local_backend \<Rightarrow> string \<Rightarrow> real \<Rightarrow> int \<Rightarrow> token_bucket \<times> local_backend" where
  "get_or_create_bucket now b key rate burst =
     (case gm_get (lb_buckets b) key of
        Some tb \<Rightarrow> (tb, b)
      | None \<Rightarrow>
          (let tb = new_token_bucket now (fl64 (of_int burst)) rate
           in (tb, b\<lparr>lb_buckets := gm_put key tb (lb_buckets b)\<rparr>)))"

definition local_allow ::
  "int \<Rightarrow> local_backend \<Rightarrow> string \<Rightarrow> real \<Rightarrow> int \<Rightarrow> int \<Rightarrow> (bool \<times> int) \<times> local_backend" where
  "local_allow now b key rate burst ttl =
     (let (tb, b') = get_or_create_bucket now b key rate burst;
          (ok, tb') = tb_take now 1 tb;
          b'' = b'\<lparr>lb_buckets := gm_put key tb' (lb_buckets b')\<rparr>
      in if ok then ((True, 0), b'') else ((False, retry_after_seconds tb'), b''))"

text \<open>The backend's own \<open>resolveSettings\<close>, which only \<open>Cleanup\<close> uses.\<close>

definition local_settings :: "local_backend \<Rightarrow> string \<Rightarrow> real \<times> int \<times> int" where
  "local_settings b key = (case lb_cfg b of None \<Rightarrow> (0, 0, 0) | Some c \<Rightarrow> config_settings c key)"

definition local_cleanup :: "int \<Rightarrow> local_backend \<Rightarrow> local_backend" where
  "local_cleanup now b = b\<lparr>lb_buckets :=
     filter (\<lambda>(key, tb). \<not> (case local_settings b key of (_, _, ttl) \<Rightarrow> ttl < time_sub now (tb_last tb)))
       (lb_buckets b)\<rparr>"

datatype redis_error = MissingConfig | RedisAddrRequired | DialFailed

text \<open>\<open>dial addr timeout\<close> says whether the TCP connection to the Redis address is established.\<close>

definition new_redis_backend ::
  "(string \<Rightarrow> int \<Rightarrow> bool) \<Rightarrow> config option \<Rightarrow> (redis_error, config) result" where
  "new_redis_backend dial c =
     (case c of
        None \<Rightarrow> Inl MissingConfig
      | Some cfg \<Rightarrow>
          if redis_addr (cfg_rate_limit cfg) = [] then Inl RedisAddrRequired
          else if \<not> dial (redis_addr (cfg_rate_limit cfg)) (i64 (redis_timeout_sec (cfg_rate_limit cfg) * second))
            then Inl DialFailed
          else Inr cfg)"

definition redis_allow ::
  "config \<Rightarrow> string \<Rightarrow> real \<Rightarrow> int \<Rightarrow> int \<Rightarrow> (bool \<times> int) \<times> config" where
  "redis_allow b key rate burst ttl = ((True, 0), b)"

section \<open>Limiter store\<close>

datatype limiter_backend = LocalBackend local_backend | RedisBackend config

record limiter_store =
  ls_cfg :: config
  ls_auth :: "auth_store option"
  ls_backend :: limiter_backend

definition new_limiter_store ::
  "(string \<Rightarrow> int \<Rightarrow> bool) \<Rightarrow> config \<Rightarrow> auth_store option \<Rightarrow> limiter_store" where
  "new_limiter_store dial c a =
     (let local_b = LocalBackend (new_local_backend (Some c)) in
      \<lparr>ls_cfg = c, ls_auth = a, ls_backend =
        (if rl_backend (cfg_rate_limit c) = ''redis''
         then (case new_redis_backend dial (Some c) of Inr b \<Rightarrow> RedisBackend b | Inl _ \<Rightarrow> local_b)
         else local_b)\<rparr>)"

definition resolve_settings :: "faults \<Rightarrow> limiter_store \<Rightarrow> string \<Rightarrow> real \<times> int \<times> int" where
  "resolve_settings flt s key =
     (case Option.bind (Option.bind (ls_auth s) (\<lambda>a. get_user_config flt a key)) rate_limit of
        Some rl \<Rightarrow> override_settings rl (default_settings (ls_cfg s))
      | None \<Rightarrow> config_settings (ls_cfg s) key)"

definition backend_allow ::
  "int \<Rightarrow> limiter_backend \<Rightarrow> string \<Rightarrow> real \<Rightarrow> int \<Rightarrow> int \<Rightarrow> (bool \<times> int) \<times> limiter_backend" where
  "backend_allow now b key rate burst ttl =
     (case b of
        LocalBackend l \<Rightarrow> (case local_allow now l key rate burst ttl of (r, l') \<Rightarrow> (r, LocalBackend l'))
      | RedisBackend c \<Rightarrow> (case redis_allow c key rate burst ttl of (r, c') \<Rightarrow> (r, RedisBackend c')))"

definition store_allow :: "faults \<Rightarrow> int \<Rightarrow> limiter_store \<Rightarrow> string \<Rightarrow> (bool \<times> int) \<times> limiter_store" where
  "store_allow flt now s key =
     (case resolve_settings flt s key of (rate, burst, ttl) \<Rightarrow>
       (case backend_allow now (ls_backend s) key rate burst ttl of (r, b) \<Rightarrow> (r, s\<lparr>ls_backend := b\<rparr>)))"

definition store_get_or_create ::
  "faults \<Rightarrow> int \<Rightarrow> limiter_store \<Rightarrow> string \<Rightarrow> token_bucket option \<times> limiter_store" where
  "store_get_or_create flt now s key =
     (case ls_backend s of
        LocalBackend l \<Rightarrow>
          (case resolve_settings flt s key of (rate, burst, _) \<Rightarrow>
            (case get_or_create_bucket now l key rate burst of
               (tb, l') \<Rightarrow> (Some tb, s\<lparr>ls_backend := LocalBackend l'\<rparr>)))
      | RedisBackend _ \<Rightarrow> (None, s))"

definition store_get_bucket :: "limiter_store \<Rightarrow> string \<Rightarrow> token_bucket option" where
  "store_get_bucket s key =
     (case ls_backend s of LocalBackend l \<Rightarrow> gm_get (lb_buckets l) key | RedisBackend _ \<Rightarrow> None)"

definition store_cleanup :: "int \<Rightarrow> limiter_store \<Rightarrow> limiter_store" where
  "store_cleanup now s =
     (case ls_backend s of
        LocalBackend l \<Rightarrow> s\<lparr>ls_backend := LocalBackend (local_cleanup now l)\<rparr>
      | RedisBackend _ \<Rightarrow> s)"

section \<open>Middleware\<close>

definition rate_middleware ::
  "faults \<Rightarrow> int \<Rightarrow> (auth_context option \<Rightarrow> http_request \<Rightarrow> 'a) \<Rightarrow> limiter_store
     \<Rightarrow> auth_context option \<Rightarrow> http_request \<Rightarrow> (http_response + 'a) \<times> limiter_store" where
  "rate_middleware flt now next_handler s ctx r =
     (case ctx of
        None \<Rightarrow> (Inr (next_handler ctx r), s)
      | Some ac \<Rightarrow>
          (case store_allow flt now s (ac_key_id ac) of
             ((ok, retry), s') \<Rightarrow>
               if \<not> ok then
                 (Inl ((error_response 429 ''rate limit exceeded'')
                    \<lparr>rs_headers := hdr_set ''Content-Type'' ''application/json''
                       (hdr_set ''Retry-After'' (itoa retry) [])\<rparr>), s')
               else (Inr (next_handler ctx r), s')))"

end
