(* ===== verification/RateLimitProps.thy ===== *)
theory RateLimitProps
  imports RateLimit
begin

text \<open>
  Correctness of the rate limiter: the bucket's invariant, the bound on what a bucket admits over
  time with every rounding accounted for, the waiting time it announces, the isolation of the
  keys from each other, stated once for every backend as a locale, and the histories of requests and clean-ups of the
  local limiter: how much a key is granted in any window, and that clean-ups are invisible to it.
\<close>

section \<open>Rounding\<close>

definition uu :: real where
  "uu = 1 / 2 ^ 53"

lemma uu_pos [simp]: "0 < uu" "0 \<le> uu" "uu \<le> 1"
  by (simp_all add: uu_def)

lemma fl64_le_uu: "0 \<le> x \<Longrightarrow> fl64 x \<le> x * (1 + uu)"
  using fl64_le_err [of x] by (simp add: uu_def)

lemma fl64_ge_uu: "0 \<le> x \<Longrightarrow> x * (1 - uu) \<le> fl64 x"
  using fl64_err [of x] by (simp add: uu_def algebra_simps abs_if split: if_splits)

lemma uu_small: "(1 + uu) ^ 4 \<le> 1 + 1 / 2 ^ 50"
  by (simp add: uu_def power_divide field_simps)

lemma duration_seconds_le:
  assumes "0 \<le> d"
  shows "duration_seconds d \<le> of_int d / 1000000000 * (1 + uu) ^ 2"
proof -
  let ?q = "real_of_int (d div 1000000000)" and ?r = "real_of_int (d mod 1000000000) / 1000000000"
  have q: "0 \<le> ?q" using assms by (simp add: pos_imp_zdiv_nonneg_iff)
  have r: "0 \<le> ?r" by simp
  have d: "of_int d / 1000000000 = ?q + ?r"
  proof -
    have "d = (d div 1000000000) * 1000000000 + d mod 1000000000" by simp
    then have "real_of_int d = real_of_int (d div 1000000000) * 1000000000 + real_of_int (d mod 1000000000)"
      by (metis of_int_add of_int_mult of_int_numeral)
    then show ?thesis by simp
  qed
  have "duration_seconds d = fl64 (?q + fl64 ?r)"
    using assms by (simp add: duration_seconds_def go_div_nonneg go_mod_nonneg)
  also have "\<dots> \<le> (?q + fl64 ?r) * (1 + uu)" using q r by (intro fl64_le_uu) simp
  also have "\<dots> \<le> (?q * (1 + uu) + ?r * (1 + uu)) * (1 + uu)"
  proof (intro mult_right_mono add_mono)
    show "?q \<le> ?q * (1 + uu)" using q by (simp add: mult_le_cancel_left1)
    show "fl64 ?r \<le> ?r * (1 + uu)" using r by (rule fl64_le_uu)
  qed simp
  also have "\<dots> = (?q + ?r) * (1 + uu) ^ 2" by (simp add: power2_eq_square algebra_simps)
  finally show ?thesis unfolding d .
qed

section \<open>The bucket's invariant\<close>

definition tb_ok :: "token_bucket \<Rightarrow> bool" where
  "tb_ok b \<longleftrightarrow> 0 \<le> tb_tokens b \<and> tb_tokens b \<le> tb_capacity b \<and> 0 \<le> tb_rate b \<and> is_f64 (tb_capacity b)"

lemma tb_ok_new [inv_intros]: "0 \<le> capacity \<Longrightarrow> is_f64 capacity \<Longrightarrow> tb_ok (new_token_bucket now capacity rate)"
  by (simp add: tb_ok_def new_token_bucket_def)

lemma time_sub_nonneg: "b \<le> a \<Longrightarrow> 0 \<le> time_sub a b"
  by (simp add: time_sub_def max_int_def)

lemma time_sub_le: "b \<le> a \<Longrightarrow> time_sub a b \<le> a - b"
  by (simp add: time_sub_def)

lemma tb_refill_ok [inv_intros]: "tb_ok b \<Longrightarrow> tb_last b \<le> now \<Longrightarrow> tb_ok (tb_refill now b)"
  using duration_seconds_nonneg [OF time_sub_nonneg, of "tb_last b" now]
  by (simp add: tb_ok_def tb_refill_def Let_def)

lemma tb_take_ok [inv_intros]: "tb_ok b \<Longrightarrow> tb_last b \<le> now \<Longrightarrow> tb_ok (snd (tb_take now n b))"
proof -
  assume b: "tb_ok b" "tb_last b \<le> now"
  let ?b = "tb_refill now b" and ?n = "fl64 (of_int n) :: real"
  have r: "tb_ok ?b" using b by (rule tb_refill_ok)
  show ?thesis
  proof (cases "0 < n \<and> ?n \<le> tb_tokens ?b")
    case True
    have "0 \<le> ?n" using True by simp
    then have "fl64 (tb_tokens ?b - ?n) \<le> tb_capacity ?b"
      using r by (intro fl64_le_cap) (auto simp: tb_ok_def)
    then show ?thesis using True r by (simp add: tb_take_def Let_def tb_ok_def)
  qed (use b r in \<open>auto simp: tb_take_def Let_def\<close>)
qed

section \<open>Throughput\<close>

fun take_run :: "int list \<Rightarrow> token_bucket \<Rightarrow> bool list \<times> token_bucket" where
  "take_run [] b = ([], b)"
| "take_run (t # ts) b =
     (let (ok, b') = tb_take t 1 b; (oks, b'') = take_run ts b' in (ok # oks, b''))"

definition granted :: "bool list \<Rightarrow> nat" where
  "granted oks = count_list oks True"

lemma granted_simps [simp]: "granted [] = 0" "granted (x # xs) = (if x then 1 else 0) + granted xs"
  by (simp_all add: granted_def)

lemma take_keeps [simp]:
  "tb_capacity (snd (tb_take now n b)) = tb_capacity b" "tb_rate (snd (tb_take now n b)) = tb_rate b"
  by (simp_all add: tb_take_def tb_refill_def Let_def)

lemma take_last: "0 < n \<Longrightarrow> tb_last (snd (tb_take now n b)) = now"
  by (simp add: tb_take_def tb_refill_def Let_def)

text \<open>One refill adds at most what the elapsed time is worth, and the roundings.\<close>

lemma refill_le:
  assumes "tb_ok b" "tb_last b \<le> now"
  shows "tb_tokens (tb_refill now b) \<le> tb_tokens b + tb_capacity b * uu
     + of_int (now - tb_last b) / 1000000000 * tb_rate b * (1 + 1 / 2 ^ 50)"
proof -
  let ?d = "time_sub now (tb_last b)" and ?D = "real_of_int (now - tb_last b) / 1000000000"
  let ?e = "duration_seconds ?d" and ?r = "tb_rate b" and ?t = "tb_tokens b"
  have d: "0 \<le> ?d" by (rule time_sub_nonneg [OF assms(2)])
  have e: "0 \<le> ?e" by (rule duration_seconds_nonneg [OF d])
  have r: "0 \<le> ?r" "0 \<le> ?t" "?t \<le> tb_capacity b" using assms(1) by (auto simp: tb_ok_def)
  have p: "0 \<le> ?e * ?r" using e r by simp
  have D: "?e \<le> ?D * (1 + uu) ^ 2"
  proof -
    have "?e \<le> of_int ?d / 1000000000 * (1 + uu) ^ 2" by (rule duration_seconds_le [OF d])
    also have "\<dots> \<le> ?D * (1 + uu) ^ 2"
      using time_sub_le [OF assms(2)] by (intro mult_right_mono divide_right_mono) auto
    finally show ?thesis .
  qed
  have "tb_tokens (tb_refill now b) \<le> fl64 (?t + fl64 (?e * ?r))" by (simp add: tb_refill_def Let_def)
  also have "\<dots> \<le> (?t + fl64 (?e * ?r)) * (1 + uu)" using r p by (intro fl64_le_uu) simp
  also have "\<dots> \<le> (?t + ?e * ?r * (1 + uu)) * (1 + uu)"
    using fl64_le_uu [OF p] by (intro mult_right_mono add_left_mono) auto
  also have "\<dots> = ?t + ?t * uu + ?e * (?r * (1 + uu) ^ 2)" by (simp add: power2_eq_square algebra_simps)
  also have "\<dots> \<le> ?t + tb_capacity b * uu + (?D * (1 + uu) ^ 2) * (?r * (1 + uu) ^ 2)"
    using r D by (intro add_mono mult_right_mono) auto
  also have "(?D * (1 + uu) ^ 2) * (?r * (1 + uu) ^ 2) = ?D * ?r * (1 + uu) ^ 4" by (simp add: eval_nat_numeral)
  also have "\<dots> \<le> ?D * ?r * (1 + 1 / 2 ^ 50)"
    using assms(2) r by (intro mult_left_mono uu_small) auto
  finally show ?thesis by simp
qed

text \<open>A grant takes one token, up to the rounding of the subtraction.\<close>

lemma take_le:
  assumes "tb_ok b" "tb_last b \<le> now"
  shows "tb_tokens (snd (tb_take now 1 b)) + (if fst (tb_take now 1 b) then 1 else 0)
     \<le> tb_tokens (tb_refill now b) + tb_capacity b * uu"
proof -
  let ?b = "tb_refill now b"
  have ok: "tb_ok ?b" using assms by (rule tb_refill_ok)
  have c: "tb_capacity ?b = tb_capacity b" by (simp add: tb_refill_def Let_def)
  have le: "0 \<le> tb_tokens ?b" "tb_tokens ?b \<le> tb_capacity b" using ok by (auto simp: tb_ok_def c)
  show ?thesis
  proof (cases "1 \<le> tb_tokens ?b")
    case True
    then have "fl64 (tb_tokens ?b - 1) \<le> (tb_tokens ?b - 1) * (1 + uu)" by (intro fl64_le_uu) simp
    also have "\<dots> = tb_tokens ?b - 1 + (tb_tokens ?b - 1) * uu" by (simp add: algebra_simps)
    also have "\<dots> \<le> tb_tokens ?b - 1 + tb_capacity b * uu"
      using le by (intro add_left_mono mult_right_mono) auto
    finally show ?thesis using True by (simp add: tb_take_def Let_def)
  next
    case False
    have "0 \<le> tb_capacity b * uu" using le by simp
    then show ?thesis using False by (simp add: tb_take_def Let_def)
  qed
qed

lemma take_run_bound:
  assumes "tb_ok b" "sorted (tb_last b # ts)"
  shows "real (granted (fst (take_run ts b))) + tb_tokens (snd (take_run ts b))
     \<le> tb_tokens b + tb_rate b * (of_int (last (tb_last b # ts) - tb_last b) / 1000000000) * (1 + 1 / 2 ^ 50)
        + 2 * real (length ts) * tb_capacity b * uu"
  using assms
proof (induction ts arbitrary: b)
  case (Cons t ts)
  let ?b = "snd (tb_take t 1 b)" and ?ok = "fst (tb_take t 1 b)"
  let ?k = "(1 + 1 / 2 ^ 50) :: real"
  have le: "tb_last b \<le> t" using Cons.prems(2) by simp
  have ok: "tb_ok ?b" by (rule tb_take_ok [OF Cons.prems(1) le])
  have last: "tb_last ?b = t" by (simp add: take_last)
  have srt: "sorted (tb_last ?b # ts)" using Cons.prems(2) by (simp add: last)
  have L: "last (tb_last b # t # ts) = last (t # ts)" by simp
  define A where "A = real_of_int (last (t # ts) - t) / 1000000000"
  define B where "B = real_of_int (t - tb_last b) / 1000000000"
  have AB: "real_of_int (last (t # ts) - tb_last b) / 1000000000 = A + B"
    by (simp add: A_def B_def diff_divide_distrib)
  have IH: "real (granted (fst (take_run ts ?b))) + tb_tokens (snd (take_run ts ?b))
      \<le> tb_tokens ?b + tb_rate b * A * ?k + 2 * real (length ts) * tb_capacity b * uu"
    using Cons.IH [OF ok srt] unfolding last take_keeps A_def .
  have st: "tb_tokens ?b + (if ?ok then 1 else 0) \<le> tb_tokens b + 2 * tb_capacity b * uu + B * tb_rate b * ?k"
    using take_le [OF Cons.prems(1) le] refill_le [OF Cons.prems(1) le] by (simp add: B_def)
  have run: "fst (take_run (t # ts) b) = ?ok # fst (take_run ts ?b)"
      "snd (take_run (t # ts) b) = snd (take_run ts ?b)"
    by (simp_all add: Let_def split: prod.split)
  have len: "2 * tb_capacity b * uu + 2 * real (length ts) * tb_capacity b * uu
      = 2 * real (length (t # ts)) * tb_capacity b * uu" by (simp add: algebra_simps)
  have mid: "B * tb_rate b * ?k + tb_rate b * A * ?k = tb_rate b * (A + B) * ?k" by (simp only: distrib_left distrib_right mult_ac add_ac)
  have "real (granted (fst (take_run (t # ts) b))) + tb_tokens (snd (take_run (t # ts) b))
      = (if ?ok then 1 else 0) + (real (granted (fst (take_run ts ?b))) + tb_tokens (snd (take_run ts ?b)))"
    unfolding run granted_simps by simp
  then show ?case unfolding L AB using IH st len mid by linarith
qed (simp add: granted_def)

section \<open>The announced waiting time\<close>

lemma take_refused:
  assumes "tb_ok b" "tb_last b \<le> now" "tb_take now 1 b = (False, b')"
  shows "b' = tb_refill now b" "0 \<le> tb_tokens b'" "tb_tokens b' < 1" "tb_last b' = now" "tb_ok b'"
proof -
  show e: "b' = tb_refill now b" using assms(3) by (simp add: tb_take_def Let_def split: if_splits)
  show ok: "tb_ok b'" unfolding e using assms(1,2) by (rule tb_refill_ok)
  show "tb_tokens b' < 1" using assms(3) by (auto simp: tb_take_def Let_def split: if_splits)
  show "0 \<le> tb_tokens b'" using ok by (simp add: tb_ok_def)
  show "tb_last b' = now" unfolding e by (simp add: tb_refill_def Let_def)
qed

lemma f64_to_int_id: "0 \<le> n \<Longrightarrow> n < 2 ^ 63 \<Longrightarrow> f64_to_int (of_int n) = n"
  by (simp add: f64_to_int_def)

lemma retry_after_value:
  assumes "0 \<le> tb_tokens b" "tb_tokens b < 1" "1 / 2 ^ 50 \<le> tb_rate b"
  shows "retry_after_seconds b = \<lceil>fl64 (fl64 (1 - tb_tokens b) / tb_rate b)\<rceil>"
    "1 \<le> retry_after_seconds b" "retry_after_seconds b \<le> 2 ^ 51"
proof -
  let ?q = "fl64 (1 - tb_tokens b)"
  have r: "0 < tb_rate b" using assms(3) by (smt (verit) zero_less_divide_1_iff zero_less_power)
  have q: "0 < ?q" "?q \<le> 1" using assms fl64_mono [of "1 - tb_tokens b" 1] by (auto intro!: fl64_pos)
  have le: "?q / tb_rate b \<le> 2 ^ 50"
  proof -
    have "?q / tb_rate b \<le> 1 / (1 / 2 ^ 50)" using q r assms(3) by (intro frac_le) auto
    then show ?thesis by simp
  qed
  have f: "0 < fl64 (?q / tb_rate b)" "fl64 (?q / tb_rate b) \<le> 2 ^ 51"
  proof -
    show "0 < fl64 (?q / tb_rate b)" using q r by (intro fl64_pos) simp
    have "fl64 (?q / tb_rate b) \<le> ?q / tb_rate b * (1 + uu)" using q r by (intro fl64_le_uu) simp
    also have "\<dots> \<le> 2 ^ 50 * (1 + 1)" using le q r by (intro mult_mono) auto
    finally show "fl64 (?q / tb_rate b) \<le> 2 ^ 51" by simp
  qed
  have c: "1 \<le> \<lceil>fl64 (?q / tb_rate b)\<rceil>" "\<lceil>fl64 (?q / tb_rate b)\<rceil> \<le> 2 ^ 51"
    using f by (simp_all add: ceiling_le_iff one_le_ceiling)
  show "retry_after_seconds b = \<lceil>fl64 (?q / tb_rate b)\<rceil>"
    using r q c by (simp add: retry_after_seconds_def Let_def f64_to_int_id)
  then show "1 \<le> retry_after_seconds b" "retry_after_seconds b \<le> 2 ^ 51" using c by simp_all
qed

lemma one_second_is_enough:
  assumes t: "0 \<le> t" "t < 1" and r: "1 / 2 ^ 50 \<le> r"
    and w: "fl64 (fl64 (1 - t) / r) \<le> of_int w"
  shows "1 \<le> fl64 (t + fl64 (of_int (w + 1) * r))"
proof -
  have r0: "0 < r" using r by (smt (verit) zero_less_divide_1_iff zero_less_power)
  have v: "0 < 1 - uu" "uu \<le> 1 / 2 ^ 53" by (simp_all add: uu_def)
  have "(1 - t) * (1 - uu) \<le> fl64 (1 - t)" using t by (intro fl64_ge_uu) simp
  moreover have "fl64 (1 - t) / r * (1 - uu) \<le> of_int w"
    using fl64_ge_uu [of "fl64 (1 - t) / r"] t r0 w by simp
  then have "fl64 (1 - t) * (1 - uu) \<le> of_int w * r"
    using r0 by (simp add: field_simps)
  ultimately have wr: "(1 - t) * (1 - uu) * (1 - uu) \<le> of_int w * r"
    using v(1) by (meson mult_right_mono less_imp_le order_trans)
  have w0: "0 \<le> of_int w * r" using wr t v(1) by (smt (verit) mult_nonneg_nonneg)
  have x: "(1 - t) * (1 - uu) * (1 - uu) + r \<le> of_int (w + 1) * r" using wr by (simp add: algebra_simps)
  have "1 - t \<le> ((1 - t) * (1 - uu) * (1 - uu) + r) * (1 - uu)"
  proof -
    have cube: "1 - 3 * uu \<le> (1 - uu) * (1 - uu) * (1 - uu)"
    proof -
      have "(1 - uu) * (1 - uu) * (1 - uu) - (1 - 3 * uu) = uu * uu * (3 - uu)" by (simp add: algebra_simps)
      moreover have "0 \<le> uu * uu * (3 - uu)" by (simp add: uu_def)
      ultimately show ?thesis by linarith
    qed
    have "(1 - t) * (1 - 3 * uu) \<le> (1 - t) * ((1 - uu) * (1 - uu) * (1 - uu))"
      using cube t by (intro mult_left_mono) auto
    moreover have "(1 - t) * (3 * uu) \<le> r * (1 - uu)"
    proof -
      have "(1 - t) * (3 * uu) \<le> 1 * (3 * uu)" using t by (intro mult_right_mono) auto
      also have "\<dots> \<le> 1 / 2 ^ 50 * (1 - uu)" by (simp add: uu_def)
      also have "\<dots> \<le> r * (1 - uu)" using r v(1) by (intro mult_right_mono) auto
      finally show ?thesis .
    qed
    moreover have "((1 - t) * (1 - uu) * (1 - uu) + r) * (1 - uu)
        = (1 - t) * ((1 - uu) * (1 - uu) * (1 - uu)) + r * (1 - uu)" by (simp add: algebra_simps)
    moreover have "(1 - t) * (1 - 3 * uu) = (1 - t) - (1 - t) * (3 * uu)" by (simp add: algebra_simps)
    ultimately show ?thesis by linarith
  qed
  also have "\<dots> \<le> of_int (w + 1) * r * (1 - uu)" using x v(1) by (intro mult_right_mono) auto
  also have "\<dots> \<le> fl64 (of_int (w + 1) * r)"
    using w0 r0 by (intro fl64_ge_uu) (simp add: algebra_simps)
  finally have "1 \<le> t + fl64 (of_int (w + 1) * r)" by simp
  then show ?thesis using fl64_mono [of 1] by simp
qed

text \<open>A refused request is told to wait at least one second, and one second more than the
  announced time is enough: the same bucket, left alone, then admits a request.  (The announced
  time itself can fall short of one token by a rounding; refill rates below 2 to the -50 are excluded.)\<close>

theorem retry_after_sufficient:
  assumes "tb_ok b" and "tb_last b \<le> now" and "tb_take now 1 b = (False, b')"
    and "1 / 2 ^ 50 \<le> tb_rate b" and "1 \<le> tb_capacity b"
    and "retry_after_seconds b' + 1 < 2 ^ 33"
  shows "1 \<le> retry_after_seconds b' \<and>
    fst (tb_take (now + (retry_after_seconds b' + 1) * second) 1 b')"
proof -
  note T = take_refused [OF assms(1-3)]
  have k: "tb_capacity b' = tb_capacity b" "tb_rate b' = tb_rate b" by (simp_all add: T(1) tb_refill_def Let_def)
  have rate: "1 / 2 ^ 50 \<le> tb_rate b'" using assms(4) by (simp add: k)
  note R = retry_after_value [OF T(2,3) rate]
  let ?w = "retry_after_seconds b'"
  have "time_sub (now + (?w + 1) * second) (tb_last b') = (?w + 1) * 1000000000"
    using R(2) assms(6) by (simp add: T(4) time_sub_def second_def max_int_def)
  then have e: "duration_seconds (time_sub (now + (?w + 1) * second) (tb_last b')) = of_int (?w + 1)"
    using duration_seconds_whole [of "?w + 1"] R(2) assms(6) by simp
  have w: "fl64 (fl64 (1 - tb_tokens b') / tb_rate b') \<le> of_int ?w" unfolding R(1) by (rule le_of_int_ceiling)
  have "1 \<le> fl64 (tb_tokens b' + fl64 (of_int (?w + 1) * tb_rate b'))"
    by (rule one_second_is_enough [OF T(2,3) rate w])
  then have "1 \<le> tb_tokens (tb_refill (now + (?w + 1) * second) b')"
    using assms(5) by (simp add: tb_refill_def Let_def e k del: of_int_add)
  then show ?thesis using R(2) by (simp add: tb_take_def Let_def)
qed

definition sample_bucket :: token_bucket where
  "sample_bucket = \<lparr>tb_capacity = 2, tb_tokens = 0, tb_rate = 1, tb_last = 0\<rparr>"

lemma sample_bucket_simps: "tb_ok sample_bucket" "tb_take 0 1 sample_bucket = (False, sample_bucket)"
  "retry_after_seconds sample_bucket = 1"
proof -
  have "is_f64 2" using fl64_numeral [of "num.Bit0 num.One"] by (simp add: is_f64_def)
  then show "tb_ok sample_bucket" by (simp add: tb_ok_def sample_bucket_def)
  show "tb_take 0 1 sample_bucket = (False, sample_bucket)"
    using duration_seconds_whole [of 0]
    by (simp add: tb_take_def tb_refill_def sample_bucket_def time_sub_def max_int_def Let_def)
  show "retry_after_seconds sample_bucket = 1"
    by (simp add: retry_after_seconds_def sample_bucket_def f64_to_int_def)
qed

theorem retry_after_sufficient_witness: "fst (tb_take (2 * second) 1 sample_bucket)"
  using retry_after_sufficient [OF sample_bucket_simps(1) _ sample_bucket_simps(2)]
  by (simp add: sample_bucket_simps(3)) (simp add: sample_bucket_def)

section \<open>The contract of a backend\<close>

text \<open>\<open>view s k\<close> is the part of the state that belongs to the key \<open>k\<close>: the answer to a key is a
  function of its own part, an answer leaves the parts of the other keys alone, and an admitted
  request is told to wait no time.\<close>

locale limiter =
  fixes allow :: "int \<Rightarrow> 's \<Rightarrow> string \<Rightarrow> real \<Rightarrow> int \<Rightarrow> int \<Rightarrow> (bool \<times> int) \<times> 's"
    and view :: "'s \<Rightarrow> string \<Rightarrow> 'v"
  assumes allow_own: "view s k = view s' k \<Longrightarrow>
      fst (allow t s k rate burst ttl) = fst (allow t s' k rate burst ttl) \<and>
      view (snd (allow t s k rate burst ttl)) k = view (snd (allow t s' k rate burst ttl)) k"
    and allow_other: "k' \<noteq> k \<Longrightarrow> view (snd (allow t s k rate burst ttl)) k' = view s k'"
    and allow_no_wait: "allow t s k rate burst ttl = ((True, w), s') \<Longrightarrow> w = 0"

text \<open>A history of requests: each with its time, its key and the settings resolved for it.\<close>

type_synonym limiter_event = "int \<times> string \<times> real \<times> int \<times> int"

fun allow_run ::
  "(int \<Rightarrow> 's \<Rightarrow> string \<Rightarrow> real \<Rightarrow> int \<Rightarrow> int \<Rightarrow> (bool \<times> int) \<times> 's) \<Rightarrow> limiter_event list \<Rightarrow> 's
     \<Rightarrow> (string \<times> bool \<times> int) list \<times> 's" where
  "allow_run allow [] s = ([], s)"
| "allow_run allow ((t, k, rate, burst, ttl) # es) s =
     (let (r, s') = allow t s k rate burst ttl; (rs, s'') = allow_run allow es s' in ((k, r) # rs, s''))"

definition event_key :: "limiter_event \<Rightarrow> string" where
  "event_key e = fst (snd e)"

context limiter
begin

lemma isolation_aux:
  "view s k = view s' k \<Longrightarrow>
   filter (\<lambda>r. fst r = k) (fst (allow_run allow es s)) =
     fst (allow_run allow (filter (\<lambda>e. event_key e = k) es) s')"
proof (induction es arbitrary: s s')
  case (Cons e es)
  obtain t k' rate burst ttl where e: "e = (t, k', rate, burst, ttl)" by (cases e)
  let ?a = "allow t s k' rate burst ttl"
  show ?case
  proof (cases "k' = k")
    case True
    let ?a' = "allow t s' k' rate burst ttl"
    have own: "fst ?a = fst ?a'" "view (snd ?a) k = view (snd ?a') k"
      using allow_own [OF Cons.prems] by (simp_all add: True)
    from Cons.IH [OF own(2)] own(1) True show ?thesis
      by (simp add: e event_key_def Let_def split: prod.split) (metis fst_conv snd_conv)
  next
    case False
    have "view (snd ?a) k = view s' k" using allow_other [of k k'] False Cons.prems by simp
    from Cons.IH [OF this] False show ?thesis
      by (simp add: e event_key_def Let_def split: prod.split) (metis fst_conv snd_conv)
  qed
qed simp

lemma isolation:
  "filter (\<lambda>r. fst r = k) (fst (allow_run allow es s)) =
     fst (allow_run allow (filter (\<lambda>e. event_key e = k) es) s)"
  by (rule isolation_aux) simp

lemma no_wait: "(k, True, w) \<in> set (fst (allow_run allow es s)) \<Longrightarrow> w = 0"
proof (induction es arbitrary: s)
  case (Cons e es)
  obtain t k' rate burst ttl where e: "e = (t, k', rate, burst, ttl)" by (cases e)
  obtain r s' where a: "allow t s k' rate burst ttl = (r, s')" by (cases "allow t s k' rate burst ttl")
  from Cons.prems have "(k, True, w) = (k', r) \<or> (k, True, w) \<in> set (fst (allow_run allow es s'))"
    by (simp add: e a Let_def split: prod.splits)
  then show ?case using Cons.IH allow_no_wait a by blast
qed simp

end

lemma get_or_create_bucket_eq:
  "get_or_create_bucket now b key rate burst =
     (case gm_get (lb_buckets b) key of Some tb \<Rightarrow> tb | None \<Rightarrow> new_token_bucket now (fl64 (of_int burst)) rate,
      case gm_get (lb_buckets b) key of Some tb \<Rightarrow> b
      | None \<Rightarrow> b\<lparr>lb_buckets := gm_put key (new_token_bucket now (fl64 (of_int burst)) rate) (lb_buckets b)\<rparr>)"
  by (simp add: get_or_create_bucket_def Let_def split: option.split)

definition own_bucket :: "int \<Rightarrow> token_bucket option \<Rightarrow> real \<Rightarrow> int \<Rightarrow> token_bucket" where
  "own_bucket now tb rate burst =
     (case tb of Some tb \<Rightarrow> tb | None \<Rightarrow> new_token_bucket now (fl64 (of_int burst)) rate)"

lemma local_allow_eq:
  "fst (local_allow now b key rate burst ttl) =
     (case tb_take now 1 (own_bucket now (gm_get (lb_buckets b) key) rate burst) of
        (ok, tb) \<Rightarrow> if ok then (True, 0) else (False, retry_after_seconds tb))"
  "gm_get (lb_buckets (snd (local_allow now b key rate burst ttl))) k =
     (if k = key then Some (snd (tb_take now 1 (own_bucket now (gm_get (lb_buckets b) key) rate burst)))
      else gm_get (lb_buckets b) k)"
  by (auto simp: local_allow_def get_or_create_bucket_eq own_bucket_def Let_def
      split: option.split prod.split)

interpretation local_b: limiter local_allow "\<lambda>b. gm_get (lb_buckets b)"
proof
  fix now b key rate burst ttl w s'
  assume "local_allow now b key rate burst ttl = ((True, w), s')"
  then show "w = 0"
    using local_allow_eq(1) [of now b key rate burst ttl] by (auto split: prod.splits if_splits)
qed (simp_all add: local_allow_eq)

interpretation redis_b: limiter "\<lambda>_. redis_allow" "\<lambda>_ _. ()"
  by unfold_locales (auto simp: redis_allow_def)

definition backend_view :: "limiter_backend \<Rightarrow> string \<Rightarrow> token_bucket option option" where
  "backend_view b k = (case b of LocalBackend l \<Rightarrow> Some (gm_get (lb_buckets l) k) | RedisBackend _ \<Rightarrow> None)"

lemma backend_allow_fst:
  "fst (backend_allow now b key rate burst ttl) =
     (case b of LocalBackend l \<Rightarrow> fst (local_allow now l key rate burst ttl) | RedisBackend _ \<Rightarrow> (True, 0))"
  by (simp add: backend_allow_def redis_allow_def split: limiter_backend.split prod.split)

lemma backend_allow_view:
  "backend_view (snd (backend_allow now b key rate burst ttl)) k =
     (case b of LocalBackend l \<Rightarrow> Some (gm_get (lb_buckets (snd (local_allow now l key rate burst ttl))) k)
      | RedisBackend _ \<Rightarrow> None)"
  by (simp add: backend_allow_def redis_allow_def backend_view_def split: limiter_backend.split prod.split)

interpretation lim: limiter backend_allow backend_view
proof
  fix now b key rate burst ttl w s'
  assume "backend_allow now b key rate burst ttl = ((True, w), s')"
  then show "w = 0"
    using local_b.allow_no_wait
    by (auto simp: backend_allow_def redis_allow_def split: limiter_backend.splits prod.splits)
next
  fix s s' :: limiter_backend and k t rate burst ttl
  assume v: "backend_view s k = backend_view s' k"
  show "fst (backend_allow t s k rate burst ttl) = fst (backend_allow t s' k rate burst ttl) \<and>
      backend_view (snd (backend_allow t s k rate burst ttl)) k = backend_view (snd (backend_allow t s' k rate burst ttl)) k"
    unfolding backend_allow_fst backend_allow_view
    using v by (cases s; cases s') (simp_all add: backend_view_def local_allow_eq)
next
  fix s :: limiter_backend and k k' :: string and t :: int and rate :: real and burst ttl :: int
  assume "k' \<noteq> k"
  then show "backend_view (snd (backend_allow t s k rate burst ttl)) k' = backend_view s k'"
    unfolding backend_allow_view by (simp add: backend_view_def local_allow_eq split: limiter_backend.split)
qed

section \<open>Keys\<close>

definition answers_of :: "string \<Rightarrow> (string \<times> bool \<times> int) list \<Rightarrow> bool list" where
  "answers_of k rs = map (\<lambda>r. fst (snd r)) (filter (\<lambda>r. fst r = k) rs)"

definition sample_events :: "limiter_event list" where
  "sample_events = [(0, ''a'', 1, 2, 0), (0, ''b'', 1, 2, 0), (second, ''a'', 1, 2, 0)]"

text \<open>C29: the answers that a key gets depend only on its own requests: interleaving the requests of
  any other keys, with either backend, changes none of them; an admitted request is never told to wait.\<close>

theorem limiter_isolation:
  "filter (\<lambda>r. fst r = k) (fst (allow_run backend_allow es b)) =
     fst (allow_run backend_allow (filter (\<lambda>e. event_key e = k) es) b) \<and>
   (\<forall>w. (k, True, w) \<in> set (fst (allow_run backend_allow es b)) \<longrightarrow> w = 0)"
  using lim.isolation lim.no_wait by blast

theorem limiter_isolation_witness:
  "\<exists>w. (''a'', True, w) \<in> set (fst (allow_run backend_allow sample_events (RedisBackend sample_config))) \<and> w = 0"
proof -
  have "(''a'', True, 0) \<in> set (fst (allow_run backend_allow sample_events (RedisBackend sample_config)))"
    by (simp add: sample_events_def backend_allow_def redis_allow_def)
  then show ?thesis using limiter_isolation [of "''a''" sample_events "RedisBackend sample_config"] by blast
qed

section \<open>Clean-up and the middleware\<close>

lemma cleanup_get:
  "gm_ok (lb_buckets l) \<Longrightarrow> gm_get (lb_buckets (local_cleanup now l)) k =
     (case gm_get (lb_buckets l) k of
        Some tb \<Rightarrow> if snd (snd (local_settings l k)) < time_sub now (tb_last tb) then None else Some tb
      | None \<Rightarrow> None)"
  using gm_get_filter [of "lb_buckets l" "\<lambda>k tb. \<not> snd (snd (local_settings l k)) < time_sub now (tb_last tb)" k]
  by (simp add: local_cleanup_def case_prod_unfold split: option.split)

lemma duration_seconds_ge:
  assumes "0 \<le> d"
  shows "of_int d / 1000000000 * (1 - uu) ^ 2 \<le> duration_seconds d"
proof -
  let ?q = "real_of_int (d div 1000000000)" and ?r = "real_of_int (d mod 1000000000) / 1000000000"
  have q: "0 \<le> ?q" using assms by (simp add: pos_imp_zdiv_nonneg_iff)
  have r: "0 \<le> ?r" by simp
  have v: "0 \<le> 1 - uu" "1 - uu \<le> 1" by (simp_all add: uu_def)
  have d: "of_int d / 1000000000 = ?q + ?r"
  proof -
    have "d = (d div 1000000000) * 1000000000 + d mod 1000000000" by simp
    then have "real_of_int d = real_of_int (d div 1000000000) * 1000000000 + real_of_int (d mod 1000000000)"
      by (metis of_int_add of_int_mult of_int_numeral)
    then show ?thesis by simp
  qed
  have "(?q + ?r) * (1 - uu) ^ 2 = (?q * (1 - uu) + ?r * (1 - uu)) * (1 - uu)"
    by (simp add: power2_eq_square algebra_simps)
  also have "\<dots> \<le> (?q + fl64 ?r) * (1 - uu)"
    using q v fl64_ge_uu [OF r] by (intro mult_right_mono add_mono) (auto simp: mult_left_le)
  also have "\<dots> \<le> fl64 (?q + fl64 ?r)" using q r by (intro fl64_ge_uu) simp
  also have "\<dots> = duration_seconds d"
    using assms by (simp add: duration_seconds_def go_div_nonneg go_mod_nonneg)
  finally show ?thesis unfolding d .
qed

lemma refill_full:
  assumes "tb_ok b" "tb_last b \<le> now" "ttl < time_sub now (tb_last b)" "0 \<le> ttl"
    and "tb_capacity b * (1 + 1 / 2 ^ 50) \<le> tb_rate b * (of_int ttl / 1000000000)"
  shows "tb_tokens (tb_refill now b) = tb_capacity b"
proof -
  let ?e = "duration_seconds (time_sub now (tb_last b))" and ?r = "tb_rate b" and ?c = "tb_capacity b"
  have ok: "0 \<le> ?r" "0 \<le> tb_tokens b" "0 \<le> ?c" "is_f64 ?c" using assms(1) by (auto simp: tb_ok_def)
  have e: "0 \<le> ?e" by (rule duration_seconds_nonneg [OF time_sub_nonneg [OF assms(2)]])
  have cube: "1 \<le> (1 + 1 / 2 ^ 50) * (1 - uu) ^ 3"
    by (simp add: uu_def power3_eq_cube)
  have v: "0 \<le> 1 - uu" by (simp add: uu_def)
  have "?c * 1 \<le> ?c * ((1 + 1 / 2 ^ 50) * (1 - uu) ^ 3)" using cube ok(3) by (rule mult_left_mono)
  also have "\<dots> = (?c * (1 + 1 / 2 ^ 50)) * (1 - uu) ^ 3" by simp
  also have "\<dots> \<le> (?r * (of_int ttl / 1000000000)) * (1 - uu) ^ 3"
    using assms(5) v by (intro mult_right_mono) auto
  also have "\<dots> \<le> (?r * (of_int (time_sub now (tb_last b)) / 1000000000)) * (1 - uu) ^ 3"
    using assms(3) ok(1) v by (intro mult_right_mono mult_left_mono divide_right_mono) auto
  also have "\<dots> = (of_int (time_sub now (tb_last b)) / 1000000000 * (1 - uu) ^ 2) * ?r * (1 - uu)"
    by (simp add: power3_eq_cube power2_eq_square)
  also have "\<dots> \<le> ?e * ?r * (1 - uu)"
    using ok(1) v duration_seconds_ge [OF time_sub_nonneg [OF assms(2)]] by (intro mult_right_mono) auto
  also have "\<dots> \<le> fl64 (?e * ?r)" using e ok(1) by (intro fl64_ge_uu) simp
  finally have "?c \<le> tb_tokens b + fl64 (?e * ?r)" using ok(2) by simp
  then have "fl64 ?c \<le> fl64 (tb_tokens b + fl64 (?e * ?r))" by (rule fl64_mono)
  then show ?thesis using ok(4) by (simp add: tb_refill_def Let_def is_f64_def)
qed

lemma refill_new:
  "is_f64 c \<Longrightarrow> 0 \<le> c \<Longrightarrow> tb_refill now (new_token_bucket now c r) = new_token_bucket now c r"
  using duration_seconds_whole [of 0]
  by (simp add: tb_refill_def new_token_bucket_def time_sub_def max_int_def is_f64_def Let_def)

text \<open>
  Histories of a limiter store: requests of keys, each with the faults of the query for the user's settings, and clean-ups.
\<close>

datatype limiter_op = Ask int string faults | CleanAt int

fun op_time :: "limiter_op \<Rightarrow> int" where
  "op_time (Ask t k flt) = t"
| "op_time (CleanAt t) = t"

fun asks_for :: "string \<Rightarrow> limiter_op \<Rightarrow> bool" where
  "asks_for k (Ask t k' flt) = (k' = k)"
| "asks_for k (CleanAt t) = False"

fun cleans :: "limiter_op \<Rightarrow> bool" where
  "cleans (Ask t k flt) = False"
| "cleans (CleanAt t) = True"

fun op_run :: "limiter_op list \<Rightarrow> limiter_store \<Rightarrow> (string \<times> bool \<times> int) list \<times> limiter_store" where
  "op_run [] s = ([], s)"
| "op_run (Ask t k flt # ops) s =
     (let (r, s') = store_allow flt t s k; (rs, s'') = op_run ops s' in ((k, r) # rs, s''))"
| "op_run (CleanAt t # ops) s = op_run ops (store_cleanup t s)"

lemma op_run_ask:
  "fst (op_run (Ask t k flt # ops) s) = (k, fst (store_allow flt t s k)) # fst (op_run ops (snd (store_allow flt t s k)))"
  "snd (op_run (Ask t k flt # ops) s) = snd (op_run ops (snd (store_allow flt t s k)))"
  by (simp_all add: Let_def split: prod.split)

lemma take_run_step:
  "fst (take_run (t # ts) b) = fst (tb_take t 1 b) # fst (take_run ts (snd (tb_take t 1 b)))"
  "snd (take_run (t # ts) b) = snd (take_run ts (snd (tb_take t 1 b)))"
  by (simp_all add: Let_def split: prod.split)

text \<open>The settings of a key are the same at each of its requests.\<close>

definition constant_settings :: "string \<Rightarrow> real \<Rightarrow> int \<Rightarrow> limiter_op list \<Rightarrow> limiter_store \<Rightarrow> bool" where
  "constant_settings k rate burst ops s \<longleftrightarrow>
     (\<forall>t flt. Ask t k flt \<in> set ops \<longrightarrow> (\<exists>ttl. resolve_settings flt s k = (rate, burst, ttl)))"

text \<open>The store keeps its buckets in memory, and the key has no bucket yet or one with its settings.\<close>

definition key_ready :: "string \<Rightarrow> real \<Rightarrow> int \<Rightarrow> int \<Rightarrow> limiter_store \<Rightarrow> bool" where
  "key_ready k rate burst now s \<longleftrightarrow> (\<exists>l. ls_backend s = LocalBackend l \<and> gm_ok (lb_buckets l) \<and>
     (\<forall>tb. gm_get (lb_buckets l) k = Some tb \<longrightarrow>
        tb_ok tb \<and> tb_capacity tb = of_int burst \<and> tb_rate tb = rate \<and> tb_last tb \<le> now))"

text \<open>How long an idle bucket of the key lives, for the clean-up; and that an empty bucket refills in a time.\<close>

definition lifetime :: "limiter_store \<Rightarrow> string \<Rightarrow> int" where
  "lifetime s k = (case ls_backend s of LocalBackend l \<Rightarrow> snd (snd (local_settings l k)) | RedisBackend c \<Rightarrow> 0)"

definition refills_in :: "real \<Rightarrow> int \<Rightarrow> int \<Rightarrow> bool" where
  "refills_in rate burst ttl \<longleftrightarrow> 0 \<le> ttl \<and> of_int burst * (1 + 1 / 2 ^ 50) \<le> rate * (of_int ttl / 1000000000)"

lemma store_allow_local:
  assumes "ls_backend s = LocalBackend l" "resolve_settings flt s k = (rate, burst, ttl)"
  shows "fst (store_allow flt t s k) = fst (local_allow t l k rate burst ttl)"
    "snd (store_allow flt t s k) = s\<lparr>ls_backend := LocalBackend (snd (local_allow t l k rate burst ttl))\<rparr>"
  using assms by (simp_all add: store_allow_def backend_allow_def split: prod.split)

lemma store_cleanup_local:
  "ls_backend s = LocalBackend l \<Longrightarrow> store_cleanup t s = s\<lparr>ls_backend := LocalBackend (local_cleanup t l)\<rparr>"
  by (simp add: store_cleanup_def)

lemma resolve_backend [simp]: "resolve_settings flt (s\<lparr>ls_backend := b\<rparr>) k = resolve_settings flt s k"
  by (simp add: resolve_settings_def split: option.split)

lemma local_allow_frame:
  "lb_cfg (snd (local_allow t l k rate burst ttl)) = lb_cfg l"
  "gm_ok (lb_buckets l) \<Longrightarrow> gm_ok (lb_buckets (snd (local_allow t l k rate burst ttl)))"
  by (auto simp: local_allow_def get_or_create_bucket_eq Let_def split: prod.split option.split)

lemma local_cleanup_frame:
  "lb_cfg (local_cleanup t l) = lb_cfg l" "gm_ok (lb_buckets l) \<Longrightarrow> gm_ok (lb_buckets (local_cleanup t l))"
  by (simp_all add: local_cleanup_def gm_ok_def distinct_map_filter)

lemma own_bucket_ready:
  assumes "\<forall>tb. x = Some tb \<longrightarrow> tb_ok tb \<and> tb_capacity tb = of_int burst \<and> tb_rate tb = rate \<and> tb_last tb \<le> now"
    and "now \<le> t" "0 \<le> rate" "0 \<le> burst" "burst < 2 ^ 53"
  shows "tb_ok (own_bucket t x rate burst)" "tb_capacity (own_bucket t x rate burst) = of_int burst"
    "tb_rate (own_bucket t x rate burst) = rate" "tb_last (own_bucket t x rate burst) \<le> t"
proof -
  have cap: "fl64 (of_int burst) = of_int burst" using assms(4,5) by (intro fl64_of_int) simp
  have "tb_ok (new_token_bucket t (fl64 (of_int burst)) rate)" using assms(4) by (intro tb_ok_new) auto
  then show "tb_ok (own_bucket t x rate burst)" "tb_capacity (own_bucket t x rate burst) = of_int burst"
    "tb_rate (own_bucket t x rate burst) = rate" "tb_last (own_bucket t x rate burst) \<le> t"
    using assms cap by (auto simp: own_bucket_def new_token_bucket_def split: option.split)
qed

text \<open>Two states of a key that no later request can tell apart: the same bucket, or none in place of one that is full again.\<close>

definition same_key :: "real \<Rightarrow> int \<Rightarrow> int \<Rightarrow> int \<Rightarrow> token_bucket option \<Rightarrow> token_bucket option \<Rightarrow> bool" where
  "same_key rate burst ttl now x y \<longleftrightarrow>
     x = y \<or> x = None \<and> refills_in rate burst ttl \<and> (\<exists>tb. y = Some tb \<and> ttl < time_sub now (tb_last tb))"

lemma time_sub_mono: "a \<le> b \<Longrightarrow> time_sub a c \<le> time_sub b c"
  by (simp add: time_sub_def)

lemma same_key_later: "same_key rate burst ttl now x y \<Longrightarrow> now \<le> t \<Longrightarrow> same_key rate burst ttl t x y"
  unfolding same_key_def by (elim disjE) (auto intro: order_less_le_trans [OF _ time_sub_mono])

lemma same_key_take:
  assumes "same_key rate burst ttl now x y" "now \<le> t" "0 \<le> rate" "0 \<le> burst" "burst < 2 ^ 53"
    and "\<forall>tb. y = Some tb \<longrightarrow> tb_ok tb \<and> tb_capacity tb = of_int burst \<and> tb_rate tb = rate \<and> tb_last tb \<le> now"
  shows "tb_take t 1 (own_bucket t x rate burst) = tb_take t 1 (own_bucket t y rate burst)"
proof (cases "x = y")
  case False
  then obtain tb where tb: "x = None" "y = Some tb" "refills_in rate burst ttl" "ttl < time_sub t (tb_last tb)"
    using same_key_later [OF assms(1,2)] by (auto simp: same_key_def)
  have ok: "tb_ok tb" "tb_capacity tb = of_int burst" "tb_rate tb = rate" "tb_last tb \<le> t" using assms(2,6) tb(2) by auto
  have cap: "fl64 (of_int burst) = of_int burst" using assms(4,5) by (intro fl64_of_int) simp
  have "tb_tokens (tb_refill t tb) = tb_capacity tb"
    by (rule refill_full [OF ok(1,4) tb(4)]) (use tb(3) ok(2,3) in \<open>simp_all add: refills_in_def\<close>)
  then have "tb_refill t tb = new_token_bucket t (of_int burst) rate"
    using ok assms(3,4) by (simp add: tb_refill_def new_token_bucket_def Let_def)
  also have "\<dots> = tb_refill t (new_token_bucket t (of_int burst) rate)"
    using assms(4) cap by (simp add: refill_new is_f64_def)
  finally have "tb_take t 1 tb = tb_take t 1 (new_token_bucket t (of_int burst) rate)" by (simp add: tb_take_def)
  then show ?thesis by (simp add: tb(1,2) own_bucket_def cap)
qed simp

text \<open>One request of the key from two such states: the same answer, and then the same bucket.\<close>

lemma same_key_allow:
  assumes "same_key rate burst ttl now (gm_get (lb_buckets l) k) (gm_get (lb_buckets m) k)"
    and "now \<le> t" "0 \<le> rate" "0 \<le> burst" "burst < 2 ^ 53"
    and "\<forall>tb. gm_get (lb_buckets m) k = Some tb \<longrightarrow> tb_ok tb \<and> tb_capacity tb = of_int burst \<and> tb_rate tb = rate \<and> tb_last tb \<le> now"
  shows "fst (local_allow t l k rate burst w1) = fst (local_allow t m k rate burst w2)"
    "gm_get (lb_buckets (snd (local_allow t l k rate burst w1))) k = gm_get (lb_buckets (snd (local_allow t m k rate burst w2))) k"
  using same_key_take [OF assms] by (simp_all add: local_allow_eq)

lemma ready_allow:
  assumes "key_ready k rate burst now s" "now \<le> t" "0 \<le> rate" "0 \<le> burst" "burst < 2 ^ 53"
    and "k' = k \<longrightarrow> (\<exists>ttl. resolve_settings flt s k = (rate, burst, ttl))"
  shows "key_ready k rate burst t (snd (store_allow flt t s k'))"
proof -
  obtain l where l: "ls_backend s = LocalBackend l" "gm_ok (lb_buckets l)"
      "\<forall>tb. gm_get (lb_buckets l) k = Some tb \<longrightarrow> tb_ok tb \<and> tb_capacity tb = of_int burst \<and> tb_rate tb = rate \<and> tb_last tb \<le> now"
    using assms(1) by (auto simp: key_ready_def)
  obtain r b ttl where st: "resolve_settings flt s k' = (r, b, ttl)" by (metis prod_cases3)
  let ?l = "snd (local_allow t l k' r b ttl)"
  have "tb_ok tb \<and> tb_capacity tb = of_int burst \<and> tb_rate tb = rate \<and> tb_last tb \<le> t" if g: "gm_get (lb_buckets ?l) k = Some tb" for tb
  proof (cases "k' = k")
    case False
    then show ?thesis using g l(3) assms(2) by (auto simp: local_allow_eq)
  next
    case True
    then have "r = rate" "b = burst" using assms(6) st by auto
    with g True have tb: "tb = snd (tb_take t 1 (own_bucket t (gm_get (lb_buckets l) k) rate burst))" by (simp add: local_allow_eq)
    note own = own_bucket_ready [OF l(3) assms(2-5)]
    show ?thesis unfolding tb using own tb_take_ok [OF own(1,4)] by (simp add: take_last)
  qed
  then show ?thesis using l(1,2) st by (simp add: key_ready_def store_allow_local local_allow_frame)
qed

lemma ready_cleanup:
  "key_ready k rate burst now s \<Longrightarrow> now \<le> t \<Longrightarrow> key_ready k rate burst t (store_cleanup t s)"
  by (auto simp: key_ready_def store_cleanup_local local_cleanup_frame cleanup_get split: option.splits if_splits)

lemma cleanup_forgets:
  assumes "key_ready k rate burst now s" "lifetime s k < time_sub t now" "now \<le> t"
  shows "store_get_bucket (store_cleanup t s) k = None"
proof -
  obtain l where l: "ls_backend s = LocalBackend l" "gm_ok (lb_buckets l)" "\<forall>tb. gm_get (lb_buckets l) k = Some tb \<longrightarrow> tb_last tb \<le> now"
    using assms(1) by (auto simp: key_ready_def)
  have "time_sub t now \<le> time_sub t x" if "x \<le> now" for x using that by (simp add: time_sub_def)
  then show ?thesis
    using l(3) assms(2) by (force simp: store_get_bucket_def store_cleanup_local [OF l(1)] cleanup_get [OF l(2)] lifetime_def l(1)
        split: option.split)
qed

lemma lifetime_frame:
  "lifetime (snd (store_allow flt t s k')) k = lifetime s k" "lifetime (store_cleanup t s) k = lifetime s k"
proof -
  obtain r b ttl where st: "resolve_settings flt s k' = (r, b, ttl)" by (metis prod_cases3)
  show "lifetime (snd (store_allow flt t s k')) k = lifetime s k"
  proof (cases "ls_backend s")
    case (LocalBackend l)
    then show ?thesis by (simp add: store_allow_local(2) [OF _ st] lifetime_def local_settings_def local_allow_frame)
  next
    case (RedisBackend c)
    then show ?thesis by (simp add: lifetime_def store_allow_def backend_allow_def redis_allow_def st)
  qed
  show "lifetime (store_cleanup t s) k = lifetime s k"
    by (simp add: lifetime_def store_cleanup_def local_settings_def local_cleanup_frame split: limiter_backend.split)
qed

lemma settings_frame:
  "resolve_settings flt (snd (store_allow flt' t s k')) k = resolve_settings flt s k"
  "resolve_settings flt (store_cleanup t s) k = resolve_settings flt s k"
  by (simp_all add: store_allow_def store_cleanup_def split: prod.split limiter_backend.split)

text \<open>Clean-ups and other keys are invisible to a key, whatever happens afterwards.\<close>

lemma op_run_sim:
  assumes "key_ready k rate burst now s" "key_ready k rate burst now u" "sorted (now # map op_time ops)"
    and "0 \<le> rate" "0 \<le> burst" "burst < 2 ^ 53"
    and "constant_settings k rate burst ops s" "constant_settings k rate burst ops u"
    and "same_key rate burst (lifetime s k) now (store_get_bucket s k) (store_get_bucket u k)"
    and "(\<exists>op \<in> set ops. cleans op) \<longrightarrow> refills_in rate burst (lifetime s k)"
  shows "filter (\<lambda>r. fst r = k) (fst (op_run ops s)) = fst (op_run (filter (asks_for k) ops) u)"
  using assms(1-3,7-10)
proof (induction ops arbitrary: now s u)
  case (Cons op ops)
  have le: "now \<le> op_time op" "sorted (op_time op # map op_time ops)" using Cons.prems(3) by auto
  obtain l where l: "ls_backend s = LocalBackend l" "gm_ok (lb_buckets l)" using Cons.prems(1) by (auto simp: key_ready_def)
  obtain m where m: "ls_backend u = LocalBackend m"
      "\<forall>tb. gm_get (lb_buckets m) k = Some tb \<longrightarrow> tb_ok tb \<and> tb_capacity tb = of_int burst \<and> tb_rate tb = rate \<and> tb_last tb \<le> now"
    using Cons.prems(2) by (auto simp: key_ready_def)
  have get: "store_get_bucket s k = gm_get (lb_buckets l) k" "store_get_bucket u k = gm_get (lb_buckets m) k"
    by (simp_all add: store_get_bucket_def l m)
  have rest: "constant_settings k rate burst ops x" if "constant_settings k rate burst (op # ops) x" for x
    using that by (auto simp: constant_settings_def)
  have later: "key_ready k rate burst (op_time op) u" using Cons.prems(2) le(1) by (force simp: key_ready_def)
  show ?case
  proof (cases op)
    case (CleanAt t)
    have t: "now \<le> t" using le(1) by (simp add: CleanAt)
    have r: "refills_in rate burst (lifetime s k)" using Cons.prems(7) by (simp add: CleanAt)
    have "store_get_bucket (store_cleanup t s) k = gm_get (lb_buckets (local_cleanup t l)) k"
      by (simp add: store_get_bucket_def store_cleanup_local [OF l(1)])
    moreover have "lifetime s k = snd (snd (local_settings l k))" by (simp add: lifetime_def l)
    ultimately have "same_key rate burst (lifetime s k) t (store_get_bucket (store_cleanup t s) k) (store_get_bucket u k)"
      using same_key_later [OF Cons.prems(6) t] r
      by (auto simp: get same_key_def cleanup_get [OF l(2)] split: option.splits if_splits)
    then have "same_key rate burst (lifetime (store_cleanup t s) k) t (store_get_bucket (store_cleanup t s) k) (store_get_bucket u k)"
      by (simp add: lifetime_frame)
    moreover have "constant_settings k rate burst ops (store_cleanup t s)"
      using rest [OF Cons.prems(4)] by (simp add: constant_settings_def settings_frame)
    ultimately have "filter (\<lambda>r. fst r = k) (fst (op_run ops (store_cleanup t s))) = fst (op_run (filter (asks_for k) ops) u)"
      using Cons.IH [of t "store_cleanup t s" u] ready_cleanup [OF Cons.prems(1) t] later le(2) rest [OF Cons.prems(5)] Cons.prems(7)
      by (simp add: CleanAt lifetime_frame)
    then show ?thesis by (simp add: CleanAt)
  next
    case (Ask t k' flt)
    have t: "now \<le> t" using le(1) by (simp add: Ask)
    let ?s = "snd (store_allow flt t s k')" and ?u = "snd (store_allow flt t u k')"
    have own: "\<exists>ttl. resolve_settings flt x k = (rate, burst, ttl)" if "k' = k" "constant_settings k rate burst (op # ops) x" for x
      using that by (auto simp: constant_settings_def Ask)
    have rs: "key_ready k rate burst t ?s" by (rule ready_allow [OF Cons.prems(1) t assms(4-6)]) (use own Cons.prems(4) in blast)
    have cs: "constant_settings k rate burst ops ?s" "constant_settings k rate burst ops ?u"
      using rest Cons.prems(4,5) by (simp_all add: constant_settings_def settings_frame)
    obtain r b ttl where st: "resolve_settings flt s k' = (r, b, ttl)" by (metis prod_cases3)
    have clean: "(\<exists>op \<in> set ops. cleans op) \<longrightarrow> refills_in rate burst (lifetime ?s k)"
      using Cons.prems(7) by (simp add: lifetime_frame)
    show ?thesis
    proof (cases "k' = k")
      case True
      then have rb: "r = rate" "b = burst" using own [OF True Cons.prems(4)] st by auto
      obtain ttl' where st': "resolve_settings flt u k = (rate, burst, ttl')" using own [OF True Cons.prems(5)] by blast
      note A = same_key_allow [OF Cons.prems(6) [unfolded get] t assms(4-6) m(2), of ttl ttl']
      have ans: "fst (store_allow flt t s k) = fst (store_allow flt t u k)"
        using A(1) store_allow_local(1) [OF l(1)] store_allow_local(1) [OF m(1) st'] st by (simp add: True rb)
      have "store_get_bucket ?s k = store_get_bucket ?u k"
        using A(2) store_allow_local(2) [OF l(1)] store_allow_local(2) [OF m(1) st'] st by (simp add: True rb store_get_bucket_def)
      then have "same_key rate burst (lifetime ?s k) t (store_get_bucket ?s k) (store_get_bucket ?u k)" by (simp add: same_key_def)
      moreover have "key_ready k rate burst t ?u"
        by (rule ready_allow [OF Cons.prems(2) t assms(4-6)]) (use own Cons.prems(5) in blast)
      ultimately have "filter (\<lambda>r. fst r = k) (fst (op_run ops ?s)) = fst (op_run (filter (asks_for k) ops) ?u)"
        using Cons.IH [of t ?s ?u] rs le(2) cs clean by (simp add: Ask)
      then show ?thesis using ans True by (simp add: Ask op_run_ask del: op_run.simps(2))
    next
      case False
      have "store_get_bucket ?s k = store_get_bucket s k"
        using False by (simp add: store_get_bucket_def store_allow_local(2) [OF l(1) st] l(1) local_allow_eq)
      then have "same_key rate burst (lifetime ?s k) t (store_get_bucket ?s k) (store_get_bucket u k)"
        using same_key_later [OF Cons.prems(6) t] by (simp add: lifetime_frame)
      then have "filter (\<lambda>r. fst r = k) (fst (op_run ops ?s)) = fst (op_run (filter (asks_for k) ops) u)"
        using Cons.IH [of t ?s u] rs later le(2) cs(1) rest [OF Cons.prems(5)] clean by (simp add: Ask)
      then show ?thesis using False by (simp add: Ask op_run_ask del: op_run.simps(2))
    qed
  qed
qed simp

lemma ready_run:
  assumes "key_ready k rate burst now s" "sorted (now # map op_time ops)" "constant_settings k rate burst ops s"
    and "0 \<le> rate" "0 \<le> burst" "burst < 2 ^ 53"
  shows "key_ready k rate burst (last (now # map op_time ops)) (snd (op_run ops s)) \<and>
    lifetime (snd (op_run ops s)) k = lifetime s k \<and>
    (\<forall>flt. resolve_settings flt (snd (op_run ops s)) k = resolve_settings flt s k)"
  using assms(1-3)
proof (induction ops arbitrary: now s)
  case (Cons op ops)
  have t: "now \<le> op_time op" "sorted (op_time op # map op_time ops)" using Cons.prems(2) by auto
  show ?case
  proof (cases op)
    case (CleanAt u)
    have "constant_settings k rate burst ops (store_cleanup u s)"
      using Cons.prems(3) by (simp add: constant_settings_def settings_frame CleanAt)
    from Cons.IH [OF ready_cleanup [OF Cons.prems(1), of u] _ this] t show ?thesis
      by (simp add: CleanAt lifetime_frame settings_frame)
  next
    case (Ask u k' flt)
    have c: "constant_settings k rate burst ops (snd (store_allow flt u s k'))"
      using Cons.prems(3) by (auto simp: constant_settings_def settings_frame Ask)
    have "key_ready k rate burst u (snd (store_allow flt u s k'))"
      by (rule ready_allow [OF Cons.prems(1) _ assms(4-6)]) (use t Cons.prems(3) in \<open>auto simp: Ask constant_settings_def\<close>)
    from Cons.IH [OF this _ c] t show ?thesis
      by (simp add: Ask lifetime_frame settings_frame op_run_ask del: op_run.simps(2))
  qed
qed simp

lemma own_run_take:
  assumes "\<forall>op \<in> set ops. asks_for k op" "ls_backend s = LocalBackend l" "constant_settings k rate burst ops s" "ops \<noteq> []"
  shows "map (\<lambda>r. fst (snd r)) (fst (op_run ops s)) =
    fst (take_run (map op_time ops) (own_bucket (op_time (hd ops)) (gm_get (lb_buckets l) k) rate burst))"
  using assms
proof (induction ops arbitrary: s l)
  case (Cons op ops)
  obtain t flt where op: "op = Ask t k flt" using Cons.prems(1) by (cases op) auto
  obtain ttl where st: "resolve_settings flt s k = (rate, burst, ttl)"
    using Cons.prems(3) by (auto simp: constant_settings_def op)
  note A = store_allow_local [OF Cons.prems(2) st, of t]
  let ?tb = "own_bucket t (gm_get (lb_buckets l) k) rate burst" and ?l = "snd (local_allow t l k rate burst ttl)"
  have g: "gm_get (lb_buckets ?l) k = Some (snd (tb_take t 1 ?tb))" by (simp add: local_allow_eq)
  have f: "fst (fst (store_allow flt t s k)) = fst (tb_take t 1 ?tb)" by (simp add: A(1) local_allow_eq split: prod.split)
  show ?case
  proof (cases "ops = []")
    case True
    then show ?thesis using f by (simp add: op op_run_ask take_run_step del: op_run.simps(2) take_run.simps(2))
  next
    case False
    have "constant_settings k rate burst ops (snd (store_allow flt t s k))"
      using Cons.prems(3) by (simp add: constant_settings_def settings_frame op)
    from Cons.IH [OF _ _ this False, of ?l] Cons.prems(1) have
      "map (\<lambda>r. fst (snd r)) (fst (op_run ops (snd (store_allow flt t s k)))) = fst (take_run (map op_time ops) (snd (tb_take t 1 ?tb)))"
      by (simp add: A(2) g own_bucket_def)
    then show ?thesis using f False
      by (simp add: op op_run_ask take_run_step [of t "map op_time ops"] del: op_run.simps(2) take_run.simps(2))
  qed
qed simp

lemma take_run_ok: "tb_ok b \<Longrightarrow> sorted (tb_last b # ts) \<Longrightarrow> tb_ok (snd (take_run ts b))"
proof (induction ts arbitrary: b)
  case (Cons t ts)
  have "tb_ok (snd (tb_take t 1 b))" using Cons.prems by (intro tb_take_ok) auto
  moreover have "sorted (tb_last (snd (tb_take t 1 b)) # ts)" using Cons.prems(2) by (simp add: take_last)
  ultimately show ?case using Cons.IH by (simp add: take_run_step del: take_run.simps(2))
qed simp

text \<open>What a bucket grants in a window, whatever it held before: its capacity, and what the time of the window is worth.\<close>

lemma window_bound:
  assumes "tb_ok b" "tb_last b \<le> t0" "sorted (t0 # ts)"
  shows "real (granted (fst (take_run (t0 # ts) b)))
     \<le> tb_capacity b + tb_rate b * (of_int (last (t0 # ts) - t0) / 1000000000) * (1 + 1 / 2 ^ 50)
        + real (length (t0 # ts)) * tb_capacity b / 2 ^ 52"
proof -
  let ?b = "snd (tb_take t0 1 b)"
  have ok: "tb_ok ?b" by (rule tb_take_ok [OF assms(1,2)])
  have last: "tb_last ?b = t0" by (simp add: take_last)
  have srt: "sorted (tb_last ?b # ts)" using assms(3) by (simp add: last)
  have cap: "tb_tokens (tb_refill t0 b) \<le> tb_capacity b" "0 \<le> tb_capacity b"
    using tb_refill_ok [OF assms(1,2)] assms(1) by (auto simp: tb_ok_def tb_refill_def Let_def)
  have first: "tb_tokens ?b + (if fst (tb_take t0 1 b) then 1 else 0) \<le> tb_capacity b + tb_capacity b * uu"
    using take_le [OF assms(1,2)] cap by linarith
  have "0 \<le> tb_tokens (snd (take_run ts ?b))" using take_run_ok [OF ok srt] by (simp add: tb_ok_def)
  moreover have "real (granted (fst (take_run (t0 # ts) b)))
      = (if fst (tb_take t0 1 b) then 1 else 0) + real (granted (fst (take_run ts ?b)))"
    unfolding take_run_step granted_simps by simp
  moreover have "tb_capacity b * uu \<ge> 0" using cap(2) by simp
  moreover note take_run_bound [OF ok srt, unfolded last take_keeps] first
  ultimately have "real (granted (fst (take_run (t0 # ts) b)))
     \<le> tb_capacity b + tb_capacity b * uu + tb_rate b * (of_int (last (t0 # ts) - t0) / 1000000000) * (1 + 1 / 2 ^ 50)
        + 2 * real (length ts) * tb_capacity b * uu"
    by linarith
  also have "\<dots> \<le> tb_capacity b + tb_rate b * (of_int (last (t0 # ts) - t0) / 1000000000) * (1 + 1 / 2 ^ 50)
        + real (length (t0 # ts)) * tb_capacity b / 2 ^ 52"
    using cap(2) by (simp add: uu_def field_simps)
  finally show ?thesis .
qed

lemma op_times_filter: "sorted (map op_time ops) \<Longrightarrow> sorted (map op_time (filter P ops))"
  by (induction ops) auto

text \<open>C28: how much the local limiter admits.  In every window of every history of requests and clean-ups, whatever other keys do and
  whatever settings they have, a key whose own settings stay the same is granted at most its burst plus what its rate allows
  in the time between its first and its last request of the window; the rounding of the
  floating-point arithmetic adds a factor 2 to the -50 and, per request, 2 to the -52 of the burst.
  Clean-ups may run at any time, provided that an idle bucket of the key lives long enough to refill: without that the bound
  is false, as the next lemma shows.\<close>

theorem limiter_throughput:
  assumes "key_ready k rate burst t0 s" and "sorted (t0 # map op_time (before @ window))"
    and "constant_settings k rate burst (before @ window) s"
    and "0 \<le> rate" and "0 \<le> burst" and "burst < 2 ^ 53"
    and "(\<exists>op \<in> set window. cleans op) \<longrightarrow> refills_in rate burst (lifetime s k)"
    and "own = filter (asks_for k) window" and "own \<noteq> []"
  shows "real (granted (answers_of k (fst (op_run window (snd (op_run before s))))))
    \<le> of_int burst + rate * (of_int (op_time (last own) - op_time (hd own)) / 1000000000) * (1 + 1 / 2 ^ 50)
      + real (length own) * of_int burst / 2 ^ 52"
proof -
  let ?s = "snd (op_run before s)" and ?now = "last (t0 # map op_time before)"
  have srt: "sorted (t0 # map op_time before)" "sorted (?now # map op_time window)"
  proof -
    show "sorted (t0 # map op_time before)" using assms(2) by (auto simp: sorted_append)
    have "sorted ((t0 # map op_time before) @ map op_time window)" using assms(2) by simp
    then have "\<forall>x \<in> set (t0 # map op_time before). \<forall>y \<in> set (map op_time window). x \<le> y" "sorted (map op_time window)"
      unfolding sorted_append by blast+
    moreover have "?now \<in> set (t0 # map op_time before)" by (rule last_in_set) simp
    ultimately have "\<forall>y \<in> set (map op_time window). ?now \<le> y" by (blast dest: bspec)
    then show "sorted (?now # map op_time window)" using \<open>sorted (map op_time window)\<close> unfolding sorted_simps(2) by blast
  qed
  have cs: "constant_settings k rate burst before s" "constant_settings k rate burst window s"
    using assms(3) by (auto simp: constant_settings_def)
  note R = ready_run [OF assms(1) srt(1) cs(1) assms(4-6)]
  have cw: "constant_settings k rate burst window ?s" using cs(2) R by (simp add: constant_settings_def)
  have co: "constant_settings k rate burst own ?s" using cw by (auto simp: constant_settings_def assms(8))
  obtain l where l: "ls_backend ?s = LocalBackend l"
      "\<forall>tb. gm_get (lb_buckets l) k = Some tb \<longrightarrow> tb_ok tb \<and> tb_capacity tb = of_int burst \<and> tb_rate tb = rate \<and> tb_last tb \<le> ?now"
    using R unfolding key_ready_def by blast
  have asks: "\<forall>op \<in> set own. asks_for k op" by (simp add: assms(8))
  obtain op ops where own: "own = op # ops" using assms(9) by (cases own) auto
  have so: "sorted (op_time op # map op_time ops)"
    using op_times_filter [of window "asks_for k"] srt(2) by (simp add: assms(8) [symmetric] own)
  have le: "?now \<le> op_time op" using srt(2) assms(8) own by (metis (no_types, lifting) filter_eq_ConsD in_set_conv_decomp
      list.simps(9) sorted_simps(2) image_eqI list.set_map)
  let ?b = "own_bucket (op_time op) (gm_get (lb_buckets l) k) rate burst"
  note B = own_bucket_ready [OF l(2) le assms(4-6)]
  have "filter (\<lambda>r. fst r = k) (fst (op_run window ?s)) = fst (op_run own ?s)"
    unfolding assms(8)
    by (rule op_run_sim [OF R [THEN conjunct1] R [THEN conjunct1] srt(2) assms(4-6) cw cw])
      (use R assms(7) in \<open>simp_all add: same_key_def\<close>)
  then have "answers_of k (fst (op_run window ?s)) = fst (take_run (op_time op # map op_time ops) ?b)"
    using own_run_take [OF asks l(1) co assms(9)] unfolding answers_of_def own list.map list.sel by simp
  moreover have "last (op_time op # map op_time ops) = op_time (last own)" "op_time op = op_time (hd own)" "length (op_time op # map op_time ops) = length own"
    by (simp_all add: own last_map)
  ultimately show ?thesis using window_bound [OF B(1,4) so] B(2,3) by (simp only:)
qed

definition sample_limits :: config where
  "sample_limits = sample_config\<lparr>cfg_rate_limit :=
      (cfg_rate_limit sample_config)\<lparr>default_rate := 1, default_burst := 2, default_ttl := 3 * second\<rparr>\<rparr>"

definition sample_store :: limiter_store where
  "sample_store = \<lparr>ls_cfg = sample_limits, ls_auth = None, ls_backend = LocalBackend (new_local_backend (Some sample_limits))\<rparr>"

lemma sample_store_facts:
  "key_ready k 1 2 0 sample_store" "resolve_settings flt sample_store k = (1, 2, 3 * second)" "lifetime sample_store k = 3 * second"
  "constant_settings k 1 2 ops sample_store" "refills_in 1 2 3000000000"
  by (simp_all add: key_ready_def sample_store_def new_local_backend_def resolve_settings_def config_settings_def default_settings_def
      sample_limits_def sample_config_def lifetime_def local_settings_def constant_settings_def refills_in_def second_def gm_get_Cons)

text \<open>Five requests of a key at once, with a request of another key and a clean-up among them, after an earlier one: at
  most two are granted.\<close>

theorem limiter_throughput_witness:
  "granted (answers_of ''a'' (fst (op_run
      [Ask second ''a'' no_faults, Ask second ''a'' no_faults, Ask second ''b'' no_faults, CleanAt second,
       Ask second ''a'' no_faults, Ask second ''a'' no_faults, Ask second ''a'' no_faults]
      (snd (op_run [Ask 0 ''a'' no_faults] sample_store))))) \<le> 2"
proof -
  let ?w = "[Ask second ''a'' no_faults, Ask second ''a'' no_faults, Ask second ''b'' no_faults, CleanAt second,
       Ask second ''a'' no_faults, Ask second ''a'' no_faults, Ask second ''a'' no_faults]"
  have "real (granted (answers_of ''a'' (fst (op_run ?w (snd (op_run [Ask 0 ''a'' no_faults] sample_store))))))
      \<le> of_int 2 + 1 * (of_int (op_time (last (filter (asks_for ''a'') ?w)) - op_time (hd (filter (asks_for ''a'') ?w))) / 1000000000)
          * (1 + 1 / 2 ^ 50) + real (length (filter (asks_for ''a'') ?w)) * of_int 2 / 2 ^ 52"
    by (rule limiter_throughput [OF sample_store_facts(1) _ sample_store_facts(4)])
      (simp_all add: sample_store_facts second_def)
  also have "\<dots> < 3" by simp
  finally show ?thesis by simp
qed

text \<open>Why the lifetime matters: with one of a nanosecond a clean-up gives a key its burst back at once, and four requests
  are granted in two nanoseconds where burst and rate allow two.\<close>

lemma short_lifetime_doubles_burst:
  assumes "s = \<lparr>ls_cfg = c, ls_auth = None, ls_backend = LocalBackend (new_local_backend (Some c))\<rparr>"
    and "c = sample_config\<lparr>cfg_rate_limit := (cfg_rate_limit sample_config)\<lparr>default_rate := 1, default_burst := 2, default_ttl := 1\<rparr>\<rparr>"
  shows "granted (answers_of ''a'' (fst (op_run
      [Ask 0 ''a'' no_faults, Ask 0 ''a'' no_faults, CleanAt 2, Ask 2 ''a'' no_faults, Ask 2 ''a'' no_faults] s))) = 4"
proof -
  have z: "duration_seconds 0 = 0" using duration_seconds_whole [of 0] by simp
  have two: "fl64 2 = 2" "fl64 1 = 1" using fl64_numeral [of "num.Bit0 num.One"] by simp_all
  show ?thesis
    by (simp add: assms store_allow_def resolve_settings_def config_settings_def default_settings_def sample_config_def backend_allow_def
        local_allow_def get_or_create_bucket_def new_local_backend_def new_token_bucket_def tb_take_def tb_refill_def time_sub_def
        max_int_def z two store_cleanup_def local_cleanup_def local_settings_def answers_of_def granted_def gm_put_def gm_get_def Let_def)
qed

text \<open>C35: clean-ups are invisible to a key whose idle buckets live long enough to refill from empty: in every history, from the
  clean-ups on and for ever after, the answers that the key gets are those of its own requests alone, as if there had been no clean-up and no other key.\<close>

theorem cleanup_transparent:
  assumes "key_ready k rate burst t0 s" and "sorted (t0 # map op_time ops)" and "constant_settings k rate burst ops s"
    and "0 \<le> rate" and "0 \<le> burst" and "burst < 2 ^ 53" and "refills_in rate burst (lifetime s k)"
  shows "filter (\<lambda>r. fst r = k) (fst (op_run ops s)) = fst (op_run (filter (asks_for k) ops) s)"
  by (rule op_run_sim [OF assms(1,1,2) assms(4-6) assms(3,3)]) (use assms(7) in \<open>simp_all add: same_key_def\<close>)

text \<open>A clean-up four seconds after the last request drops the bucket of the key, and the answers afterwards are the same.\<close>

theorem cleanup_transparent_witness:
  "fst (op_run [Ask 0 ''a'' no_faults, Ask 0 ''a'' no_faults, CleanAt (4 * second), Ask (5 * second) ''a'' no_faults, Ask (5 * second) ''a'' no_faults]
      sample_store)
     = fst (op_run [Ask 0 ''a'' no_faults, Ask 0 ''a'' no_faults, Ask (5 * second) ''a'' no_faults, Ask (5 * second) ''a'' no_faults] sample_store) \<and>
   store_get_bucket (snd (op_run [Ask 0 ''a'' no_faults, Ask 0 ''a'' no_faults, CleanAt (4 * second)] sample_store)) ''a'' = None"
proof
  let ?ops = "[Ask 0 ''a'' no_faults, Ask 0 ''a'' no_faults, CleanAt (4 * second), Ask (5 * second) ''a'' no_faults, Ask (5 * second) ''a'' no_faults]"
  have "filter (\<lambda>r. fst r = ''a'') (fst (op_run ?ops sample_store)) = fst (op_run (filter (asks_for ''a'') ?ops) sample_store)"
    by (rule cleanup_transparent [OF sample_store_facts(1) _ sample_store_facts(4)])
      (simp_all add: sample_store_facts second_def)
  then show "fst (op_run ?ops sample_store) = fst (op_run [Ask 0 ''a'' no_faults, Ask 0 ''a'' no_faults, Ask (5 * second) ''a'' no_faults,
      Ask (5 * second) ''a'' no_faults] sample_store)"
    by (simp add: Let_def split: prod.split)
  let ?s = "snd (store_allow no_faults 0 (snd (store_allow no_faults 0 sample_store ''a'')) ''a'')"
  have "key_ready ''a'' 1 2 0 ?s"
    by (intro ready_allow [where now = 0] sample_store_facts(1)) (simp_all add: settings_frame sample_store_facts)
  moreover have "lifetime ?s ''a'' = 3 * second" by (simp add: lifetime_frame sample_store_facts)
  ultimately have "store_get_bucket (store_cleanup (4 * second) ?s) ''a'' = None"
    by (intro cleanup_forgets [where now = 0 and rate = 1 and burst = 2]) (simp_all add: time_sub_def max_int_def second_def)
  then show "store_get_bucket (snd (op_run [Ask 0 ''a'' no_faults, Ask 0 ''a'' no_faults, CleanAt (4 * second)] sample_store)) ''a'' = None"
    by (simp add: op_run_ask del: op_run.simps(2))
qed

text \<open>The middleware blocks a request only when it carries an identity and the store refuses its
  key; the answer is then 429 with the announced time in \<open>Retry-After\<close>.  A Redis limiter blocks nobody.\<close>

theorem rate_middleware_gate:
  "(\<forall>resp s'. rate_middleware flt now nx s ctx r = (Inl resp, s') \<longrightarrow>
      (\<exists>ac w. ctx = Some ac \<and> store_allow flt now s (ac_key_id ac) = ((False, w), s') \<and>
         rs_status resp = 429 \<and> hdr_get (rs_headers resp) ''Retry-After'' = itoa w)) \<and>
   (\<forall>x s'. rate_middleware flt now nx s ctx r = (Inr x, s') \<longrightarrow> x = nx ctx r) \<and>
   (\<forall>c. ls_backend s = RedisBackend c \<longrightarrow> rate_middleware flt now nx s ctx r = (Inr (nx ctx r), s))"
proof (intro conjI allI impI)
  fix resp s' assume h: "rate_middleware flt now nx s ctx r = (Inl resp, s')"
  then obtain ac w where "ctx = Some ac" "store_allow flt now s (ac_key_id ac) = ((False, w), s')"
    by (auto simp: rate_middleware_def split: option.splits prod.splits if_splits)
  moreover from this h have "rs_status resp = 429 \<and> hdr_get (rs_headers resp) ''Retry-After'' = itoa w"
    by (auto simp: rate_middleware_def canonical_key_def upper_char_def lower_char_def)
  ultimately show "\<exists>ac w. ctx = Some ac \<and> store_allow flt now s (ac_key_id ac) = ((False, w), s') \<and>
         rs_status resp = 429 \<and> hdr_get (rs_headers resp) ''Retry-After'' = itoa w" by blast
next
  fix x s' assume "rate_middleware flt now nx s ctx r = (Inr x, s')"
  then show "x = nx ctx r"
    by (auto simp: rate_middleware_def split: option.splits prod.splits if_splits)
next
  fix c assume "ls_backend s = RedisBackend c"
  then show "rate_middleware flt now nx s ctx r = (Inr (nx ctx r), s)"
    by (auto simp: rate_middleware_def store_allow_def backend_allow_def redis_allow_def
        split: option.splits prod.splits)
qed

theorem rate_middleware_gate_witness:
  "rate_middleware no_faults 0 (\<lambda>_ _. 0 :: nat) \<lparr>ls_cfg = sample_config, ls_auth = None, ls_backend = RedisBackend sample_config\<rparr>
     (Some \<lparr>ac_key_id = ''a'', ac_key_name = ''a'', ac_is_admin = False\<rparr>) sample_request
   = (Inr 0, \<lparr>ls_cfg = sample_config, ls_auth = None, ls_backend = RedisBackend sample_config\<rparr>)"
  using rate_middleware_gate [of no_faults 0 "\<lambda>_ _. 0 :: nat"
      "\<lparr>ls_cfg = sample_config, ls_auth = None, ls_backend = RedisBackend sample_config\<rparr>"] by simp

end
