(* ===== verification/Backend.thy ===== *)
theory Backend
  imports Config Json
begin

text \<open>
  internal/backends/backend.go (state of a backend), pool.go (smooth weighted round robin),
  manager.go and healthcheck.go.  Pools and the manager share backends by pointer: a backend lives
  at an address of the manager's heap, which only grows, and a pool is a list of addresses with
  weights.  Go's \<open>int\<close> wraps.
\<close>

section \<open>Backends\<close>

record backend =
  be_name :: string
  be_url :: url
  be_weight :: int
  be_tag :: string
  be_health_path :: string
  be_timeout :: int
  be_headers :: "string gomap"
  be_effective :: int
  be_current :: int
  be_healthy :: bool
  be_last_check :: int
  be_failures :: int
  be_enabled :: bool

definition new_backend ::
  "string \<Rightarrow> string \<Rightarrow> int \<Rightarrow> string \<Rightarrow> string \<Rightarrow> int \<Rightarrow> string gomap \<Rightarrow> backend option" where
  "new_backend name raw weight tag path timeout headers =
     map_option (\<lambda>u. \<lparr>be_name = name, be_url = u, be_weight = weight, be_tag = tag,
        be_health_path = path, be_timeout = timeout, be_headers = headers,
        be_effective = weight, be_current = 0, be_healthy = True, be_last_check = 0,
        be_failures = 0, be_enabled = True\<rparr>) (url_parse raw)"

definition is_healthy :: "backend \<Rightarrow> bool" where
  "is_healthy b = (be_healthy b \<and> be_enabled b)"

definition set_enabled :: "bool \<Rightarrow> backend \<Rightarrow> backend" where
  "set_enabled e b = b\<lparr>be_enabled := e\<rparr>"

definition set_health :: "bool \<Rightarrow> backend \<Rightarrow> backend" where
  "set_health h b = b\<lparr>be_healthy := h, be_effective := (if h then be_weight b else 0)\<rparr>"

definition update_config ::
  "string \<Rightarrow> int \<Rightarrow> string \<Rightarrow> int \<Rightarrow> string \<Rightarrow> backend \<Rightarrow> backend option" where
  "update_config raw weight tag timeout path b =
     map_option (\<lambda>u. b\<lparr>be_url := u, be_weight := weight, be_tag := tag, be_timeout := timeout,
        be_health_path := path, be_effective := (if be_healthy b then weight else be_effective b)\<rparr>)
      (url_parse raw)"

definition mark_failure :: "int \<Rightarrow> backend \<Rightarrow> backend" where
  "mark_failure now b = b\<lparr>be_failures := i64 (be_failures b + 1), be_last_check := now\<rparr>"

definition mark_success :: "int \<Rightarrow> backend \<Rightarrow> backend" where
  "mark_success now b = b\<lparr>be_failures := 0, be_last_check := now\<rparr>"

definition usable :: "backend \<Rightarrow> bool" where
  "usable b \<longleftrightarrow> is_healthy b \<and> 0 < be_effective b"

section \<open>Pools\<close>

record pool_entry =
  pe_backend :: nat
  pe_weight :: int

type_synonym bheap = "backend list"

definition new_pool :: "bheap \<Rightarrow> pool_entry list \<Rightarrow> pool_entry list" where
  "new_pool h es = map (\<lambda>e. if pe_weight e \<le> 0 then e\<lparr>pe_weight := be_weight (h ! pe_backend e)\<rparr> else e) es"

text \<open>The loop of \<open>Select\<close>: the heap, the total weight, the best index and its weight so far.\<close>

fun select_loop ::
  "pool_entry list \<Rightarrow> nat \<Rightarrow> bheap \<Rightarrow> int \<Rightarrow> nat option \<Rightarrow> int \<Rightarrow> bheap \<times> int \<times> nat option" where
  "select_loop [] i h tot best bw = (h, tot, best)"
| "select_loop (e # es) i h tot best bw =
     (let b = h ! pe_backend e in
      if \<not> is_healthy b \<or> be_effective b \<le> 0 then select_loop es (i + 1) h tot best bw
      else (let cw = i64 (be_current b + pe_weight e);
                h' = h[pe_backend e := b\<lparr>be_current := cw\<rparr>];
                tot' = i64 (tot + pe_weight e)
            in if bw < cw then select_loop es (i + 1) h' tot' (Some i) cw
               else select_loop es (i + 1) h' tot' best bw))"

text \<open>\<open>Select\<close>: the address of the chosen backend, \<open>None\<close> for \<open>ErrNoHealthyBackends\<close>.\<close>

definition select :: "pool_entry list \<Rightarrow> bheap \<Rightarrow> nat option \<times> bheap" where
  "select es h =
     (if es = [] then (None, h)
      else (case select_loop es 0 h 0 None (- max_int) of
          (h', tot, None) \<Rightarrow> (None, h')
        | (h', tot, Some i) \<Rightarrow>
            if tot = 0 then (None, h')
            else (let p = pe_backend (es ! i); b = h' ! p
                  in (Some p, h'[p := b\<lparr>be_current := i64 (be_current b - tot)\<rparr>]))))"

definition pool_backends :: "pool_entry list \<Rightarrow> nat list" where
  "pool_backends es = map pe_backend es"

section \<open>Manager\<close>

record manager =
  mg_heap :: bheap
  mg_backends :: "nat list"
  mg_by_name :: "nat gomap"
  mg_interval :: int
  mg_timeout :: int

datatype manager_error =
    NoBackendsConfigured | InvalidBackendUrl string | UnknownBackend string | ErrBackendNotFound

definition default_model_weight :: int where
  "default_model_weight = 1"

fun add_backends :: "backend_cfg list \<Rightarrow> manager \<Rightarrow> (manager_error, manager) result" where
  "add_backends [] m = Inr m"
| "add_backends (c # cs) m =
     (case new_backend (bc_name c) (bc_url c) (bc_weight c) (bc_tag c) (bc_health_path c) (bc_timeout c)
         (bc_headers c) of
        None \<Rightarrow> Inl (InvalidBackendUrl (bc_name c))
      | Some b \<Rightarrow> add_backends cs (m\<lparr>mg_heap := mg_heap m @ [b],
            mg_backends := mg_backends m @ [length (mg_heap m)],
            mg_by_name := gm_put (bc_name c) (length (mg_heap m)) (mg_by_name m)\<rparr>))"

definition new_manager :: "config \<Rightarrow> (manager_error, manager) result" where
  "new_manager cfg =
     (if cfg_backends cfg = [] then Inl NoBackendsConfigured
      else add_backends (cfg_backends cfg)
        \<lparr>mg_heap = [], mg_backends = [], mg_by_name = [],
         mg_interval = i64 (interval_seconds (cfg_health cfg) * second),
         mg_timeout = i64 (timeout_seconds (cfg_health cfg) * second)\<rparr>)"

definition get_by_name :: "manager \<Rightarrow> string \<Rightarrow> backend option" where
  "get_by_name m name = map_option (\<lambda>p. mg_heap m ! p) (gm_get (mg_by_name m) name)"

fun pool_entries :: "manager \<Rightarrow> model_backend_ref list \<Rightarrow> (manager_error, pool_entry list) result" where
  "pool_entries m [] = Inr []"
| "pool_entries m (r # rs) =
     (case gm_get (mg_by_name m) (ref_backend r) of
        None \<Rightarrow> Inl (UnknownBackend (ref_backend r))
      | Some p \<Rightarrow>
          (let w = (if ref_weight r \<le> 0 then be_weight (mg_heap m ! p) else ref_weight r)
           in map_sum id (\<lambda>es. \<lparr>pe_backend = p, pe_weight = w\<rparr> # es) (pool_entries m rs)))"

definition pool_for_model :: "manager \<Rightarrow> model_backend_ref list \<Rightarrow> (manager_error, pool_entry list) result" where
  "pool_for_model m refs = map_sum id (new_pool (mg_heap m)) (pool_entries m refs)"

definition default_pool :: "manager \<Rightarrow> pool_entry list" where
  "default_pool m = new_pool (mg_heap m)
     (map (\<lambda>p. let w = be_weight (mg_heap m ! p) in
        \<lparr>pe_backend = p, pe_weight = (if w \<le> 0 then default_model_weight else w)\<rparr>) (mg_backends m))"

definition normalize_upsert :: "backend_cfg \<Rightarrow> backend_cfg" where
  "normalize_upsert c = c\<lparr>
     bc_weight := (if bc_weight c \<le> 0 then default_model_weight else bc_weight c),
     bc_health_path := (if bc_health_path c = [] then ''/api/version'' else bc_health_path c),
     bc_timeout := (if bc_timeout c \<le> 0 then 120 * second else bc_timeout c)\<rparr>"

definition upsert_backend :: "backend_cfg \<Rightarrow> manager \<Rightarrow> (manager_error, manager) result" where
  "upsert_backend c0 m =
     (let c = normalize_upsert c0 in
      case gm_get (mg_by_name m) (bc_name c) of
        Some p \<Rightarrow>
          (case update_config (bc_url c) (bc_weight c) (bc_tag c) (bc_timeout c) (bc_health_path c) (mg_heap m ! p) of
             None \<Rightarrow> Inl (InvalidBackendUrl (bc_name c))
           | Some b \<Rightarrow> Inr (m\<lparr>mg_heap := (mg_heap m)[p := set_enabled True (b\<lparr>be_headers := bc_headers c\<rparr>)]\<rparr>))
      | None \<Rightarrow>
          (case new_backend (bc_name c) (bc_url c) (bc_weight c) (bc_tag c) (bc_health_path c) (bc_timeout c)
              (bc_headers c) of
             None \<Rightarrow> Inl (InvalidBackendUrl (bc_name c))
           | Some b \<Rightarrow> Inr (m\<lparr>mg_heap := mg_heap m @ [b],
               mg_backends := mg_backends m @ [length (mg_heap m)],
               mg_by_name := gm_put (bc_name c) (length (mg_heap m)) (mg_by_name m)\<rparr>)))"

definition remove_backend :: "string \<Rightarrow> manager \<Rightarrow> (manager_error, manager) result" where
  "remove_backend name m =
     (if gm_get (mg_by_name m) name = None then Inl ErrBackendNotFound
      else Inr (m\<lparr>mg_by_name := gm_del name (mg_by_name m),
        mg_backends := filter (\<lambda>p. be_name (mg_heap m ! p) \<noteq> name) (mg_backends m)\<rparr>))"

definition deactivate_backend :: "string \<Rightarrow> manager \<Rightarrow> (manager_error, manager) result" where
  "deactivate_backend name m = remove_backend name m"

section \<open>Health checks\<close>

text \<open>What a probe of a URL gives: a transport error or a status code.\<close>

datatype probe_result = ProbeFailed | ProbeStatus int

definition strip_trailing_slash :: "string \<Rightarrow> string" where
  "strip_trailing_slash s = trim_right_char (CHR ''/'') s"

definition health_url :: "backend \<Rightarrow> string" where
  "health_url b = strip_trailing_slash (url_string (be_url b)) @ be_health_path b"

definition check_backend :: "(string \<Rightarrow> probe_result) \<Rightarrow> int \<Rightarrow> backend \<Rightarrow> backend" where
  "check_backend probe now b =
     (if url_parse (health_url b) = None then mark_failure now b
      else (case probe (health_url b) of
          ProbeFailed \<Rightarrow> mark_failure now (set_health False b)
        | ProbeStatus code \<Rightarrow>
            if 200 \<le> code \<and> code < 300 then mark_success now (set_health True b)
            else mark_failure now (set_health False b)))"

definition check_all :: "(string \<Rightarrow> probe_result) \<Rightarrow> int \<Rightarrow> manager \<Rightarrow> manager" where
  "check_all probe now m =
     m\<lparr>mg_heap := fold (\<lambda>p h. h[p := check_backend probe now (h ! p)]) (mg_backends m) (mg_heap m)\<rparr>"

end
