(* ===== verification/PoolProps.thy ===== *)
theory PoolProps
  imports Backend
begin

text \<open>
  Correctness of the smooth weighted round robin of internal/backends/pool.go: an abstract
  scheduler on functions from addresses to integers, the proof that \<open>select\<close> implements it on the
  heap while no counter overflows, and the fairness of the abstract scheduler carried back to the code.
\<close>

section \<open>The abstract scheduler\<close>

type_synonym shares = "(nat \<times> int) list"

definition bump :: "shares \<Rightarrow> (nat \<Rightarrow> int) \<Rightarrow> nat \<Rightarrow> int" where
  "bump ps c p = c p + (case map_of ps p of Some w \<Rightarrow> w | None \<Rightarrow> 0)"

definition first_max :: "(nat \<Rightarrow> int) \<Rightarrow> nat list \<Rightarrow> nat" where
  "first_max c ps = hd (filter (\<lambda>p. \<forall>q \<in> set ps. c q \<le> c p) ps)"

definition weight_sum :: "shares \<Rightarrow> int" where
  "weight_sum ps = sum_list (map snd ps)"

definition swrr_pick :: "shares \<Rightarrow> (nat \<Rightarrow> int) \<Rightarrow> nat" where
  "swrr_pick ps c = first_max (bump ps c) (map fst ps)"

definition swrr_next :: "shares \<Rightarrow> (nat \<Rightarrow> int) \<Rightarrow> nat \<Rightarrow> int" where
  "swrr_next ps c = (bump ps c)(swrr_pick ps c := bump ps c (swrr_pick ps c) - weight_sum ps)"

fun swrr_run :: "nat \<Rightarrow> shares \<Rightarrow> (nat \<Rightarrow> int) \<Rightarrow> nat list \<times> (nat \<Rightarrow> int)" where
  "swrr_run 0 ps c = ([], c)"
| "swrr_run (Suc n) ps c =
     (let (bs, c') = swrr_run n ps (swrr_next ps c) in (swrr_pick ps c # bs, c'))"

definition shares_ok :: "shares \<Rightarrow> bool" where
  "shares_ok ps \<longleftrightarrow> ps \<noteq> [] \<and> distinct (map fst ps) \<and> (\<forall>(p, w) \<in> set ps. 0 < w)"

definition fair_state :: "shares \<Rightarrow> (nat \<Rightarrow> int) \<Rightarrow> bool" where
  "fair_state ps c \<longleftrightarrow> (\<Sum>p \<leftarrow> map fst ps. c p) = 0 \<and> (\<forall>p \<in> fst ` set ps. - weight_sum ps < c p)"

lemma first_max_in:
  assumes "ps \<noteq> []"
  shows "first_max c ps \<in> set ps \<and> (\<forall>q \<in> set ps. c q \<le> c (first_max c ps))"
proof -
  have "finite (c ` set ps)" "c ` set ps \<noteq> {}" using assms by auto
  then have "Max (c ` set ps) \<in> c ` set ps" by (rule Max_in)
  then obtain p where p: "p \<in> set ps" "c p = Max (c ` set ps)" by auto
  have "\<forall>q \<in> set ps. c q \<le> c p" unfolding p(2) by (simp add: Max_ge)
  then have "filter (\<lambda>p. \<forall>q \<in> set ps. c q \<le> c p) ps \<noteq> []" using p(1) by (auto simp: filter_empty_conv)
  then have "first_max c ps \<in> set (filter (\<lambda>p. \<forall>q \<in> set ps. c q \<le> c p) ps)"
    unfolding first_max_def by (rule hd_in_set)
  then show ?thesis by auto
qed

lemma sum_bump:
  assumes "distinct (map fst ps)"
  shows "(\<Sum>p \<leftarrow> map fst ps. bump ps c p) = (\<Sum>p \<leftarrow> map fst ps. c p) + weight_sum ps"
proof -
  have "map (bump ps c) (map fst ps) = map (\<lambda>(p, w). c p + w) ps"
    using assms by (auto simp: bump_def)
  then have "(\<Sum>p \<leftarrow> map fst ps. bump ps c p) = (\<Sum>(p, w) \<leftarrow> ps. c p + w)" by metis
  also have "\<dots> = (\<Sum>p \<leftarrow> map fst ps. c p) + weight_sum ps"
    by (induction ps) (auto simp: weight_sum_def)
  finally show ?thesis .
qed

lemma sum_upd:
  "distinct qs \<Longrightarrow> b \<in> set qs \<Longrightarrow> (\<Sum>p \<leftarrow> qs. (f(b := f b - W)) p) = (\<Sum>p \<leftarrow> qs. f p) - (W :: int)"
proof (induction qs)
  case (Cons q qs)
  have e: "map (\<lambda>p. if p = b then f b - W else f p) qs = map f qs" if "b \<notin> set qs"
    using that by (intro map_cong) auto
  show ?case
  proof (cases "q = b")
    case True
    then have "b \<notin> set qs" using Cons.prems(1) by simp
    then show ?thesis by (simp add: True e)
  next
    case False
    then show ?thesis using Cons by (simp add: algebra_simps)
  qed
qed simp

lemma swrr_pick_in: "ps \<noteq> [] \<Longrightarrow> swrr_pick ps c \<in> fst ` set ps"
  using first_max_in [of "map fst ps" "bump ps c"] by (simp add: swrr_pick_def)

lemma sum_list_le_const: "(\<And>x. x \<in> set xs \<Longrightarrow> f x \<le> (0::int)) \<Longrightarrow> sum_list (map f xs) \<le> 0"
  by (induction xs) (auto simp: add_nonpos_nonpos)

lemma weight_sum_pos: "shares_ok ps \<Longrightarrow> 0 < weight_sum ps"
proof -
  assume ok: "shares_ok ps"
  have "(\<forall>(p, w) \<in> set ps. 0 < w) \<Longrightarrow> 0 \<le> weight_sum ps" for ps :: shares
    by (induction ps) (auto simp: weight_sum_def)
  then show ?thesis using ok by (cases ps) (fastforce simp: shares_ok_def weight_sum_def)+
qed

lemma fair_step:
  assumes "shares_ok ps" "fair_state ps c"
  shows "fair_state ps (swrr_next ps c)"
proof -
  let ?b = "swrr_pick ps c" and ?W = "weight_sum ps" and ?d = "bump ps c"
  have ne: "ps \<noteq> []" and dist: "distinct (map fst ps)" using assms(1) by (auto simp: shares_ok_def)
  have b: "?b \<in> fst ` set ps" by (rule swrr_pick_in [OF ne])
  have W: "0 < ?W" by (rule weight_sum_pos [OF assms(1)])
  have s: "(\<Sum>p \<leftarrow> map fst ps. ?d p) = ?W" using sum_bump [OF dist] assms(2) by (simp add: fair_state_def)
  have "(\<Sum>p \<leftarrow> map fst ps. swrr_next ps c p) = 0"
    unfolding swrr_next_def using sum_upd [OF dist, of ?b ?d ?W] b s by simp
  moreover have "- ?W < swrr_next ps c p" if p: "p \<in> fst ` set ps" for p
  proof (cases "p = ?b")
    case True
    have "0 < ?d ?b"
    proof (rule ccontr)
      assume "\<not> 0 < ?d ?b"
      then have "?d q \<le> 0" if "q \<in> set (map fst ps)" for q
        using first_max_in [of "map fst ps" ?d] ne that unfolding swrr_pick_def
        by (metis (no_types, lifting) leI list.map_disc_iff order_trans)
      then have "(\<Sum>p \<leftarrow> map fst ps. ?d p) \<le> 0" by (rule sum_list_le_const)
      with s W show False by simp
    qed
    then show ?thesis by (simp add: swrr_next_def True)
  next
    case False
    obtain w where w: "map_of ps p = Some w" "0 < w"
      using p assms(1) dist by (auto simp: shares_ok_def)
    have "- ?W < c p" using p assms(2) unfolding fair_state_def by blast
    then show ?thesis using w False by (simp add: swrr_next_def bump_def)
  qed
  ultimately show ?thesis by (simp add: fair_state_def)
qed

lemma run_Suc [simp]:
  "fst (swrr_run (Suc n) ps c) = swrr_pick ps c # fst (swrr_run n ps (swrr_next ps c))"
  "snd (swrr_run (Suc n) ps c) = snd (swrr_run n ps (swrr_next ps c))"
  by (simp_all add: Let_def case_prod_unfold)

declare swrr_run.simps(2) [simp del]

lemma fair_run: "shares_ok ps \<Longrightarrow> fair_state ps c \<Longrightarrow> fair_state ps (snd (swrr_run n ps c))"
  by (induction n arbitrary: c) (simp_all add: fair_step)

lemma run_picks: "ps \<noteq> [] \<Longrightarrow> set (fst (swrr_run n ps c)) \<subseteq> fst ` set ps"
  by (induction n arbitrary: c) (simp_all add: swrr_pick_in)

lemma run_length: "length (fst (swrr_run n ps c)) = n"
  by (induction n arbitrary: c) simp_all

text \<open>After \<open>n\<close> rounds a counter is its start, plus its weight per round, minus the total per pick.\<close>

lemma run_counter:
  assumes "distinct (map fst ps)" "(p, w) \<in> set ps"
  shows "snd (swrr_run n ps c) p
     = c p + int n * w - weight_sum ps * int (count_list (fst (swrr_run n ps c)) p)"
proof (induction n arbitrary: c)
  case (Suc n)
  have w: "map_of ps p = Some w" using assms by simp
  have "swrr_next ps c p = c p + w - (if p = swrr_pick ps c then weight_sum ps else 0)"
    using w by (cases "p = swrr_pick ps c") (auto simp: swrr_next_def bump_def)
  then show ?case using Suc.IH [of "swrr_next ps c"] by (cases "swrr_pick ps c = p") (auto simp: algebra_simps)
qed simp

text \<open>Counters stay within the total weight times the number of backends, and counts follow shares.\<close>

lemma sum_int_list: "(\<Sum>x \<leftarrow> xs. (K::int)) = int (length xs) * K"
  by (induction xs) (auto simp: algebra_simps)

lemma sum_split: "distinct qs \<Longrightarrow> p \<in> set qs \<Longrightarrow> (\<Sum>q \<leftarrow> qs. f q) = f p + (\<Sum>q \<leftarrow> remove1 p qs. (f q :: int))"
  by (induction qs) auto

lemma sum_list_ge_const: "(\<And>x. x \<in> set xs \<Longrightarrow> (K::int) \<le> f x) \<Longrightarrow> int (length xs) * K \<le> sum_list (map f xs)"
  by (induction xs) (auto simp: algebra_simps add_mono)

lemma fair_bounds:
  assumes "shares_ok ps" "fair_state ps c" "p \<in> fst ` set ps"
  shows "- weight_sum ps < c p" "c p \<le> (int (length ps) - 1) * (weight_sum ps - 1)"
proof -
  let ?qs = "map fst ps" and ?W = "weight_sum ps"
  show "- ?W < c p" using assms(2,3) by (auto simp: fair_state_def)
  have d: "distinct ?qs" "p \<in> set ?qs" using assms(1,3) by (auto simp: shares_ok_def)
  have "int (length (remove1 p ?qs)) * (1 - ?W) \<le> (\<Sum>q \<leftarrow> remove1 p ?qs. c q)"
  proof (rule sum_list_ge_const)
    fix q assume "q \<in> set (remove1 p ?qs)"
    then have "q \<in> fst ` set ps" using notin_set_remove1 by fastforce
    then have "- ?W < c q" using assms(2) unfolding fair_state_def by blast
    then show "1 - ?W \<le> c q" by simp
  qed
  moreover have "int (length (remove1 p ?qs)) = int (length ps) - 1"
    using d(2) length_remove1 [of p ?qs] by (cases ps) auto
  moreover have "c p + (\<Sum>q \<leftarrow> remove1 p ?qs. c q) = 0"
    using sum_split [OF d] assms(2) by (simp add: fair_state_def comp_def)
  ultimately have "c p + (int (length ps) - 1) * (1 - ?W) \<le> 0" by simp
  then show "c p \<le> (int (length ps) - 1) * (?W - 1)" by (simp add: algebra_simps)
qed

definition zero_on :: "shares \<Rightarrow> (nat \<Rightarrow> int) \<Rightarrow> bool" where
  "zero_on ps c \<longleftrightarrow> (\<forall>p \<in> fst ` set ps. c p = 0)"

lemma fair_zero: "shares_ok ps \<Longrightarrow> zero_on ps c \<Longrightarrow> fair_state ps c"
proof -
  assume h: "shares_ok ps" "zero_on ps c"
  have "map c (map fst ps) = map (\<lambda>_. 0) (map fst ps)" using h(2) by (intro map_cong) (auto simp: zero_on_def)
  then have "(\<Sum>p \<leftarrow> map fst ps. c p) = (\<Sum>p \<leftarrow> map fst ps. 0)" by (simp only:)
  then have "(\<Sum>p \<leftarrow> map fst ps. c p) = 0" by (simp only: sum_list_0)
  then show ?thesis using weight_sum_pos [OF h(1)] h(2) unfolding fair_state_def zero_on_def by auto
qed

lemma run_balance:
  fixes n :: nat
  assumes "shares_ok ps" "(p, w) \<in> set ps" and z: "zero_on ps c"
  defines "k \<equiv> int (count_list (fst (swrr_run n ps c)) p)"
  shows "weight_sum ps * k < int n * w + weight_sum ps"
    "int n * w \<le> weight_sum ps * k + (int (length ps) - 1) * (weight_sum ps - 1)"
proof -
  have d: "distinct (map fst ps)" "p \<in> fst ` set ps" using assms by (auto simp: shares_ok_def intro: rev_image_eqI)
  note B = fair_bounds [OF assms(1) fair_run [OF assms(1) fair_zero [OF assms(1) z]] d(2), of n]
  have "c p = 0" using z d(2) unfolding zero_on_def by blast
  then have "snd (swrr_run n ps c) p = int n * w - weight_sum ps * k"
    using run_counter [OF d(1) assms(2)] by (simp add: k_def)
  with B show "weight_sum ps * k < int n * w + weight_sum ps"
    "int n * w \<le> weight_sum ps * k + (int (length ps) - 1) * (weight_sum ps - 1)" by simp_all
qed

lemma indicator_sum: "distinct qs \<Longrightarrow> (\<Sum>q \<leftarrow> qs. if x = q then 1 else (0::nat)) = (if x \<in> set qs then 1 else 0)"
  by (induction qs) auto

lemma sum_counts: "distinct qs \<Longrightarrow> set xs \<subseteq> set qs \<Longrightarrow> (\<Sum>q \<leftarrow> qs. count_list xs q) = length xs"
proof (induction xs)
  case (Cons x xs)
  have "(\<Sum>q \<leftarrow> qs. count_list (x # xs) q) = (\<Sum>q \<leftarrow> qs. count_list xs q) + (\<Sum>q \<leftarrow> qs. if x = q then 1 else 0)"
    by (induction qs) auto
  also have "(\<Sum>q \<leftarrow> qs. if x = q then 1 else (0::nat)) = 1"
    using Cons.prems(1) indicator_sum [of qs x] Cons.prems(2) by simp
  finally show ?case using Cons by simp
qed (simp add: sum_list_triv)

lemma all_equal_of_sum:
  fixes f g :: "'a \<Rightarrow> int"
  shows "(\<And>x. x \<in> set xs \<Longrightarrow> f x \<le> g x) \<Longrightarrow> (\<Sum>x \<leftarrow> xs. f x) = (\<Sum>x \<leftarrow> xs. g x) \<Longrightarrow> x \<in> set xs \<Longrightarrow> f x = g x"
proof (induction xs)
  case (Cons y ys)
  have le: "(\<Sum>x \<leftarrow> ys. f x) \<le> (\<Sum>x \<leftarrow> ys. g x)" using Cons.prems(1) by (intro sum_list_mono) auto
  have "f y \<le> g y" using Cons.prems(1) by simp
  with le Cons.prems(2) have eq: "f y = g y" "(\<Sum>x \<leftarrow> ys. f x) = (\<Sum>x \<leftarrow> ys. g x)" by simp_all
  show ?case using eq Cons.IH [OF Cons.prems(1) eq(2)] Cons.prems(3) by auto
qed simp

lemma int_sum_list: "int (sum_list (map f xs)) = (\<Sum>x \<leftarrow> xs. int (f x))"
  by (induction xs) auto

lemma run_exact:
  assumes ok: "shares_ok ps" and pw: "(p, w) \<in> set ps" and z: "zero_on ps c"
    and n: "int n = int m * weight_sum ps"
  shows "int (count_list (fst (swrr_run n ps c)) p) = int m * w"
proof -
  let ?picks = "fst (swrr_run n ps c)" and ?W = "weight_sum ps"
  have W: "0 < ?W" by (rule weight_sum_pos [OF ok])
  have le: "int (count_list ?picks (fst x)) \<le> int m * snd x" if x: "x \<in> set ps" for x
  proof -
    have "?W * int (count_list ?picks (fst x)) < int n * snd x + ?W"
      by (rule run_balance(1) [OF ok _ z]) (use x in simp)
    also have "\<dots> = ?W * (int m * snd x + 1)" by (simp add: n algebra_simps)
    finally show ?thesis using W by (simp add: mult_less_cancel_left_pos)
  qed
  have ne: "ps \<noteq> []" and d: "distinct (map fst ps)" using ok by (auto simp: shares_ok_def)
  have "(\<Sum>q \<leftarrow> map fst ps. count_list ?picks q) = length ?picks"
    by (rule sum_counts [OF d]) (use run_picks [OF ne] in simp)
  then have "(\<Sum>x \<leftarrow> ps. count_list ?picks (fst x)) = n" by (simp add: run_length comp_def)
  then have "(\<Sum>x \<leftarrow> ps. int (count_list ?picks (fst x))) = int n"
    by (simp only: int_sum_list [symmetric])
  also have "int n = (\<Sum>x \<leftarrow> ps. int m * snd x)"
    by (simp add: n weight_sum_def sum_list_const_mult)
  finally have eq: "(\<Sum>x \<leftarrow> ps. int (count_list ?picks (fst x))) = (\<Sum>x \<leftarrow> ps. int m * snd x)" .
  have "int (count_list ?picks (fst (p, w))) = int m * snd (p, w)"
    by (rule all_equal_of_sum [of ps "\<lambda>x. int (count_list ?picks (fst x))" "\<lambda>x. int m * snd x", OF le eq pw])
  then show ?thesis by simp
qed

section \<open>The heap\<close>

definition currents :: "bheap \<Rightarrow> nat \<Rightarrow> int" where
  "currents h p = be_current (h ! p)"

definition with_currents :: "(nat \<Rightarrow> int) \<Rightarrow> bheap \<Rightarrow> bheap" where
  "with_currents c h = map (\<lambda>p. (h ! p)\<lparr>be_current := c p\<rparr>) [0..<length h]"

definition usable_shares :: "pool_entry list \<Rightarrow> bheap \<Rightarrow> shares" where
  "usable_shares es h = map (\<lambda>e. (pe_backend e, pe_weight e)) (filter (\<lambda>e. usable (h ! pe_backend e)) es)"

definition pool_wf :: "pool_entry list \<Rightarrow> bheap \<Rightarrow> bool" where
  "pool_wf es h \<longleftrightarrow> distinct (map pe_backend es) \<and> (\<forall>e \<in> set es. pe_backend e < length h)"

lemma length_with_currents [simp]: "length (with_currents c h) = length h"
  by (simp add: with_currents_def)

lemma nth_with_currents [simp]: "p < length h \<Longrightarrow> with_currents c h ! p = (h ! p)\<lparr>be_current := c p\<rparr>"
  by (simp add: with_currents_def)

lemma usable_current [simp]: "usable (b\<lparr>be_current := x\<rparr>) = usable b"
  by (simp add: usable_def is_healthy_def)

lemma with_currents_self: "with_currents (currents h) h = h"
  by (rule nth_equalityI) (auto simp: currents_def)

lemma with_currents_update:
  "p < length h \<Longrightarrow> with_currents c (h[p := (h ! p)\<lparr>be_current := x\<rparr>]) = with_currents c h"
  by (rule nth_equalityI) (auto simp: nth_list_update)

lemma currents_update:
  "p < length h \<Longrightarrow> currents (h[p := (h ! p)\<lparr>be_current := x\<rparr>]) = (currents h)(p := x)"
  by (auto simp: currents_def fun_eq_iff nth_list_update)

lemma usable_shares_update:
  "p < length h \<Longrightarrow> usable_shares es (h[p := (h ! p)\<lparr>be_current := x\<rparr>]) = usable_shares es h"
  by (simp add: usable_shares_def nth_list_update cong: filter_cong)

lemma usable_shares_Cons:
  "usable_shares (e # es) h =
     (if usable (h ! pe_backend e) then [(pe_backend e, pe_weight e)] else []) @ usable_shares es h"
  by (simp add: usable_shares_def)

lemma usable_shares_ptrs: "fst ` set (usable_shares es h) \<subseteq> pe_backend ` set es"
  by (auto simp: usable_shares_def)

text \<open>No counter overflows: the counters and the total weight stay within 62 bits.\<close>

definition no_overflow :: "pool_entry list \<Rightarrow> bheap \<Rightarrow> int \<Rightarrow> bool" where
  "no_overflow es h tot \<longleftrightarrow> 0 \<le> tot \<and> tot + weight_sum (usable_shares es h) < 2 ^ 62 \<and>
     (\<forall>(p, w) \<in> set (usable_shares es h). 0 < w \<and> \<bar>currents h p\<bar> < 2 ^ 62)"

lemma weight_sum_simps [simp]: "weight_sum [] = 0" "weight_sum ((p, w) # ps) = w + weight_sum ps"
  by (simp_all add: weight_sum_def)

lemma weight_sum_nonneg: "(\<forall>(p, w) \<in> set ps. 0 < w) \<Longrightarrow> 0 \<le> weight_sum ps"
  by (induction ps) auto

lemma map_of_notin: "p \<notin> fst ` set ps \<Longrightarrow> map_of ps p = None"
  by (simp only: map_of_eq_None_iff) simp

lemma bump_notin: "p \<notin> fst ` set ps \<Longrightarrow> bump ps c p = c p"
  by (simp add: bump_def map_of_notin)

lemma bump_Cons:
  "p \<notin> fst ` set ps \<Longrightarrow> bump ((p, w) # ps) c = bump ps (c(p := c p + w))"
  using map_of_notin [of p ps] by (auto simp: bump_def fun_eq_iff)

lemma first_max_skip: "(\<exists>q \<in> set ps. c p < c q) \<Longrightarrow> first_max c (p # ps) = first_max c ps"
proof -
  assume "\<exists>q \<in> set ps. c p < c q"
  then obtain q where q: "q \<in> set ps" "c p < c q" by blast
  have "(\<forall>r \<in> set (p # ps). c r \<le> c x) \<longleftrightarrow> (\<forall>r \<in> set ps. c r \<le> c x)" for x
    using q by (auto intro: less_imp_le dest: less_le_trans)
  moreover have "(\<forall>r \<in> set ps. c r \<le> c p) = False" using q by (meson not_le)
  ultimately show ?thesis unfolding first_max_def by (simp only: filter.simps if_False)
qed

lemma first_max_here: "(\<forall>q \<in> set ps. c q \<le> c p) \<Longrightarrow> first_max c (p # ps) = p"
  by (simp add: first_max_def)

text \<open>The loop: every usable backend gets its weight, the total is their sum, and the index is that
  of the first usable backend with the largest counter, if one beats the bound it started with.\<close>

definition pick_spec ::
  "pool_entry list \<Rightarrow> nat \<Rightarrow> shares \<Rightarrow> (nat \<Rightarrow> int) \<Rightarrow> nat option \<Rightarrow> int \<Rightarrow> nat option \<Rightarrow> bool" where
  "pick_spec es i us c best bw r \<longleftrightarrow>
     (if \<exists>x \<in> set us. bw < c (fst x)
      then \<exists>j < length es. r = Some (i + j) \<and> pe_backend (es ! j) = first_max c (map fst us)
      else r = best)"

lemma pick_spec_skip:
  "pick_spec es (i + 1) us c best bw r \<Longrightarrow> pick_spec (e # es) i us c best bw r"
proof -
  assume h: "pick_spec es (i + 1) us c best bw r"
  show ?thesis
  proof (cases "\<exists>x \<in> set us. bw < c (fst x)")
    case True
    with h obtain j where "j < length es" "r = Some (i + 1 + j)" "pe_backend (es ! j) = first_max c (map fst us)"
      unfolding pick_spec_def by auto
    then have "Suc j < length (e # es) \<and> r = Some (i + Suc j) \<and>
        pe_backend ((e # es) ! Suc j) = first_max c (map fst us)" by simp
    then show ?thesis using True unfolding pick_spec_def by metis
  next
    case False
    then show ?thesis using h unfolding pick_spec_def by auto
  qed
qed

lemma pick_spec_take:
  assumes "pick_spec es (i + 1) us c (Some i) (c (pe_backend e)) r" "bw < c (pe_backend e)"
  shows "pick_spec (e # es) i ((pe_backend e, w) # us) c best bw r"
proof (cases "\<exists>x \<in> set us. c (pe_backend e) < c (fst x)")
  case True
  have "first_max c (map fst ((pe_backend e, w) # us)) = first_max c (map fst us)"
    using True by (simp add: first_max_skip)
  moreover have "pick_spec (e # es) i us c (Some i) (c (pe_backend e)) r" using assms(1) by (rule pick_spec_skip)
  ultimately show ?thesis using True assms(2) unfolding pick_spec_def by auto
next
  case False
  then have "first_max c (map fst ((pe_backend e, w) # us)) = pe_backend e"
    by (simp add: first_max_here not_less)
  moreover have "r = Some i" using False assms(1) unfolding pick_spec_def by auto
  ultimately show ?thesis using assms(2) unfolding pick_spec_def by force
qed

lemma pick_spec_pass:
  assumes "pick_spec es (i + 1) us c best bw r" "\<not> bw < c (pe_backend e)"
  shows "pick_spec (e # es) i ((pe_backend e, w) # us) c best bw r"
proof (cases "\<exists>x \<in> set us. bw < c (fst x)")
  case True
  then obtain x where "x \<in> set us" "c (pe_backend e) < c (fst x)" using assms(2) by fastforce
  then have "\<exists>q \<in> set (map fst us). c (pe_backend e) < c q" by auto
  then have "first_max c (map fst ((pe_backend e, w) # us)) = first_max c (map fst us)"
    by (simp only: list.map fst_conv first_max_skip)
  moreover have "pick_spec (e # es) i us c best bw r" using assms(1) by (rule pick_spec_skip)
  ultimately show ?thesis using True unfolding pick_spec_def by auto
next
  case False
  then show ?thesis using assms unfolding pick_spec_def by auto
qed

lemma select_loop_spec:
  assumes "pool_wf es h" "no_overflow es h tot"
  defines "us \<equiv> usable_shares es h"
  shows "\<exists>r. select_loop es i h tot best bw
      = (with_currents (bump us (currents h)) h, tot + weight_sum us, r) \<and>
    pick_spec es i us (bump us (currents h)) best bw r"
  using assms(1,2) unfolding us_def
proof (induction es arbitrary: i h tot best bw)
  case Nil
  have "bump [] (currents h) = currents h" by (simp add: bump_def fun_eq_iff)
  then show ?case by (simp add: usable_shares_def pick_spec_def with_currents_self)
next
  case (Cons e es)
  let ?p = "pe_backend e" and ?w = "pe_weight e" and ?us = "usable_shares es h"
  have wf: "pool_wf es h" "?p < length h" "?p \<notin> pe_backend ` set es"
    using Cons.prems(1) by (auto simp: pool_wf_def)
  have new: "?p \<notin> fst ` set ?us" using wf(3) usable_shares_ptrs by blast
  show ?case
  proof (cases "usable (h ! ?p)")
    case False
    then have "usable_shares (e # es) h = ?us" by (simp add: usable_shares_Cons)
    moreover have "no_overflow es h tot" using Cons.prems(2) False by (simp add: no_overflow_def usable_shares_Cons)
    moreover have "select_loop (e # es) i h tot best bw = select_loop es (i + 1) h tot best bw"
      using False by (auto simp: usable_def Let_def)
    ultimately show ?thesis
      using Cons.IH [OF wf(1), of tot "i + 1" best bw] pick_spec_skip by metis
  next
    case True
    let ?cw = "currents h ?p + ?w"
    let ?h = "h[?p := (h ! ?p)\<lparr>be_current := ?cw\<rparr>]"
    have us: "usable_shares (e # es) h = (?p, ?w) # ?us" using True by (simp add: usable_shares_Cons)
    have o: "0 \<le> tot" "0 < ?w" "tot + (?w + weight_sum ?us) < 2 ^ 62" "\<bar>currents h ?p\<bar> < 2 ^ 62"
        "\<forall>(p, w) \<in> set ?us. 0 < w \<and> \<bar>currents h p\<bar> < 2 ^ 62"
      using Cons.prems(2) by (auto simp: no_overflow_def us)
    have W: "0 \<le> weight_sum ?us" using o(5) by (intro weight_sum_nonneg) auto
    have i1: "i64 (be_current (h ! ?p) + ?w) = ?cw"
      unfolding currents_def [of h, symmetric] using o W by (intro i64_id) auto
    have i2: "i64 (tot + ?w) = tot + ?w" using o W by (intro i64_id) auto
    have us': "usable_shares es ?h = ?us" by (rule usable_shares_update [OF wf(2)])
    have cur: "currents ?h = (currents h)(?p := ?cw)" by (rule currents_update [OF wf(2)])
    have b: "bump ?us (currents ?h) = bump ((?p, ?w) # ?us) (currents h)"
      unfolding cur by (rule bump_Cons [OF new, symmetric])
    have cp: "bump ((?p, ?w) # ?us) (currents h) ?p = ?cw" by (simp add: bump_def)
    have ov: "no_overflow es ?h (tot + ?w)"
    proof -
      have "0 < w \<and> \<bar>((currents h)(?p := ?cw)) p\<bar> < 2 ^ 62" if x: "(p, w) \<in> set ?us" for p w
      proof -
        have "p \<noteq> ?p" using new x by (metis fst_conv imageI)
        then show ?thesis using o(5) x by auto
      qed
      then show ?thesis unfolding no_overflow_def us' cur using o by auto
    qed
    have wf': "pool_wf es ?h" using wf(1) by (simp add: pool_wf_def)
    have wc: "with_currents c ?h = with_currents c h" for c by (rule with_currents_update [OF wf(2)])
    have step: "select_loop (e # es) i h tot best bw =
        (if bw < ?cw then select_loop es (i + 1) ?h (tot + ?w) (Some i) ?cw
         else select_loop es (i + 1) ?h (tot + ?w) best bw)"
      using True unfolding select_loop.simps i1 i2 Let_def usable_def by auto
    note IH = Cons.IH [OF wf' ov, unfolded us' b wc]
    show ?thesis
    proof (cases "bw < ?cw")
      case True
      from IH [of "i + 1" "Some i" ?cw] obtain r where
        r: "select_loop es (i + 1) ?h (tot + ?w) (Some i) ?cw
            = (with_currents (bump ((?p, ?w) # ?us) (currents h)) h, tot + ?w + weight_sum ?us, r)"
          "pick_spec es (i + 1) ?us (bump ((?p, ?w) # ?us) (currents h)) (Some i) ?cw r" by blast
      from pick_spec_take [OF r(2) [folded cp]] True r(1) show ?thesis
        unfolding step us by (auto simp: cp add.assoc)
    next
      case False
      from IH [of "i + 1" best bw] obtain r where
        r: "select_loop es (i + 1) ?h (tot + ?w) best bw
            = (with_currents (bump ((?p, ?w) # ?us) (currents h)) h, tot + ?w + weight_sum ?us, r)"
          "pick_spec es (i + 1) ?us (bump ((?p, ?w) # ?us) (currents h)) best bw r" by blast
      from pick_spec_pass [OF r(2)] False r(1) show ?thesis
        unfolding step us by (auto simp: cp add.assoc)
    qed
  qed
qed

section \<open>Selection implements the abstract scheduler\<close>

lemma bump_bound:
  assumes "(p, w) \<in> set ps" "distinct (map fst ps)"
  shows "bump ps c p = c p + w"
  using assms by (simp add: bump_def)

lemma distinct_usable: "pool_wf es h \<Longrightarrow> distinct (map fst (usable_shares es h))"
  by (simp add: usable_shares_def pool_wf_def comp_def distinct_map_filter)

lemma weight_le_sum: "(\<forall>(p, w) \<in> set ps. 0 < w) \<Longrightarrow> (p, w) \<in> set ps \<Longrightarrow> w \<le> weight_sum ps"
proof (induction ps)
  case (Cons x ps)
  have "0 \<le> weight_sum ps" using Cons.prems(1) by (intro weight_sum_nonneg) auto
  then show ?case using Cons by (cases x) fastforce
qed simp

lemma select_none:
  assumes "pool_wf es h" "usable_shares es h = []"
  shows "select es h = (None, h)"
proof -
  have "no_overflow es h 0" using assms(2) by (simp add: no_overflow_def)
  from select_loop_spec [OF assms(1) this, of 0 None "- max_int"] obtain r where
    r: "select_loop es 0 h 0 None (- max_int) = (with_currents (bump [] (currents h)) h, 0, r)"
      "pick_spec es 0 [] (bump [] (currents h)) None (- max_int) r"
    by (auto simp: assms(2))
  have "bump [] (currents h) = currents h" by (simp add: bump_def fun_eq_iff)
  then show ?thesis using r by (simp add: select_def pick_spec_def with_currents_self)
qed

lemma select_some:
  assumes "pool_wf es h" "no_overflow es h 0"
  defines "us \<equiv> usable_shares es h"
  assumes "us \<noteq> []"
  shows "select es h = (Some (swrr_pick us (currents h)), with_currents (swrr_next us (currents h)) h)"
proof -
  let ?c = "bump us (currents h)" and ?p = "swrr_pick us (currents h)"
  have d: "distinct (map fst us)" unfolding us_def by (rule distinct_usable [OF assms(1)])
  have ov: "\<forall>(p, w) \<in> set us. 0 < w \<and> \<bar>currents h p\<bar> < 2 ^ 62" "weight_sum us < 2 ^ 62"
    using assms(2) by (simp_all add: no_overflow_def us_def)
  have b: "\<bar>currents h (fst x)\<bar> < 2 ^ 62 \<and> ?c (fst x) = currents h (fst x) + snd x \<and> 0 < snd x \<and> snd x \<le> weight_sum us"
    if x: "x \<in> set us" for x
  proof -
    have "(fst x, snd x) \<in> set us" using x by simp
    then show ?thesis using ov weight_le_sum [of us "fst x" "snd x"] bump_bound [OF _ d] by fastforce
  qed
  have pos: "0 < weight_sum us" using assms(4) b by (cases us) (fastforce simp: dest: spec)+
  from select_loop_spec [OF assms(1,2), of 0 None "- max_int", folded us_def] obtain r where
    r: "select_loop es 0 h 0 None (- max_int) = (with_currents ?c h, weight_sum us, r)"
      "pick_spec es 0 us ?c None (- max_int) r" by auto
  obtain x where x: "x \<in> set us" using assms(4) by (cases us) auto
  have "- max_int < ?c (fst x)" using b [OF x] by (simp add: max_int_def abs_less_iff)
  then have "\<exists>x \<in> set us. - max_int < ?c (fst x)" using x by blast
  then obtain j where j: "j < length es" "r = Some j" "pe_backend (es ! j) = ?p"
    using r(2) unfolding pick_spec_def swrr_pick_def by auto
  have "?p \<in> fst ` set us" by (rule swrr_pick_in [OF assms(4)])
  then obtain y where y: "y \<in> set us" "fst y = ?p" by auto
  have "es ! j \<in> set es" using j(1) by simp
  then have len: "?p < length h" using assms(1) j(3) by (metis pool_wf_def)
  have i: "i64 (?c ?p - weight_sum us) = ?c ?p - weight_sum us"
    using b [OF y(1)] ov(2) pos unfolding y(2) by (intro i64_id) auto
  have "(with_currents ?c h)[?p := (with_currents ?c h ! ?p)\<lparr>be_current := ?c ?p - weight_sum us\<rparr>]
      = with_currents (swrr_next us (currents h)) h"
    by (rule nth_equalityI) (use len in \<open>auto simp: nth_list_update swrr_next_def\<close>)
  then show ?thesis
    using r(1) j pos i len by (auto simp: select_def Let_def)
qed

lemma select_abstract:
  assumes "pool_wf es h" and "no_overflow es h 0"
  shows "select es h = (if usable_shares es h = [] then (None, h)
     else (Some (swrr_pick (usable_shares es h) (currents h)),
           with_currents (swrr_next (usable_shares es h) (currents h)) h))"
  using select_none [OF assms(1)] select_some [OF assms] by simp

text \<open>C26: c25: \<open>Select\<close> implements the abstract smooth weighted round robin on the counters of the usable
  backends of the pool: it picks the first one with the largest counter after every counter got
  its weight, takes the total from the pick, changes nothing else on the heap, and reports that no
  backend is available exactly when no backend of the pool is usable.\<close>

theorem select_refines:
  assumes "pool_wf es h" and "no_overflow es h 0"
  shows "select es h = (if usable_shares es h = [] then (None, h)
     else (Some (swrr_pick (usable_shares es h) (currents h)),
           with_currents (swrr_next (usable_shares es h) (currents h)) h))"
  by (rule select_abstract [OF assms])

section \<open>Fairness\<close>

fun select_run :: "nat \<Rightarrow> pool_entry list \<Rightarrow> bheap \<Rightarrow> nat option list \<times> bheap" where
  "select_run 0 es h = ([], h)"
| "select_run (Suc n) es h =
     (let (r, h') = select es h; (rs, h'') = select_run n es h' in (r # rs, h''))"

lemma usable_shares_with: "pool_wf es h \<Longrightarrow> usable_shares es (with_currents c h) = usable_shares es h"
  unfolding usable_shares_def by (intro map_cong filter_cong) (auto simp: pool_wf_def)

lemma with_with: "with_currents c (with_currents c' h) = with_currents c h"
  by (rule nth_equalityI) auto

lemma currents_with: "p < length h \<Longrightarrow> currents (with_currents c h) p = c p"
  by (simp add: currents_def)

text \<open>Picks and later counters depend on the counters of the shares only.\<close>

lemma agree_next:
  assumes "\<And>p. p \<in> S \<Longrightarrow> c p = c' p" "fst ` set ps \<subseteq> S"
  shows "swrr_pick ps c = swrr_pick ps c'" "p \<in> S \<Longrightarrow> swrr_next ps c p = swrr_next ps c' p"
proof -
  have b: "bump ps c p = bump ps c' p" if "p \<in> S" for p using assms(1) that by (simp add: bump_def)
  have "\<And>p. p \<in> set (map fst ps) \<Longrightarrow> p \<in> S" using assms(2) by auto
  then have "filter (\<lambda>p. \<forall>q \<in> set (map fst ps). bump ps c q \<le> bump ps c p) (map fst ps)
      = filter (\<lambda>p. \<forall>q \<in> set (map fst ps). bump ps c' q \<le> bump ps c' p) (map fst ps)"
    using b by (intro filter_cong) auto
  then show p: "swrr_pick ps c = swrr_pick ps c'" by (simp only: swrr_pick_def first_max_def)
  show "p \<in> S \<Longrightarrow> swrr_next ps c p = swrr_next ps c' p"
    using b by (auto simp: swrr_next_def p)
qed

lemma agree_run:
  "(\<And>p. p \<in> S \<Longrightarrow> c p = c' p) \<Longrightarrow> fst ` set ps \<subseteq> S \<Longrightarrow>
   fst (swrr_run n ps c) = fst (swrr_run n ps c') \<and>
   (\<forall>p \<in> S. snd (swrr_run n ps c) p = snd (swrr_run n ps c') p)"
proof (induction n arbitrary: c c')
  case (Suc n)
  note a = agree_next [OF Suc.prems]
  show ?case using Suc.IH [of "swrr_next ps c" "swrr_next ps c'", OF a(2) Suc.prems(2)] a(1) by simp
qed simp

lemma fair_no_overflow:
  assumes "pool_wf es h" "shares_ok (usable_shares es h)" "fair_state (usable_shares es h) (currents h)"
    and "weight_sum (usable_shares es h) * int (length (usable_shares es h)) < 2 ^ 62"
  shows "no_overflow es h 0"
proof -
  let ?us = "usable_shares es h"
  have W: "0 < weight_sum ?us" by (rule weight_sum_pos [OF assms(2)])
  have k: "1 \<le> int (length ?us)" using assms(2) by (cases ?us) (auto simp: shares_ok_def)
  have Wk: "weight_sum ?us * 1 \<le> weight_sum ?us * int (length ?us)" using W k by (intro mult_left_mono) auto
  have "0 < w \<and> \<bar>currents h p\<bar> < 2 ^ 62" if pw: "(p, w) \<in> set ?us" for p w
  proof -
    have "p \<in> fst ` set ?us" using pw by (metis fst_conv imageI)
    note B = fair_bounds [OF assms(2,3) this]
    have "(int (length ?us) - 1) * (weight_sum ?us - 1) \<le> int (length ?us) * weight_sum ?us"
      using W k by (intro mult_mono) auto
    also have "\<dots> = weight_sum ?us * int (length ?us)" by simp
    finally have "currents h p < 2 ^ 62" using B(2) assms(4) by linarith
    moreover have "- (2 ^ 62) < currents h p" using B(1) Wk assms(4) by linarith
    moreover have "0 < w" using assms(2) pw by (auto simp: shares_ok_def)
    ultimately show ?thesis by auto
  qed
  then show ?thesis using Wk assms(4) by (auto simp: no_overflow_def)
qed

lemma select_run_eq:
  assumes "pool_wf es h" "shares_ok (usable_shares es h)" "fair_state (usable_shares es h) (currents h)"
    and "weight_sum (usable_shares es h) * int (length (usable_shares es h)) < 2 ^ 62"
  shows "select_run n es h = (map Some (fst (swrr_run n (usable_shares es h) (currents h))),
    with_currents (snd (swrr_run n (usable_shares es h) (currents h))) h)"
  using assms
proof (induction n arbitrary: h)
  case 0
  then show ?case by (simp add: with_currents_self)
next
  case (Suc n)
  let ?us = "usable_shares es h" and ?c = "swrr_next (usable_shares es h) (currents h)"
  let ?h = "with_currents ?c h" and ?S = "{p. p < length h}"
  have ne: "?us \<noteq> []" using Suc.prems(2) by (simp add: shares_ok_def)
  have sel: "select es h = (Some (swrr_pick ?us (currents h)), ?h)"
    by (rule select_some [OF Suc.prems(1) fair_no_overflow [OF Suc.prems] ne])
  have us: "usable_shares es ?h = ?us" by (rule usable_shares_with [OF Suc.prems(1)])
  have sub: "fst ` set ?us \<subseteq> ?S" using Suc.prems(1) usable_shares_ptrs [of es h] by (auto simp: pool_wf_def)
  have cur: "p \<in> ?S \<Longrightarrow> currents ?h p = ?c p" for p by (simp add: currents_with)
  have "map (currents ?h) (map fst ?us) = map ?c (map fst ?us)"
    using sub cur by (intro map_cong) auto
  moreover have "\<forall>p \<in> fst ` set ?us. currents ?h p = ?c p" using sub cur by blast
  ultimately have fair: "fair_state ?us (currents ?h)"
    using fair_step [OF Suc.prems(2,3)] unfolding fair_state_def by metis
  have wf: "pool_wf es ?h" using Suc.prems(1) by (simp add: pool_wf_def)
  note IH = Suc.IH [OF wf, unfolded us, OF Suc.prems(2) fair Suc.prems(4)]
  note A = agree_run [of ?S "currents ?h" ?c ?us n, OF cur sub]
  have "with_currents (snd (swrr_run n ?us (currents ?h))) h = with_currents (snd (swrr_run n ?us ?c)) h"
    by (rule nth_equalityI) (use A in auto)
  then show ?case using IH A by (simp add: sel with_with)
qed

text \<open>C27: smooth weighted round robin is fair on the code's pool: from zero counters, as long as the
  same backends stay usable, every selection succeeds; after any number \<open>n\<close> of selections a backend
  of weight \<open>w\<close> was picked fewer than \<open>n * w / W + 1\<close> times (\<open>W\<close> the total weight), and after a
  multiple of \<open>W\<close> selections exactly in proportion to its weight.\<close>

theorem select_fair:
  fixes n m :: nat
  assumes "pool_wf es h" and "shares_ok (usable_shares es h)" and "zero_on (usable_shares es h) (currents h)"
    and "weight_sum (usable_shares es h) * int (length (usable_shares es h)) < 2 ^ 62"
    and "(p, w) \<in> set (usable_shares es h)"
  shows "None \<notin> set (fst (select_run n es h)) \<and>
    weight_sum (usable_shares es h) * int (count_list (fst (select_run n es h)) (Some p))
      < int n * w + weight_sum (usable_shares es h) \<and>
    (int n = int m * weight_sum (usable_shares es h) \<longrightarrow>
      int (count_list (fst (select_run n es h)) (Some p)) = int m * w)"
proof -
  let ?us = "usable_shares es h"
  have fair: "fair_state ?us (currents h)" by (rule fair_zero [OF assms(2,3)])
  have run: "fst (select_run n es h) = map Some (fst (swrr_run n ?us (currents h)))"
    by (simp add: select_run_eq [OF assms(1,2) fair assms(4)])
  have count: "count_list (map Some xs) (Some p) = count_list xs p" for xs
    by (induction xs) auto
  show ?thesis unfolding run count
    using run_balance(1) [OF assms(2,5,3), of n] run_exact [OF assms(2,5,3), of n m] by auto
qed

section \<open>An example\<close>

definition sample_backend :: "string \<Rightarrow> int \<Rightarrow> backend" where
  "sample_backend name w = \<lparr>be_name = name, be_url = the (url_parse ''http://h''), be_weight = w, be_tag = [],
     be_health_path = ''/'', be_timeout = second, be_headers = [], be_effective = w, be_current = 0,
     be_healthy = True, be_last_check = 0, be_failures = 0, be_enabled = True\<rparr>"

definition sample_heap :: bheap where
  "sample_heap = [sample_backend ''a'' 5, sample_backend ''b'' 1, set_health False (sample_backend ''c'' 9)]"

definition sample_pool :: "pool_entry list" where
  "sample_pool = [\<lparr>pe_backend = 0, pe_weight = 5\<rparr>, \<lparr>pe_backend = 1, pe_weight = 1\<rparr>, \<lparr>pe_backend = 2, pe_weight = 9\<rparr>]"

lemma sample_pool_simps:
  "pool_wf sample_pool sample_heap" "usable_shares sample_pool sample_heap = [(0, 5), (1, 1)]"
  "shares_ok [(0, 5), (1, 1)]" "zero_on [(0, 5), (1, 1)] (currents sample_heap)"
  by (simp_all add: pool_wf_def sample_pool_def sample_heap_def usable_shares_def usable_def is_healthy_def
      sample_backend_def set_health_def shares_ok_def zero_on_def currents_def)

theorem select_refines_witness:
  "fst (select sample_pool sample_heap) = Some (swrr_pick [(0, 5), (1, 1)] (currents sample_heap))"
proof -
  have "no_overflow sample_pool sample_heap 0"
    by (simp add: no_overflow_def sample_pool_simps(2)) (simp add: currents_def sample_heap_def sample_backend_def)
  from select_refines [OF sample_pool_simps(1) this] show ?thesis by (simp add: sample_pool_simps(2))
qed

theorem select_fair_witness:
  "count_list (fst (select_run 6 sample_pool sample_heap)) (Some 0) = 5"
  using select_fair [OF sample_pool_simps(1), unfolded sample_pool_simps(2), OF sample_pool_simps(3,4), of 0 5 6 1]
  by simp

end
