(* ===== verification/ManagerProps.thy ===== *)
theory ManagerProps
  imports PoolProps
begin

text \<open>
  Correctness of the backend manager: its invariant over every history of upserts, removals,
  health checks, toggles and selections, what an upsert makes visible, which pools it builds, and
  what a cycle of health checks decides.
\<close>

section \<open>Invariant\<close>

definition be_ok :: "backend \<Rightarrow> bool" where
  "be_ok b \<longleftrightarrow> be_effective b = (if be_healthy b then be_weight b else 0)"

definition mgr_ok :: "manager \<Rightarrow> bool" where
  "mgr_ok m \<longleftrightarrow>
     distinct (mg_backends m) \<and> (\<forall>p \<in> set (mg_backends m). p < length (mg_heap m)) \<and>
     gm_ok (mg_by_name m) \<and>
     (\<forall>n p. gm_get (mg_by_name m) n = Some p \<longleftrightarrow> p \<in> set (mg_backends m) \<and> be_name (mg_heap m ! p) = n) \<and>
     list_all be_ok (mg_heap m)"

lemma mgr_okD:
  assumes "mgr_ok m" "gm_get (mg_by_name m) n = Some p"
  shows "p \<in> set (mg_backends m)" "p < length (mg_heap m)" "be_name (mg_heap m ! p) = n" "be_ok (mg_heap m ! p)"
  using assms by (auto simp: mgr_ok_def list_all_length)

lemma be_ok_simps [simp, inv_intros]:
  "be_ok (set_health h b)" "be_ok b \<Longrightarrow> be_ok (set_enabled e b)"
  "be_ok b \<Longrightarrow> be_ok (mark_failure now b)" "be_ok b \<Longrightarrow> be_ok (mark_success now b)"
  "be_ok b \<Longrightarrow> be_ok (b\<lparr>be_current := x\<rparr>)" "be_ok b \<Longrightarrow> be_ok (b\<lparr>be_headers := hs\<rparr>)"
  by (simp_all add: be_ok_def set_health_def set_enabled_def mark_failure_def mark_success_def)

lemma be_ok_new: "new_backend name raw w tag path t hs = Some b \<Longrightarrow> be_ok b \<and> be_name b = name"
  by (auto simp: new_backend_def be_ok_def)

lemma be_ok_update_config: "update_config raw w tag t path b = Some b' \<Longrightarrow> be_ok b \<Longrightarrow> be_ok b' \<and> be_name b' = be_name b"
  by (auto simp: update_config_def be_ok_def)

lemma be_ok_check [simp]: "be_ok b \<Longrightarrow> be_ok (check_backend probe now b)"
  by (auto simp: check_backend_def split: probe_result.split)

lemma name_simps [simp]:
  "be_name (set_health h b) = be_name b" "be_name (set_enabled e b) = be_name b"
  "be_name (mark_failure now b) = be_name b" "be_name (mark_success now b) = be_name b"
  "be_name (check_backend probe now b) = be_name b"
  by (auto simp: set_health_def set_enabled_def mark_failure_def mark_success_def check_backend_def
      split: probe_result.split)

text \<open>Changing a backend in place, keeping its name.\<close>

lemma mgr_ok_set [inv_intros]:
  assumes "mgr_ok m" "be_name b = be_name (mg_heap m ! p)" "be_ok b"
  shows "mgr_ok (m\<lparr>mg_heap := (mg_heap m)[p := b]\<rparr>)"
proof -
  have "be_name ((mg_heap m)[p := b] ! q) = be_name (mg_heap m ! q)" for q
    using assms(2) by (cases "p < length (mg_heap m)") (auto simp: nth_list_update list_update_beyond)
  moreover have "list_all be_ok ((mg_heap m)[p := b])"
    using assms(1,3) set_update_subset_insert [of "mg_heap m" p b] by (auto simp: mgr_ok_def list_all_iff)
  ultimately show ?thesis using assms(1) by (simp add: mgr_ok_def)
qed

lemma mgr_ok_add [inv_intros]:
  assumes "mgr_ok m" "be_ok b" "gm_get (mg_by_name m) (be_name b) = None"
  shows "mgr_ok (m\<lparr>mg_heap := mg_heap m @ [b], mg_backends := mg_backends m @ [length (mg_heap m)],
     mg_by_name := gm_put (be_name b) (length (mg_heap m)) (mg_by_name m)\<rparr>)"
proof -
  have b: "p \<in> set (mg_backends m) \<Longrightarrow> p < length (mg_heap m)" for p using assms(1) by (auto simp: mgr_ok_def)
  have no: "p \<in> set (mg_backends m) \<Longrightarrow> be_name (mg_heap m ! p) \<noteq> be_name b" for p
  proof
    assume "p \<in> set (mg_backends m)" "be_name (mg_heap m ! p) = be_name b"
    then have "gm_get (mg_by_name m) (be_name b) = Some p" using assms(1) unfolding mgr_ok_def by blast
    then show False using assms(3) by simp
  qed
  have "(gm_get (gm_put (be_name b) (length (mg_heap m)) (mg_by_name m)) n = Some p) =
      (p \<in> set (mg_backends m @ [length (mg_heap m)]) \<and> be_name ((mg_heap m @ [b]) ! p) = n)" for n p
  proof (cases "p = length (mg_heap m)")
    case True
    have "gm_get (mg_by_name m) n \<noteq> Some p" using assms(1) b True unfolding mgr_ok_def by blast
    then show ?thesis using True by auto
  next
    case False
    have "(gm_get (mg_by_name m) n = Some p) = (p \<in> set (mg_backends m) \<and> be_name (mg_heap m ! p) = n)"
      using assms(1) unfolding mgr_ok_def by blast
    then show ?thesis using False b no assms(3) by (auto simp: nth_append)
  qed
  moreover have "length (mg_heap m) \<notin> set (mg_backends m)" using b by blast
  ultimately show ?thesis using assms(1,2) b unfolding mgr_ok_def by (auto simp: less_SucI)
qed

lemma mgr_ok_remove: "mgr_ok m \<Longrightarrow> remove_backend n m = Inr m' \<Longrightarrow> mgr_ok m'"
  unfolding remove_backend_def mgr_ok_def by (auto split: if_splits)

lemma mgr_ok_upsert: "mgr_ok m \<Longrightarrow> upsert_backend c m = Inr m' \<Longrightarrow> mgr_ok m'"
proof -
  assume m: "mgr_ok m" "upsert_backend c m = Inr m'"
  let ?c = "normalize_upsert c"
  show ?thesis
  proof (cases "gm_get (mg_by_name m) (bc_name ?c)")
    case None
    then obtain b where b: "new_backend (bc_name ?c) (bc_url ?c) (bc_weight ?c) (bc_tag ?c) (bc_health_path ?c)
          (bc_timeout ?c) (bc_headers ?c) = Some b"
        "m' = m\<lparr>mg_heap := mg_heap m @ [b], mg_backends := mg_backends m @ [length (mg_heap m)],
           mg_by_name := gm_put (bc_name ?c) (length (mg_heap m)) (mg_by_name m)\<rparr>"
      using m(2) by (auto simp: upsert_backend_def Let_def split: option.splits)
    from be_ok_new [OF b(1)] None show ?thesis using mgr_ok_add [OF m(1), of b] by (simp add: b(2))
  next
    case (Some p)
    note D = mgr_okD [OF m(1) Some]
    obtain b where b: "update_config (bc_url ?c) (bc_weight ?c) (bc_tag ?c) (bc_timeout ?c) (bc_health_path ?c)
          (mg_heap m ! p) = Some b"
        "m' = m\<lparr>mg_heap := (mg_heap m)[p := set_enabled True (b\<lparr>be_headers := bc_headers ?c\<rparr>)]\<rparr>"
      using m(2) Some by (auto simp: upsert_backend_def Let_def split: option.splits)
    from be_ok_update_config [OF b(1) D(4)] show ?thesis
      unfolding b(2) by (intro mgr_ok_set [OF m(1)]) auto
  qed
qed

lemma mgr_ok_check: "mgr_ok m \<Longrightarrow> mgr_ok (check_all probe now m)"
proof -
  assume m: "mgr_ok m"
  have "mgr_ok (m\<lparr>mg_heap := fold (\<lambda>p h. h[p := check_backend probe now (h ! p)]) ps (mg_heap m)\<rparr>)"
    if "set ps \<subseteq> set (mg_backends m)" for ps
    using m that
  proof (induction ps arbitrary: m)
    case (Cons p ps)
    have p: "p < length (mg_heap m)" using Cons.prems by (auto simp: mgr_ok_def)
    have "be_ok (mg_heap m ! p)" using Cons.prems(1) p by (auto simp: mgr_ok_def list_all_length)
    then have "mgr_ok (m\<lparr>mg_heap := (mg_heap m)[p := check_backend probe now (mg_heap m ! p)]\<rparr>)"
      by (intro mgr_ok_set [OF Cons.prems(1)]) auto
    from Cons.IH [OF this] Cons.prems(2) show ?case by simp
  qed simp
  then show ?thesis unfolding check_all_def by blast
qed

lemma mgr_ok_names:
  assumes "mgr_ok m" "length h = length (mg_heap m)" "list_all be_ok h"
    and "\<And>p. p < length h \<Longrightarrow> be_name (h ! p) = be_name (mg_heap m ! p)"
  shows "mgr_ok (m\<lparr>mg_heap := h\<rparr>)"
  using assms by (auto simp: mgr_ok_def)

lemma select_loop_keeps:
  "length (fst (select_loop es i h tot best bw)) = length h \<and>
   (list_all be_ok h \<longrightarrow> list_all be_ok (fst (select_loop es i h tot best bw))) \<and>
   (\<forall>p. be_name (fst (select_loop es i h tot best bw) ! p) = be_name (h ! p))"
proof (induction es arbitrary: i h tot best bw)
  case (Cons e es)
  let ?h = "h[pe_backend e := (h ! pe_backend e)\<lparr>be_current := x\<rparr>]"
  have keep: "be_name (h[q := (h ! q)\<lparr>be_current := x\<rparr>] ! p) = be_name (h ! p)" for q p x
    by (cases "q < length h") (auto simp: nth_list_update list_update_beyond)
  have ok: "list_all be_ok h \<Longrightarrow> list_all be_ok (h[q := (h ! q)\<lparr>be_current := x\<rparr>])" for q x
    by (cases "q < length h") (auto simp: list_all_length nth_list_update list_update_beyond)
  show ?case using Cons.IH ok by (simp add: Let_def keep)
qed simp

lemma select_keeps:
  "length (snd (select es h)) = length h \<and> (list_all be_ok h \<longrightarrow> list_all be_ok (snd (select es h))) \<and>
   (\<forall>p. be_name (snd (select es h) ! p) = be_name (h ! p))"
proof -
  obtain h' t r where r: "select_loop es 0 h 0 None (- max_int) = (h', t, r)" by (metis prod_cases3)
  have k: "length h' = length h" "list_all be_ok h \<Longrightarrow> list_all be_ok h'" "be_name (h' ! p) = be_name (h ! p)" for p
    using select_loop_keeps [of es 0 h 0 None "- max_int"] by (simp_all add: r)
  have upd: "be_name (h'[q := (h' ! q)\<lparr>be_current := x\<rparr>] ! p) = be_name (h' ! p)" for q p x
    by (cases "q < length h'") (auto simp: nth_list_update list_update_beyond)
  have ok: "list_all be_ok h' \<Longrightarrow> list_all be_ok (h'[q := (h' ! q)\<lparr>be_current := x\<rparr>])" for q x
    by (cases "q < length h'") (auto simp: list_all_length nth_list_update list_update_beyond)
  show ?thesis using k ok by (simp add: select_def r Let_def upd split: option.split)
qed

lemma mgr_ok_select: "mgr_ok m \<Longrightarrow> mgr_ok (m\<lparr>mg_heap := snd (select es (mg_heap m))\<rparr>)"
  using select_keeps [of es "mg_heap m"] by (intro mgr_ok_names) (auto simp: mgr_ok_def)

text \<open>The live toggle of the dashboard.\<close>

definition toggle_backend :: "string \<Rightarrow> bool \<Rightarrow> manager \<Rightarrow> manager" where
  "toggle_backend n e m =
     (case gm_get (mg_by_name m) n of
        None \<Rightarrow> m
      | Some p \<Rightarrow> m\<lparr>mg_heap := (mg_heap m)[p := set_enabled e (mg_heap m ! p)]\<rparr>)"

lemma mgr_ok_toggle:
  assumes "mgr_ok m"
  shows "mgr_ok (toggle_backend n e m)"
proof (cases "gm_get (mg_by_name m) n")
  case None
  then show ?thesis using assms by (simp add: toggle_backend_def)
next
  case (Some p)
  show ?thesis using mgr_ok_set [OF assms, of "set_enabled e (mg_heap m ! p)" p] mgr_okD(4) [OF assms Some]
    by (simp add: toggle_backend_def Some)
qed

inductive manager_step :: "manager \<Rightarrow> manager \<Rightarrow> bool" where
  upsert: "upsert_backend c m = Inr m' \<Longrightarrow> manager_step m m'"
| remove: "remove_backend n m = Inr m' \<Longrightarrow> manager_step m m'"
| check: "manager_step m (check_all probe now m)"
| toggle: "manager_step m (toggle_backend n e m)"
| select: "manager_step m (m\<lparr>mg_heap := snd (select es (mg_heap m))\<rparr>)"

inductive_cases manager_stepE: "manager_step m m'"

lemma mgr_ok_step [inv_intros]: "manager_step m m' \<Longrightarrow> mgr_ok m \<Longrightarrow> mgr_ok m'"
  by (elim manager_stepE) (auto intro: mgr_ok_upsert mgr_ok_remove mgr_ok_check mgr_ok_toggle mgr_ok_select)

lemma mgr_ok_add_backends:
  "mgr_ok m \<Longrightarrow> distinct (map bc_name cs) \<Longrightarrow> \<forall>c \<in> set cs. gm_get (mg_by_name m) (bc_name c) = None \<Longrightarrow>
   add_backends cs m = Inr m' \<Longrightarrow> mgr_ok m'"
proof (induction cs arbitrary: m)
  case (Cons c cs)
  obtain b where b: "new_backend (bc_name c) (bc_url c) (bc_weight c) (bc_tag c) (bc_health_path c) (bc_timeout c)
         (bc_headers c) = Some b"
    using Cons.prems(4) by (auto split: option.splits)
  note ok = be_ok_new [OF b]
  let ?m = "m\<lparr>mg_heap := mg_heap m @ [b], mg_backends := mg_backends m @ [length (mg_heap m)],
            mg_by_name := gm_put (bc_name c) (length (mg_heap m)) (mg_by_name m)\<rparr>"
  have "mgr_ok ?m" using mgr_ok_add [OF Cons.prems(1), of b] ok Cons.prems(3) by simp
  moreover have "\<forall>x \<in> set cs. gm_get (mg_by_name ?m) (bc_name x) = None"
  proof
    fix x assume x: "x \<in> set cs"
    then have "bc_name x \<noteq> bc_name c" using Cons.prems(2) by (metis distinct.simps(2) image_eqI list.simps(9) list.set_map)
    then show "gm_get (mg_by_name ?m) (bc_name x) = None" using Cons.prems(3) x by simp
  qed
  ultimately show ?case using Cons.IH [of ?m] Cons.prems(2,4) b by simp
qed simp

lemma mgr_ok_new_distinct:
  assumes "distinct (map bc_name (cfg_backends cfg))" "new_manager cfg = Inr m"
  shows "mgr_ok m"
proof -
  let ?m = "\<lparr>mg_heap = [], mg_backends = [], mg_by_name = [],
         mg_interval = i64 (interval_seconds (cfg_health cfg) * second),
         mg_timeout = i64 (timeout_seconds (cfg_health cfg) * second)\<rparr>"
  have "mgr_ok ?m" by (simp add: mgr_ok_def)
  moreover have "add_backends (cfg_backends cfg) ?m = Inr m"
    using assms(2) by (simp add: new_manager_def split: if_splits)
  ultimately show ?thesis using assms(1) mgr_ok_add_backends [of ?m "cfg_backends cfg" m] by simp
qed

lemma mgr_ok_new: "config_ok cfg \<Longrightarrow> new_manager cfg = Inr m \<Longrightarrow> mgr_ok m"
  by (rule mgr_ok_new_distinct) (simp_all add: config_ok_def)

interpretation manager_history: kept_by_steps manager_step mgr_ok
  by unfold_locales (rule mgr_ok_step)

text \<open>C33: from the manager of a loaded configuration on, whatever upserts, removals, health checks,
  toggles and selections follow: the name index and the list of backends describe the same backends,
  one per name, and a backend's effective weight is its weight while it is healthy and 0 otherwise.\<close>

theorem manager_invariant:
  assumes "config_ok cfg" and "new_manager cfg = Inr m" and "manager_step\<^sup>*\<^sup>* m m'"
  shows "distinct (map (\<lambda>p. be_name (mg_heap m' ! p)) (mg_backends m')) \<and>
    (\<forall>p \<in> set (mg_backends m'). get_by_name m' (be_name (mg_heap m' ! p)) = Some (mg_heap m' ! p)) \<and>
    (\<forall>n b. get_by_name m' n = Some b \<longrightarrow> be_name b = n \<and>
       be_effective b = (if be_healthy b then be_weight b else 0))"
proof -
  have ok: "mgr_ok m'" by (rule manager_history.history_keeps [OF assms(3) mgr_ok_new [OF assms(1,2)]])
  have byn: "gm_get (mg_by_name m') (be_name (mg_heap m' ! p)) = Some p" if "p \<in> set (mg_backends m')" for p
    using ok that by (auto simp: mgr_ok_def)
  have "inj_on (\<lambda>p. be_name (mg_heap m' ! p)) (set (mg_backends m'))"
    by (rule inj_onI) (metis byn option.inject)
  then have "distinct (map (\<lambda>p. be_name (mg_heap m' ! p)) (mg_backends m'))"
    using ok by (simp add: distinct_map mgr_ok_def)
  moreover have "be_name b = n \<and> be_effective b = (if be_healthy b then be_weight b else 0)"
    if g: "get_by_name m' n = Some b" for n b
  proof -
    obtain p where p: "gm_get (mg_by_name m') n = Some p" "b = mg_heap m' ! p"
      using g by (auto simp: get_by_name_def)
    show ?thesis using mgr_okD [OF ok p(1)] by (simp add: p(2) be_ok_def)
  qed
  moreover have "\<forall>p \<in> set (mg_backends m'). get_by_name m' (be_name (mg_heap m' ! p)) = Some (mg_heap m' ! p)"
    using byn by (simp add: get_by_name_def)
  ultimately show ?thesis by blast
qed

section \<open>Upsert, removal and pools\<close>

lemma upsert_ok:
  assumes "mgr_ok m" "upsert_backend c m = Inr m'"
  shows "\<exists>b. get_by_name m' (bc_name c) = Some b \<and> be_name b = bc_name c \<and>
      be_weight b = bc_weight (normalize_upsert c) \<and> be_enabled b \<and> url_parse (bc_url c) = Some (be_url b) \<and>
      be_timeout b = bc_timeout (normalize_upsert c) \<and> be_health_path b = bc_health_path (normalize_upsert c) \<and>
      be_headers b = bc_headers c \<and> be_tag b = bc_tag c \<and>
      (get_by_name m (bc_name c) = None \<longrightarrow> be_healthy b)"
    "n \<noteq> bc_name c \<Longrightarrow> get_by_name m' n = get_by_name m n"
proof -
  let ?c = "normalize_upsert c"
  have nm: "bc_name ?c = bc_name c" "bc_url ?c = bc_url c" "bc_headers ?c = bc_headers c" "bc_tag ?c = bc_tag c"
    by (simp_all add: normalize_upsert_def)
  have "(\<exists>b. get_by_name m' (bc_name c) = Some b \<and> be_name b = bc_name c \<and>
      be_weight b = bc_weight (normalize_upsert c) \<and> be_enabled b \<and> url_parse (bc_url c) = Some (be_url b) \<and>
      be_timeout b = bc_timeout (normalize_upsert c) \<and> be_health_path b = bc_health_path (normalize_upsert c) \<and>
      be_headers b = bc_headers c \<and> be_tag b = bc_tag c \<and>
      (get_by_name m (bc_name c) = None \<longrightarrow> be_healthy b)) \<and>
      (\<forall>n. n \<noteq> bc_name c \<longrightarrow> get_by_name m' n = get_by_name m n)"
  proof (cases "gm_get (mg_by_name m) (bc_name c)")
    case None
    then obtain b where b: "new_backend (bc_name c) (bc_url c) (bc_weight ?c) (bc_tag c) (bc_health_path ?c)
          (bc_timeout ?c) (bc_headers c) = Some b"
        "m' = m\<lparr>mg_heap := mg_heap m @ [b], mg_backends := mg_backends m @ [length (mg_heap m)],
           mg_by_name := gm_put (bc_name c) (length (mg_heap m)) (mg_by_name m)\<rparr>"
      using assms(2) by (auto simp: upsert_backend_def Let_def nm split: option.splits)
    have "get_by_name m' n = get_by_name m n" if "n \<noteq> bc_name c" for n
      using that mgr_okD(2) [OF assms(1)]
      by (cases "gm_get (mg_by_name m) n") (auto simp: get_by_name_def b(2) nth_append)
    then show ?thesis using b(1) by (auto simp: get_by_name_def b(2) new_backend_def)
  next
    case (Some p)
    note D = mgr_okD [OF assms(1) Some]
    obtain b where b: "update_config (bc_url c) (bc_weight ?c) (bc_tag c) (bc_timeout ?c) (bc_health_path ?c)
          (mg_heap m ! p) = Some b"
        "m' = m\<lparr>mg_heap := (mg_heap m)[p := set_enabled True (b\<lparr>be_headers := bc_headers c\<rparr>)]\<rparr>"
      using assms(2) Some by (auto simp: upsert_backend_def Let_def nm split: option.splits)
    have "get_by_name m' n = get_by_name m n" if n: "n \<noteq> bc_name c" for n
    proof (cases "gm_get (mg_by_name m) n")
      case None
      then show ?thesis by (simp add: get_by_name_def b(2))
    next
      case (Some q)
      have "q \<noteq> p" using mgr_okD(3) [OF assms(1) Some] D(3) n by blast
      then show ?thesis by (simp add: get_by_name_def b(2) Some)
    qed
    then show ?thesis using b(1) D(2,3) Some
      by (auto simp: get_by_name_def b(2) update_config_def set_enabled_def)
  qed
  then show "\<exists>b. get_by_name m' (bc_name c) = Some b \<and> be_name b = bc_name c \<and>
      be_weight b = bc_weight (normalize_upsert c) \<and> be_enabled b \<and> url_parse (bc_url c) = Some (be_url b) \<and>
      be_timeout b = bc_timeout (normalize_upsert c) \<and> be_health_path b = bc_health_path (normalize_upsert c) \<and>
      be_headers b = bc_headers c \<and> be_tag b = bc_tag c \<and>
      (get_by_name m (bc_name c) = None \<longrightarrow> be_healthy b)"
    "n \<noteq> bc_name c \<Longrightarrow> get_by_name m' n = get_by_name m n" by blast+
qed

lemma remove_ok:
  assumes "remove_backend n m = Inr m'"
  shows "get_by_name m' k = (if k = n then None else get_by_name m k)" "mg_heap m' = mg_heap m"
  using assms by (auto simp: remove_backend_def get_by_name_def split: if_splits)

lemma pool_entries_spec:
  "pool_entries m refs = Inr es \<Longrightarrow>
     map (\<lambda>e. Some (pe_backend e)) es = map (\<lambda>r. gm_get (mg_by_name m) (ref_backend r)) refs \<and>
     map pe_weight es = map (\<lambda>r. if ref_weight r \<le> 0
       then be_weight (mg_heap m ! the (gm_get (mg_by_name m) (ref_backend r))) else ref_weight r) refs"
proof (induction refs arbitrary: es)
  case (Cons r rs)
  obtain p es' where "gm_get (mg_by_name m) (ref_backend r) = Some p" "pool_entries m rs = Inr es'"
      "es = \<lparr>pe_backend = p, pe_weight = (if ref_weight r \<le> 0 then be_weight (mg_heap m ! p) else ref_weight r)\<rparr> # es'"
    using Cons.prems by (cases "pool_entries m rs") (auto simp: Let_def split: option.splits)
  then show ?case using Cons.IH by simp
qed simp

lemma pool_entries_error:
  "(\<exists>es. pool_entries m refs = Inr es) \<longleftrightarrow> (\<forall>r \<in> set refs. gm_get (mg_by_name m) (ref_backend r) \<noteq> None)"
proof (induction refs)
  case (Cons r rs)
  show ?case using Cons.IH by (cases "pool_entries m rs") (auto simp: Let_def split: option.splits)
qed simp

lemma pool_for_model_wf:
  assumes "mgr_ok m" "pool_for_model m refs = Inr es" "distinct (map ref_backend refs)"
  shows "pool_wf es (mg_heap m)" "set (map pe_backend es) \<subseteq> set (mg_backends m)"
    "map (\<lambda>e. be_name (mg_heap m ! pe_backend e)) es = map ref_backend refs"
proof -
  obtain es0 where e: "pool_entries m refs = Inr es0" "es = new_pool (mg_heap m) es0"
    using assms(2) by (cases "pool_entries m refs") (auto simp: pool_for_model_def)
  note S = pool_entries_spec [OF e(1), THEN conjunct1]
  have ptr: "map pe_backend es = map pe_backend es0" by (simp add: e(2) new_pool_def comp_def)
  have mem: "\<exists>r \<in> set refs. gm_get (mg_by_name m) (ref_backend r) = Some (pe_backend x)" if "x \<in> set es0" for x
    using S that by (metis (mono_tags, lifting) image_iff list.set_map)
  have names0: "map (\<lambda>e. be_name (mg_heap m ! pe_backend e)) es0 = map ref_backend refs"
  proof (rule nth_equalityI)
    show l: "length (map (\<lambda>e. be_name (mg_heap m ! pe_backend e)) es0) = length (map ref_backend refs)"
      using S by (metis length_map)
    fix i assume i: "i < length (map (\<lambda>e. be_name (mg_heap m ! pe_backend e)) es0)"
    have "gm_get (mg_by_name m) (ref_backend (refs ! i)) = Some (pe_backend (es0 ! i))"
      using arg_cong [OF S, of "\<lambda>xs. xs ! i"] i l by simp
    from mgr_okD(3) [OF assms(1) this] show "map (\<lambda>e. be_name (mg_heap m ! pe_backend e)) es0 ! i = map ref_backend refs ! i"
      using i l by simp
  qed
  have "map (\<lambda>e. be_name (mg_heap m ! pe_backend e)) es = map (\<lambda>p. be_name (mg_heap m ! p)) (map pe_backend es)"
    by simp
  also have "\<dots> = map ref_backend refs" unfolding ptr names0 [symmetric] by simp
  finally show names: "map (\<lambda>e. be_name (mg_heap m ! pe_backend e)) es = map ref_backend refs" .
  have bs: "set (map pe_backend es0) \<subseteq> set (mg_backends m)" using mem mgr_okD(1) [OF assms(1)] by auto
  then show sub: "set (map pe_backend es) \<subseteq> set (mg_backends m)" unfolding ptr .
  have "distinct (map (\<lambda>p. be_name (mg_heap m ! p)) (map pe_backend es))"
    using assms(3) names by (simp add: comp_def)
  then have "distinct (map pe_backend es)" unfolding distinct_map by blast
  then show "pool_wf es (mg_heap m)" using sub assms(1) by (auto simp: pool_wf_def mgr_ok_def)
qed

lemma normalize_upsert_pos:
  "1 \<le> bc_weight (normalize_upsert c)" "0 < bc_timeout (normalize_upsert c)"
  "bc_health_path (normalize_upsert c) \<noteq> []"
  unfolding normalize_upsert_def default_model_weight_def second_def by auto

text \<open>An upsert makes the backend reachable under its name with the configured URL, headers and
  tag and the normalised weight, time-out and path, enabled for routing (a new one is healthy), and
  leaves every other name alone; a removal makes exactly the removed name unknown.\<close>

theorem manager_upsert_remove:
  assumes "mgr_ok m"
  shows "(upsert_backend c m = Inr m' \<longrightarrow>
      (\<exists>b. get_by_name m' (bc_name c) = Some b \<and> be_name b = bc_name c \<and> be_enabled b \<and> 1 \<le> be_weight b \<and>
        url_parse (bc_url c) = Some (be_url b) \<and> 0 < be_timeout b \<and> be_health_path b \<noteq> [] \<and>
        be_headers b = bc_headers c \<and> be_tag b = bc_tag c \<and>
        (get_by_name m (bc_name c) = None \<longrightarrow> usable b)) \<and>
      (\<forall>n. n \<noteq> bc_name c \<longrightarrow> get_by_name m' n = get_by_name m n)) \<and>
    (remove_backend k m = Inr m' \<longrightarrow>
      (\<forall>n. get_by_name m' n = (if n = k then None else get_by_name m n)))"
proof (intro conjI impI)
  assume u: "upsert_backend c m = Inr m'"
  obtain b where b: "get_by_name m' (bc_name c) = Some b" "be_name b = bc_name c"
      "be_weight b = bc_weight (normalize_upsert c)" "be_enabled b" "url_parse (bc_url c) = Some (be_url b)"
      "be_timeout b = bc_timeout (normalize_upsert c)" "be_health_path b = bc_health_path (normalize_upsert c)"
      "be_headers b = bc_headers c" "be_tag b = bc_tag c" "get_by_name m (bc_name c) = None \<longrightarrow> be_healthy b"
    using upsert_ok(1) [OF assms u] by (elim exE conjE) (rule that; assumption)
  have pos: "1 \<le> be_weight b" "0 < be_timeout b" "be_health_path b \<noteq> []"
    unfolding b(3,6,7) by (rule normalize_upsert_pos)+
  obtain p where p: "gm_get (mg_by_name m') (bc_name c) = Some p" "b = mg_heap m' ! p"
    using b(1) by (auto simp: get_by_name_def)
  have "be_ok b" using mgr_okD(4) [OF mgr_ok_upsert [OF assms u] p(1)] by (simp add: p(2))
  then have "get_by_name m (bc_name c) = None \<longrightarrow> usable b"
    using b(4,10) pos(1) by (simp add: be_ok_def usable_def is_healthy_def)
  then show "\<exists>b. get_by_name m' (bc_name c) = Some b \<and> be_name b = bc_name c \<and> be_enabled b \<and> 1 \<le> be_weight b \<and>
        url_parse (bc_url c) = Some (be_url b) \<and> 0 < be_timeout b \<and> be_health_path b \<noteq> [] \<and>
        be_headers b = bc_headers c \<and> be_tag b = bc_tag c \<and>
        (get_by_name m (bc_name c) = None \<longrightarrow> usable b)"
    using b(1,2,4,5,8,9) pos by (intro exI [of _ b] conjI)
  show "\<forall>n. n \<noteq> bc_name c \<longrightarrow> get_by_name m' n = get_by_name m n" using upsert_ok(2) [OF assms u] by blast
next
  assume "remove_backend k m = Inr m'"
  then show "\<forall>n. get_by_name m' n = (if n = k then None else get_by_name m n)" using remove_ok(1) by blast
qed

definition sample_manager :: manager where
  "sample_manager = \<lparr>mg_heap = [sample_backend ''a'' 5, sample_backend ''b'' 1], mg_backends = [0, 1],
     mg_by_name = [(''a'', 0), (''b'', 1)], mg_interval = second, mg_timeout = second\<rparr>"

lemma sample_manager_ok: "mgr_ok sample_manager"
proof -
  have names: "p < 2 \<Longrightarrow> be_name (mg_heap sample_manager ! p) = (if p = 0 then ''a'' else ''b'')" for p :: nat
    by (cases p) (auto simp: sample_manager_def sample_backend_def)
  have get: "gm_get (mg_by_name sample_manager) n = (if n = ''a'' then Some 0 else if n = ''b'' then Some 1 else None)" for n
    by (simp add: sample_manager_def gm_get_Cons)
  have bs: "p \<in> set (mg_backends sample_manager) \<longleftrightarrow> p < 2" for p by (auto simp: sample_manager_def)
  have "(gm_get (mg_by_name sample_manager) n = Some p) =
      (p \<in> set (mg_backends sample_manager) \<and> be_name (mg_heap sample_manager ! p) = n)" for n p
    unfolding get bs using names [of p] by (cases "p < 2") (auto simp: less_2_cases_iff)
  then show ?thesis unfolding mgr_ok_def
    by (simp add: sample_manager_def gm_ok_def be_ok_def sample_backend_def)
qed

theorem manager_upsert_remove_witness:
  "get_by_name (sample_manager\<lparr>mg_by_name := gm_del ''a'' (mg_by_name sample_manager), mg_backends := [1]\<rparr>) ''a'' = None"
proof -
  have "remove_backend ''a'' sample_manager
      = Inr (sample_manager\<lparr>mg_by_name := gm_del ''a'' (mg_by_name sample_manager), mg_backends := [1]\<rparr>)"
    by (simp add: remove_backend_def sample_manager_def gm_get_Cons sample_backend_def)
  then show ?thesis using manager_upsert_remove [OF sample_manager_ok] by simp
qed

lemma sample_config_manager: "\<exists>m. new_manager (apply_defaults sample_config) = Inr m \<and> gm_get (mg_by_name m) ''a'' \<noteq> None"
proof -
  obtain u where "url_parse ''http://h'' = Some u" using sample_url by blast
  then show ?thesis
    by (simp add: new_manager_def apply_defaults_backends) (simp add: sample_config_def backend_defaults_def new_backend_def)
qed

theorem manager_invariant_witness:
  "\<exists>m m'. new_manager (apply_defaults sample_config) = Inr m \<and>
     m' = toggle_backend ''a'' False (check_all (\<lambda>u. ProbeFailed) 1 m) \<and>
     distinct (map (\<lambda>p. be_name (mg_heap m' ! p)) (mg_backends m')) \<and>
     (\<exists>b. get_by_name m' ''a'' = Some b \<and> be_name b = ''a'' \<and> be_effective b = (if be_healthy b then be_weight b else 0))"
proof -
  obtain m where m: "new_manager (apply_defaults sample_config) = Inr m" "gm_get (mg_by_name m) ''a'' \<noteq> None"
    using sample_config_manager by blast
  then obtain b where b: "get_by_name (toggle_backend ''a'' False (check_all (\<lambda>u. ProbeFailed) 1 m)) ''a'' = Some b"
    by (auto simp: get_by_name_def toggle_backend_def check_all_def)
  have "manager_step\<^sup>*\<^sup>* m (toggle_backend ''a'' False (check_all (\<lambda>u. ProbeFailed) 1 m))"
    by (rule rtranclp.rtrancl_into_rtrancl [where r = manager_step, OF r_into_rtranclp])
      (rule manager_step.check manager_step.toggle)+
  from manager_invariant [OF config_ok_load [OF sample_load] m(1) this] m(1) b show ?thesis by blast
qed

section \<open>Routing\<close>

text \<open>The pool built for a model's references routes to the referenced backends only: building
  it fails exactly when a reference names an unknown backend; a selection that succeeds gives a
  referenced backend that is healthy and enabled, and a selection fails exactly when no referenced
  backend is usable.\<close>

theorem pool_for_model_routes:
  assumes "mgr_ok m" and "distinct (map ref_backend refs)"
  shows "((\<exists>es. pool_for_model m refs = Inr es) \<longleftrightarrow> (\<forall>r \<in> set refs. get_by_name m (ref_backend r) \<noteq> None)) \<and>
    (\<forall>es. pool_for_model m refs = Inr es \<longrightarrow> no_overflow es (mg_heap m) 0 \<longrightarrow>
      (\<forall>p h. select es (mg_heap m) = (Some p, h) \<longrightarrow>
         usable (mg_heap m ! p) \<and> be_name (mg_heap m ! p) \<in> ref_backend ` set refs) \<and>
      (fst (select es (mg_heap m)) = None \<longleftrightarrow>
         (\<forall>r \<in> set refs. \<forall>b. get_by_name m (ref_backend r) = Some b \<longrightarrow> \<not> usable b)))"
proof (intro conjI allI impI)
  have "(\<exists>es. pool_for_model m refs = Inr es) \<longleftrightarrow> (\<exists>es. pool_entries m refs = Inr es)"
    by (cases "pool_entries m refs") (auto simp: pool_for_model_def)
  then show "(\<exists>es. pool_for_model m refs = Inr es) \<longleftrightarrow> (\<forall>r \<in> set refs. get_by_name m (ref_backend r) \<noteq> None)"
    by (simp add: pool_entries_error get_by_name_def)
next
  fix es assume p: "pool_for_model m refs = Inr es" and ov: "no_overflow es (mg_heap m) 0"
  note W = pool_for_model_wf [OF assms(1) p assms(2)]
  note R = select_abstract [OF W(1) ov]
  let ?us = "usable_shares es (mg_heap m)"
  { fix q h assume s: "select es (mg_heap m) = (Some q, h)"
    then have "?us \<noteq> []" "q = swrr_pick ?us (currents (mg_heap m))" using R by (auto split: if_splits)
    then have "q \<in> fst ` set ?us" using swrr_pick_in by blast
    then obtain e where e: "e \<in> set es" "q = pe_backend e" "usable (mg_heap m ! q)"
      by (auto simp: usable_shares_def)
    have "be_name (mg_heap m ! q) \<in> set (map (\<lambda>e. be_name (mg_heap m ! pe_backend e)) es)" using e by auto
    then show "usable (mg_heap m ! q)" "be_name (mg_heap m ! q) \<in> ref_backend ` set refs"
      using e(3) unfolding W(3) by simp_all }
  have get: "get_by_name m (be_name (mg_heap m ! pe_backend e)) = Some (mg_heap m ! pe_backend e)" if "e \<in> set es" for e
  proof -
    have "pe_backend e \<in> set (mg_backends m)" using that W(2) by auto
    then have "gm_get (mg_by_name m) (be_name (mg_heap m ! pe_backend e)) = Some (pe_backend e)"
      using assms(1) unfolding mgr_ok_def by blast
    then show ?thesis by (simp add: get_by_name_def)
  qed
  have "set (map (\<lambda>e. be_name (mg_heap m ! pe_backend e)) es) = ref_backend ` set refs" unfolding W(3) by simp
  then have refs: "ref_backend ` set refs = (\<lambda>e. be_name (mg_heap m ! pe_backend e)) ` set es" by simp
  have "fst (select es (mg_heap m)) = None \<longleftrightarrow> ?us = []" by (simp add: R)
  also have "\<dots> \<longleftrightarrow> (\<forall>e \<in> set es. \<not> usable (mg_heap m ! pe_backend e))"
    by (auto simp: usable_shares_def filter_empty_conv)
  also have "\<dots> \<longleftrightarrow> (\<forall>n \<in> ref_backend ` set refs. \<forall>b. get_by_name m n = Some b \<longrightarrow> \<not> usable b)"
    unfolding refs using get by simp
  finally show "(fst (select es (mg_heap m)) = None) =
         (\<forall>r \<in> set refs. \<forall>b. get_by_name m (ref_backend r) = Some b \<longrightarrow> \<not> usable b)" by simp
qed

theorem pool_for_model_routes_witness:
  "\<exists>es. pool_for_model sample_manager [\<lparr>ref_backend = ''b'', ref_weight = 0\<rparr>] = Inr es"
  using pool_for_model_routes [OF sample_manager_ok, of "[\<lparr>ref_backend = ''b'', ref_weight = 0\<rparr>]"]
  by (simp add: get_by_name_def sample_manager_def gm_get_Cons)

section \<open>Health checks\<close>

definition probe_ok :: "probe_result \<Rightarrow> bool" where
  "probe_ok r = (case r of ProbeFailed \<Rightarrow> False | ProbeStatus code \<Rightarrow> 200 \<le> code \<and> code < 300)"

lemma fold_update_nth:
  "distinct ps \<Longrightarrow> \<forall>p \<in> set ps. p < length h \<Longrightarrow>
   fold (\<lambda>p h. h[p := f (h ! p)]) ps h ! q = (if q \<in> set ps then f (h ! q) else h ! q) \<and>
   length (fold (\<lambda>p h. h[p := f (h ! p)]) ps h) = length h"
proof (induction ps arbitrary: h)
  case (Cons a ps)
  then show ?case by (cases "a = q") auto
qed simp

lemma check_all_nth:
  "mgr_ok m \<Longrightarrow> mg_heap (check_all probe now m) ! p =
     (if p \<in> set (mg_backends m) then check_backend probe now (mg_heap m ! p) else mg_heap m ! p)"
  unfolding check_all_def
  using fold_update_nth [of "mg_backends m" "mg_heap m" "check_backend probe now" p] by (simp add: mgr_ok_def)

text \<open>A health-check cycle decides, for every managed backend whose probe URL is well formed,
  exactly by the probe: a 2xx answer makes it healthy with its full weight and no failures, anything
  else makes it unhealthy with weight 0 and one more failure, so that the next selection skips it.
  A backend whose URL cannot be probed keeps its status, and no check touches the administrator's
  switch, the configuration or the scheduling counter.\<close>

theorem check_all_effect:
  assumes "mgr_ok m" and "get_by_name m n = Some b"
  shows "\<exists>b'. get_by_name (check_all probe now m) n = Some b' \<and>
    be_healthy b' = (if url_parse (health_url b) = None then be_healthy b else probe_ok (probe (health_url b))) \<and>
    usable b' = (be_healthy b' \<and> be_enabled b \<and> 0 < be_weight b) \<and>
    be_failures b' = (if url_parse (health_url b) \<noteq> None \<and> probe_ok (probe (health_url b)) then 0
       else i64 (be_failures b + 1)) \<and>
    be_enabled b' = be_enabled b \<and> be_url b' = be_url b \<and> be_weight b' = be_weight b \<and> be_current b' = be_current b"
proof -
  obtain p where p: "gm_get (mg_by_name m) n = Some p" "b = mg_heap m ! p"
    using assms(2) by (auto simp: get_by_name_def)
  note D = mgr_okD [OF assms(1) p(1)]
  have g: "get_by_name (check_all probe now m) n = Some (check_backend probe now b)"
    using check_all_nth [OF assms(1), of probe now p] p D(1) by (simp add: get_by_name_def check_all_def)
  have "be_ok b" using D(4) p(2) by simp
  then show ?thesis unfolding g
    by (cases "probe (health_url b)")
      (auto simp: check_backend_def probe_ok_def usable_def is_healthy_def be_ok_def set_health_def mark_failure_def
        mark_success_def)
qed

theorem check_all_effect_witness:
  "\<exists>b'. get_by_name (check_all (\<lambda>_. ProbeFailed) 0 sample_manager) ''a'' = Some b' \<and> be_enabled b'"
proof -
  have "get_by_name sample_manager ''a'' = Some (sample_backend ''a'' 5)"
    by (simp add: get_by_name_def sample_manager_def gm_get_Cons)
  from check_all_effect [OF sample_manager_ok this] show ?thesis by (auto simp: sample_backend_def)
qed

end
