(* ===== verification/BackendStore.thy ===== *)
theory BackendStore
  imports ManagerProps Db
begin

text \<open>
  internal/backends/store.go: the table of administered backends, and the reload of the YAML
  backends into the manager (\<open>applyReloadBackends\<close> of cmd/gateway/main.go).
\<close>

section \<open>The table\<close>

datatype backend_store_err = BackendDbError | BackendRowNotFound

definition millisecond :: int where
  "millisecond = 1000000"

definition default_timeout_ms :: int where
  "default_timeout_ms = 120000"

definition backend_of_row :: "backend_row \<Rightarrow> backend_cfg" where
  "backend_of_row r = \<lparr>bc_name = br_name r, bc_url = br_url r,
     bc_weight = (if br_weight r \<le> 0 then default_model_weight else br_weight r),
     bc_tag = (case br_tag r of Some t \<Rightarrow> t | None \<Rightarrow> []), bc_headers = [],
     bc_timeout = i64 ((if br_timeout_ms r \<le> 0 then default_timeout_ms else br_timeout_ms r) * millisecond),
     bc_health_path = br_health_path r\<rparr>"

definition load_active_backends :: "faults \<Rightarrow> db \<Rightarrow> (backend_store_err, backend_cfg list) result" where
  "load_active_backends flt d =
     (if flt 0 then Inl BackendDbError
      else Inr (map backend_of_row (sort_key br_name (filter br_active (backend_configs_t d)))))"

text \<open>The row that the upsert statement writes, and the statement.\<close>

definition row_of_backend :: "backend_cfg \<Rightarrow> backend_row" where
  "row_of_backend c =
     (let ms = go_div (bc_timeout c) millisecond in
      \<lparr>br_name = bc_name c, br_url = bc_url c,
       br_weight = (if bc_weight c \<le> 0 then default_model_weight else bc_weight c),
       br_timeout_ms = (if ms \<le> 0 then default_timeout_ms else ms),
       br_health_path = (if bc_health_path c = [] then ''/api/version'' else bc_health_path c),
       br_tag = Some (bc_tag c), br_active = True\<rparr>)"

definition upsert_backend_row :: "backend_row \<Rightarrow> backend_row list \<Rightarrow> backend_row list" where
  "upsert_backend_row r t = tbl_upsert br_name r (\<lambda>x. x\<lparr>br_url := br_url r, br_weight := br_weight r,
     br_timeout_ms := br_timeout_ms r, br_health_path := br_health_path r, br_tag := br_tag r,
     br_active := True\<rparr>) t"

definition store_upsert_backend :: "faults \<Rightarrow> backend_cfg \<Rightarrow> db \<Rightarrow> backend_store_err option \<times> db" where
  "store_upsert_backend flt c d =
     (if flt 0 then (Some BackendDbError, d)
      else (None, d\<lparr>backend_configs_t := upsert_backend_row (row_of_backend c) (backend_configs_t d)\<rparr>))"

definition store_remove_backend :: "faults \<Rightarrow> string \<Rightarrow> db \<Rightarrow> backend_store_err option \<times> db" where
  "store_remove_backend flt name d =
     (if flt 0 then (Some BackendDbError, d)
      else (let d' = d\<lparr>backend_configs_t := tbl_delete (\<lambda>r. br_name r = name) (backend_configs_t d)\<rparr>
            in if flt 1 then (Some BackendDbError, d')
               else if tbl_affected (\<lambda>r. br_name r = name) (backend_configs_t d) = 0 then (Some BackendRowNotFound, d')
               else (None, d')))"

definition store_deactivate_backend :: "faults \<Rightarrow> string \<Rightarrow> db \<Rightarrow> backend_store_err option \<times> db" where
  "store_deactivate_backend flt name d = store_remove_backend flt name d"

fun upsert_all :: "faults \<Rightarrow> backend_cfg list \<Rightarrow> db \<Rightarrow> backend_store_err option \<times> db" where
  "upsert_all flt [] d = (None, d)"
| "upsert_all flt (c # cs) d =
     (case store_upsert_backend flt c d of
        (Some e, d') \<Rightarrow> (Some e, d')
      | (None, d') \<Rightarrow> upsert_all (later 1 flt) cs d')"

definition seed_backends :: "faults \<Rightarrow> backend_cfg list \<Rightarrow> db \<Rightarrow> backend_store_err option \<times> db" where
  "seed_backends flt cs d =
     (if flt 0 then (Some BackendDbError, d)
      else if 0 < length (backend_configs_t d) then (None, d)
      else upsert_all (later 1 flt) (sort_key bc_name cs) d)"

definition has_any_backends :: "faults \<Rightarrow> db \<Rightarrow> (backend_store_err, bool) result" where
  "has_any_backends flt d = (if flt 0 then Inl BackendDbError else Inr (0 < length (backend_configs_t d)))"

section \<open>The table as a keyed store\<close>

text \<open>The columns beside the key, as one value.\<close>

definition backend_columns :: "backend_row \<Rightarrow> string \<times> int \<times> int \<times> string \<times> string option" where
  "backend_columns r = (br_url r, br_weight r, br_timeout_ms r, br_health_path r, br_tag r)"

definition columns_row :: "string \<Rightarrow> string \<times> int \<times> int \<times> string \<times> string option \<Rightarrow> backend_row" where
  "columns_row k v = (case v of (u, w, ms, path, tag) \<Rightarrow> \<lparr>br_name = k, br_url = u, br_weight = w,
     br_timeout_ms = ms, br_health_path = path, br_tag = tag, br_active = True\<rparr>)"

lemma upsert_backend_row_get:
  "map_option backend_columns (tbl_get br_name (upsert_backend_row r t) k) =
     (if k = br_name r then Some (backend_columns r) else map_option backend_columns (tbl_get br_name t k))"
  unfolding upsert_backend_row_def
  by (subst tbl_get_upsert) (auto simp: backend_columns_def split: option.split)

interpretation bt: kv_store "\<lambda>t k. map_option backend_columns (tbl_get br_name t k)"
  "\<lambda>k v. upsert_backend_row (columns_row k v)" "\<lambda>k. tbl_delete (\<lambda>r. br_name r = k)" "tbl_ok br_name"
proof
  fix s :: "backend_row list" and k k' v
  show "map_option backend_columns (tbl_get br_name (upsert_backend_row (columns_row k v) s) k') =
      (if k' = k then Some v else map_option backend_columns (tbl_get br_name s k'))"
    unfolding upsert_backend_row_get by (auto simp: columns_row_def backend_columns_def split: prod.split)
  show "map_option backend_columns (tbl_get br_name (tbl_delete (\<lambda>r. br_name r = k) s) k') =
      (if k' = k then None else map_option backend_columns (tbl_get br_name s k'))"
    by (simp add: tbl_get_delete_key)
  show "tbl_ok br_name s \<Longrightarrow> tbl_ok br_name (upsert_backend_row (columns_row k v) s)"
    unfolding upsert_backend_row_def by (intro tbl_ok_upsert) auto
  show "tbl_ok br_name s \<Longrightarrow> tbl_ok br_name (tbl_delete (\<lambda>r. br_name r = k) s)" by (rule tbl_ok_delete)
qed

text \<open>The configuration that a stored backend is loaded as.\<close>

definition stored_backend :: "backend_cfg \<Rightarrow> backend_cfg" where
  "stored_backend c = backend_of_row (row_of_backend c)"

lemma row_of_backend_simps [simp]: "br_name (row_of_backend c) = bc_name c" "br_active (row_of_backend c)"
  by (simp_all add: row_of_backend_def Let_def)

lemma stored_backend_valid:
  assumes "1 \<le> bc_weight c" "bc_health_path c \<noteq> []" "bc_timeout c = t * millisecond" "0 < t" "bc_timeout c < 2 ^ 63"
  shows "stored_backend c = c\<lparr>bc_headers := []\<rparr>"
proof -
  have "go_div (bc_timeout c) millisecond = t"
    using assms(3,4) by (simp add: go_div_nonneg millisecond_def)
  moreover have "i64 (t * millisecond) = bc_timeout c"
    using assms(3-5) by (simp add: i64_id millisecond_def)
  ultimately show ?thesis
    using assms(1,2,4) by (simp add: stored_backend_def backend_of_row_def row_of_backend_def Let_def)
qed

lemma upsert_all_new:
  assumes "distinct (map bc_name cs)" "br_name ` set (backend_configs_t d) \<inter> bc_name ` set cs = {}"
  shows "upsert_all no_faults cs d = (None, d\<lparr>backend_configs_t := backend_configs_t d @ map row_of_backend cs\<rparr>)"
  using assms
proof (induction cs arbitrary: d)
  case (Cons c cs)
  have "upsert_backend_row (row_of_backend c) (backend_configs_t d) = backend_configs_t d @ [row_of_backend c]"
  proof -
    have "\<not> (\<exists>x \<in> set (backend_configs_t d). br_name x = br_name (row_of_backend c))"
    proof
      assume "\<exists>x \<in> set (backend_configs_t d). br_name x = br_name (row_of_backend c)"
      then obtain x where x: "x \<in> set (backend_configs_t d)" "br_name x = bc_name c" by auto
      have "bc_name c \<in> br_name ` set (backend_configs_t d)" using imageI [OF x(1), of br_name] x(2) by simp
      then show False using Cons.prems(2) by auto
    qed
    then show ?thesis unfolding upsert_backend_row_def tbl_upsert_def by (simp only: if_False)
  qed
  then show ?case
    using Cons.IH [of "d\<lparr>backend_configs_t := backend_configs_t d @ [row_of_backend c]\<rparr>"] Cons.prems
    by (auto simp: store_upsert_backend_def)
qed simp

text \<open>Seeding the empty table stores every configured backend: loading then gives all of them in
  the order of their names, each with its URL, weight, tag, path and time-out (whole milliseconds),
  but without its configured headers; and a table that has rows is not seeded.\<close>

theorem seed_load:
  assumes "distinct (map bc_name cs)" and "backend_configs_t d = []"
  shows "fst (seed_backends no_faults cs d) = None \<and>
    load_active_backends no_faults (snd (seed_backends no_faults cs d)) = Inr (map stored_backend (sort_key bc_name cs)) \<and>
    (\<forall>c \<in> set cs. bc_headers (stored_backend c) = [] \<and>
      (\<forall>t. 1 \<le> bc_weight c \<longrightarrow> bc_health_path c \<noteq> [] \<longrightarrow> bc_timeout c = t * millisecond \<longrightarrow> 0 < t \<longrightarrow>
         bc_timeout c < 2 ^ 63 \<longrightarrow> stored_backend c = c\<lparr>bc_headers := []\<rparr>)) \<and>
    (\<forall>cs'. cs \<noteq> [] \<longrightarrow> seed_backends no_faults cs' (snd (seed_backends no_faults cs d))
       = (None, snd (seed_backends no_faults cs d)))"
proof -
  let ?rows = "map row_of_backend (sort_key bc_name cs)"
  have d: "distinct (map bc_name (sort_key bc_name cs))"
    using assms(1) by (metis (mono_tags) distinct_map distinct_sort set_sort)
  have seed: "seed_backends no_faults cs d = (None, d\<lparr>backend_configs_t := ?rows\<rparr>)"
    using upsert_all_new [OF d, of d] assms(2) by (simp add: seed_backends_def)
  have act: "filter br_active ?rows = ?rows" by (rule filter_eq_self) auto
  have "sorted (map br_name ?rows)" by (simp add: comp_def)
  then have "sort_key br_name ?rows = ?rows" by (rule sort_key_id_if_sorted)
  then have "load_active_backends no_faults (snd (seed_backends no_faults cs d)) = Inr (map stored_backend (sort_key bc_name cs))"
    by (simp add: load_active_backends_def seed act stored_backend_def)
  moreover have "bc_headers (stored_backend c) = []" for c by (simp add: stored_backend_def backend_of_row_def)
  moreover have "cs \<noteq> [] \<Longrightarrow> seed_backends no_faults cs' (d\<lparr>backend_configs_t := ?rows\<rparr>)
      = (None, d\<lparr>backend_configs_t := ?rows\<rparr>)" for cs'
    by (simp add: seed_backends_def)
  moreover have "\<forall>c \<in> set cs. bc_headers (stored_backend c) = [] \<and>
      (\<forall>t. 1 \<le> bc_weight c \<longrightarrow> bc_health_path c \<noteq> [] \<longrightarrow> bc_timeout c = t * millisecond \<longrightarrow> 0 < t \<longrightarrow>
         bc_timeout c < 2 ^ 63 \<longrightarrow> stored_backend c = c\<lparr>bc_headers := []\<rparr>)"
    using stored_backend_valid \<open>\<And>c. bc_headers (stored_backend c) = []\<close> by blast
  ultimately show ?thesis unfolding seed by simp
qed

definition sample_backend_cfg :: backend_cfg where
  "sample_backend_cfg = \<lparr>bc_name = ''a'', bc_url = ''http://h'', bc_weight = 1, bc_tag = [],
     bc_headers = [(''X'', ''1'')], bc_timeout = second, bc_health_path = ''/''\<rparr>"

theorem seed_load_witness:
  "load_active_backends no_faults (snd (seed_backends no_faults [sample_backend_cfg] empty_db))
     = Inr [sample_backend_cfg\<lparr>bc_headers := []\<rparr>]"
proof -
  have "stored_backend sample_backend_cfg = sample_backend_cfg\<lparr>bc_headers := []\<rparr>"
    by (rule stored_backend_valid [of _ 1000]) (simp_all add: sample_backend_cfg_def millisecond_def second_def)
  then show ?thesis using seed_load [of "[sample_backend_cfg]" empty_db] by (simp add: empty_db_def)
qed

section \<open>Reloading the YAML backends\<close>

fun reload_upserts :: "backend_cfg list \<Rightarrow> manager \<Rightarrow> manager_error option \<times> manager" where
  "reload_upserts [] m = (None, m)"
| "reload_upserts (c # cs) m =
     (case upsert_backend c m of Inl e \<Rightarrow> (Some e, m) | Inr m' \<Rightarrow> reload_upserts cs m')"

fun reload_removals :: "string list \<Rightarrow> string list \<Rightarrow> manager \<Rightarrow> manager_error option \<times> manager" where
  "reload_removals target [] m = (None, m)"
| "reload_removals target (n # ns) m =
     (if n \<in> set target then reload_removals target ns m
      else (case remove_backend n m of Inl e \<Rightarrow> (Some e, m) | Inr m' \<Rightarrow> reload_removals target ns m'))"

datatype reload_error = ReloadDb | ReloadManager manager_error

text \<open>\<open>applyReloadBackends\<close>; the database is absent when there is no backend store.\<close>

definition apply_reload_backends ::
  "faults \<Rightarrow> db option \<Rightarrow> backend_cfg list \<Rightarrow> manager \<Rightarrow> reload_error option \<times> manager" where
  "apply_reload_backends flt d cs m =
     (let apply_yaml = (case reload_upserts cs m of
            (Some e, m') \<Rightarrow> (Some (ReloadManager e), m')
          | (None, m') \<Rightarrow>
              (case reload_removals (map bc_name cs) (map (\<lambda>p. be_name (mg_heap m' ! p)) (mg_backends m')) m' of
                 (Some e, m'') \<Rightarrow> (Some (ReloadManager e), m'')
               | (None, m'') \<Rightarrow> (None, m'')))
      in case d of
           None \<Rightarrow> apply_yaml
         | Some db \<Rightarrow>
             (case has_any_backends flt db of
                Inl e \<Rightarrow> (Some ReloadDb, m)
              | Inr True \<Rightarrow> (None, m)
              | Inr False \<Rightarrow> apply_yaml))"

lemma reload_upserts_ok:
  "mgr_ok m \<Longrightarrow> reload_upserts cs m = (None, m') \<Longrightarrow> mgr_ok m' \<and>
     (\<forall>n. get_by_name m' n \<noteq> None \<longleftrightarrow> n \<in> bc_name ` set cs \<or> get_by_name m n \<noteq> None)"
proof (induction cs arbitrary: m)
  case (Cons c cs)
  obtain m1 where u: "upsert_backend c m = Inr m1" using Cons.prems(2) by (auto split: sum.splits)
  have ok: "mgr_ok m1" by (rule mgr_ok_upsert [OF Cons.prems(1) u])
  have "get_by_name m1 n \<noteq> None \<longleftrightarrow> n = bc_name c \<or> get_by_name m n \<noteq> None" for n
    using upsert_ok [OF Cons.prems(1) u] by (cases "n = bc_name c") auto
  then show ?case using Cons.IH [OF ok] Cons.prems(2) u by auto
qed simp

lemma remove_names:
  assumes "remove_backend n m = Inr m'"
  shows "map (\<lambda>p. be_name (mg_heap m' ! p)) (mg_backends m') = filter (\<lambda>k. k \<noteq> n) (map (\<lambda>p. be_name (mg_heap m ! p)) (mg_backends m))"
  using assms by (auto simp: remove_backend_def filter_map comp_def split: if_splits)

lemma reload_removals_ok:
  "mgr_ok m \<Longrightarrow> distinct ns \<Longrightarrow> \<forall>n \<in> set ns. get_by_name m n \<noteq> None \<Longrightarrow>
   \<exists>m'. reload_removals target ns m = (None, m') \<and> mgr_ok m' \<and>
     (\<forall>n. get_by_name m' n = (if n \<in> set ns \<and> n \<notin> set target then None else get_by_name m n))"
proof (induction ns arbitrary: m)
  case (Cons n ns)
  show ?case
  proof (cases "n \<in> set target")
    case True
    then show ?thesis using Cons.IH [OF Cons.prems(1)] Cons.prems(2,3) by auto
  next
    case False
    have "gm_get (mg_by_name m) n \<noteq> None" using Cons.prems(3) by (auto simp: get_by_name_def)
    then obtain m1 where r: "remove_backend n m = Inr m1" by (auto simp: remove_backend_def)
    have ok: "mgr_ok m1" by (rule mgr_ok_remove [OF Cons.prems(1) r])
    have "\<forall>k \<in> set ns. get_by_name m1 k \<noteq> None" using Cons.prems(2,3) remove_ok(1) [OF r] by auto
    from Cons.IH [OF ok _ this] Cons.prems(2) obtain m' where m': "reload_removals target ns m1 = (None, m')" "mgr_ok m'"
        "\<forall>k. get_by_name m' k = (if k \<in> set ns \<and> k \<notin> set target then None else get_by_name m1 k)" by auto
    show ?thesis using m' r False remove_ok(1) [OF r] Cons.prems(2) by auto
  qed
qed simp

text \<open>Reloading the YAML backends, when the table is empty or absent, makes the manager route to
  exactly the configured names, unless an URL is invalid; it never fails in the removals.  When the
  table has rows the reload reports success and changes nothing.\<close>

theorem apply_reload_exact:
  assumes "mgr_ok m" and "apply_reload_backends flt d cs m = (None, m')"
  shows "mgr_ok m' \<and>
    (if d \<noteq> None \<and> backend_configs_t (the d) \<noteq> [] then m' = m
     else \<forall>n. get_by_name m' n \<noteq> None \<longleftrightarrow> n \<in> bc_name ` set cs)"
proof (cases "d \<noteq> None \<and> backend_configs_t (the d) \<noteq> []")
  case True
  then have "m' = m" using assms(2)
    by (auto simp: apply_reload_backends_def Let_def has_any_backends_def split: if_splits)
  then show ?thesis using True assms(1) by simp
next
  case False
  obtain m1 where u: "reload_upserts cs m = (None, m1)" and
      r: "reload_removals (map bc_name cs) (map (\<lambda>p. be_name (mg_heap m1 ! p)) (mg_backends m1)) m1 = (None, m')"
    using assms(2) False
    by (auto simp: apply_reload_backends_def Let_def has_any_backends_def split: option.splits if_splits prod.splits)
  note U = reload_upserts_ok [OF assms(1) u]
  let ?ns = "map (\<lambda>p. be_name (mg_heap m1 ! p)) (mg_backends m1)"
  have byn: "gm_get (mg_by_name m1) (be_name (mg_heap m1 ! p)) = Some p" if "p \<in> set (mg_backends m1)" for p
    using U that unfolding mgr_ok_def by blast
  have "inj_on (\<lambda>p. be_name (mg_heap m1 ! p)) (set (mg_backends m1))" by (rule inj_onI) (metis byn option.inject)
  then have dist: "distinct ?ns" using U by (simp add: distinct_map mgr_ok_def)
  have all: "get_by_name m1 n \<noteq> None \<longleftrightarrow> n \<in> set ?ns" for n
  proof
    assume "get_by_name m1 n \<noteq> None"
    then obtain p where p: "gm_get (mg_by_name m1) n = Some p" by (auto simp: get_by_name_def)
    have "mgr_ok m1" using U by blast
    from mgr_okD(1,3) [OF this p] show "n \<in> set ?ns" by auto
  next
    assume "n \<in> set ?ns"
    then show "get_by_name m1 n \<noteq> None" using byn by (auto simp: get_by_name_def)
  qed
  from reload_removals_ok [OF _ dist, of m1 "map bc_name cs"] U all r
  have "mgr_ok m' \<and> (\<forall>n. get_by_name m' n = (if n \<in> set ?ns \<and> n \<notin> set (map bc_name cs) then None else get_by_name m1 n))"
    by auto
  then show ?thesis using False U all by (auto split: if_splits)
qed

theorem apply_reload_exact_witness:
  "apply_reload_backends no_faults (Some (snd (seed_backends no_faults [sample_backend_cfg] empty_db))) [] sample_manager
     = (None, sample_manager) \<and> mgr_ok sample_manager"
proof -
  let ?d = "snd (seed_backends no_faults [sample_backend_cfg] empty_db)"
  have "backend_configs_t ?d \<noteq> []"
    using upsert_all_new [of "[sample_backend_cfg]" empty_db] by (simp add: seed_backends_def empty_db_def)
  then have "apply_reload_backends no_faults (Some ?d) [] sample_manager = (None, sample_manager)"
    by (simp add: apply_reload_backends_def has_any_backends_def Let_def)
  then show ?thesis using apply_reload_exact [OF sample_manager_ok] by blast
qed

end
