(* ===== verification/JsonFuel.thy ===== *)
theory JsonFuel
  imports Json
begin

text \<open>
  The fuel of the JSON decoder is enough: every value takes at least one byte, so that
  \<open>json_value (2 * length s + 1) s\<close> is what every larger amount of fuel gives.
\<close>

lemma length_skip_ws: "length (skip_ws s) \<le> length s"
  by (simp add: skip_ws_def length_dropWhile_le)

lemma hex4_length: "hex4 s = Some (n, r) \<Longrightarrow> length r < length s"
  by (induction s rule: hex4.induct) (auto split: option.splits)

lemma code_unit_length: "length (snd (code_unit n rest)) \<le> length rest"
  by (auto simp: code_unit_def dest!: hex4_length split: option.split prod.split if_splits)

lemma prepend_SomeD: "prepend p x = Some (a, r) \<Longrightarrow> \<exists>b. x = Some (b, r)"
  by (auto simp: prepend_def)

lemma json_str_length: "json_str n s = Some (x, r) \<Longrightarrow> length r < length s"
proof (induction n arbitrary: s x)
  case (Suc n)
  have IH: "prepend p (json_str n t) = Some (x, r) \<Longrightarrow> length r < length t" for p t
    using Suc.IH by (auto dest: prepend_SomeD)
  obtain c t where s: "s = c # t" using Suc.prems by (cases s) auto
  consider "c = CHR 0x22" | "c \<noteq> CHR 0x22" "c = CHR 0x5C" | "c \<noteq> CHR 0x22" "c \<noteq> CHR 0x5C" by blast
  then show ?case
  proof cases
    case 1
    then show ?thesis using Suc.prems by (simp add: s)
  next
    case 2
    then obtain e u where t: "t = e # u" using Suc.prems by (cases t) (auto simp: s)
    show ?thesis
    proof (cases "e = CHR ''u''")
      case True
      then obtain k q where h: "hex4 u = Some (k, q)" using Suc.prems 2 by (auto simp: s t split: option.splits)
      obtain p q' where c: "code_unit k q = (p, q')" by (cases "code_unit k q")
      have "prepend p (json_str n q') = Some (x, r)" using Suc.prems 2 True by (simp add: s t h c)
      from IH [OF this] show ?thesis using code_unit_length [of k q] hex4_length [OF h] by (simp add: c s t)
    next
      case False
      then obtain y where "prepend [y] (json_str n u) = Some (x, r)"
        using Suc.prems 2 by (auto simp: s t split: option.splits)
      from IH [OF this] show ?thesis by (simp add: s t)
    qed
  next
    case 3
    then have "prepend [c] (json_str n t) = Some (x, r)" using Suc.prems by (simp add: s split: if_splits)
    from IH [OF this] show ?thesis by (simp add: s)
  qed
qed simp

lemma take_digits_length: "take_digits s = (d, r) \<Longrightarrow> length d + length r = length s"
  by (auto simp: take_digits_def) (metis length_append takeWhile_dropWhile_id)

lemma json_exp_length: "json_exp s = Some (e, r) \<Longrightarrow> length r \<le> length s"
proof (induction s rule: json_exp.induct)
  case (2 c s)
  show ?case
  proof (cases "c = CHR ''e'' \<or> c = CHR ''E''")
    case True
    let ?t = "if has_prefix s ''-'' \<or> has_prefix s ''+'' then drop 1 s else s"
    obtain d q where d: "take_digits ?t = (d, q)" by (cases "take_digits ?t")
    have "length ?t \<le> length s" by simp
    moreover have "r = q" using "2.prems" True d by (auto simp: Let_def split: if_splits)
    ultimately show ?thesis using take_digits_length [OF d] by simp
  next
    case False
    then show ?thesis using "2.prems" by auto
  qed
qed simp

lemma json_num_length: "json_num s = Some (x, r) \<Longrightarrow> length r < length s"
proof -
  assume h: "json_num s = Some (x, r)"
  let ?t = "if has_prefix s ''-'' then drop 1 s else s"
  obtain ds q where d: "take_digits ?t = (ds, q)" by (cases "take_digits ?t")
  have ne: "ds \<noteq> []" using h by (auto simp: json_num_def Let_def d)
  have q: "length q < length s"
  proof -
    have "length ?t \<le> length s" by simp
    moreover have "0 < length ds" using ne by simp
    ultimately show ?thesis using take_digits_length [OF d] by linarith
  qed
  obtain fs q2 where f: "take_digits (drop 1 q) = (fs, q2)" by (cases "take_digits (drop 1 q)")
  have q2: "length q2 \<le> length q" using take_digits_length [OF f] by (cases q) auto
  have "\<exists>e. json_exp (if has_prefix q ''.'' then q2 else q) = Some (e, r)"
    using h ne f by (auto simp: json_num_def Let_def d split: if_splits option.splits)
  then obtain e where "json_exp (if has_prefix q ''.'' then q2 else q) = Some (e, r)" ..
  from json_exp_length [OF this] q q2 show ?thesis by (simp split: if_splits)
qed

lemma drop1_length: "has_prefix s [c] \<Longrightarrow> length (drop 1 s) < length s"
  by (cases s) (auto simp: has_prefix_def)

lemma drop_skip: "length (skip_ws (drop 1 s)) \<le> length s - 1"
  using length_skip_ws [of "drop 1 s"] by simp

lemma has_prefix_length: "has_prefix s p \<Longrightarrow> length p \<le> length s"
  by (auto simp: has_prefix_def) (metis length_take min.cobounded1 min.commute)

lemma json_consumes:
  "json_value n s = Some (v, r) \<Longrightarrow> length r < length s"
  "json_elems n s = Some (vs, r) \<Longrightarrow> length r < length s"
  "json_members n s = Some (ms, r) \<Longrightarrow> length r < length s"
proof (induction n arbitrary: s v vs ms r)
  case (Suc n)
  { case 1
    let ?s = "skip_ws s" and ?t = "skip_ws (drop 1 (skip_ws s))"
    have ls: "length ?s \<le> length s" by (rule length_skip_ws)
    have t: "has_prefix ?s [c] \<Longrightarrow> length ?t < length s" for c
      using drop1_length [of ?s c] length_skip_ws [of "drop 1 ?s"] ls by linarith
    have p: "has_prefix ?s q \<Longrightarrow> q \<noteq> [] \<Longrightarrow> length (drop (length q) ?s) < length s" for q
      using has_prefix_length [of ?s q] ls by (cases q) auto
    show ?case
    proof (cases "has_prefix ?s ''{''")
      case True
      then have "r = drop 1 ?t \<or> (\<exists>m. json_members n ?t = Some (m, r))"
        using 1 by (auto simp: Let_def split: if_splits)
      then show ?thesis using t [OF True] Suc.IH(3) [of ?t] by fastforce
    next
      case F1: False
      show ?thesis
      proof (cases "has_prefix ?s ''[''")
        case True
        then have "r = drop 1 ?t \<or> (\<exists>m. json_elems n ?t = Some (m, r))"
          using 1 F1 by (auto simp: Let_def split: if_splits)
        then show ?thesis using t [OF True] Suc.IH(2) [of ?t] by fastforce
      next
        case F2: False
        have "(\<exists>x. json_str (length ?s) (drop 1 ?s) = Some (x, r)) \<or> has_prefix ?s ''null'' \<and> r = drop 4 ?s \<or>
            has_prefix ?s ''true'' \<and> r = drop 4 ?s \<or> has_prefix ?s ''false'' \<and> r = drop 5 ?s \<or> (\<exists>x. json_num ?s = Some (x, r))"
          using 1 F1 F2 by (auto simp: Let_def split: if_splits)
        then show ?thesis
        proof (elim disjE exE conjE)
          fix x assume "json_str (length ?s) (drop 1 ?s) = Some (x, r)"
          from json_str_length [OF this] show ?thesis using ls by simp
        next
          fix x assume "json_num ?s = Some (x, r)"
          from json_num_length [OF this] show ?thesis using ls by simp
        qed (use p [of "''null''"] p [of "''true''"] p [of "''false''"] in auto)
      qed
    qed }
  { case 2
    obtain v q where v: "json_value n s = Some (v, q)" using 2 by (auto split: option.splits)
    note l = Suc.IH(1) [OF v]
    have q: "length (drop 1 (skip_ws q)) \<le> length q" using length_skip_ws [of q] by simp
    have "r = drop 1 (skip_ws q) \<or> (\<exists>ws. json_elems n (drop 1 (skip_ws q)) = Some (ws, r))"
      using 2 by (auto simp: Let_def v split: if_splits)
    then show ?case using l q Suc.IH(2) [of "drop 1 (skip_ws q)"] by fastforce }
  { case 3
    let ?k = "skip_ws s"
    have hp: "has_prefix ?k [CHR 0x22]" using 3 by (auto simp: Let_def split: if_splits)
    then obtain k q where k: "json_str (length ?k) (drop 1 ?k) = Some (k, q)"
      using 3 by (auto simp: Let_def split: option.splits)
    let ?c = "skip_ws q"
    obtain v z where v: "json_value n (drop 1 ?c) = Some (v, z)"
      using 3 hp k by (auto simp: Let_def split: option.splits if_splits)
    have l1: "length q < length s" using json_str_length [OF k] length_skip_ws [of s] by simp
    have l2: "length z < length s"
      using Suc.IH(1) [OF v] l1 length_skip_ws [of q] by simp
    have q: "length (drop 1 (skip_ws z)) \<le> length z" using length_skip_ws [of z] by simp
    have "r = drop 1 (skip_ws z) \<or> (\<exists>ws. json_members n (drop 1 (skip_ws z)) = Some (ws, r))"
      using 3 hp k v by (auto simp: Let_def split: if_splits)
    then show ?case using l2 q Suc.IH(3) [of "drop 1 (skip_ws z)"] by fastforce }
qed simp_all

lemma fuel_step:
  "2 * length s + 1 \<le> n \<Longrightarrow> json_value (Suc n) s = json_value n s"
  "2 * length s + 2 \<le> n \<Longrightarrow> json_elems (Suc n) s = json_elems n s"
  "2 * length s + 2 \<le> n \<Longrightarrow> json_members (Suc n) s = json_members n s"
proof (induction n arbitrary: s)
  case (Suc n)
  { case 1
    let ?t = "skip_ws (drop 1 (skip_ws s))"
    have ls: "length (skip_ws s) \<le> length s" by (rule length_skip_ws)
    have "has_prefix (skip_ws s) [c] \<Longrightarrow> 2 * length ?t + 2 \<le> n" for c
      using drop1_length [of "skip_ws s" c] length_skip_ws [of "drop 1 (skip_ws s)"] ls 1 by linarith
    then have "has_prefix (skip_ws s) ''{'' \<Longrightarrow> json_members (Suc n) ?t = json_members n ?t"
        "has_prefix (skip_ws s) ''['' \<Longrightarrow> json_elems (Suc n) ?t = json_elems n ?t"
      using Suc.IH(2,3) by blast+
    then show ?case unfolding json_value.simps(2) [of "Suc n"] json_value.simps(2) [of n] Let_def by (simp only: cong: if_cong) }
  { case 2
    have v: "json_value (Suc n) s = json_value n s" using Suc.IH(1) 2 by simp
    have e: "json_elems (Suc n) (drop 1 (skip_ws r)) = json_elems n (drop 1 (skip_ws r))"
      if "json_value n s = Some (w, r)" "has_prefix (skip_ws r) '',''" for w r
      using json_consumes(1) [OF that(1)] drop1_length [OF that(2)] length_skip_ws [of r] 2 by (intro Suc.IH(2)) linarith
    show ?case unfolding json_elems.simps(2) [of "Suc n"] json_elems.simps(2) [of n] v
      using e by (cases "json_value n s") (auto simp: Let_def) }
  { case 3
    let ?k = "skip_ws s"
    have v: "json_value (Suc n) (drop 1 (skip_ws q)) = json_value n (drop 1 (skip_ws q))"
      if "json_str (length ?k) (drop 1 ?k) = Some (k, q)" for k q
    proof (rule Suc.IH(1))
      show "2 * length (drop 1 (skip_ws q)) + 1 \<le> n"
        using json_str_length [OF that] length_skip_ws [of s] length_skip_ws [of q] 3 by simp
    qed
    have e: "json_members (Suc n) (drop 1 (skip_ws r)) = json_members n (drop 1 (skip_ws r))"
      if k: "json_str (length ?k) (drop 1 ?k) = Some (k, q)" and w: "json_value n (drop 1 (skip_ws q)) = Some (w, r)" for k q w r
    proof (rule Suc.IH(3))
      show "2 * length (drop 1 (skip_ws r)) + 2 \<le> n"
        using json_consumes(1) [OF w] json_str_length [OF k] length_skip_ws [of s] length_skip_ws [of q] length_skip_ws [of r] 3
        by simp
    qed
    show ?case
    proof (cases "json_str (length ?k) (drop 1 ?k)")
      case None
      then show ?thesis unfolding json_members.simps(2) [of "Suc n"] json_members.simps(2) [of n] Let_def by simp
    next
      case (Some p)
      obtain k q where p: "p = (k, q)" by (cases p)
      show ?thesis
      proof (cases "json_value n (drop 1 (skip_ws q))")
        case None
        then show ?thesis using v [OF Some [unfolded p]] Some p
          unfolding json_members.simps(2) [of "Suc n"] json_members.simps(2) [of n] Let_def
          by (simp del: json_value.simps json_members.simps)
      next
        case w: (Some y)
        obtain z r where y: "y = (z, r)" by (cases y)
        show ?thesis using v [OF Some [unfolded p]] Some p w y e [OF Some [unfolded p] w [unfolded y]]
          unfolding json_members.simps(2) [of "Suc n"] json_members.simps(2) [of n] Let_def
          by (simp del: json_value.simps json_members.simps)
      qed
    qed }
qed simp_all

text \<open>Enough fuel: any larger amount decodes the same value.\<close>

lemma json_value_fuel: "2 * length s + 1 \<le> n \<Longrightarrow> json_value n s = json_value (2 * length s + 2) s"
proof (induction n)
  case (Suc n)
  show ?case
  proof (cases "2 * length s + 1 \<le> n")
    case True
    then show ?thesis using Suc.IH fuel_step(1) by simp
  next
    case False
    then have "Suc n = 2 * length s + 1" using Suc.prems by simp
    moreover have "json_value (2 * length s + 2) s = json_value (2 * length s + 1) s"
      using fuel_step(1) [of s "2 * length s + 1"] by simp
    ultimately show ?thesis by metis
  qed
qed simp

end
