(* ===== verification/OllamaClient.thy ===== *)
theory OllamaClient
  imports Backend Http JsonFuel
begin

text \<open>
  The HTTP client side: the calls of internal/backends/backend.go to an Ollama server, the decoding
  of its answers, and the extraction of model metadata.  The network is an argument: a function from
  the request sent to what comes back.  A body is complete or its reading fails; a request is
  built only for an URL that parses.  Members of an answer's objects are matched as
  \<open>encoding/json\<close> does, ignoring case; where a member is repeated the last one counts.
\<close>

section \<open>The network\<close>

record out_request =
  or_method :: string
  or_url :: string
  or_headers :: "string list gomap"
  or_body :: string
  or_timeout :: int

datatype http_reply = TransportFailed | HttpReply int "string option"

type_synonym net = "out_request \<Rightarrow> http_reply"

datatype client_error =
    CreateRequest | CallFailed | ReadBody | BadStatus int string | DecodeFailed | PullFailed string

definition set_headers :: "string gomap \<Rightarrow> string list gomap \<Rightarrow> string list gomap" where
  "set_headers hs h = fold (\<lambda>(k, v). hdr_set k v) hs h"

definition trim_right_slash :: "string \<Rightarrow> string" where
  "trim_right_slash s = trim_right_char (CHR ''/'') s"

definition status_ok :: "int \<Rightarrow> bool" where
  "status_ok code \<longleftrightarrow> 200 \<le> code \<and> code < 300"

section \<open>Decoding\<close>

definition member :: "string \<Rightarrow> (string \<times> json) list \<Rightarrow> json option" where
  "member k kvs = map_option snd (List.find (\<lambda>(n, _). equal_fold n k) (rev kvs))"

definition as_string :: "json option \<Rightarrow> string option" where
  "as_string v = (case v of None \<Rightarrow> Some [] | Some JNull \<Rightarrow> Some [] | Some (JStr s) \<Rightarrow> Some s | _ \<Rightarrow> None)"

text \<open>An integer member: the literal must be an integer that fits.\<close>

definition as_int64 :: "json option \<Rightarrow> int option" where
  "as_int64 v =
     (case v of
        None \<Rightarrow> Some 0
      | Some JNull \<Rightarrow> Some 0
      | Some (JNum lit x) \<Rightarrow>
          (case sint_of lit of
             Some n \<Rightarrow> if - (2 ^ 63) \<le> n \<and> n < 2 ^ 63 then Some n else None
           | None \<Rightarrow> None)
      | _ \<Rightarrow> None)"

record model_info =
  mi_name :: string
  mi_model :: string
  mi_modified_at :: string
  mi_size :: int
  mi_digest :: string

definition zero_model_info :: model_info where
  "zero_model_info = \<lparr>mi_name = [], mi_model = [], mi_modified_at = [], mi_size = 0, mi_digest = []\<rparr>"

definition decode_model_info :: "json \<Rightarrow> model_info option" where
  "decode_model_info v =
     (case v of
        JNull \<Rightarrow> Some zero_model_info
      | JObj kvs \<Rightarrow>
          (case (as_string (member ''name'' kvs), as_string (member ''model'' kvs), as_string (member ''modified_at'' kvs),
             as_int64 (member ''size'' kvs), as_string (member ''digest'' kvs)) of
             (Some n, Some m, Some t, Some s, Some d) \<Rightarrow>
               Some \<lparr>mi_name = n, mi_model = m, mi_modified_at = t, mi_size = s, mi_digest = d\<rparr>
           | _ \<Rightarrow> None)
      | _ \<Rightarrow> None)"

fun decode_all :: "(json \<Rightarrow> 'a option) \<Rightarrow> json list \<Rightarrow> 'a list option" where
  "decode_all f [] = Some []"
| "decode_all f (v # vs) =
     (case f v of None \<Rightarrow> None | Some x \<Rightarrow> map_option (\<lambda>xs. x # xs) (decode_all f vs))"

definition decode_model_list :: "json \<Rightarrow> model_info list option" where
  "decode_model_list v =
     (case v of
        JNull \<Rightarrow> Some []
      | JObj kvs \<Rightarrow>
          (case member ''models'' kvs of
             None \<Rightarrow> Some []
           | Some JNull \<Rightarrow> Some []
           | Some (JArr vs) \<Rightarrow> decode_all decode_model_info vs
           | _ \<Rightarrow> None)
      | _ \<Rightarrow> None)"

section \<open>Requests with one answer\<close>

definition do_json_request ::
  "net \<Rightarrow> string \<Rightarrow> string \<Rightarrow> string option \<Rightarrow> backend \<Rightarrow> (client_error, string) result" where
  "do_json_request net meth path payload b =
     (let target = trim_right_slash (url_string (be_url b)) @ path;
          h0 = (if payload \<noteq> None then hdr_set ''Content-Type'' ''application/json'' [] else [])
      in if url_parse target = None then Inl CreateRequest
         else (case net \<lparr>or_method = meth, or_url = target, or_headers = set_headers (be_headers b) h0,
                  or_body = (case payload of Some p \<Rightarrow> p | None \<Rightarrow> []), or_timeout = be_timeout b\<rparr> of
             TransportFailed \<Rightarrow> Inl CallFailed
           | HttpReply code None \<Rightarrow> Inl ReadBody
           | HttpReply code (Some body) \<Rightarrow>
               if \<not> status_ok code then Inl (BadStatus code (trim_space body)) else Inr body))"

definition do_model_operation ::
  "net \<Rightarrow> string \<Rightarrow> string \<Rightarrow> string option \<Rightarrow> backend \<Rightarrow> client_error option" where
  "do_model_operation net meth path payload b =
     (case do_json_request net meth path payload b of Inl e \<Rightarrow> Some e | Inr _ \<Rightarrow> None)"

definition name_payload :: "string \<Rightarrow> string" where
  "name_payload m = marshal_string_map [(''name'', m)]"

definition delete_model :: "net \<Rightarrow> string \<Rightarrow> backend \<Rightarrow> client_error option" where
  "delete_model net m b = do_model_operation net ''DELETE'' ''/api/delete'' (Some (name_payload m)) b"

text \<open>The payload \<open>map[string]any{"model": m, "keep_alive": 0}\<close>, keys in order.\<close>

definition eject_payload :: "string \<Rightarrow> string" where
  "eject_payload m = ''{'' @ json_quote ''keep_alive'' @ '':0,'' @ json_quote ''model'' @ '':'' @ json_quote m @ ''}''"

definition eject_model :: "net \<Rightarrow> string \<Rightarrow> backend \<Rightarrow> client_error option" where
  "eject_model net m b = do_model_operation net ''POST'' ''/api/generate'' (Some (eject_payload m)) b"

definition decode_list_reply :: "(client_error, string) result \<Rightarrow> (client_error, model_info list) result" where
  "decode_list_reply r =
     bind_res r (\<lambda>body. case Option.bind (json_parse body) decode_model_list of
        None \<Rightarrow> Inl DecodeFailed | Some ms \<Rightarrow> Inr ms)"

definition list_models :: "net \<Rightarrow> backend \<Rightarrow> (client_error, model_info list) result" where
  "list_models net b = decode_list_reply (do_json_request net ''GET'' ''/api/tags'' None b)"

definition list_in_memory_models :: "net \<Rightarrow> backend \<Rightarrow> (client_error, model_info list) result" where
  "list_in_memory_models net b = decode_list_reply (do_json_request net ''GET'' ''/api/ps'' None b)"

definition show_model :: "net \<Rightarrow> string \<Rightarrow> backend \<Rightarrow> (client_error, json gomap) result" where
  "show_model net m b =
     bind_res (do_json_request net ''POST'' ''/api/show'' (Some (name_payload m)) b)
       (\<lambda>body. case unmarshal_any_map body of None \<Rightarrow> Inl DecodeFailed | Some r \<Rightarrow> Inr r)"

section \<open>Pulling a model\<close>

record pull_progress =
  pp_status :: string
  pp_digest :: string
  pp_total :: int
  pp_completed :: int
  pp_error :: string

definition decode_progress :: "json \<Rightarrow> pull_progress option" where
  "decode_progress v =
     (case v of
        JNull \<Rightarrow> Some \<lparr>pp_status = [], pp_digest = [], pp_total = 0, pp_completed = 0, pp_error = []\<rparr>
      | JObj kvs \<Rightarrow>
          (case (as_string (member ''status'' kvs), as_string (member ''digest'' kvs), as_int64 (member ''total'' kvs),
             as_int64 (member ''completed'' kvs), as_string (member ''error'' kvs)) of
             (Some s, Some d, Some t, Some c, Some e) \<Rightarrow>
               Some \<lparr>pp_status = s, pp_digest = d, pp_total = t, pp_completed = c, pp_error = e\<rparr>
           | _ \<Rightarrow> None)
      | _ \<Rightarrow> None)"

text \<open>The decoding loop over the body's JSON values: the events reported before it stops, and its
  error.  Every value takes at least one byte, so that the length of the body is fuel enough.\<close>

fun pull_events :: "nat \<Rightarrow> string \<Rightarrow> pull_progress list \<times> client_error option" where
  "pull_events 0 s = ([], Some DecodeFailed)"
| "pull_events (Suc n) s =
     (if skip_ws s = [] then ([], None)
      else (case json_value (2 * length s + 2) s of
          None \<Rightarrow> ([], Some DecodeFailed)
        | Some (v, rest) \<Rightarrow>
            (case decode_progress v of
               None \<Rightarrow> ([], Some DecodeFailed)
             | Some p \<Rightarrow>
                 if trim_space (pp_error p) \<noteq> [] then ([p], Some (PullFailed (trim_space (pp_error p))))
                 else (case pull_events n rest of (ps, e) \<Rightarrow> (p # ps, e)))))"

definition pull_model_stream :: "net \<Rightarrow> string \<Rightarrow> backend \<Rightarrow> pull_progress list \<times> client_error option" where
  "pull_model_stream net m b =
     (let target = trim_right_slash (url_string (be_url b)) @ ''/api/pull'' in
      if url_parse target = None then ([], Some CreateRequest)
      else (case net \<lparr>or_method = ''POST'', or_url = target,
                or_headers = set_headers (be_headers b) (hdr_set ''Content-Type'' ''application/json'' []),
                or_body = name_payload m, or_timeout = 0\<rparr> of
          TransportFailed \<Rightarrow> ([], Some CallFailed)
        | HttpReply code body \<Rightarrow>
            if \<not> status_ok code then
              ([], Some (case body of None \<Rightarrow> ReadBody | Some t \<Rightarrow> BadStatus code (trim_space t)))
            else (case body of
                None \<Rightarrow> ([], Some DecodeFailed)
              | Some t \<Rightarrow> pull_events (length t + 1) t)))"

definition pull_model :: "net \<Rightarrow> string \<Rightarrow> backend \<Rightarrow> client_error option" where
  "pull_model net m b = snd (pull_model_stream net m b)"

section \<open>Model metadata\<close>

record show_details =
  sd_parent_model :: string
  sd_format :: string
  sd_family :: string
  sd_families :: "string list"
  sd_parameter_size :: string
  sd_quantization :: string

record show_metadata =
  sm_capabilities :: "string list"
  sm_details :: show_details

definition string_field :: "json gomap \<Rightarrow> string \<Rightarrow> string" where
  "string_field m k = (case gm_get m k of Some (JStr s) \<Rightarrow> s | _ \<Rightarrow> [])"

definition string_item :: "json \<Rightarrow> string option" where
  "string_item v = (case v of JStr s \<Rightarrow> (if trim_space s = [] then None else Some (trim_space s)) | _ \<Rightarrow> None)"

definition string_slice_field :: "json gomap \<Rightarrow> string \<Rightarrow> string list" where
  "string_slice_field m k = (case gm_get m k of Some (JArr vs) \<Rightarrow> List.map_filter string_item vs | _ \<Rightarrow> [])"

text \<open>A JSON object held in an \<open>any\<close> is a map: the last of the repeated keys counts.\<close>

definition object_map :: "(string \<times> json) list \<Rightarrow> json gomap" where
  "object_map kvs = fold (\<lambda>(k, v). gm_put k v) kvs []"

definition parse_model_show_metadata :: "json gomap \<Rightarrow> show_metadata" where
  "parse_model_show_metadata payload =
     \<lparr>sm_capabilities = string_slice_field payload ''capabilities'',
      sm_details = (case gm_get payload ''details'' of
         Some (JObj kvs) \<Rightarrow> (let d = object_map kvs in
           \<lparr>sd_parent_model = string_field d ''parent_model'', sd_format = string_field d ''format'',
            sd_family = string_field d ''family'', sd_families = string_slice_field d ''families'',
            sd_parameter_size = string_field d ''parameter_size'',
            sd_quantization = string_field d ''quantization_level''\<rparr>)
       | _ \<Rightarrow> \<lparr>sd_parent_model = [], sd_format = [], sd_family = [], sd_families = [],
            sd_parameter_size = [], sd_quantization = []\<rparr>)\<rparr>"

lemma string_slice_trimmed: "x \<in> set (string_slice_field m k) \<Longrightarrow> x \<noteq> [] \<and> trim_space x = x"
  by (auto simp: string_slice_field_def map_filter_def string_item_def split: option.splits json.splits if_splits)

section \<open>What the client guarantees\<close>

lemma skip_ws_Nil [simp]: "skip_ws [] = []"
  by (simp add: skip_ws_def)

lemma do_json_request_Inr:
  "do_json_request net meth path payload b = Inr body \<Longrightarrow>
     \<exists>r code. net r = HttpReply code (Some body) \<and> status_ok code \<and> or_method r = meth \<and>
       or_url r = trim_right_slash (url_string (be_url b)) @ path \<and> or_timeout r = be_timeout b"
  by (auto simp: do_json_request_def Let_def split: http_reply.splits option.splits if_splits) force+

text \<open>A body is a stream of progress events.\<close>

inductive progress_stream :: "pull_progress list \<Rightarrow> string \<Rightarrow> bool" where
  finish: "skip_ws s = [] \<Longrightarrow> progress_stream [] s"
| event: "skip_ws s \<noteq> [] \<Longrightarrow> json_value (2 * length s + 2) s = Some (v, rest) \<Longrightarrow> decode_progress v = Some p \<Longrightarrow>
    progress_stream ps rest \<Longrightarrow> progress_stream (p # ps) s"

inductive_cases progress_stream_ConsE: "progress_stream (p # ps) s"
inductive_cases progress_stream_NilE: "progress_stream [] s"

definition pull_ok :: "pull_progress \<Rightarrow> bool" where
  "pull_ok p \<longleftrightarrow> trim_space (pp_error p) = []"

lemma pull_events_None: "pull_events n s = (ps, None) \<Longrightarrow> progress_stream ps s \<and> list_all pull_ok ps"
proof (induction n arbitrary: s ps)
  case (Suc n)
  show ?case
  proof (cases "skip_ws s = []")
    case True
    then show ?thesis using Suc.prems by (auto intro: progress_stream.finish)
  next
    case False
    then obtain v rest p where v: "json_value (2 * length s + 2) s = Some (v, rest)" "decode_progress v = Some p"
        "trim_space (pp_error p) = []"
      using Suc.prems by (auto simp del: json_value.simps split: option.splits prod.splits if_splits)
    then obtain qs where q: "pull_events n rest = (qs, None)" "ps = p # qs"
      using Suc.prems False by (auto simp del: json_value.simps split: prod.splits)
    show ?thesis using Suc.IH [OF q(1)] v False by (auto simp: q(2) pull_ok_def intro: progress_stream.event)
  qed
qed simp

lemma pull_events_complete:
  "progress_stream ps s \<Longrightarrow> list_all pull_ok ps \<Longrightarrow> length s < n \<Longrightarrow> pull_events n s = (ps, None)"
proof (induction arbitrary: n rule: progress_stream.induct)
  case (finish s)
  then show ?case by (cases n) auto
next
  case (event s v rest p ps)
  have "length rest < length s" by (rule json_consumes(1) [OF event(2)])
  moreover obtain m where n: "n = Suc m" using event.prems(2) by (cases n) auto
  ultimately have "pull_events m rest = (ps, None)" using event by auto
  then show ?case using event by (simp add: n pull_ok_def del: json_value.simps)
qed

lemma pull_events_error:
  "pull_events n s = (ps, Some (PullFailed e)) \<Longrightarrow>
     ps \<noteq> [] \<and> trim_space (pp_error (last ps)) = e \<and> e \<noteq> [] \<and> list_all pull_ok (butlast ps)"
proof (induction n arbitrary: s ps)
  case (Suc n)
  have ne: "skip_ws s \<noteq> []" using Suc.prems by auto
  then obtain v rest p where v: "json_value (2 * length s + 2) s = Some (v, rest)" "decode_progress v = Some p"
    using Suc.prems by (auto simp del: json_value.simps split: option.splits prod.splits)
  show ?case
  proof (cases "trim_space (pp_error p) = []")
    case False
    then show ?thesis using Suc.prems ne v by (auto simp del: json_value.simps)
  next
    case True
    then obtain qs where q: "pull_events n rest = (qs, Some (PullFailed e))" "ps = p # qs"
      using Suc.prems ne v by (auto simp del: json_value.simps split: prod.splits)
    show ?thesis using Suc.IH [OF q(1)] True by (auto simp: q(2) pull_ok_def)
  qed
qed simp

text \<open>Pulling a model succeeds exactly when the backend answers 2xx with a stream of well-formed
  progress events none of which carries an error, and then every event was reported, in order; when
  it fails with the backend's message, that message comes from the last event reported and no
  earlier event had one.\<close>

theorem pull_model_stream_exact:
  assumes "url_parse (trim_right_slash (url_string (be_url b)) @ ''/api/pull'') \<noteq> None"
    and "\<And>r. net r = HttpReply code (Some body)"
  shows "(pull_model_stream net m b = (ps, None) \<longleftrightarrow> status_ok code \<and> progress_stream ps body \<and> list_all pull_ok ps) \<and>
    (\<forall>e. pull_model_stream net m b = (ps, Some (PullFailed e)) \<longrightarrow>
       ps \<noteq> [] \<and> trim_space (pp_error (last ps)) = e \<and> e \<noteq> [] \<and> list_all pull_ok (butlast ps))"
proof -
  have eq: "pull_model_stream net m b =
      (if \<not> status_ok code then ([], Some (BadStatus code (trim_space body))) else pull_events (length body + 1) body)"
    unfolding pull_model_stream_def Let_def using assms(2) by (simp only: assms(1) if_False http_reply.case option.case)
  show ?thesis unfolding eq
    using pull_events_None [of "length body + 1" body ps] pull_events_complete [of ps body "length body + 1"]
      pull_events_error [of "length body + 1" body ps]
    by (auto simp del: pull_events.simps)
qed

definition sample_client_backend :: backend where
  "sample_client_backend = \<lparr>be_name = ''a'', be_url = the (url_parse ''http://h''), be_weight = 1, be_tag = [],
     be_health_path = ''/'', be_timeout = second, be_headers = [], be_effective = 1, be_current = 0,
     be_healthy = True, be_last_check = 0, be_failures = 0, be_enabled = True\<rparr>"

theorem pull_model_stream_exact_witness:
  "pull_model_stream (\<lambda>_. HttpReply 200 (Some [])) ''m'' sample_client_backend = ([], None)"
proof -
  have u: "url_parse ''http://h'' = Some \<lparr>u_scheme = ''http'', u_opaque = [], u_user = [], u_host = ''h'',
      u_path = [], u_epath = [], u_query = [], u_fragment = []\<rparr>"
    by (simp add: url_parse_def url_parse_rest_def is_ctl_def is_letter_def is_digit_def to_lower_def
        lower_char_def has_prefix_def cut_last_def parse_host_ok_def host_char_ok_def Let_def)
  have t: "trim_right_slash (url_string (be_url sample_client_backend)) @ ''/api/pull'' = ''http://h/api/pull''"
    by (simp add: sample_client_backend_def u url_string_def trim_right_slash_def trim_right_char_def)
  have "url_parse ''http://h/api/pull'' \<noteq> None"
    by (simp add: url_parse_def url_parse_rest_def is_ctl_def is_letter_def is_digit_def to_lower_def
        lower_char_def has_prefix_def cut_last_def parse_host_ok_def host_char_ok_def Let_def)
  then show ?thesis
    using pull_model_stream_exact [of sample_client_backend "\<lambda>_. HttpReply 200 (Some [])" 200 "[]" "''m''" "[]"]
    by (simp add: t status_ok_def) (metis progress_stream.finish skip_ws_Nil)
qed

end
