(* ===== verification/Models.thy ===== *)
theory Models
  imports ManagerProps OllamaClient
begin

text \<open>
  internal/models: model names (normalize.go), the registry and the resolution of a request
  (model.go, registry.go), the resolver (resolver.go) and the discovery of a catalog from the
  backends (discovery.go).
\<close>

section \<open>Names and catalogs\<close>

definition latest_suffix :: string where
  "latest_suffix = '':latest''"

definition normalize_model_name :: "string \<Rightarrow> string" where
  "normalize_model_name name =
     (let n = trim_space (to_lower name) in
      if has_suffix n latest_suffix then trim_suffix n latest_suffix else n)"

text \<open>The loop over an entry's references: appended unless blank or seen.\<close>

fun merge_refs :: "string set \<Rightarrow> model_backend_ref list \<Rightarrow> model_backend_ref list \<Rightarrow> model_backend_ref list" where
  "merge_refs seen acc [] = acc"
| "merge_refs seen acc (r # rs) =
     (if ref_backend r = [] then merge_refs seen acc rs
      else if ref_backend r \<in> seen then merge_refs seen acc rs
      else merge_refs (insert (ref_backend r) seen) (acc @ [r]) rs)"

fun normalize_catalog_aux :: "catalog \<Rightarrow> catalog \<Rightarrow> catalog" where
  "normalize_catalog_aux [] out = out"
| "normalize_catalog_aux ((raw, e) # es) out =
     (let name = normalize_model_name raw in
      if name = [] then normalize_catalog_aux es out
      else (let current = (case gm_get out name of Some c \<Rightarrow> c | None \<Rightarrow> \<lparr>me_name = name, me_backends = []\<rparr>);
                refs = merge_refs (ref_backend ` set (me_backends current)) (me_backends current) (me_backends e)
            in normalize_catalog_aux es (gm_put name (current\<lparr>me_backends := refs\<rparr>) out)))"

definition normalize_catalog :: "catalog \<Rightarrow> catalog" where
  "normalize_catalog c = normalize_catalog_aux c []"

section \<open>Registry and resolution\<close>

record reg_entry =
  re_name :: string
  re_backends :: "string list"

type_synonym registry = "reg_entry gomap"

definition new_registry :: "reg_entry gomap \<Rightarrow> registry" where
  "new_registry es = fold (\<lambda>(k, v). gm_put k (if re_name v = [] then v\<lparr>re_name := k\<rparr> else v)) es []"

definition registry_get :: "registry \<Rightarrow> string \<Rightarrow> reg_entry option" where
  "registry_get r name = gm_get r name"

definition all_models :: "registry \<Rightarrow> string list" where
  "all_models r = gm_keys r"

record resolution_error =
  res_status :: nat
  res_message :: string

definition quote_name :: "string \<Rightarrow> string" where
  "quote_name s = [CHR 0x27] @ s @ [CHR 0x27]"

definition model_not_found :: "string \<Rightarrow> resolution_error" where
  "model_not_found n = \<lparr>res_status = 404, res_message = ''model '' @ quote_name n @ '' not found''\<rparr>"

definition model_denied :: "string \<Rightarrow> resolution_error" where
  "model_denied n = \<lparr>res_status = 403,
     res_message = ''access to model '' @ quote_name n @ '' is denied for your account''\<rparr>"

definition model_not_allowed :: "string \<Rightarrow> string list \<Rightarrow> resolution_error" where
  "model_not_allowed n allowed = \<lparr>res_status = 403,
     res_message = ''model '' @ quote_name n @ '' is not available on your plan. Available: ['' @ str_join '' '' allowed @ '']''\<rparr>"

record user_overrides =
  allow_list :: "string list"
  deny_list :: "string list"
  alias_map :: "string gomap"

definition from_user_config :: "user_config option \<Rightarrow> user_overrides" where
  "from_user_config uc = (case uc of
     None \<Rightarrow> \<lparr>allow_list = [], deny_list = [], alias_map = []\<rparr>
   | Some u \<Rightarrow> \<lparr>allow_list = model_allow u, deny_list = model_deny u, alias_map = aliases u\<rparr>)"

definition resolved_name :: "string \<Rightarrow> user_overrides \<Rightarrow> string" where
  "resolved_name requested ov =
     (let norm = normalize_model_name requested;
          second_try = (case gm_get (alias_map ov) norm of
             Some a \<Rightarrow> if a \<noteq> [] then normalize_model_name a else norm
           | None \<Rightarrow> norm)
      in case gm_get (alias_map ov) requested of
           Some a \<Rightarrow> if a \<noteq> [] then normalize_model_name a else second_try
         | None \<Rightarrow> second_try)"

definition resolve_model ::
  "string \<Rightarrow> registry \<Rightarrow> user_overrides \<Rightarrow> (resolution_error, string \<times> string list) result" where
  "resolve_model requested reg ov =
     (let name = resolved_name requested ov in
      case registry_get reg name of
        None \<Rightarrow> Inl (model_not_found requested)
      | Some entry \<Rightarrow>
          if \<exists>d \<in> set (deny_list ov). normalize_model_name d = name then Inl (model_denied requested)
          else if 0 < length (allow_list ov) then
            (if \<exists>a \<in> set (allow_list ov). normalize_model_name a = name then Inr (name, re_backends entry)
             else Inl (model_not_allowed requested (allow_list ov)))
          else Inr (name, re_backends entry))"

text \<open>The sets of normalised names, blank ones left out.\<close>

definition name_set :: "string list \<Rightarrow> string set" where
  "name_set xs = set (filter (\<lambda>n. n \<noteq> []) (map normalize_model_name xs))"

definition visible_models_for :: "registry \<Rightarrow> user_overrides \<Rightarrow> string list" where
  "visible_models_for r ov =
     map (\<lambda>(k, e). re_name e)
       (filter (\<lambda>(k, e). k \<notin> name_set (deny_list ov) \<and>
          (name_set (allow_list ov) = {} \<or> k \<in> name_set (allow_list ov))) r)"

section \<open>Resolver\<close>

record resolver =
  rv_registry :: registry
  rv_manager :: manager
  rv_weights :: "model_backend_ref list gomap"

definition build_registry :: "catalog \<Rightarrow> registry" where
  "build_registry c = new_registry (fold (\<lambda>(k, m). gm_put k
     \<lparr>re_name = (if me_name m = [] then k else me_name m), re_backends = map ref_backend (me_backends m)\<rparr>) c [])"

definition weight_index :: "catalog \<Rightarrow> model_backend_ref list gomap" where
  "weight_index c = fold (\<lambda>(k, m). gm_put k (me_backends m)) c []"

definition new_resolver_with_catalog :: "config \<Rightarrow> catalog \<Rightarrow> (manager_error, resolver) result" where
  "new_resolver_with_catalog cfg c =
     map_sum id (\<lambda>mgr. \<lparr>rv_registry = build_registry c, rv_manager = mgr, rv_weights = weight_index c\<rparr>)
       (new_manager cfg)"

definition catalog_from_config :: "config \<Rightarrow> catalog" where
  "catalog_from_config cfg = fold (\<lambda>(k, m). gm_put k \<lparr>me_name = me_name m, me_backends = me_backends m\<rparr>) (cfg_models cfg) []"

definition new_resolver :: "config \<Rightarrow> (manager_error, resolver) result" where
  "new_resolver cfg = new_resolver_with_catalog cfg (catalog_from_config cfg)"

definition refresh_catalog :: "catalog \<Rightarrow> resolver \<Rightarrow> resolver" where
  "refresh_catalog c rv = rv\<lparr>rv_registry := build_registry c, rv_weights := weight_index c\<rparr>"

definition ref_weight_for :: "model_backend_ref list gomap \<Rightarrow> string \<Rightarrow> string \<Rightarrow> int" where
  "ref_weight_for weights name bn =
     (case gm_get weights name of
        None \<Rightarrow> default_model_weight
      | Some refs \<Rightarrow>
          (case List.find (\<lambda>wr. ref_backend wr = bn \<and> 0 < ref_weight wr) refs of
             Some wr \<Rightarrow> ref_weight wr | None \<Rightarrow> default_model_weight))"

definition resolve ::
  "string \<Rightarrow> user_overrides \<Rightarrow> resolver \<Rightarrow> (resolution_error, pool_entry list) result" where
  "resolve requested ov rv =
     bind_res (resolve_model requested (rv_registry rv) ov)
       (\<lambda>(name, bns).
          (case pool_for_model (rv_manager rv)
              (map (\<lambda>bn. \<lparr>ref_backend = bn, ref_weight = ref_weight_for (rv_weights rv) name bn\<rparr>) bns) of
             Inl _ \<Rightarrow> Inl \<lparr>res_status = 500, res_message = ''internal error: failed to build backend pool''\<rparr>
           | Inr pool \<Rightarrow> Inr pool))"

section \<open>Discovery\<close>

record discovery_stats =
  successful_backends :: nat
  failed_backends :: nat

datatype discovery_error =
    NoDiscoveryBackends | DiscoveryFailedAll "(string \<times> client_error) list"
  | DiscoveryPartial "(string \<times> client_error) list"

definition decode_tag :: "json \<Rightarrow> string option" where
  "decode_tag v = (case v of JNull \<Rightarrow> Some [] | JObj kvs \<Rightarrow> as_string (member ''name'' kvs) | _ \<Rightarrow> None)"

definition decode_tags :: "json \<Rightarrow> string list option" where
  "decode_tags v =
     (case v of
        JNull \<Rightarrow> Some []
      | JObj kvs \<Rightarrow>
          (case member ''models'' kvs of
             None \<Rightarrow> Some [] | Some JNull \<Rightarrow> Some []
           | Some (JArr vs) \<Rightarrow> decode_all decode_tag vs
           | _ \<Rightarrow> None)
      | _ \<Rightarrow> None)"

text \<open>Trimmed, non-blank names, first occurrences only.\<close>

fun unique_names :: "string set \<Rightarrow> string list \<Rightarrow> string list" where
  "unique_names seen [] = []"
| "unique_names seen (n # ns) =
     (let name = trim_space n in
      if name = [] then unique_names seen ns
      else if name \<in> seen then unique_names seen ns
      else name # unique_names (insert name seen) ns)"

definition discovery_timeout :: int where
  "discovery_timeout = 8 * second"

definition discover_backend_models :: "net \<Rightarrow> backend_cfg \<Rightarrow> (client_error, string list) result" where
  "discover_backend_models net c =
     (let target = trim_right_slash (bc_url c) @ ''/api/tags'' in
      if url_parse target = None then Inl CreateRequest
      else (case net \<lparr>or_method = ''GET'', or_url = target, or_headers = set_headers (bc_headers c) [],
                or_body = [], or_timeout = discovery_timeout\<rparr> of
          TransportFailed \<Rightarrow> Inl CallFailed
        | HttpReply code body \<Rightarrow>
            if \<not> status_ok code then Inl (BadStatus code [])
            else (case body of
                None \<Rightarrow> Inl DecodeFailed
              | Some t \<Rightarrow>
                  (case json_value (2 * length t + 2) t of
                     None \<Rightarrow> Inl DecodeFailed
                   | Some (v, _) \<Rightarrow>
                       (case decode_tags v of None \<Rightarrow> Inl DecodeFailed | Some ns \<Rightarrow> Inr (unique_names {} ns))))))"

definition add_discovered :: "string \<Rightarrow> int \<Rightarrow> string \<Rightarrow> catalog \<Rightarrow> catalog" where
  "add_discovered bname weight model c =
     (let n = normalize_model_name model in
      if n = [] then c
      else (let entry = (case gm_get c n of Some e \<Rightarrow> e | None \<Rightarrow> \<lparr>me_name = n, me_backends = []\<rparr>)
            in gm_put n (if \<exists>r \<in> set (me_backends entry). ref_backend r = bname then entry
               else entry\<lparr>me_backends := me_backends entry @ [\<lparr>ref_backend = bname, ref_weight = weight\<rparr>]\<rparr>) c))"

fun discover_loop ::
  "net \<Rightarrow> backend_cfg list \<Rightarrow> catalog \<Rightarrow> discovery_stats \<Rightarrow> (string \<times> client_error) list
     \<Rightarrow> catalog \<times> discovery_stats \<times> (string \<times> client_error) list" where
  "discover_loop net [] c st errs = (c, st, errs)"
| "discover_loop net (b # bs) c st errs =
     (case discover_backend_models net b of
        Inl e \<Rightarrow> discover_loop net bs c (st\<lparr>failed_backends := failed_backends st + 1\<rparr>) (errs @ [(bc_name b, e)])
      | Inr ms \<Rightarrow>
          (let w = (if bc_weight b \<le> 0 then default_model_weight else bc_weight b)
           in discover_loop net bs (fold (add_discovered (bc_name b) w) ms c)
                (st\<lparr>successful_backends := successful_backends st + 1\<rparr>) errs))"

definition discover_catalog ::
  "net \<Rightarrow> config \<Rightarrow> catalog \<times> discovery_stats \<times> discovery_error option" where
  "discover_catalog net cfg =
     (let (c, st, errs) = discover_loop net (cfg_backends cfg) [] \<lparr>successful_backends = 0, failed_backends = 0\<rparr> []
      in (c, st,
          if successful_backends st = 0 then
            (if errs = [] then Some NoDiscoveryBackends else Some (DiscoveryFailedAll errs))
          else if errs \<noteq> [] then Some (DiscoveryPartial errs)
          else None))"

end
