(* ===== verification/ModelsProps.thy ===== *)
theory ModelsProps
  imports Models
begin

text \<open>
  Correctness of model resolution: the agreement of what a user sees with what a user may use, the
  pools that the resolver builds, and the exactness of catalog normalisation and discovery.
\<close>

section \<open>Visible and usable\<close>

definition no_alias :: "user_overrides \<Rightarrow> string \<Rightarrow> bool" where
  "no_alias ov k \<longleftrightarrow> (case gm_get (alias_map ov) k of None \<Rightarrow> True | Some a \<Rightarrow> a = [])"

lemma resolved_name_plain: "normalize_model_name k = k \<Longrightarrow> no_alias ov k \<Longrightarrow> resolved_name k ov = k"
  by (simp add: resolved_name_def no_alias_def Let_def split: option.splits)

lemma resolve_model_Inr:
  "resolve_model req reg ov = Inr (n, bs) \<longleftrightarrow>
     n = resolved_name req ov \<and> (\<exists>e. gm_get reg n = Some e \<and> bs = re_backends e) \<and>
     n \<notin> normalize_model_name ` set (deny_list ov) \<and>
     (allow_list ov = [] \<or> n \<in> normalize_model_name ` set (allow_list ov))"
proof -
  have im: "(\<exists>d \<in> set xs. normalize_model_name d = k) \<longleftrightarrow> k \<in> normalize_model_name ` set xs" for xs k
    by (auto intro: rev_image_eqI)
  show ?thesis unfolding resolve_model_def Let_def registry_get_def im
    by (cases "gm_get reg (resolved_name req ov)") auto
qed

lemma name_set_mem: "k \<noteq> [] \<Longrightarrow> k \<in> name_set xs \<longleftrightarrow> k \<in> normalize_model_name ` set xs"
  by (auto simp: name_set_def)

lemma name_set_empty: "name_set xs = {} \<longleftrightarrow> (\<forall>x \<in> set xs. normalize_model_name x = [])"
  by (auto simp: name_set_def filter_empty_conv)

text \<open>What a user is shown is what a user may request: over a registry with normalised names and
  for a user whose aliases do not rename catalog models, the visible models are exactly those whose
  name resolves, in the registry's order.  (An allow list that holds only blank names is excluded:
  it shows every model and lets none be requested.)\<close>

theorem visible_iff_resolvable:
  assumes "gm_ok reg" and "\<forall>k \<in> set (gm_keys reg). normalize_model_name k = k \<and> k \<noteq> [] \<and> no_alias ov k"
    and "allow_list ov = [] \<or> name_set (allow_list ov) \<noteq> {}"
  shows "visible_models_for reg ov =
    map (\<lambda>(k, e). re_name e) (filter (\<lambda>(k, e). \<exists>r. resolve_model k reg ov = Inr r) reg)"
proof -
  have "(k \<notin> name_set (deny_list ov) \<and> (name_set (allow_list ov) = {} \<or> k \<in> name_set (allow_list ov))) =
      (\<exists>r. resolve_model k reg ov = Inr r)" if k: "(k, e) \<in> set reg" for k e
  proof -
    have "k \<in> set (gm_keys reg)" using k by (auto simp: gm_keys_def intro: rev_image_eqI)
    then have n: "normalize_model_name k = k" "k \<noteq> []" "no_alias ov k" using assms(2) by auto
    have g: "gm_get reg k = Some e" using k gm_get_in [OF assms(1)] by simp
    have "(\<exists>r. resolve_model k reg ov = Inr r) \<longleftrightarrow>
        k \<notin> normalize_model_name ` set (deny_list ov) \<and>
        (allow_list ov = [] \<or> k \<in> normalize_model_name ` set (allow_list ov))"
      using resolved_name_plain [OF n(1,3)] g by (simp add: resolve_model_Inr split_paired_Ex)
    also have "\<dots> \<longleftrightarrow> k \<notin> name_set (deny_list ov) \<and> (name_set (allow_list ov) = {} \<or> k \<in> name_set (allow_list ov))"
      using assms(3) name_set_mem [OF n(2)] by (auto simp: name_set_def)
    finally show ?thesis ..
  qed
  then have "filter (\<lambda>(k, e). k \<notin> name_set (deny_list ov) \<and>
          (name_set (allow_list ov) = {} \<or> k \<in> name_set (allow_list ov))) reg
      = filter (\<lambda>(k, e). \<exists>r. resolve_model k reg ov = Inr r) reg"
    by (intro filter_cong) auto
  then show ?thesis by (simp add: visible_models_for_def)
qed

definition sample_registry :: registry where
  "sample_registry = [(''m'', \<lparr>re_name = ''M'', re_backends = [''b'']\<rparr>), (''x'', \<lparr>re_name = ''X'', re_backends = [''b'']\<rparr>)]"

lemma normalize_simple [simp]: "normalize_model_name ''m'' = ''m''" "normalize_model_name ''x'' = ''x''"
proof -
  have t: "trim_space ''m'' = ''m''" "trim_space ''x'' = ''x''"
    by (rule trim_space_tight, simp add: tight_def is_space_def)+
  show "normalize_model_name ''m'' = ''m''" "normalize_model_name ''x'' = ''x''"
    by (simp_all add: normalize_model_name_def to_lower_def lower_char_def t has_suffix_def latest_suffix_def)
qed

theorem visible_iff_resolvable_witness:
  "visible_models_for sample_registry \<lparr>allow_list = [], deny_list = [''x''], alias_map = []\<rparr> = [''M'']"
  using visible_iff_resolvable [of sample_registry "\<lparr>allow_list = [], deny_list = [''x''], alias_map = []\<rparr>"]
  by (simp add: sample_registry_def gm_ok_def gm_keys_def no_alias_def resolve_model_Inr split_paired_Ex
      resolved_name_plain gm_get_Cons)

section \<open>Resolution to a pool\<close>

lemma ref_weight_pos: "1 \<le> ref_weight_for w n b"
proof -
  have "0 < ref_weight wr" if "List.find (\<lambda>wr. ref_backend wr = b \<and> 0 < ref_weight wr) refs = Some wr" for refs wr
    using find_Some_in [OF that] by simp
  then show ?thesis
    by (fastforce simp: ref_weight_for_def default_model_weight_def split: option.split)
qed

lemma pool_weights_pos:
  assumes "pool_for_model m refs = Inr es" "\<forall>r \<in> set refs. 1 \<le> ref_weight r"
  shows "\<forall>e \<in> set es. 1 \<le> pe_weight e"
proof -
  obtain es0 where e: "pool_entries m refs = Inr es0" "es = new_pool (mg_heap m) es0"
    using assms(1) by (cases "pool_entries m refs") (auto simp: pool_for_model_def)
  have "map pe_weight es0 = map ref_weight refs"
    using pool_entries_spec [OF e(1), THEN conjunct2] assms(2) by (auto intro!: map_cong)
  then have "\<forall>w \<in> set (map pe_weight es0). 1 \<le> w" using assms(2) by auto
  then show ?thesis by (auto simp: e(2) new_pool_def)
qed

lemma resolve_pool:
  assumes "mgr_ok (rv_manager rv)"
    and "\<forall>n e. gm_get (rv_registry rv) n = Some e \<longrightarrow> distinct (re_backends e)"
    and res: "resolve req ov rv = Inr es"
  shows "\<exists>e. gm_get (rv_registry rv) (resolved_name req ov) = Some e \<and>
        resolved_name req ov \<notin> normalize_model_name ` set (deny_list ov) \<and>
        (allow_list ov = [] \<or> resolved_name req ov \<in> normalize_model_name ` set (allow_list ov)) \<and>
        pool_wf es (mg_heap (rv_manager rv)) \<and>
        map (\<lambda>x. be_name (mg_heap (rv_manager rv) ! pe_backend x)) es = re_backends e \<and>
        (\<forall>x \<in> set es. 1 \<le> pe_weight x)"
proof -
  let ?m = "rv_manager rv"
  let ?refs = "\<lambda>n bns. map (\<lambda>bn. \<lparr>ref_backend = bn, ref_weight = ref_weight_for (rv_weights rv) n bn\<rparr>) bns"
  from res obtain n bns where r: "resolve_model req (rv_registry rv) ov = Inr (n, bns)"
    by (auto simp: resolve_def bind_res_Inr_iff)
  have p: "pool_for_model ?m (?refs n bns) = Inr es"
    using res by (cases "pool_for_model ?m (?refs n bns)") (auto simp: resolve_def r)
  from r obtain e where e: "n = resolved_name req ov" "gm_get (rv_registry rv) n = Some e" "bns = re_backends e"
      "n \<notin> normalize_model_name ` set (deny_list ov)"
      "allow_list ov = [] \<or> n \<in> normalize_model_name ` set (allow_list ov)"
    by (auto simp: resolve_model_Inr)
  have names: "map ref_backend (?refs n bns) = bns" by (simp add: comp_def)
  have "distinct (map ref_backend (?refs n bns))" unfolding names using assms(2) e by blast
  note W = pool_for_model_wf [OF assms(1) p this, unfolded names]
  have "\<forall>x \<in> set es. 1 \<le> pe_weight x" by (rule pool_weights_pos [OF p]) (simp add: ref_weight_pos)
  then show "\<exists>e. gm_get (rv_registry rv) (resolved_name req ov) = Some e \<and>
        resolved_name req ov \<notin> normalize_model_name ` set (deny_list ov) \<and>
        (allow_list ov = [] \<or> resolved_name req ov \<in> normalize_model_name ` set (allow_list ov)) \<and>
        pool_wf es (mg_heap ?m) \<and> map (\<lambda>x. be_name (mg_heap ?m ! pe_backend x)) es = re_backends e \<and>
        (\<forall>x \<in> set es. 1 \<le> pe_weight x)"
    using W e by metis
qed

lemma resolve_managed:
  assumes "mgr_ok (rv_manager rv)"
    and "\<forall>n e. gm_get (rv_registry rv) n = Some e \<longrightarrow> distinct (re_backends e)"
    and "resolve req ov rv = Inr es" "x \<in> set es"
  shows "pe_backend x \<in> set (mg_backends (rv_manager rv))"
proof -
  let ?refs = "\<lambda>n bns. map (\<lambda>bn. \<lparr>ref_backend = bn, ref_weight = ref_weight_for (rv_weights rv) n bn\<rparr>) bns"
  from assms(3) obtain n bns where r: "resolve_model req (rv_registry rv) ov = Inr (n, bns)"
    by (auto simp: resolve_def bind_res_Inr_iff)
  have p: "pool_for_model (rv_manager rv) (?refs n bns) = Inr es"
    using assms(3) by (cases "pool_for_model (rv_manager rv) (?refs n bns)") (auto simp: resolve_def r)
  have "map ref_backend (?refs n bns) = bns" by (simp add: comp_def)
  then have "distinct (map ref_backend (?refs n bns))" using r assms(2) by (auto simp: resolve_model_Inr)
  from pool_for_model_wf(2) [OF assms(1) p this] assms(4) show ?thesis by auto
qed

lemma pool_weights_listed:
  assumes "pool_for_model m refs = Inr es" "\<forall>r \<in> set refs. 1 \<le> ref_weight r"
  shows "map pe_weight es = map ref_weight refs"
proof -
  obtain es0 where e: "pool_entries m refs = Inr es0" "es = new_pool (mg_heap m) es0"
    using assms(1) by (cases "pool_entries m refs") (auto simp: pool_for_model_def)
  have "map pe_weight es0 = map ref_weight refs"
    using pool_entries_spec [OF e(1), THEN conjunct2] assms(2) by (auto intro!: map_cong)
  moreover have "new_pool (mg_heap m) es0 = es0"
  proof -
    have "\<forall>w \<in> set (map pe_weight es0). 1 \<le> w" unfolding calculation using assms(2) by auto
    then show ?thesis unfolding new_pool_def by (intro map_idI) auto
  qed
  ultimately show ?thesis by (simp add: e(2))
qed

text \<open>A pool can be built exactly when the manager knows every backend that the registry lists.\<close>

lemma pool_for_listed:
  "(\<exists>es. pool_for_model m (map (\<lambda>bn. \<lparr>ref_backend = bn, ref_weight = w bn\<rparr>) bns) = Inr es) \<longleftrightarrow>
     (\<forall>b \<in> set bns. get_by_name m b \<noteq> None)"
proof -
  let ?refs = "map (\<lambda>bn. \<lparr>ref_backend = bn, ref_weight = w bn\<rparr>) bns"
  have "(\<exists>es. pool_for_model m ?refs = Inr es) \<longleftrightarrow> (\<exists>es. pool_entries m ?refs = Inr es)"
    by (cases "pool_entries m ?refs") (simp_all add: pool_for_model_def)
  then show ?thesis by (simp add: pool_entries_error get_by_name_def)
qed

text \<open>C32: resolving a request has exactly four outcomes.  The model meant is the user's alias of the
  requested name, or of its normal form, or that normal form, always normalised.  It is an error 404 when the registry does
  not know it; else an error 403 when the user's deny list names it or the user has an allow list that does not; else a server
  error 500 when the registry lists a backend that the manager does not know; and otherwise a well-formed
  pool whose backends are, in order, those that the registry lists, with their configured weights, all positive.\<close>

theorem resolve_exact:
  assumes "mgr_ok (rv_manager rv)"
    and "\<forall>n e. gm_get (rv_registry rv) n = Some e \<longrightarrow> distinct (re_backends e)"
    and "n = (if gm_get (alias_map ov) req \<notin> {None, Some []} then normalize_model_name (the (gm_get (alias_map ov) req))
       else if gm_get (alias_map ov) (normalize_model_name req) \<notin> {None, Some []}
         then normalize_model_name (the (gm_get (alias_map ov) (normalize_model_name req)))
       else normalize_model_name req)"
  shows "case gm_get (rv_registry rv) n of
      None \<Rightarrow> \<exists>err. resolve req ov rv = Inl err \<and> res_status err = 404
    | Some e \<Rightarrow>
        if n \<in> normalize_model_name ` set (deny_list ov) \<or>
          allow_list ov \<noteq> [] \<and> n \<notin> normalize_model_name ` set (allow_list ov)
        then \<exists>err. resolve req ov rv = Inl err \<and> res_status err = 403
        else if \<exists>b \<in> set (re_backends e). get_by_name (rv_manager rv) b = None
        then \<exists>err. resolve req ov rv = Inl err \<and> res_status err = 500
        else \<exists>es. resolve req ov rv = Inr es \<and> pool_wf es (mg_heap (rv_manager rv)) \<and>
          map (\<lambda>x. be_name (mg_heap (rv_manager rv) ! pe_backend x)) es = re_backends e \<and>
          map pe_weight es = map (ref_weight_for (rv_weights rv) n) (re_backends e) \<and>
          (\<forall>x \<in> set es. 1 \<le> pe_weight x)"
proof -
  have n: "n = resolved_name req ov"
    by (auto simp: assms(3) resolved_name_def Let_def split: option.split)
  show ?thesis
  proof (cases "gm_get (rv_registry rv) n")
    case None
    then show ?thesis by (simp add: n resolve_def resolve_model_def registry_get_def Let_def model_not_found_def)
  next
    case (Some e)
    let ?denied = "n \<in> normalize_model_name ` set (deny_list ov) \<or>
        allow_list ov \<noteq> [] \<and> n \<notin> normalize_model_name ` set (allow_list ov)"
    let ?refs = "map (\<lambda>bn. \<lparr>ref_backend = bn, ref_weight = ref_weight_for (rv_weights rv) n bn\<rparr>) (re_backends e)"
    show ?thesis
    proof (cases ?denied)
      case True
      have "\<not> (\<exists>m bs. resolve_model req (rv_registry rv) ov = Inr (m, bs))"
        using True unfolding resolve_model_Inr n by blast
      then obtain err where err: "resolve_model req (rv_registry rv) ov = Inl err"
        by (cases "resolve_model req (rv_registry rv) ov") (simp_all add: split_paired_all)
      then have "res_status err = 403" using Some n
        by (auto simp: resolve_model_def Let_def registry_get_def model_denied_def model_not_allowed_def split: if_splits)
      then show ?thesis using Some True err by (simp add: resolve_def)
    next
      case False
      then have rm: "resolve_model req (rv_registry rv) ov = Inr (n, re_backends e)"
        using Some n by (auto simp: resolve_model_Inr)
      show ?thesis
      proof (cases "pool_for_model (rv_manager rv) ?refs")
        case (Inl x)
        then have "\<exists>b \<in> set (re_backends e). get_by_name (rv_manager rv) b = None" by (metis Inl_Inr_False pool_for_listed)
        then show ?thesis using Some False rm Inl by (simp add: resolve_def)
      next
        case (Inr es)
        then have known: "\<not> (\<exists>b \<in> set (re_backends e). get_by_name (rv_manager rv) b = None)" by (metis pool_for_listed)
        have r: "resolve req ov rv = Inr es" using rm Inr by (simp add: resolve_def)
        have "map pe_weight es = map (ref_weight_for (rv_weights rv) n) (re_backends e)"
          using pool_weights_listed [OF Inr] by (simp add: ref_weight_pos comp_def)
        then show ?thesis using resolve_pool [OF assms(1,2) r] Some False known r by (auto simp: n)
      qed
    qed
  qed
qed

definition sample_resolver :: resolver where
  "sample_resolver = \<lparr>rv_registry = sample_registry, rv_manager = sample_manager, rv_weights = []\<rparr>"

text \<open>A user who may use \<open>m\<close> only, and calls it \<open>x\<close>: the alias decides, so \<open>x\<close> resolves; denied or not allowed, it is an error 403.\<close>

theorem resolve_exact_witness:
  "(\<exists>es. resolve ''x'' \<lparr>allow_list = [''m''], deny_list = [''x''], alias_map = [(''x'', ''m'')]\<rparr> sample_resolver = Inr es \<and>
      map pe_weight es = [1]) \<and>
   (\<exists>err. resolve ''x'' \<lparr>allow_list = [''m''], deny_list = [], alias_map = []\<rparr> sample_resolver = Inl err \<and> res_status err = 403) \<and>
   (\<exists>err. resolve ''m'' \<lparr>allow_list = [''m''], deny_list = [''m''], alias_map = []\<rparr> sample_resolver = Inl err \<and> res_status err = 403)"
proof -
  have d: "\<forall>n e. gm_get (rv_registry sample_resolver) n = Some e \<longrightarrow> distinct (re_backends e)"
    by (auto simp: sample_resolver_def sample_registry_def gm_get_Cons)
  have m: "mgr_ok (rv_manager sample_resolver)" by (simp add: sample_resolver_def sample_manager_ok)
  have reg: "gm_get (rv_registry sample_resolver) ''m'' = Some \<lparr>re_name = ''M'', re_backends = [''b'']\<rparr>"
      "gm_get (rv_registry sample_resolver) ''x'' = Some \<lparr>re_name = ''X'', re_backends = [''b'']\<rparr>"
    by (simp_all add: sample_resolver_def sample_registry_def gm_get_Cons)
  have k: "get_by_name (rv_manager sample_resolver) ''b'' \<noteq> None"
    by (simp add: sample_resolver_def sample_manager_def get_by_name_def gm_get_Cons)
  have w: "ref_weight_for (rv_weights sample_resolver) n b = 1" for n b
    by (simp add: sample_resolver_def ref_weight_for_def default_model_weight_def)
  note R = resolve_exact [OF m d refl]
  show ?thesis
    using R [where ov = "\<lparr>allow_list = [''m''], deny_list = [''x''], alias_map = [(''x'', ''m'')]\<rparr>" and req = "''x''"]
      R [where ov = "\<lparr>allow_list = [''m''], deny_list = [], alias_map = []\<rparr>" and req = "''x''"]
      R [where ov = "\<lparr>allow_list = [''m''], deny_list = [''m''], alias_map = []\<rparr>" and req = "''m''"] k
    by (auto simp: gm_get_Cons reg w)
qed

section \<open>Catalogs\<close>

text \<open>What a catalog says: which backend serves which model.\<close>

definition has_ref :: "catalog \<Rightarrow> string \<Rightarrow> string \<Rightarrow> bool" where
  "has_ref c n b \<longleftrightarrow> (\<exists>e. gm_get c n = Some e \<and> b \<in> ref_backend ` set (me_backends e))"

definition cat_ok :: "catalog \<Rightarrow> bool" where
  "cat_ok c \<longleftrightarrow> gm_ok c \<and> (\<forall>n e. gm_get c n = Some e \<longrightarrow> n \<noteq> [] \<and> me_name e = n \<and> distinct (map ref_backend (me_backends e)))"

lemma has_ref_put: "has_ref (gm_put k e c) n b \<longleftrightarrow> (if n = k then b \<in> ref_backend ` set (me_backends e) else has_ref c n b)"
  by (simp add: has_ref_def)

lemma has_ref_Nil [simp]: "\<not> has_ref [] n b"
  by (simp add: has_ref_def)

lemma cat_ok_Nil [simp]: "cat_ok []"
  by (simp add: cat_ok_def)

lemma cat_ok_put [inv_intros]:
  "cat_ok c \<Longrightarrow> k \<noteq> [] \<Longrightarrow> me_name e = k \<Longrightarrow> distinct (map ref_backend (me_backends e)) \<Longrightarrow> cat_ok (gm_put k e c)"
  by (simp add: cat_ok_def)

text \<open>The entry that an operation starts from: the one in place, or an empty one.\<close>

definition entry_or_new :: "catalog \<Rightarrow> string \<Rightarrow> model_entry" where
  "entry_or_new c n = (case gm_get c n of Some e \<Rightarrow> e | None \<Rightarrow> \<lparr>me_name = n, me_backends = []\<rparr>)"

lemma entry_or_new_refs: "b \<in> ref_backend ` set (me_backends (entry_or_new c n)) \<longleftrightarrow> has_ref c n b"
  by (simp add: entry_or_new_def has_ref_def split: option.split)

lemma entry_or_new_ok:
  "cat_ok c \<Longrightarrow> me_name (entry_or_new c n) = n \<and> distinct (map ref_backend (me_backends (entry_or_new c n)))"
  by (simp add: entry_or_new_def cat_ok_def split: option.split)

definition ref_names :: "model_backend_ref list \<Rightarrow> string set" where
  "ref_names rs = ref_backend ` set rs"

lemma ref_names_simps [simp]:
  "ref_names [] = {}" "ref_names (r # rs) = insert (ref_backend r) (ref_names rs)"
  "ref_names (rs @ rs') = ref_names rs \<union> ref_names rs'"
  by (auto simp: ref_names_def)

lemma merge_refs_props:
  "distinct (map ref_backend acc) \<Longrightarrow> seen = ref_names acc \<Longrightarrow>
   distinct (map ref_backend (merge_refs seen acc rs)) \<and>
   ref_names (merge_refs seen acc rs) = ref_names acc \<union> (ref_names rs - {[]})"
proof (induction rs arbitrary: seen acc)
  case (Cons r rs)
  consider "ref_backend r = []" | "ref_backend r \<noteq> []" "ref_backend r \<in> seen" | "ref_backend r \<noteq> []" "ref_backend r \<notin> seen"
    by blast
  then show ?case
  proof cases
    case 3
    have "distinct (map ref_backend (acc @ [r]))" using Cons.prems 3 by (simp add: ref_names_def)
    moreover have "insert (ref_backend r) seen = ref_names (acc @ [r])" using Cons.prems by simp
    ultimately show ?thesis using Cons.IH [of "acc @ [r]" "insert (ref_backend r) seen"] 3 by auto
  qed (use Cons in auto)
qed simp

text \<open>An entry of the raw catalog serves a model: it normalises to it and lists the backend.\<close>

definition serves :: "string \<times> model_entry \<Rightarrow> string \<Rightarrow> string \<Rightarrow> bool" where
  "serves x n b \<longleftrightarrow> n \<noteq> [] \<and> b \<noteq> [] \<and> normalize_model_name (fst x) = n \<and> b \<in> ref_names (me_backends (snd x))"

lemma normalize_catalog_aux_props:
  "cat_ok out \<Longrightarrow> cat_ok (normalize_catalog_aux c out) \<and>
   (has_ref (normalize_catalog_aux c out) n b \<longleftrightarrow> has_ref out n b \<or> (\<exists>x \<in> set c. serves x n b))"
proof (induction c arbitrary: out)
  case (Cons x c)
  obtain raw e where x: "x = (raw, e)" by (cases x)
  let ?k = "normalize_model_name raw"
  show ?case
  proof (cases "?k = []")
    case True
    then have "\<not> serves x n b" by (auto simp: serves_def x)
    moreover have "normalize_catalog_aux (x # c) out = normalize_catalog_aux c out" using True by (simp add: x Let_def)
    ultimately show ?thesis using Cons by simp
  next
    case False
    let ?cur = "entry_or_new out ?k"
    let ?new = "?cur\<lparr>me_backends := merge_refs (ref_names (me_backends ?cur)) (me_backends ?cur) (me_backends e)\<rparr>"
    have step: "normalize_catalog_aux (x # c) out = normalize_catalog_aux c (gm_put ?k ?new out)"
      using False by (simp add: x Let_def entry_or_new_def ref_names_def)
    note ok = entry_or_new_ok [OF Cons.prems, of ?k]
    note M = merge_refs_props [of "me_backends ?cur" "ref_names (me_backends ?cur)" "me_backends e",
        OF ok [THEN conjunct2] refl]
    have "cat_ok (gm_put ?k ?new out)" using ok M False by (intro cat_ok_put [OF Cons.prems]) simp_all
    moreover have "has_ref (gm_put ?k ?new out) n b \<longleftrightarrow> has_ref out n b \<or> serves x n b"
    proof (cases "n = ?k")
      case True
      have "b \<in> ref_names (me_backends ?new) \<longleftrightarrow> b \<in> ref_names (me_backends ?cur) \<or> b \<noteq> [] \<and> b \<in> ref_names (me_backends e)"
        using M by auto
      moreover have "b \<in> ref_names (me_backends ?cur) \<longleftrightarrow> has_ref out n b"
        using entry_or_new_refs [of b out n] True by (simp add: ref_names_def)
      ultimately show ?thesis using False True by (simp add: has_ref_put serves_def x ref_names_def)
    next
      case neq: False
      then show ?thesis by (auto simp: has_ref_put serves_def x)
    qed
    ultimately show ?thesis unfolding step using Cons.IH [of "gm_put ?k ?new out"] by simp
  qed
qed simp

lemma normalize_serves:
  "cat_ok (normalize_catalog c) \<and> (has_ref (normalize_catalog c) n b \<longleftrightarrow> (\<exists>x \<in> set c. serves x n b))"
  unfolding normalize_catalog_def using normalize_catalog_aux_props [of "[]" c n b] by simp

text \<open>Normalising a catalog keeps what it says: the result has normalised, non-blank keys that are
  also the display names, lists no backend twice for a model, and a backend serves a model in it
  exactly when an entry that normalises to the model listed it, whatever the order in which the map
  is visited.\<close>

theorem normalize_catalog_exact:
  "cat_ok (normalize_catalog c) \<and> (has_ref (normalize_catalog c) n b \<longleftrightarrow> (\<exists>x \<in> set c. serves x n b))"
  by (rule normalize_serves)

section \<open>Discovery\<close>

lemma add_discovered_props:
  assumes "cat_ok c"
  shows "cat_ok (add_discovered bn w m c)"
    "has_ref (add_discovered bn w m c) n b \<longleftrightarrow> has_ref c n b \<or> n \<noteq> [] \<and> n = normalize_model_name m \<and> b = bn"
proof -
  let ?k = "normalize_model_name m"
  have "cat_ok (add_discovered bn w m c) \<and>
      (has_ref (add_discovered bn w m c) n b \<longleftrightarrow> has_ref c n b \<or> n \<noteq> [] \<and> n = normalize_model_name m \<and> b = bn)"
  proof (cases "?k = []")
    case True
    then show ?thesis using assms by (auto simp: add_discovered_def Let_def)
  next
    case False
    let ?e = "entry_or_new c ?k"
    let ?new = "if \<exists>r \<in> set (me_backends ?e). ref_backend r = bn then ?e
               else ?e\<lparr>me_backends := me_backends ?e @ [\<lparr>ref_backend = bn, ref_weight = w\<rparr>]\<rparr>"
    have eq: "add_discovered bn w m c = gm_put ?k ?new c"
      using False by (simp add: add_discovered_def Let_def entry_or_new_def)
    note ok = entry_or_new_ok [OF assms, of ?k]
    have new: "distinct (map ref_backend (me_backends ?new))" "me_name ?new = ?k"
        "x \<in> ref_backend ` set (me_backends ?new) \<longleftrightarrow> x = bn \<or> x \<in> ref_backend ` set (me_backends ?e)" for x
      using ok by (auto intro: rev_image_eqI)
    have "cat_ok (gm_put ?k ?new c)" by (rule cat_ok_put [OF assms False new(2,1)])
    moreover have "has_ref (gm_put ?k ?new c) n b \<longleftrightarrow> has_ref c n b \<or> n = ?k \<and> b = bn"
      unfolding has_ref_put new(3) entry_or_new_refs by auto
    ultimately show ?thesis unfolding eq using False by auto
  qed
  then show "cat_ok (add_discovered bn w m c)"
    "has_ref (add_discovered bn w m c) n b \<longleftrightarrow> has_ref c n b \<or> n \<noteq> [] \<and> n = normalize_model_name m \<and> b = bn" by blast+
qed

lemma fold_discovered_props:
  "cat_ok c \<Longrightarrow> cat_ok (fold (add_discovered bn w) ms c) \<and>
   (has_ref (fold (add_discovered bn w) ms c) n b \<longleftrightarrow> has_ref c n b \<or> n \<noteq> [] \<and> n \<in> normalize_model_name ` set ms \<and> b = bn)"
  by (induction ms arbitrary: c) (auto simp: add_discovered_props)

text \<open>What a backend offers: it answers, and lists a name that normalises to the model.\<close>

definition offers :: "net \<Rightarrow> backend_cfg \<Rightarrow> string \<Rightarrow> bool" where
  "offers net c n \<longleftrightarrow> (\<exists>ms. discover_backend_models net c = Inr ms \<and> n \<in> normalize_model_name ` set ms)"

lemma discover_loop_props:
  "cat_ok c \<Longrightarrow> discover_loop net bs c st errs = (c', st', errs') \<Longrightarrow>
   cat_ok c' \<and>
   (has_ref c' n b \<longleftrightarrow> has_ref c n b \<or> n \<noteq> [] \<and> (\<exists>x \<in> set bs. bc_name x = b \<and> offers net x n)) \<and>
   successful_backends st' = successful_backends st + length (filter (\<lambda>x. \<exists>ms. discover_backend_models net x = Inr ms) bs) \<and>
   failed_backends st' = failed_backends st + length (filter (\<lambda>x. \<nexists>ms. discover_backend_models net x = Inr ms) bs) \<and>
   map fst errs' = map fst errs @ map bc_name (filter (\<lambda>x. \<nexists>ms. discover_backend_models net x = Inr ms) bs)"
proof (induction bs arbitrary: c st errs)
  case (Cons x bs)
  show ?case
  proof (cases "discover_backend_models net x")
    case (Inl e)
    then have "\<not> offers net x n" by (simp add: offers_def)
    then show ?thesis using Cons.IH [OF Cons.prems(1)] Cons.prems(2) Inl by fastforce
  next
    case (Inr ms)
    let ?w = "if bc_weight x \<le> 0 then default_model_weight else bc_weight x"
    note F = fold_discovered_props [OF Cons.prems(1), of "bc_name x" ?w ms n b]
    have o: "offers net x n \<longleftrightarrow> n \<in> normalize_model_name ` set ms" using Inr by (simp add: offers_def)
    have l: "discover_loop net bs (fold (add_discovered (bc_name x) ?w) ms c)
        (st\<lparr>successful_backends := successful_backends st + 1\<rparr>) errs = (c', st', errs')"
      using Cons.prems(2) Inr by (simp add: Let_def)
    from Cons.IH [OF F [THEN conjunct1] l] F o Inr show ?thesis by auto
  qed
qed simp

text \<open>Discovery builds exactly what the backends answer: a backend serves a model in the catalog if
  and only if it answered its tags request with a name that normalises to the model; every backend
  is counted once, as successful or as failed, and the error names the failed ones, in order.
  One backend that fails takes nothing away from the others.\<close>

theorem discover_catalog_exact:
  assumes "discover_catalog net cfg = (c, st, err)"
  shows "cat_ok c \<and>
    (has_ref c n b \<longleftrightarrow> n \<noteq> [] \<and> (\<exists>x \<in> set (cfg_backends cfg). bc_name x = b \<and> offers net x n)) \<and>
    successful_backends st + failed_backends st = length (cfg_backends cfg) \<and>
    (err = None \<longleftrightarrow> cfg_backends cfg \<noteq> [] \<and> (\<forall>x \<in> set (cfg_backends cfg). \<exists>ms. discover_backend_models net x = Inr ms)) \<and>
    (\<forall>es. err = Some (DiscoveryPartial es) \<or> err = Some (DiscoveryFailedAll es) \<longrightarrow>
       map fst es = map bc_name (filter (\<lambda>x. \<nexists>ms. discover_backend_models net x = Inr ms) (cfg_backends cfg)))"
proof -
  let ?bs = "cfg_backends cfg" and ?ok = "\<lambda>x. \<exists>ms. discover_backend_models net x = Inr ms"
  obtain errs where l: "discover_loop net ?bs [] \<lparr>successful_backends = 0, failed_backends = 0\<rparr> [] = (c, st, errs)"
    and e: "err = (if successful_backends st = 0 then
              (if errs = [] then Some NoDiscoveryBackends else Some (DiscoveryFailedAll errs))
            else if errs \<noteq> [] then Some (DiscoveryPartial errs) else None)"
    using assms by (auto simp: discover_catalog_def Let_def split: prod.splits)
  note D = discover_loop_props [OF cat_ok_Nil l, of n b]
  have len: "length (filter ?ok ?bs) + length (filter (\<lambda>x. \<not> ?ok x) ?bs) = length ?bs"
    by (rule sum_length_filter_compl)
  have ne: "errs = [] \<longleftrightarrow> (\<forall>x \<in> set ?bs. ?ok x)"
  proof -
    have "errs = [] \<longleftrightarrow> map fst errs = []" by simp
    also have "\<dots> \<longleftrightarrow> filter (\<lambda>x. \<not> ?ok x) ?bs = []" using D by simp
    finally show ?thesis by (simp add: filter_empty_conv)
  qed
  have some: "successful_backends st = 0 \<longleftrightarrow> (\<forall>x \<in> set ?bs. \<not> ?ok x)" using D by (simp add: filter_empty_conv)
  have "err = None \<longleftrightarrow> ?bs \<noteq> [] \<and> (\<forall>x \<in> set ?bs. ?ok x)"
  proof (cases "?bs = []")
    case True
    then show ?thesis using some by (simp add: e)
  next
    case False
    then obtain x where "x \<in> set ?bs" by (cases ?bs) auto
    then show ?thesis using some ne by (auto simp: e)
  qed
  moreover have "successful_backends st + failed_backends st = length ?bs" using D len by simp
  moreover have "\<forall>es. err = Some (DiscoveryPartial es) \<or> err = Some (DiscoveryFailedAll es) \<longrightarrow>
       map fst es = map bc_name (filter (\<lambda>x. \<nexists>ms. discover_backend_models net x = Inr ms) ?bs)"
    using D by (auto simp: e split: if_splits)
  ultimately show ?thesis using D by simp
qed

theorem discover_catalog_exact_witness:
  "\<exists>c st err. discover_catalog (\<lambda>_. TransportFailed) sample_config = (c, st, err) \<and> err \<noteq> None \<and> cat_ok c"
proof -
  obtain c st err where d: "discover_catalog (\<lambda>_. TransportFailed) sample_config = (c, st, err)"
    by (metis prod_cases3)
  have "\<nexists>ms. discover_backend_models (\<lambda>_. TransportFailed) x = Inr ms" for x
    by (simp add: discover_backend_models_def Let_def)
  then have "err \<noteq> None" "cat_ok c"
    using discover_catalog_exact [OF d] by (auto simp: sample_config_def)
  with d show ?thesis by blast
qed

end
