(* ===== verification/ModelStore.thy ===== *)
theory ModelStore
  imports ModelsProps Db
begin

text \<open>
  internal/models/store.go: the catalog and the prices in the database.  An operation runs its
  statements in order against a schedule of faults; a transaction that does not reach its commit
  leaves the database as it was.
\<close>

datatype model_store_err =
    ModelDbError | ModelNameRequired | BackendRefRequired | ErrModelNotFound

record sync_stats =
  ss_added :: nat
  ss_updated :: nat
  ss_deactivated :: nat

definition zero_stats :: sync_stats where
  "zero_stats = \<lparr>ss_added = 0, ss_updated = 0, ss_deactivated = 0\<rparr>"

section \<open>Loading the active catalog\<close>

definition display_of :: "model_row \<Rightarrow> string" where
  "display_of m = (case mr_display m of Some d \<Rightarrow> if d = [] then mr_name m else d | None \<Rightarrow> mr_name m)"

text \<open>The join, in the order of the query.\<close>

definition active_refs :: "db \<Rightarrow> (model_row \<times> ref_row) list" where
  "active_refs d = sort_key (\<lambda>(m, r). mr_name m) (sort_key (\<lambda>(m, r). rr_backend r)
     [(m, r). m \<leftarrow> models_t d, mr_active m, r \<leftarrow> model_backends_t d, rr_model r = mr_name m])"

definition row_ref :: "ref_row \<Rightarrow> model_backend_ref" where
  "row_ref r = \<lparr>ref_backend = rr_backend r,
     ref_weight = (if rr_weight r \<le> 0 then default_model_weight else rr_weight r)\<rparr>"

definition add_row :: "model_row \<times> ref_row \<Rightarrow> catalog \<Rightarrow> catalog" where
  "add_row x c = (case x of (m, r) \<Rightarrow>
     (let e = (case gm_get c (mr_name m) of Some e \<Rightarrow> e | None \<Rightarrow> \<lparr>me_name = display_of m, me_backends = []\<rparr>)
      in gm_put (mr_name m) (e\<lparr>me_backends := me_backends e @ [row_ref r]\<rparr>) c))"

definition load_active_catalog :: "faults \<Rightarrow> db \<Rightarrow> (model_store_err, catalog) result" where
  "load_active_catalog flt d =
     (if flt 0 then Inl ModelDbError else Inr (fold add_row (active_refs d) []))"

section \<open>Synchronisation\<close>

text \<open>The references of an entry as the map the code builds: the last weight of a backend.\<close>

definition normalized_refs :: "model_entry \<Rightarrow> int gomap" where
  "normalized_refs e = fold (\<lambda>r. gm_put (ref_backend r)
      (if ref_weight r \<le> 0 then default_model_weight else ref_weight r))
     (filter (\<lambda>r. ref_backend r \<noteq> []) (me_backends e)) []"

record existing_state =
  ex_active :: bool
  ex_refs :: "int gomap"

definition existing_models :: "db \<Rightarrow> existing_state gomap" where
  "existing_models d =
     fold (\<lambda>r m. let st = (case gm_get m (rr_model r) of Some s \<Rightarrow> s | None \<Rightarrow> \<lparr>ex_active = False, ex_refs = []\<rparr>)
                in gm_put (rr_model r) (st\<lparr>ex_refs := gm_put (rr_backend r) (rr_weight r) (ex_refs st)\<rparr>) m)
       (model_backends_t d)
       (fold (\<lambda>r. gm_put (mr_name r) \<lparr>ex_active = mr_active r, ex_refs = []\<rparr>) (models_t d) [])"

definition sync_upsert :: "string \<Rightarrow> string \<Rightarrow> model_row list \<Rightarrow> model_row list" where
  "sync_upsert name display t =
     tbl_upsert mr_name \<lparr>mr_name = name, mr_display = Some display, mr_active = True\<rparr> (\<lambda>m. m\<lparr>mr_active := True\<rparr>) t"

definition refs_differ :: "existing_state \<Rightarrow> int gomap \<Rightarrow> bool" where
  "refs_differ ex refs \<longleftrightarrow> \<not> ex_active ex \<or> length (ex_refs ex) \<noteq> length refs \<or>
     list_ex (\<lambda>(b, w). gm_get (ex_refs ex) b \<noteq> Some w) refs"

definition count_model :: "existing_state gomap \<Rightarrow> string \<Rightarrow> int gomap \<Rightarrow> sync_stats \<Rightarrow> sync_stats" where
  "count_model existing name refs st =
     (case gm_get existing name of
        None \<Rightarrow> st\<lparr>ss_added := ss_added st + 1\<rparr>
      | Some ex \<Rightarrow> if refs_differ ex refs then st\<lparr>ss_updated := ss_updated st + 1\<rparr> else st)"

text \<open>Inserting the references of one model; statement \<open>k\<close> is the first insertion.\<close>

fun insert_refs :: "faults \<Rightarrow> nat \<Rightarrow> string \<Rightarrow> int gomap \<Rightarrow> ref_row list \<Rightarrow> ref_row list option" where
  "insert_refs flt k name [] t = Some t"
| "insert_refs flt k name ((b, w) # refs) t =
     (if flt k then None
      else insert_refs flt (k + 1) name refs (t @ [\<lparr>rr_model = name, rr_backend = b, rr_weight = w\<rparr>]))"

text \<open>The loop over the names; \<open>None\<close> is a failed statement, the number is the next statement's.\<close>

fun sync_loop ::
  "faults \<Rightarrow> nat \<Rightarrow> existing_state gomap \<Rightarrow> catalog \<Rightarrow> string list \<Rightarrow> sync_stats \<Rightarrow> db
     \<Rightarrow> sync_stats \<times> (nat \<times> db) option" where
  "sync_loop flt k existing c [] st d = (st, Some (k, d))"
| "sync_loop flt k existing c (n # ns) st d =
     (let entry = (case gm_get c n of Some e \<Rightarrow> e | None \<Rightarrow> \<lparr>me_name = [], me_backends = []\<rparr>);
          display = (if me_name entry = [] then n else me_name entry);
          refs = normalized_refs entry
      in if flt k then (st, None)
         else (let d1 = d\<lparr>models_t := sync_upsert n display (models_t d)\<rparr>;
                   st1 = count_model existing n refs st
               in if flt (k + 1) then (st1, None)
                  else (case insert_refs flt (k + 2) n refs (filter (\<lambda>r. rr_model r \<noteq> n) (model_backends_t d1)) of
                      None \<Rightarrow> (st1, None)
                    | Some t \<Rightarrow> sync_loop flt (k + 2 + length refs) existing c ns st1 (d1\<lparr>model_backends_t := t\<rparr>))))"

definition stale :: "string list \<Rightarrow> model_row \<Rightarrow> bool" where
  "stale names m \<longleftrightarrow> mr_active m \<and> (names = [] \<or> mr_name m \<notin> set names)"

text \<open>\<open>SyncDiscoveredCatalog\<close>: begin, two queries and three preparations, the loop, the
  deactivation of the rest with its row count (whose error is ignored), and the commit.\<close>

definition sync_discovered_catalog ::
  "faults \<Rightarrow> catalog \<Rightarrow> db \<Rightarrow> (sync_stats \<times> model_store_err option) \<times> db" where
  "sync_discovered_catalog flt c0 d =
     (let c = normalize_catalog c0; names = sort (gm_keys c) in
      if flt 0 \<or> flt 1 \<or> flt 2 \<or> flt 3 \<or> flt 4 \<or> flt 5 then ((zero_stats, Some ModelDbError), d)
      else (case sync_loop flt 6 (existing_models d) c names zero_stats d of
          (st, None) \<Rightarrow> ((st, Some ModelDbError), d)
        | (st, Some (k, d1)) \<Rightarrow>
            if flt k then ((st, Some ModelDbError), d)
            else (let d2 = d1\<lparr>models_t := tbl_update (stale names) (\<lambda>m. m\<lparr>mr_active := False\<rparr>) (models_t d1)\<rparr>;
                      st2 = (if flt (k + 1) then st
                        else st\<lparr>ss_deactivated := ss_deactivated st + tbl_affected (stale names) (models_t d1)\<rparr>)
                  in if flt (k + 2) then ((st2, Some ModelDbError), d) else ((st2, None), d2))))"

section \<open>Single models\<close>

fun upsert_refs :: "string set \<Rightarrow> model_backend_ref list \<Rightarrow> model_backend_ref list" where
  "upsert_refs seen [] = []"
| "upsert_refs seen (r # rs) =
     (let b = trim_space (ref_backend r) in
      if b = [] \<or> b \<in> seen then upsert_refs seen rs
      else \<lparr>ref_backend = b, ref_weight = (if ref_weight r \<le> 0 then default_model_weight else ref_weight r)\<rparr>
             # upsert_refs (insert b seen) rs)"

definition upsert_model :: "faults \<Rightarrow> string \<Rightarrow> model_entry \<Rightarrow> db \<Rightarrow> model_store_err option \<times> db" where
  "upsert_model flt name0 entry d =
     (let name = trim_space name0; refs = upsert_refs {} (me_backends entry);
          display = (if trim_space (me_name entry) = [] then name else trim_space (me_name entry))
      in if name = [] then (Some ModelNameRequired, d)
         else if refs = [] then (Some BackendRefRequired, d)
         else if flt 0 \<or> flt 1 \<or> flt 2 then (Some ModelDbError, d)
         else (let t1 = tbl_upsert mr_name \<lparr>mr_name = name, mr_display = Some display, mr_active = True\<rparr>
                          (\<lambda>m. m\<lparr>mr_display := Some display, mr_active := True\<rparr>) (models_t d)
               in case insert_refs flt 3 name (map (\<lambda>r. (ref_backend r, ref_weight r)) refs)
                    (filter (\<lambda>r. rr_model r \<noteq> name) (model_backends_t d)) of
                    None \<Rightarrow> (Some ModelDbError, d)
                  | Some t \<Rightarrow>
                      if flt (3 + length refs) then (Some ModelDbError, d)
                      else (None, d\<lparr>models_t := t1, model_backends_t := t\<rparr>)))"

definition deactivate_model :: "faults \<Rightarrow> string \<Rightarrow> db \<Rightarrow> model_store_err option \<times> db" where
  "deactivate_model flt name0 d =
     (let name = trim_space name0; hit = (\<lambda>m. mr_name m = name \<and> mr_active m) in
      if name = [] then (Some ModelNameRequired, d)
      else if flt 0 then (Some ModelDbError, d)
      else (let d' = d\<lparr>models_t := tbl_update hit (\<lambda>m. m\<lparr>mr_active := False\<rparr>) (models_t d)\<rparr>
            in if flt 1 then (Some ModelDbError, d')
               else if tbl_affected hit (models_t d) = 0 then
                 (if flt 2 then (Some ModelDbError, d')
                  else if tbl_affected (\<lambda>m. mr_name m = name) (models_t d) = 0 then (Some ErrModelNotFound, d')
                  else (None, d'))
               else (None, d')))"

section \<open>Prices\<close>

definition load_model_pricing :: "faults \<Rightarrow> db \<Rightarrow> (model_store_err, model_pricing gomap) result" where
  "load_model_pricing flt d =
     (if flt 0 then Inl ModelDbError
      else Inr (fold (\<lambda>r. gm_put (pr_model r) \<lparr>input_per_1m = pr_input r, output_per_1m = pr_output r\<rparr>)
             (sort_key pr_model (model_pricing_t d)) []))"

fun insert_prices ::
  "faults \<Rightarrow> nat \<Rightarrow> string set \<Rightarrow> model_pricing gomap \<Rightarrow> string list \<Rightarrow> pricing_row list
     \<Rightarrow> (nat \<times> pricing_row list) option" where
  "insert_prices flt k known p [] t = Some (k, t)"
| "insert_prices flt k known p (n # ns) t =
     (if n \<notin> known then insert_prices flt k known p ns t
      else if flt k then None
      else (case gm_get p n of
          Some x \<Rightarrow> insert_prices flt (k + 1) known p ns
              (t @ [\<lparr>pr_model = n, pr_input = input_per_1m x, pr_output = output_per_1m x\<rparr>])
        | None \<Rightarrow> insert_prices flt (k + 1) known p ns (t @ [\<lparr>pr_model = n, pr_input = 0, pr_output = 0\<rparr>])))"

text \<open>\<open>ReplaceModelPricing\<close>: begin, query, clear, prepare (when there are prices), insert, commit.\<close>

definition replace_model_pricing :: "faults \<Rightarrow> model_pricing gomap \<Rightarrow> db \<Rightarrow> model_store_err option \<times> db" where
  "replace_model_pricing flt p d =
     (if flt 0 \<or> flt 1 \<or> flt 2 then (Some ModelDbError, d)
      else if 0 < length p \<and> flt 3 then (Some ModelDbError, d)
      else (case insert_prices flt 4 (mr_name ` set (models_t d)) p (sort (gm_keys p)) [] of
          None \<Rightarrow> (Some ModelDbError, d)
        | Some (k, t) \<Rightarrow>
            if flt k then (Some ModelDbError, d) else (None, d\<lparr>model_pricing_t := t\<rparr>)))"

end
