(* ===== verification/ModelStoreProps.thy ===== *)
theory ModelStoreProps
  imports ModelStore
begin

text \<open>
  Correctness of the stored catalog: what a load returns, that a synchronisation is atomic, keeps the
  schema and makes the stored catalog say exactly what was discovered.
\<close>

section \<open>Loading\<close>

definition refs_of :: "string \<Rightarrow> ref_row list \<Rightarrow> ref_row list" where
  "refs_of n t = filter (\<lambda>r. rr_model r = n) t"

lemma join_name:
  "tbl_ok mr_name ms \<Longrightarrow>
   filter (\<lambda>(m, r). mr_name m = n) [(m, r). m \<leftarrow> ms, mr_active m, r \<leftarrow> rs, rr_model r = mr_name m] =
     (case tbl_get mr_name ms n of
        Some m \<Rightarrow> if mr_active m then map (Pair m) (refs_of n rs) else []
      | None \<Rightarrow> [])"
proof (induction ms)
  case (Cons m ms)
  have ok: "tbl_ok mr_name ms" "mr_name m \<notin> mr_name ` set ms" using Cons.prems by (auto simp: tbl_ok_def)
  have inner: "concat (map (\<lambda>r. if rr_model r = k then [(m, r)] else []) rs) = map (Pair m) (refs_of k rs)" for k
    by (induction rs) (auto simp: refs_of_def)
  have flt: "filter (\<lambda>(m, r). mr_name m = n) (map (Pair m) xs) = (if mr_name m = n then map (Pair m) xs else [])" for xs :: "ref_row list"
    by (induction xs) auto
  have none: "mr_name m = n \<Longrightarrow> tbl_get mr_name ms n = None" using ok(2) by (simp add: tbl_get_None)
  show ?case
    using Cons.IH [OF ok(1)] none
    by (simp add: inner flt tbl_get_def)
qed (simp add: tbl_get_def)

lemma gm_ok_fold_add_row: "gm_ok c \<Longrightarrow> gm_ok (fold add_row xs c)"
  by (induction xs arbitrary: c) (auto simp: add_row_def Let_def split: prod.split)

lemma fold_add_row:
  "gm_get (fold add_row xs c) n =
     (case filter (\<lambda>(m, r). mr_name m = n) xs of
        [] \<Rightarrow> gm_get c n
      | (m, r) # _ \<Rightarrow> Some (let e = (case gm_get c n of Some e \<Rightarrow> e | None \<Rightarrow> \<lparr>me_name = display_of m, me_backends = []\<rparr>)
          in e\<lparr>me_backends := me_backends e @ map (row_ref \<circ> snd) (filter (\<lambda>(m, r). mr_name m = n) xs)\<rparr>))"
proof (induction xs arbitrary: c)
  case (Cons x xs)
  obtain m r where x: "x = (m, r)" by (cases x)
  show ?case
  proof (cases "mr_name m = n")
    case True
    then have "gm_get (add_row x c) n = Some (let e = (case gm_get c n of Some e \<Rightarrow> e | None \<Rightarrow> \<lparr>me_name = display_of m, me_backends = []\<rparr>)
        in e\<lparr>me_backends := me_backends e @ [row_ref r]\<rparr>)"
      by (simp add: add_row_def x Let_def)
    then show ?thesis using Cons.IH [of "add_row (m, r) c"] True
      by (cases "filter (\<lambda>(m, r). mr_name m = n) xs") (auto simp: x Let_def)
  next
    case False
    then have "gm_get (add_row x c) n = gm_get c n" by (simp add: add_row_def x Let_def)
    then have "filter (\<lambda>(m, r). mr_name m = n) (x # xs) = filter (\<lambda>(m, r). mr_name m = n) xs" using False by (simp add: x)
    moreover have "gm_get (add_row x c) n = gm_get c n" using \<open>gm_get (add_row x c) n = gm_get c n\<close> .
    moreover have "fold add_row (x # xs) c = fold add_row xs (add_row x c)" by simp
    ultimately show ?thesis by (simp only: Cons.IH [of "add_row x c"])
  qed
qed simp

lemma sort_key_map_Pair: "sort_key (\<lambda>(m, r). f r) (map (Pair m) xs) = map (Pair m) (sort_key f xs)"
proof -
  have ins: "insort_key (\<lambda>(m, r). f r) (m, x) (map (Pair m) xs) = map (Pair m) (insort_key f x xs)" for x xs
    by (induction xs) auto
  show ?thesis by (induction xs) (auto simp: ins)
qed

lemma sort_key_const_on: "(\<And>x. x \<in> set xs \<Longrightarrow> f x = k) \<Longrightarrow> sort_key f xs = xs"
  by (intro sort_key_id_if_sorted) (auto simp: sorted_wrt_map sorted_wrt_iff_nth_less)

lemma load_get:
  assumes "tbl_ok mr_name (models_t d)" "load_active_catalog no_faults d = Inr c"
  shows "gm_get c n =
    (case tbl_get mr_name (models_t d) n of
       Some m \<Rightarrow> if mr_active m \<and> refs_of n (model_backends_t d) \<noteq> []
         then Some \<lparr>me_name = display_of m, me_backends = map row_ref (sort_key rr_backend (refs_of n (model_backends_t d)))\<rparr>
         else None
     | None \<Rightarrow> None)"
proof -
  let ?J = "[(m, r). m \<leftarrow> models_t d, mr_active m, r \<leftarrow> model_backends_t d, rr_model r = mr_name m]"
  let ?P = "\<lambda>(m, r :: ref_row). mr_name m = n"
  have "filter ?P (active_refs d) = sort_key (\<lambda>(m, r). mr_name m) (sort_key (\<lambda>(m, r). rr_backend r) (filter ?P ?J))"
    by (simp only: active_refs_def filter_sort)
  also have "\<dots> = sort_key (\<lambda>(m, r). rr_backend r) (filter ?P ?J)"
    by (rule sort_key_const_on [of _ _ n]) auto
  also have "\<dots> = (case tbl_get mr_name (models_t d) n of
        Some m \<Rightarrow> if mr_active m then map (Pair m) (sort_key rr_backend (refs_of n (model_backends_t d))) else []
      | None \<Rightarrow> [])"
    unfolding join_name [OF assms(1)] by (auto simp: sort_key_map_Pair split: option.split)
  finally have f: "filter ?P (active_refs d) = (case tbl_get mr_name (models_t d) n of
        Some m \<Rightarrow> if mr_active m then map (Pair m) (sort_key rr_backend (refs_of n (model_backends_t d))) else []
      | None \<Rightarrow> [])" .
  have c: "c = fold add_row (active_refs d) []" using assms(2) by (simp add: load_active_catalog_def)
  show ?thesis
  proof (cases "tbl_get mr_name (models_t d) n")
    case None
    then show ?thesis unfolding c fold_add_row f by simp
  next
    case (Some m)
    let ?s = "sort_key rr_backend (refs_of n (model_backends_t d))"
    have e: "?s = [] \<longleftrightarrow> refs_of n (model_backends_t d) = []" by (metis length_0_conv length_sort)
    show ?thesis
    proof (cases "mr_active m \<and> refs_of n (model_backends_t d) \<noteq> []")
      case True
      then obtain r rs where s: "?s = r # rs" using e by (cases ?s) auto
      show ?thesis unfolding c fold_add_row f Some using True by (simp add: s Let_def comp_def)
    next
      case False
      then show ?thesis unfolding c fold_add_row f Some using e by auto
    qed
  qed
qed

section \<open>Synchronisation\<close>

lemma sync_atomic: "snd (fst (sync_discovered_catalog flt c d)) \<noteq> None \<Longrightarrow> snd (sync_discovered_catalog flt c d) = d"
  by (auto simp: sync_discovered_catalog_def Let_def split: option.splits prod.splits if_splits)

definition model_refs :: "catalog \<Rightarrow> string \<Rightarrow> int gomap" where
  "model_refs c n = (case gm_get c n of Some e \<Rightarrow> normalized_refs e | None \<Rightarrow> [])"

definition ref_rows :: "string \<Rightarrow> int gomap \<Rightarrow> ref_row list" where
  "ref_rows n refs = map (\<lambda>(b, w). \<lparr>rr_model = n, rr_backend = b, rr_weight = w\<rparr>) refs"

definition put_refs :: "string \<Rightarrow> int gomap \<Rightarrow> ref_row list \<Rightarrow> ref_row list" where
  "put_refs n refs t = filter (\<lambda>r. rr_model r \<noteq> n) t @ ref_rows n refs"

definition display_for :: "catalog \<Rightarrow> string \<Rightarrow> string" where
  "display_for c n = (case gm_get c n of Some e \<Rightarrow> if me_name e = [] then n else me_name e | None \<Rightarrow> n)"

lemma ref_rows_simps [simp]: "ref_rows n [] = []"
  "ref_rows n ((b, w) # refs) = \<lparr>rr_model = n, rr_backend = b, rr_weight = w\<rparr> # ref_rows n refs"
  by (simp_all add: ref_rows_def)

lemma insert_refs_Some: "insert_refs flt k n refs t = Some t' \<Longrightarrow> t' = t @ ref_rows n refs"
proof (induction refs arbitrary: k t)
  case (Cons x refs)
  obtain b w where x: "x = (b, w)" by (cases x)
  show ?case using Cons.IH [of "k + 1" "t @ [\<lparr>rr_model = n, rr_backend = b, rr_weight = w\<rparr>]"] Cons.prems
    by (simp add: x split: if_splits)
qed simp

lemma insert_refs_total: "insert_refs no_faults k n refs t = Some (t @ ref_rows n refs)"
  by (induction refs arbitrary: k t) auto

lemma sync_loop_db:
  "sync_loop flt k ex c ns st d = (st', Some (k', d')) \<Longrightarrow>
     d' = d\<lparr>models_t := fold (\<lambda>n. sync_upsert n (display_for c n)) ns (models_t d),
       model_backends_t := fold (\<lambda>n. put_refs n (model_refs c n)) ns (model_backends_t d)\<rparr>"
proof (induction ns arbitrary: k st d)
  case (Cons n ns)
  let ?e = "case gm_get c n of Some e \<Rightarrow> e | None \<Rightarrow> \<lparr>me_name = [], me_backends = []\<rparr>"
  have disp: "(if me_name ?e = [] then n else me_name ?e) = display_for c n"
    by (simp add: display_for_def split: option.split)
  have refs: "normalized_refs ?e = model_refs c n"
    by (simp add: model_refs_def normalized_refs_def split: option.split)
  let ?d1 = "d\<lparr>models_t := sync_upsert n (display_for c n) (models_t d)\<rparr>"
  obtain t where t: "insert_refs flt (k + 2) n (model_refs c n) (filter (\<lambda>r. rr_model r \<noteq> n) (model_backends_t ?d1)) = Some t"
    and l: "sync_loop flt (k + 2 + length (model_refs c n)) ex c ns (count_model ex n (model_refs c n) st)
        (?d1\<lparr>model_backends_t := t\<rparr>) = (st', Some (k', d'))"
    using Cons.prems unfolding sync_loop.simps Let_def disp refs by (auto split: if_splits option.splits)
  have "t = put_refs n (model_refs c n) (model_backends_t d)"
    using insert_refs_Some [OF t] by (simp add: put_refs_def)
  with Cons.IH [OF l] show ?case by simp
qed simp

lemma sync_loop_total: "\<exists>st' k' d'. sync_loop no_faults k ex c ns st d = (st', Some (k', d'))"
proof (induction ns arbitrary: k st d)
  case (Cons n ns)
  have nf: "no_faults k = False" "no_faults (k + 1) = False" by simp_all
  show ?case unfolding sync_loop.simps Let_def insert_refs_total nf if_False option.case by (rule Cons.IH)
qed simp

text \<open>The tables after the loop.\<close>

lemma sync_upsert_get:
  "tbl_get mr_name (sync_upsert n disp t) k =
     (if k = n then Some (case tbl_get mr_name t n of None \<Rightarrow> \<lparr>mr_name = n, mr_display = Some disp, mr_active = True\<rparr>
        | Some m \<Rightarrow> m\<lparr>mr_active := True\<rparr>) else tbl_get mr_name t k)"
  unfolding sync_upsert_def by (subst tbl_get_upsert) auto

lemma sync_upsert_ok: "tbl_ok mr_name t \<Longrightarrow> tbl_ok mr_name (sync_upsert n disp t)"
  unfolding sync_upsert_def by (rule tbl_ok_upsert) auto

lemma fold_upsert_ok: "tbl_ok mr_name t \<Longrightarrow> tbl_ok mr_name (fold (\<lambda>n. sync_upsert n (f n)) ns t)"
  by (induction ns arbitrary: t) (auto simp: sync_upsert_ok)

lemma fold_upsert_get:
  "distinct ns \<Longrightarrow> tbl_get mr_name (fold (\<lambda>n. sync_upsert n (f n)) ns t) k =
     (if k \<in> set ns then Some (case tbl_get mr_name t k of None \<Rightarrow> \<lparr>mr_name = k, mr_display = Some (f k), mr_active = True\<rparr>
        | Some m \<Rightarrow> m\<lparr>mr_active := True\<rparr>) else tbl_get mr_name t k)"
  by (induction ns arbitrary: t) (auto simp: sync_upsert_get split: option.split)

lemma refs_of_put: "refs_of k (put_refs n refs t) = (if k = n then ref_rows n refs else refs_of k t)"
proof -
  have "filter (\<lambda>r. rr_model r = k) (ref_rows n refs) = (if k = n then ref_rows n refs else [])"
    by (induction refs) (auto simp: ref_rows_def)
  moreover have "filter (\<lambda>r. rr_model r = k) (filter (\<lambda>r. rr_model r \<noteq> n) t) = (if k = n then [] else filter (\<lambda>r. rr_model r = k) t)"
    by (induction t) auto
  ultimately show ?thesis by (simp add: refs_of_def put_refs_def)
qed

lemma fold_put_refs_of:
  "distinct ns \<Longrightarrow> refs_of k (fold (\<lambda>n. put_refs n (f n)) ns t) = (if k \<in> set ns then ref_rows k (f k) else refs_of k t)"
  by (induction ns arbitrary: t) (auto simp: refs_of_put)

text \<open>The references written for a model.\<close>

lemma fold_put_ok: "gm_ok m \<Longrightarrow> gm_ok (fold (\<lambda>r. gm_put (f r) (g r)) rs m)"
  by (induction rs arbitrary: m) auto

lemma fold_put_keys: "set (gm_keys (fold (\<lambda>r. gm_put (f r) (g r)) rs m)) = set (gm_keys m) \<union> f ` set rs"
  by (induction rs arbitrary: m) (auto simp: gm_keys_put)

lemma normalized_refs_ok: "gm_ok (normalized_refs e)"
  unfolding normalized_refs_def by (rule fold_put_ok) simp

lemma normalized_refs_keys: "set (gm_keys (normalized_refs e)) = ref_names (me_backends e) - {[]}"
  unfolding normalized_refs_def fold_put_keys by (auto simp: ref_names_def gm_keys_def)

lemma model_refs_ok: "gm_ok (model_refs c n)"
  by (simp add: model_refs_def normalized_refs_ok split: option.split)

lemma ref_rows_backends: "map rr_backend (ref_rows n refs) = gm_keys refs"
  by (induction refs) (auto simp: ref_rows_def gm_keys_def)

lemma ref_rows_model: "r \<in> set (ref_rows n refs) \<Longrightarrow> rr_model r = n"
  by (auto simp: ref_rows_def)

text \<open>The schema.\<close>

definition refs_distinct :: "ref_row list \<Rightarrow> bool" where
  "refs_distinct t \<longleftrightarrow> distinct (map (\<lambda>r. (rr_model r, rr_backend r)) t)"

lemma put_refs_distinct: "refs_distinct t \<Longrightarrow> gm_ok refs \<Longrightarrow> refs_distinct (put_refs n refs t)"
proof -
  assume h: "refs_distinct t" "gm_ok refs"
  have "map (\<lambda>r. (rr_model r, rr_backend r)) (ref_rows n refs) = map (Pair n) (gm_keys refs)"
    by (induction refs) (auto simp: gm_keys_def)
  moreover have "distinct (map (Pair n) (gm_keys refs))"
    using h(2) by (auto simp: gm_ok_def gm_keys_def distinct_map inj_on_def)
  ultimately show ?thesis using h(1) ref_rows_model [of _ n refs]
    by (auto simp: refs_distinct_def put_refs_def distinct_map_filter)
qed

lemma fold_put_refs_distinct: "refs_distinct t \<Longrightarrow> (\<And>n. gm_ok (f n)) \<Longrightarrow> refs_distinct (fold (\<lambda>n. put_refs n (f n)) ns t)"
  by (induction ns arbitrary: t) (auto simp: put_refs_distinct)

lemma fold_put_refs_models: "rr_model ` set (fold (\<lambda>n. put_refs n (f n)) ns t) \<subseteq> rr_model ` set t \<union> set ns"
proof (induction ns arbitrary: t)
  case (Cons n ns)
  have "rr_model ` set (put_refs n (f n) t) \<subseteq> rr_model ` set t \<union> {n}"
    using ref_rows_model [of _ n "f n"] by (auto simp: put_refs_def)
  moreover have "rr_model ` set (fold (\<lambda>n. put_refs n (f n)) ns (put_refs n (f n) t))
      \<subseteq> rr_model ` set (put_refs n (f n) t) \<union> set ns" by (rule Cons.IH)
  ultimately have "rr_model ` set (fold (\<lambda>n. put_refs n (f n)) ns (put_refs n (f n) t))
      \<subseteq> rr_model ` set t \<union> {n} \<union> set ns" by blast
  then show ?case unfolding fold_Cons comp_def list.set by blast
qed simp

lemma tbl_get_names: "k \<in> mr_name ` set t \<longleftrightarrow> tbl_get mr_name t k \<noteq> None"
  unfolding tbl_get_None by simp

text \<open>The outcome of a synchronisation without faults.\<close>

lemma sync_outcome:
  "\<exists>st k. let c = normalize_catalog c0; names = sort (gm_keys c);
        d1 = d\<lparr>models_t := fold (\<lambda>n. sync_upsert n (display_for c n)) names (models_t d),
              model_backends_t := fold (\<lambda>n. put_refs n (model_refs c n)) names (model_backends_t d)\<rparr>
     in sync_loop no_faults 6 (existing_models d) c names zero_stats d = (st, Some (k, d1)) \<and>
        sync_discovered_catalog no_faults c0 d =
          ((st\<lparr>ss_deactivated := ss_deactivated st + tbl_affected (stale names) (models_t d1)\<rparr>, None),
           d1\<lparr>models_t := tbl_update (stale names) (\<lambda>m. m\<lparr>mr_active := False\<rparr>) (models_t d1)\<rparr>)"
proof -
  let ?c = "normalize_catalog c0"
  obtain st k d' where l: "sync_loop no_faults 6 (existing_models d) ?c (sort (gm_keys ?c)) zero_stats d = (st, Some (k, d'))"
    using sync_loop_total by blast
  note d' = sync_loop_db [OF l]
  have nf: "no_faults j = False" for j by simp
  show ?thesis
    apply (intro exI [of _ st] exI [of _ k])
    unfolding Let_def sync_discovered_catalog_def nf simp_thms if_False l d' option.case prod.case
    by simp
qed

definition sync_names :: "catalog \<Rightarrow> string list" where
  "sync_names c0 = sort (gm_keys (normalize_catalog c0))"

lemma sync_names_props: "distinct (sync_names c0)" "set (sync_names c0) = set (gm_keys (normalize_catalog c0))"
proof -
  have "gm_ok (normalize_catalog c0)" using normalize_serves [of c0] by (simp add: cat_ok_def)
  then show "distinct (sync_names c0)" by (simp add: sync_names_def gm_ok_def gm_keys_def)
  show "set (sync_names c0) = set (gm_keys (normalize_catalog c0))" by (simp add: sync_names_def)
qed

lemma sync_db:
  assumes "sync_discovered_catalog no_faults c0 d = (r, d')"
  defines "c \<equiv> normalize_catalog c0" and "names \<equiv> sync_names c0"
  defines "t1 \<equiv> fold (\<lambda>n. sync_upsert n (display_for c n)) names (models_t d)"
  shows "snd r = None"
    "d' = d\<lparr>models_t := tbl_update (stale names) (\<lambda>m. m\<lparr>mr_active := False\<rparr>) t1,
       model_backends_t := fold (\<lambda>n. put_refs n (model_refs c n)) names (model_backends_t d)\<rparr>"
    "\<exists>st k d1. sync_loop no_faults 6 (existing_models d) c names zero_stats d = (st, Some (k, d1)) \<and>
       fst r = st\<lparr>ss_deactivated := ss_deactivated st + tbl_affected (stale names) t1\<rparr>"
  using sync_outcome [of c0 d] assms(1) unfolding Let_def c_def names_def t1_def sync_names_def by auto

lemma sync_model_row:
  assumes "sync_discovered_catalog no_faults c0 d = (r, d')" "tbl_ok mr_name (models_t d)"
  shows "tbl_ok mr_name (models_t d')"
    "tbl_get mr_name (models_t d') n = None \<longleftrightarrow> n \<notin> set (sync_names c0) \<and> tbl_get mr_name (models_t d) n = None"
    "tbl_get mr_name (models_t d') n = Some m \<Longrightarrow> mr_active m \<longleftrightarrow> n \<in> set (sync_names c0)"
proof -
  let ?t1 = "fold (\<lambda>n. sync_upsert n (display_for (normalize_catalog c0) n)) (sync_names c0) (models_t d)"
  have m: "models_t d' = tbl_update (stale (sync_names c0)) (\<lambda>m. m\<lparr>mr_active := False\<rparr>) ?t1"
    using sync_db(2) [OF assms(1)] by simp
  have ok1: "tbl_ok mr_name ?t1" by (rule fold_upsert_ok [OF assms(2)])
  show "tbl_ok mr_name (models_t d')" unfolding m by (rule tbl_ok_update [OF ok1]) simp
  have g: "tbl_get mr_name (models_t d') n =
      map_option (\<lambda>m. if stale (sync_names c0) m then m\<lparr>mr_active := False\<rparr> else m) (tbl_get mr_name ?t1 n)"
    unfolding m by (rule tbl_get_update_key) simp
  note F = fold_upsert_get [OF sync_names_props(1) [of c0], of "display_for (normalize_catalog c0)" "models_t d" n]
  show "tbl_get mr_name (models_t d') n = None \<longleftrightarrow> n \<notin> set (sync_names c0) \<and> tbl_get mr_name (models_t d) n = None"
    unfolding g F by simp
  assume s: "tbl_get mr_name (models_t d') n = Some m"
  then obtain m0 where m0: "tbl_get mr_name ?t1 n = Some m0" "m = (if stale (sync_names c0) m0 then m0\<lparr>mr_active := False\<rparr> else m0)"
    unfolding g by auto
  have name: "mr_name m0 = n" using tbl_get_Some [OF m0(1)] by simp
  show "mr_active m \<longleftrightarrow> n \<in> set (sync_names c0)"
  proof (cases "n \<in> set (sync_names c0)")
    case True
    then have "mr_active m0" using m0(1) F by (auto split: option.splits)
    then show ?thesis using True name by (auto simp: m0(2) stale_def)
  next
    case False
    then show ?thesis using name by (auto simp: m0(2) stale_def)
  qed
qed

lemma sync_refs_of:
  assumes "sync_discovered_catalog no_faults c0 d = (r, d')"
  shows "refs_of n (model_backends_t d') =
     (if n \<in> set (sync_names c0) then ref_rows n (model_refs (normalize_catalog c0) n) else refs_of n (model_backends_t d))"
  using fold_put_refs_of [OF sync_names_props(1) [of c0], of n "model_refs (normalize_catalog c0)" "model_backends_t d"]
  by (simp add: sync_db(2) [OF assms])

lemma sync_db_ok:
  assumes "sync_discovered_catalog no_faults c0 d = (r, d')" "db_ok d"
  shows "db_ok d'"
proof -
  have ok: "tbl_ok mr_name (models_t d)" using assms(2) by (simp add: db_ok_def)
  have names: "mr_name ` set (models_t d) \<union> set (sync_names c0) \<subseteq> mr_name ` set (models_t d')"
  proof
    fix n assume "n \<in> mr_name ` set (models_t d) \<union> set (sync_names c0)"
    then show "n \<in> mr_name ` set (models_t d')"
      unfolding Un_iff tbl_get_names using sync_model_row(2) [OF assms(1) ok, of n] by argo
  qed
  have refs: "model_backends_t d' = fold (\<lambda>n. put_refs n (model_refs (normalize_catalog c0) n)) (sync_names c0) (model_backends_t d)"
    using sync_db(2) [OF assms(1)] by simp
  have "refs_distinct (model_backends_t d')" unfolding refs
    using assms(2) by (intro fold_put_refs_distinct) (auto simp: refs_distinct_def db_ok_def model_refs_ok)
  moreover have "rr_model ` set (model_backends_t d') \<subseteq> mr_name ` set (models_t d')"
  proof -
    have "rr_model ` set (model_backends_t d') \<subseteq> rr_model ` set (model_backends_t d) \<union> set (sync_names c0)"
      unfolding refs by (rule fold_put_refs_models)
    moreover have "rr_model ` set (model_backends_t d) \<subseteq> mr_name ` set (models_t d)"
      using assms(2) unfolding db_ok_def by blast
    ultimately show ?thesis using names by blast
  qed
  moreover have "pr_model ` set (model_pricing_t d) \<subseteq> mr_name ` set (models_t d')"
    using assms(2) names unfolding db_ok_def by blast
  ultimately show ?thesis
    using assms(2) sync_model_row(1) [OF assms(1) ok] by (simp add: db_ok_def refs_distinct_def sync_db(2) [OF assms(1)])
qed

lemma loaded_has_ref:
  assumes "tbl_ok mr_name (models_t d)" "load_active_catalog no_faults d = Inr c"
  shows "has_ref c n b \<longleftrightarrow> (\<exists>m. tbl_get mr_name (models_t d) n = Some m \<and> mr_active m) \<and>
     b \<in> rr_backend ` set (refs_of n (model_backends_t d))"
proof -
  have im: "ref_backend ` set (map row_ref (sort_key rr_backend xs)) = rr_backend ` set xs" for xs
    by (auto simp: row_ref_def image_image)
  show ?thesis unfolding has_ref_def load_get [OF assms]
    by (cases "tbl_get mr_name (models_t d) n") (auto simp: im simp del: set_map list.set_map)
qed

lemma sync_exact:
  assumes "db_ok d"
  shows "(\<forall>flt. snd (fst (sync_discovered_catalog flt c0 d)) \<noteq> None \<longrightarrow> snd (sync_discovered_catalog flt c0 d) = d) \<and>
    (\<exists>st d' c. sync_discovered_catalog no_faults c0 d = ((st, None), d') \<and> db_ok d' \<and>
       load_active_catalog no_faults d' = Inr c \<and>
       (\<forall>n b. has_ref c n b \<longleftrightarrow> has_ref (normalize_catalog c0) n b))"
proof (intro conjI allI impI)
  fix flt assume "snd (fst (sync_discovered_catalog flt c0 d)) \<noteq> None"
  then show "snd (sync_discovered_catalog flt c0 d) = d" by (rule sync_atomic)
next
  obtain r d' where s: "sync_discovered_catalog no_faults c0 d = (r, d')" by (cases "sync_discovered_catalog no_faults c0 d")
  obtain st where r: "r = (st, None)" using sync_db(1) [OF s] by (cases r) auto
  have ok: "tbl_ok mr_name (models_t d)" using assms by (simp add: db_ok_def)
  obtain c where c: "load_active_catalog no_faults d' = Inr c" by (simp add: load_active_catalog_def)
  have "has_ref c n b \<longleftrightarrow> has_ref (normalize_catalog c0) n b" for n b
  proof (cases "n \<in> set (sync_names c0)")
    case True
    then obtain e where e: "gm_get (normalize_catalog c0) n = Some e"
      using gm_get_keys [of "normalize_catalog c0" n] sync_names_props(2) [of c0] by auto
    have act: "\<exists>m. tbl_get mr_name (models_t d') n = Some m \<and> mr_active m"
      using sync_model_row(2,3) [OF s ok, of n] True by (cases "tbl_get mr_name (models_t d') n") auto
    have "rr_backend ` set (refs_of n (model_backends_t d')) = set (gm_keys (model_refs (normalize_catalog c0) n))"
      using True ref_rows_backends [of n "model_refs (normalize_catalog c0) n"]
      by (simp add: sync_refs_of [OF s]) (metis list.set_map)
    also have "\<dots> = ref_names (me_backends e) - {[]}" by (simp add: model_refs_def e normalized_refs_keys)
    finally have "has_ref c n b \<longleftrightarrow> b \<in> ref_names (me_backends e) \<and> b \<noteq> []"
      unfolding loaded_has_ref [OF sync_model_row(1) [OF s ok] c] using act by auto
    moreover have "has_ref (normalize_catalog c0) n b \<longleftrightarrow> b \<in> ref_names (me_backends e)"
      by (simp add: has_ref_def e ref_names_def)
    moreover have "has_ref (normalize_catalog c0) n b \<longrightarrow> b \<noteq> []"
      using normalize_serves [of c0 n b] by (auto simp: serves_def)
    ultimately show ?thesis by blast
  next
    case False
    then have "gm_get (normalize_catalog c0) n = None"
      using gm_get_keys [of "normalize_catalog c0" n] sync_names_props(2) [of c0] by auto
    then have "\<not> has_ref (normalize_catalog c0) n b" by (simp add: has_ref_def)
    moreover have "\<not> has_ref c n b"
      unfolding loaded_has_ref [OF sync_model_row(1) [OF s ok] c] using sync_model_row(3) [OF s ok] False by auto
    ultimately show ?thesis by simp
  qed
  then show "\<exists>st d' c. sync_discovered_catalog no_faults c0 d = ((st, None), d') \<and> db_ok d' \<and>
       load_active_catalog no_faults d' = Inr c \<and> (\<forall>n b. has_ref c n b \<longleftrightarrow> has_ref (normalize_catalog c0) n b)"
    using s r c sync_db_ok [OF s assms] by blast
qed

text \<open>C31: a synchronisation is a transaction: if it reports an error, whatever statement failed, the
  database is as before; without faults it always succeeds, keeps the schema, and the catalog loaded
  afterwards says exactly what was discovered: a backend serves a model if and only if the normalised
  discovery says so, and models that were not discovered are gone.\<close>

theorem sync_catalog_exact:
  assumes "db_ok d"
  shows "(\<forall>flt. snd (fst (sync_discovered_catalog flt c0 d)) \<noteq> None \<longrightarrow> snd (sync_discovered_catalog flt c0 d) = d) \<and>
    (\<exists>st d' c. sync_discovered_catalog no_faults c0 d = ((st, None), d') \<and> db_ok d' \<and>
       load_active_catalog no_faults d' = Inr c \<and>
       (\<forall>n b. has_ref c n b \<longleftrightarrow> has_ref (normalize_catalog c0) n b))"
  by (rule sync_exact [OF assms])

theorem sync_catalog_exact_witness:
  "\<exists>st d' c. sync_discovered_catalog no_faults [(''m'', \<lparr>me_name = ''m'', me_backends = [\<lparr>ref_backend = ''a'', ref_weight = 1\<rparr>]\<rparr>)] empty_db
      = ((st, None), d') \<and> load_active_catalog no_faults d' = Inr c \<and> has_ref c ''m'' ''a''"
proof -
  let ?c0 = "[(''m'', \<lparr>me_name = ''m'', me_backends = [\<lparr>ref_backend = ''a'', ref_weight = 1\<rparr>]\<rparr>)]"
  have "has_ref (normalize_catalog ?c0) ''m'' ''a''"
    using normalize_serves [of ?c0 "''m''" "''a''"] by (simp add: serves_def)
  then show ?thesis using sync_catalog_exact [OF db_ok_empty, of ?c0] by blast
qed

end
