(* ===== verification/ModelTables.thy ===== *)
theory ModelTables
  imports ModelStoreProps
begin

text \<open>
  The operations of the model store one at a time, under any schedule of statement faults: the
  schema they keep, what a single-model upsert, a deactivation and a replacement of the prices do
  to the catalog and the prices that are loaded afterwards.
\<close>

section \<open>Synchronisation under faults\<close>

text \<open>A synchronisation that reports success did the same to the tables as one without faults.\<close>

lemma sync_success_same:
  assumes "sync_discovered_catalog flt c0 d = ((st, None), d')"
  shows "\<exists>r. sync_discovered_catalog no_faults c0 d = (r, d')"
proof -
  let ?c = "normalize_catalog c0"
  obtain st1 k d1 where l: "sync_loop flt 6 (existing_models d) ?c (sort (gm_keys ?c)) zero_stats d = (st1, Some (k, d1))"
    and d': "d' = d1\<lparr>models_t := tbl_update (stale (sort (gm_keys ?c))) (\<lambda>m. m\<lparr>mr_active := False\<rparr>) (models_t d1)\<rparr>"
    using assms unfolding sync_discovered_catalog_def Let_def
    by (auto split: if_splits option.splits prod.splits)
  show ?thesis using sync_outcome [of c0 d] unfolding d' Let_def sync_loop_db [OF l] by auto
qed

lemma sync_keeps_db_ok:
  assumes "sync_discovered_catalog flt c0 d = (r, d')" "db_ok d"
  shows "db_ok d'"
proof (cases "snd r")
  case None
  then have "sync_discovered_catalog flt c0 d = ((fst r, None), d')" using assms(1) by (cases r) auto
  from sync_success_same [OF this] assms(2) show ?thesis using sync_db_ok by blast
next
  case (Some e)
  then show ?thesis using sync_atomic [of flt c0 d] assms by simp
qed

section \<open>Single models\<close>

definition refs_map :: "model_backend_ref list \<Rightarrow> int gomap" where
  "refs_map rs = map (\<lambda>r. (ref_backend r, ref_weight r)) rs"

lemma upsert_refs_distinct:
  "distinct (map ref_backend (upsert_refs seen rs)) \<and> ref_backend ` set (upsert_refs seen rs) \<inter> seen = {}"
  by (induction seen rs rule: upsert_refs.induct) (auto simp: Let_def)

lemma upsert_refs_names:
  "ref_backend ` set (upsert_refs seen rs) = (trim_space ` ref_backend ` set rs) - {[]} - seen"
  by (induction seen rs rule: upsert_refs.induct) (auto simp: Let_def)

lemma refs_map_ok: "gm_ok (refs_map (upsert_refs {} rs))"
  using upsert_refs_distinct [of "{}" rs] by (simp add: refs_map_def gm_ok_def comp_def)

lemma refs_map_keys: "set (gm_keys (refs_map rs)) = ref_backend ` set rs"
  by (auto simp: refs_map_def gm_keys_def image_image)

lemma upsert_model_error: "upsert_model flt name e d = (Some err, d') \<Longrightarrow> d' = d"
  by (auto simp: upsert_model_def Let_def split: if_splits option.splits)

lemma upsert_model_db:
  assumes "upsert_model flt name e d = (None, d')"
  obtains display where "trim_space name \<noteq> []" "upsert_refs {} (me_backends e) \<noteq> []"
    "d' = d\<lparr>models_t := tbl_upsert mr_name \<lparr>mr_name = trim_space name, mr_display = Some display, mr_active = True\<rparr>
              (\<lambda>m. m\<lparr>mr_display := Some display, mr_active := True\<rparr>) (models_t d),
            model_backends_t := put_refs (trim_space name) (refs_map (upsert_refs {} (me_backends e))) (model_backends_t d)\<rparr>"
  using assms
  by (auto simp: upsert_model_def Let_def put_refs_def refs_map_def dest: insert_refs_Some
      split: if_splits option.splits)

lemma db_ok_models:
  assumes "db_ok d" "tbl_ok mr_name t" "refs_distinct rs"
    and "mr_name ` set (models_t d) \<subseteq> mr_name ` set t" "rr_model ` set rs \<subseteq> mr_name ` set t"
  shows "db_ok (d\<lparr>models_t := t, model_backends_t := rs\<rparr>)"
proof -
  have "pr_model ` set (model_pricing_t d) \<subseteq> mr_name ` set (models_t d)" using assms(1) by (simp add: db_ok_def)
  from subset_trans [OF this assms(4)] show ?thesis using assms by (simp add: db_ok_def refs_distinct_def)
qed

lemma upsert_model_db_ok:
  assumes "upsert_model flt name e d = (err, d')" "db_ok d"
  shows "db_ok d'"
proof (cases err)
  case None
  let ?n = "trim_space name"
  from assms(1) None have "upsert_model flt name e d = (None, d')" by simp
  then obtain display where d': "d' = d\<lparr>models_t := tbl_upsert mr_name \<lparr>mr_name = ?n, mr_display = Some display, mr_active = True\<rparr>
              (\<lambda>m. m\<lparr>mr_display := Some display, mr_active := True\<rparr>) (models_t d),
            model_backends_t := put_refs ?n (refs_map (upsert_refs {} (me_backends e))) (model_backends_t d)\<rparr>"
    by (rule upsert_model_db)
  let ?t = "tbl_upsert mr_name \<lparr>mr_name = ?n, mr_display = Some display, mr_active = True\<rparr>
              (\<lambda>m. m\<lparr>mr_display := Some display, mr_active := True\<rparr>) (models_t d)"
  have names: "mr_name ` set (models_t d) \<union> {?n} \<subseteq> mr_name ` set ?t"
  proof
    fix n assume "n \<in> mr_name ` set (models_t d) \<union> {?n}"
    then show "n \<in> mr_name ` set ?t"
      unfolding Un_iff tbl_get_names by (subst tbl_get_upsert) auto
  qed
  have "rr_model ` set (put_refs ?n (refs_map (upsert_refs {} (me_backends e))) (model_backends_t d))
      \<subseteq> rr_model ` set (model_backends_t d) \<union> {?n}"
    using ref_rows_model [of _ ?n] by (auto simp: put_refs_def)
  also have "\<dots> \<subseteq> mr_name ` set ?t" using names assms(2) unfolding db_ok_def by blast
  finally show ?thesis unfolding d'
    using assms(2) names
    by (intro db_ok_models tbl_ok_upsert put_refs_distinct refs_map_ok) (auto simp: db_ok_def refs_distinct_def)
next
  case (Some e')
  then show ?thesis using assms upsert_model_error [of flt name e d e' d'] by simp
qed

lemma upsert_model_has_ref:
  assumes up: "upsert_model flt name e d = (None, d')" and ok: "db_ok d"
    and c: "load_active_catalog no_faults d = Inr c" and c': "load_active_catalog no_faults d' = Inr c'"
  shows "has_ref c' n b \<longleftrightarrow> (if n = trim_space name then b \<in> trim_space ` ref_backend ` set (me_backends e) - {[]}
     else has_ref c n b)"
proof -
  let ?n = "trim_space name"
  from up obtain display where d': "d' = d\<lparr>models_t := tbl_upsert mr_name \<lparr>mr_name = ?n, mr_display = Some display, mr_active = True\<rparr>
              (\<lambda>m. m\<lparr>mr_display := Some display, mr_active := True\<rparr>) (models_t d),
            model_backends_t := put_refs ?n (refs_map (upsert_refs {} (me_backends e))) (model_backends_t d)\<rparr>"
    by (rule upsert_model_db)
  have row: "tbl_get mr_name (models_t d') k = (if k = ?n then
      Some (case tbl_get mr_name (models_t d) ?n of None \<Rightarrow> \<lparr>mr_name = ?n, mr_display = Some display, mr_active = True\<rparr>
        | Some m \<Rightarrow> m\<lparr>mr_display := Some display, mr_active := True\<rparr>) else tbl_get mr_name (models_t d) k)" for k
    unfolding d' by (simp add: tbl_get_upsert)
  have refs: "refs_of k (model_backends_t d') =
      (if k = ?n then ref_rows ?n (refs_map (upsert_refs {} (me_backends e))) else refs_of k (model_backends_t d))" for k
    by (simp add: d' refs_of_put)
  have ok': "tbl_ok mr_name (models_t d)" "tbl_ok mr_name (models_t d')"
    using ok upsert_model_db_ok [OF up ok] by (simp_all add: db_ok_def)
  show ?thesis
  proof (cases "n = ?n")
    case True
    have "rr_backend ` set (refs_of ?n (model_backends_t d')) = trim_space ` ref_backend ` set (me_backends e) - {[]}"
      using ref_rows_backends [of ?n "refs_map (upsert_refs {} (me_backends e))"]
        refs_map_keys [of "upsert_refs {} (me_backends e)"] upsert_refs_names [of "{}" "me_backends e"]
      by (simp add: refs) (metis list.set_map)
    then show ?thesis unfolding loaded_has_ref [OF ok'(2) c'] row True by (auto split: option.split)
  next
    case False
    then show ?thesis unfolding loaded_has_ref [OF ok'(2) c'] loaded_has_ref [OF ok'(1) c] row refs by simp
  qed
qed

text \<open>Deactivation: an error may come after the update, so only a success tells what was done.\<close>

lemma deactivate_model_db:
  assumes "deactivate_model flt name d = (err, d')"
  shows "d' = d \<or> d' = d\<lparr>models_t := tbl_update (\<lambda>m. mr_name m = trim_space name \<and> mr_active m) (\<lambda>m. m\<lparr>mr_active := False\<rparr>) (models_t d)\<rparr>"
    and "err = None \<Longrightarrow> trim_space name \<noteq> [] \<and> (\<exists>m \<in> set (models_t d). mr_name m = trim_space name) \<and>
      d' = d\<lparr>models_t := tbl_update (\<lambda>m. mr_name m = trim_space name \<and> mr_active m) (\<lambda>m. m\<lparr>mr_active := False\<rparr>) (models_t d)\<rparr>"
  using assms tbl_affected_0 [of "\<lambda>m. mr_name m = trim_space name" "models_t d"]
    tbl_affected_0 [of "\<lambda>m. mr_name m = trim_space name \<and> mr_active m" "models_t d"]
  by (auto simp: deactivate_model_def Let_def split: if_splits)

lemma deactivate_model_db_ok:
  assumes "deactivate_model flt name d = (err, d')" "db_ok d"
  shows "db_ok d'"
proof -
  let ?p = "\<lambda>m. mr_name m = trim_space name \<and> mr_active m"
  let ?t = "tbl_update ?p (\<lambda>m. m\<lparr>mr_active := False\<rparr>) (models_t d)"
  have "tbl_ok mr_name ?t" using assms(2) by (intro tbl_ok_update) (auto simp: db_ok_def)
  moreover have "mr_name ` set ?t = mr_name ` set (models_t d)" by (rule keys_update) simp
  ultimately have "db_ok (d\<lparr>models_t := ?t\<rparr>)" using assms(2) unfolding db_ok_def by simp
  then show ?thesis using deactivate_model_db(1) [OF assms(1)] assms(2) by auto
qed

lemma deactivated_has_ref:
  assumes d': "d' = d\<lparr>models_t := tbl_update (\<lambda>m. mr_name m = trim_space name \<and> mr_active m) (\<lambda>m. m\<lparr>mr_active := False\<rparr>) (models_t d)\<rparr>"
    and ok: "db_ok d" "db_ok d'"
    and c: "load_active_catalog no_faults d = Inr c" and c': "load_active_catalog no_faults d' = Inr c'"
  shows "has_ref c' n b \<longleftrightarrow> n \<noteq> trim_space name \<and> has_ref c n b"
proof -
  let ?p = "\<lambda>m. mr_name m = trim_space name \<and> mr_active m"
  have row: "tbl_get mr_name (models_t d') k = map_option (\<lambda>m. if ?p m then m\<lparr>mr_active := False\<rparr> else m) (tbl_get mr_name (models_t d) k)" for k
    unfolding d' by (simp add: tbl_get_update_key)
  have ok': "tbl_ok mr_name (models_t d)" "tbl_ok mr_name (models_t d')"
    using ok by (simp_all add: db_ok_def)
  have off: "m = m\<lparr>mr_active := False\<rparr> \<longleftrightarrow> \<not> mr_active m" for m :: model_row by (cases m) simp
  show ?thesis
    unfolding loaded_has_ref [OF ok'(2) c'] loaded_has_ref [OF ok'(1) c] row
    using tbl_get_Some [of mr_name "models_t d" n] by (auto simp: d' off split: if_splits)
qed

lemma deactivate_model_has_ref:
  assumes de: "deactivate_model flt name d = (None, d')" and ok: "db_ok d"
    and c: "load_active_catalog no_faults d = Inr c" and c': "load_active_catalog no_faults d' = Inr c'"
  shows "has_ref c' n b \<longleftrightarrow> n \<noteq> trim_space name \<and> has_ref c n b"
  using deactivated_has_ref [OF _ ok deactivate_model_db_ok [OF de ok] c c'] deactivate_model_db(2) [OF de] by blast

text \<open>A deactivation that reports an error changed nothing, unless the number of updated rows could not be read.\<close>

lemma deactivate_model_error:
  assumes "deactivate_model flt name d = (Some e, d')" "\<not> flt 1"
  shows "d' = d"
proof -
  have "tbl_affected (\<lambda>m. mr_name m = trim_space name \<and> mr_active m) (models_t d) = 0 \<Longrightarrow>
      d\<lparr>models_t := tbl_update (\<lambda>m. mr_name m = trim_space name \<and> mr_active m) (\<lambda>m. m\<lparr>mr_active := False\<rparr>) (models_t d)\<rparr> = d"
    by (simp add: tbl_update_none)
  then show ?thesis using assms by (auto simp: deactivate_model_def Let_def split: if_splits)
qed

lemma deactivate_model_verdict:
  "(\<forall>k. \<not> flt k) \<Longrightarrow> fst (deactivate_model flt name d) =
     (if trim_space name = [] then Some ModelNameRequired
      else if \<exists>m \<in> set (models_t d). mr_name m = trim_space name then None else Some ErrModelNotFound)"
  using tbl_affected_0 [of "\<lambda>m. mr_name m = trim_space name" "models_t d"]
    tbl_affected_0 [of "\<lambda>m. mr_name m = trim_space name \<and> mr_active m" "models_t d"]
  by (auto simp: deactivate_model_def Let_def)

section \<open>Prices\<close>

lemma insert_prices_Some:
  "insert_prices flt k known p ns t = Some (k', t') \<Longrightarrow>
     t' = t @ map (\<lambda>n. \<lparr>pr_model = n,
        pr_input = (case gm_get p n of Some x \<Rightarrow> input_per_1m x | None \<Rightarrow> 0),
        pr_output = (case gm_get p n of Some x \<Rightarrow> output_per_1m x | None \<Rightarrow> 0)\<rparr>) (filter (\<lambda>n. n \<in> known) ns)"
proof (induction ns arbitrary: k t)
  case (Cons n ns)
  show ?case using Cons.prems
    by (cases "n \<in> known"; cases "gm_get p n") (auto split: if_splits dest!: Cons.IH)
qed simp

lemma replace_pricing_error: "replace_model_pricing flt p d = (Some e, d') \<Longrightarrow> d' = d"
  by (auto simp: replace_model_pricing_def split: if_splits option.splits prod.splits)

lemma replace_pricing_rows:
  assumes "replace_model_pricing flt p d = (None, d')" "gm_ok p"
  shows "d' = d\<lparr>model_pricing_t := model_pricing_t d'\<rparr>" "tbl_ok pr_model (model_pricing_t d')"
    "r \<in> set (model_pricing_t d') \<longleftrightarrow> pr_model r \<in> mr_name ` set (models_t d) \<and>
       gm_get p (pr_model r) = Some \<lparr>input_per_1m = pr_input r, output_per_1m = pr_output r\<rparr>"
proof -
  let ?f = "\<lambda>n. \<lparr>pr_model = n, pr_input = (case gm_get p n of Some x \<Rightarrow> input_per_1m x | None \<Rightarrow> 0),
        pr_output = (case gm_get p n of Some x \<Rightarrow> output_per_1m x | None \<Rightarrow> 0)\<rparr>"
  let ?ns = "filter (\<lambda>n. n \<in> mr_name ` set (models_t d)) (sort (gm_keys p))"
  have t: "d' = d\<lparr>model_pricing_t := map ?f ?ns\<rparr>"
    using assms(1) by (auto simp: replace_model_pricing_def dest!: insert_prices_Some split: if_splits option.splits)
  then show "d' = d\<lparr>model_pricing_t := model_pricing_t d'\<rparr>" by simp
  have "map pr_model (map ?f ?ns) = ?ns" by (simp add: comp_def)
  then show "tbl_ok pr_model (model_pricing_t d')"
    using assms(2) by (simp add: t tbl_ok_def gm_ok_def gm_keys_def)
  have "r \<in> ?f ` set ?ns \<longleftrightarrow> pr_model r \<in> mr_name ` set (models_t d) \<and>
       gm_get p (pr_model r) = Some \<lparr>input_per_1m = pr_input r, output_per_1m = pr_output r\<rparr>"
  proof (cases "gm_get p (pr_model r)")
    case None
    then have "pr_model r \<notin> set (gm_keys p)" using gm_get_keys [of p "pr_model r"] by simp
    then show ?thesis using None by auto
  next
    case (Some x)
    then have "pr_model r \<in> set (gm_keys p)" using gm_get_keys [of p "pr_model r"] by simp
    then show ?thesis using Some by (cases r; cases x) (auto intro!: rev_image_eqI [of "pr_model r"])
  qed
  then show "r \<in> set (model_pricing_t d') \<longleftrightarrow> pr_model r \<in> mr_name ` set (models_t d) \<and>
       gm_get p (pr_model r) = Some \<lparr>input_per_1m = pr_input r, output_per_1m = pr_output r\<rparr>"
    by (simp add: t)
qed

lemma replace_pricing_db_ok:
  assumes "replace_model_pricing flt p d = (e, d')" "gm_ok p" "db_ok d"
  shows "db_ok d'"
proof (cases e)
  case None
  with assms have s: "replace_model_pricing flt p d = (None, d')" by simp
  have "pr_model ` set (model_pricing_t d') \<subseteq> mr_name ` set (models_t d)"
    using replace_pricing_rows(3) [OF s assms(2)] by blast
  then have "db_ok (d\<lparr>model_pricing_t := model_pricing_t d'\<rparr>)"
    using assms(3) replace_pricing_rows(2) [OF s assms(2)] unfolding db_ok_def by simp
  then show ?thesis by (subst replace_pricing_rows(1) [OF s assms(2)])
next
  case (Some e')
  then show ?thesis using assms replace_pricing_error [of flt p d e' d'] by simp
qed

lemma fold_price_get:
  "gm_get (fold (\<lambda>r. gm_put (pr_model r) \<lparr>input_per_1m = pr_input r, output_per_1m = pr_output r\<rparr>) rs m) n =
     (case map_of (rev (map (\<lambda>r. (pr_model r, \<lparr>input_per_1m = pr_input r, output_per_1m = pr_output r\<rparr>)) rs)) n of
        Some x \<Rightarrow> Some x | None \<Rightarrow> gm_get m n)"
  by (induction rs arbitrary: m) (auto simp: map_add_def split: option.splits)

lemma load_pricing_get:
  assumes "load_model_pricing flt d = Inr p" "tbl_ok pr_model (model_pricing_t d)"
  shows "gm_get p n = Some x \<longleftrightarrow> \<lparr>pr_model = n, pr_input = input_per_1m x, pr_output = output_per_1m x\<rparr> \<in> set (model_pricing_t d)"
proof -
  let ?kv = "\<lambda>r. (pr_model r, \<lparr>input_per_1m = pr_input r, output_per_1m = pr_output r\<rparr>)"
  let ?rs = "sort_key pr_model (model_pricing_t d)"
  have "distinct (map pr_model ?rs)" using assms(2)
    unfolding tbl_ok_def by (metis distinct_map distinct_sort set_sort)
  then have di: "distinct (map fst (rev (map ?kv ?rs)))" by (simp add: rev_map [symmetric] comp_def)
  have "gm_get p n = Some x \<longleftrightarrow> map_of (rev (map ?kv ?rs)) n = Some x"
    using assms(1) unfolding load_model_pricing_def
    by (auto simp: fold_price_get split: if_splits option.splits)
  also have "\<dots> \<longleftrightarrow> (n, x) \<in> set (rev (map ?kv ?rs))" using di by simp
  also have "\<dots> \<longleftrightarrow> \<lparr>pr_model = n, pr_input = input_per_1m x, pr_output = output_per_1m x\<rparr> \<in> set (model_pricing_t d)"
  proof -
    have e: "(n, x) = ?kv r \<longleftrightarrow> r = \<lparr>pr_model = n, pr_input = input_per_1m x, pr_output = output_per_1m x\<rparr>" for r
      by (cases r; cases x) auto
    show ?thesis unfolding set_rev list.set_map set_sort image_iff e by blast
  qed
  finally show ?thesis .
qed

section \<open>Properties\<close>

lemma load_total: "\<exists>c. load_active_catalog no_faults d = Inr c"
  by (simp add: load_active_catalog_def)

text \<open>C19: the administrator's operations on models.  Whatever statement fails, the schema is kept.  An
  upsert or a replacement of the prices that reports an error changed nothing; a deactivation that reports an error
  changed nothing either, unless reading the number of updated rows failed (statement 1): then the model may be
  deactivated although an error is reported.  After a successful
  upsert the loaded catalog serves the model with exactly the named backends, blanks trimmed; after
  a deactivation that succeeded or took effect the model is gone; other models are untouched.  Without failures a
  deactivation succeeds exactly for a name that the table knows.  After a successful
  replacement the loaded prices are exactly the given ones of the models that the catalog knows.\<close>

theorem model_crud_effect:
  assumes "db_ok d" and "load_active_catalog no_faults d = Inr c"
  shows "(\<forall>flt name e err d'. upsert_model flt name e d = (err, d') \<longrightarrow> db_ok d' \<and>
      (err \<noteq> None \<longrightarrow> d' = d) \<and>
      (err = None \<longrightarrow> (\<exists>c'. load_active_catalog no_faults d' = Inr c' \<and>
         (\<forall>n b. has_ref c' n b \<longleftrightarrow> (if n = trim_space name then b \<in> trim_space ` ref_backend ` set (me_backends e) - {[]}
            else has_ref c n b))))) \<and>
    (\<forall>flt name err d'. deactivate_model flt name d = (err, d') \<longrightarrow> db_ok d' \<and>
      (err \<noteq> None \<and> \<not> flt 1 \<longrightarrow> d' = d) \<and>
      ((\<forall>k. \<not> flt k) \<longrightarrow> err = (if trim_space name = [] then Some ModelNameRequired
         else if trim_space name \<in> mr_name ` set (models_t d) then None else Some ErrModelNotFound)) \<and>
      (err = None \<or> d' \<noteq> d \<longrightarrow> (\<exists>c'. load_active_catalog no_faults d' = Inr c' \<and>
         (\<forall>n b. has_ref c' n b \<longleftrightarrow> n \<noteq> trim_space name \<and> has_ref c n b)))) \<and>
    (\<forall>flt p err d'. gm_ok p \<and> replace_model_pricing flt p d = (err, d') \<longrightarrow> db_ok d' \<and>
      (err \<noteq> None \<longrightarrow> d' = d) \<and>
      (err = None \<longrightarrow> (\<exists>p'. load_model_pricing no_faults d' = Inr p' \<and>
         (\<forall>n x. gm_get p' n = Some x \<longleftrightarrow> n \<in> mr_name ` set (models_t d) \<and> gm_get p n = Some x))))"
proof (intro conjI allI impI)
  fix flt name e err d' assume u: "upsert_model flt name e d = (err, d')"
  show "db_ok d'" by (rule upsert_model_db_ok [OF u assms(1)])
  { assume "err \<noteq> None" then show "d' = d" using u upsert_model_error by auto }
  assume "err = None"
  then have u': "upsert_model flt name e d = (None, d')" using u by simp
  obtain c' where c': "load_active_catalog no_faults d' = Inr c'" using load_total by blast
  show "\<exists>c'. load_active_catalog no_faults d' = Inr c' \<and>
         (\<forall>n b. has_ref c' n b \<longleftrightarrow> (if n = trim_space name then b \<in> trim_space ` ref_backend ` set (me_backends e) - {[]}
            else has_ref c n b))"
    using upsert_model_has_ref [OF u' assms(1,2) c'] c' by (intro exI [of _ c']) blast
next
  fix flt name err d' assume u: "deactivate_model flt name d = (err, d')"
  show "db_ok d'" by (rule deactivate_model_db_ok [OF u assms(1)])
  { assume "err \<noteq> None \<and> \<not> flt 1" then show "d' = d" using u deactivate_model_error by blast }
  { assume "\<forall>k. \<not> flt k"
    from deactivate_model_verdict [OF this, of name d] u
    show "err = (if trim_space name = [] then Some ModelNameRequired
        else if trim_space name \<in> mr_name ` set (models_t d) then None else Some ErrModelNotFound)" by (fastforce simp: image_iff) }
  assume e: "err = None \<or> d' \<noteq> d"
  obtain c' where c': "load_active_catalog no_faults d' = Inr c'" using load_total by blast
  have "d' = d\<lparr>models_t := tbl_update (\<lambda>m. mr_name m = trim_space name \<and> mr_active m) (\<lambda>m. m\<lparr>mr_active := False\<rparr>) (models_t d)\<rparr>"
    using e deactivate_model_db [OF u] by blast
  from deactivated_has_ref [OF this assms(1) deactivate_model_db_ok [OF u assms(1)] assms(2) c']
  show "\<exists>c'. load_active_catalog no_faults d' = Inr c' \<and>
         (\<forall>n b. has_ref c' n b \<longleftrightarrow> n \<noteq> trim_space name \<and> has_ref c n b)"
    using c' by blast
next
  fix flt p err d' assume "gm_ok p \<and> replace_model_pricing flt p d = (err, d')"
  then have p: "gm_ok p" and u: "replace_model_pricing flt p d = (err, d')" by simp_all
  show ok: "db_ok d'" by (rule replace_pricing_db_ok [OF u p assms(1)])
  { assume "err \<noteq> None" then show "d' = d" using u replace_pricing_error by auto }
  assume "err = None"
  then have u': "replace_model_pricing flt p d = (None, d')" using u by simp
  obtain p' where p': "load_model_pricing no_faults d' = Inr p'" by (simp add: load_model_pricing_def)
  have "tbl_ok pr_model (model_pricing_t d')" using ok by (simp add: db_ok_def)
  have eta: "\<lparr>input_per_1m = input_per_1m x, output_per_1m = output_per_1m x\<rparr> = x" for x :: model_pricing
    by (cases x) simp
  from \<open>tbl_ok pr_model (model_pricing_t d')\<close> load_pricing_get [OF p'] replace_pricing_rows(3) [OF u' p]
  show "\<exists>p'. load_model_pricing no_faults d' = Inr p' \<and>
         (\<forall>n x. gm_get p' n = Some x \<longleftrightarrow> n \<in> mr_name ` set (models_t d) \<and> gm_get p n = Some x)"
    using p' by (intro exI [of _ p']) (simp add: eta)
qed

theorem model_crud_effect_witness:
  "\<exists>d c. upsert_model no_faults '' m '' \<lparr>me_name = [], me_backends = [\<lparr>ref_backend = ''a '', ref_weight = 0\<rparr>]\<rparr> empty_db = (None, d) \<and>
     load_active_catalog no_faults d = Inr c \<and> has_ref c ''m'' ''a''"
proof -
  have t: "trim_space '' m '' = ''m''" "trim_space ''a '' = ''a''" "trim_space [] = []"
    by (simp_all add: trim_space_def trim_left_def trim_right_def is_space_def)
  have u: "fst (upsert_model no_faults '' m '' \<lparr>me_name = [], me_backends = [\<lparr>ref_backend = ''a '', ref_weight = 0\<rparr>]\<rparr> empty_db) = None"
    unfolding upsert_model_def Let_def by (simp add: t)
  then obtain d where d: "upsert_model no_faults '' m '' \<lparr>me_name = [], me_backends = [\<lparr>ref_backend = ''a '', ref_weight = 0\<rparr>]\<rparr> empty_db = (None, d)"
    by (metis prod.collapse)
  have l: "load_active_catalog no_faults empty_db = Inr []" by (simp add: load_active_catalog_def active_refs_def empty_db_def)
  note M = model_crud_effect [OF db_ok_empty l, THEN conjunct1, rule_format, OF d]
  then obtain c where "load_active_catalog no_faults d = Inr c"
    "\<forall>n b. has_ref c n b \<longleftrightarrow> (if n = trim_space '' m '' then b \<in> trim_space ` ref_backend ` set [\<lparr>ref_backend = ''a '', ref_weight = 0\<rparr>] - {[]} else has_ref [] n b)"
    by auto
  then have "load_active_catalog no_faults d = Inr c" "has_ref c ''m'' ''a''" by (simp_all add: t)
  then show ?thesis using d by blast
qed

end
