(* ===== verification/Usage.thy ===== *)
theory Usage
  imports Db GoStrings "HOL-Library.Multiset"
begin

text \<open>
  internal/usage: the price of a request (pricing.go), the batched writer of usage records
  (logger.go) as a concurrent step relation, and the table's insertion and queries (store.go).
\<close>

section \<open>Pricing\<close>

record model_price =
  mp_input :: real
  mp_output :: real

record usage_pricing =
  up_default_input :: real
  up_default_output :: real
  up_models :: "model_price gomap"

text \<open>\<open>math.Round\<close>: to the nearest integer, halves away from zero.\<close>

definition go_round :: "real \<Rightarrow> int" where
  "go_round x = (if 0 \<le> x then \<lfloor>x + 1 / 2\<rfloor> else \<lceil>x - 1 / 2\<rceil>)"

definition effective_rates :: "usage_pricing \<Rightarrow> string \<Rightarrow> real \<times> real" where
  "effective_rates pc m =
     (let p = (case gm_get (up_models pc) m of Some p \<Rightarrow> p | None \<Rightarrow> \<lparr>mp_input = 0, mp_output = 0\<rparr>)
      in (if mp_input p = 0 then up_default_input pc else mp_input p,
          if mp_output p = 0 then up_default_output pc else mp_output p))"

definition calculate_cost :: "usage_pricing \<Rightarrow> string \<Rightarrow> int \<Rightarrow> int \<Rightarrow> real" where
  "calculate_cost pc m prompt completion =
     (case effective_rates pc m of (input_rate, output_rate) \<Rightarrow>
       (let cost = fl64 (fl64 (fl64 (fl64 (of_int prompt) / 1000000) * input_rate) +
                         fl64 (fl64 (fl64 (of_int completion) / 1000000) * output_rate))
        in fl64 (of_int (go_round (fl64 (cost * 100000000))) / 100000000)))"

section \<open>Inserting a batch\<close>

text \<open>An \<open>AUTOINCREMENT\<close> key is one more than any key the table has had; rows are never deleted.\<close>

definition next_id :: "usage_record list \<Rightarrow> int" where
  "next_id t = 1 + fold (\<lambda>r m. max (us_id r) m) t 0"

text \<open>The transaction: begin, prepare, one insertion per record, commit.\<close>

fun insert_usage :: "faults \<Rightarrow> nat \<Rightarrow> usage_record list \<Rightarrow> usage_record list \<Rightarrow> (nat \<times> usage_record list) option" where
  "insert_usage flt k [] t = Some (k, t)"
| "insert_usage flt k (r # rs) t =
     (if flt k then None else insert_usage flt (k + 1) rs (t @ [r\<lparr>us_id := next_id t\<rparr>]))"

definition batch_insert :: "faults \<Rightarrow> usage_record list \<Rightarrow> db \<Rightarrow> bool \<times> db" where
  "batch_insert flt rs d =
     (if rs = [] then (True, d)
      else if flt 0 \<or> flt 1 then (False, d)
      else (case insert_usage flt 2 rs (usage_t d) of
          None \<Rightarrow> (False, d)
        | Some (k, t) \<Rightarrow> if flt k then (False, d) else (True, d\<lparr>usage_t := t\<rparr>)))"

section \<open>The logger\<close>

record logger_options =
  lo_buffer :: int
  lo_batch :: int
  lo_interval :: int

definition default_logger_options :: logger_options where
  "default_logger_options = \<lparr>lo_buffer = 1024, lo_batch = 50, lo_interval = second\<rparr>"

definition logger_defaults :: "logger_options \<Rightarrow> logger_options" where
  "logger_defaults o' =
     \<lparr>lo_buffer = (if lo_buffer o' \<le> 0 then lo_buffer default_logger_options else lo_buffer o'),
      lo_batch = (if lo_batch o' \<le> 0 then lo_batch default_logger_options else lo_batch o'),
      lo_interval = (if lo_interval o' \<le> 0 then lo_interval default_logger_options else lo_interval o')\<rparr>"

text \<open>
  A call of \<open>Log\<close> is at its first \<open>select\<close>, at the one that discards the oldest record, or at the
  one that tries again.  The background goroutine serves the channel, drains it after the stop
  signal, or has returned.
\<close>

datatype log_call = TrySend usage_record | MakeRoom usage_record | TryAgain usage_record

datatype logger_phase = Serving | Draining | Returned

record logger =
  lg_cap :: nat
  lg_batch_size :: nat
  lg_ch :: "usage_record list"
  lg_batch :: "usage_record list"
  lg_calls :: "log_call multiset"
  lg_stop :: bool
  lg_phase :: logger_phase
  lg_db :: db

definition new_usage_logger :: "logger_options \<Rightarrow> db \<Rightarrow> logger" where
  "new_usage_logger o' d = (let opts = logger_defaults o' in
     \<lparr>lg_cap = nat (lo_buffer opts), lg_batch_size = nat (lo_batch opts), lg_ch = [], lg_batch = [],
      lg_calls = {#}, lg_stop = False, lg_phase = Serving, lg_db = d\<rparr>)"

text \<open>What a step does to the records, for the histories.\<close>

datatype log_event =
    Called usage_record | Queued usage_record | Discarded usage_record | GivenUp usage_record
  | Stored "usage_record list" | Failed "usage_record list"

text \<open>\<open>flush\<close>: an empty batch writes nothing; a failed insertion loses the batch.\<close>

definition flush :: "faults \<Rightarrow> logger \<Rightarrow> log_event list \<times> logger" where
  "flush flt s =
     (if lg_batch s = [] then ([], s)
      else (case batch_insert flt (lg_batch s) (lg_db s) of
          (ok, d) \<Rightarrow> ([if ok then Stored (lg_batch s) else Failed (lg_batch s)],
                     s\<lparr>lg_batch := [], lg_db := d\<rparr>)))"

definition receive :: "faults \<Rightarrow> logger \<Rightarrow> log_event list \<times> logger" where
  "receive flt s =
     (let s' = s\<lparr>lg_batch := lg_batch s @ [hd (lg_ch s)], lg_ch := tl (lg_ch s)\<rparr>
      in if lg_batch_size s \<le> length (lg_batch s') then flush flt s' else ([], s'))"

text \<open>
  One atomic action of a caller of \<open>Log\<close>, of the background goroutine, or of \<open>Shutdown\<close>.  A
  \<open>select\<close> with several ready cases picks any of them; its default case is taken only when no case
  is ready.  Faults of the database are arbitrary.
\<close>

inductive logger_step :: "logger \<Rightarrow> log_event list \<Rightarrow> logger \<Rightarrow> bool" where
  call: "logger_step s [Called r] (s\<lparr>lg_calls := add_mset (TrySend r) (lg_calls s)\<rparr>)"
| send: "lg_calls s = add_mset (TrySend r) cs \<Longrightarrow> length (lg_ch s) < lg_cap s \<Longrightarrow>
    logger_step s [Queued r] (s\<lparr>lg_calls := cs, lg_ch := lg_ch s @ [r]\<rparr>)"
| full: "lg_calls s = add_mset (TrySend r) cs \<Longrightarrow> \<not> length (lg_ch s) < lg_cap s \<Longrightarrow>
    logger_step s [] (s\<lparr>lg_calls := add_mset (MakeRoom r) cs\<rparr>)"
| make_room: "lg_calls s = add_mset (MakeRoom r) cs \<Longrightarrow> lg_ch s \<noteq> [] \<Longrightarrow>
    logger_step s [Discarded (hd (lg_ch s))] (s\<lparr>lg_calls := add_mset (TryAgain r) cs, lg_ch := tl (lg_ch s)\<rparr>)"
| no_room: "lg_calls s = add_mset (MakeRoom r) cs \<Longrightarrow> lg_ch s = [] \<Longrightarrow>
    logger_step s [GivenUp r] (s\<lparr>lg_calls := cs\<rparr>)"
| send_again: "lg_calls s = add_mset (TryAgain r) cs \<Longrightarrow> length (lg_ch s) < lg_cap s \<Longrightarrow>
    logger_step s [Queued r] (s\<lparr>lg_calls := cs, lg_ch := lg_ch s @ [r]\<rparr>)"
| give_up: "lg_calls s = add_mset (TryAgain r) cs \<Longrightarrow> \<not> length (lg_ch s) < lg_cap s \<Longrightarrow>
    logger_step s [GivenUp r] (s\<lparr>lg_calls := cs\<rparr>)"
| stop: "logger_step s [] (s\<lparr>lg_stop := True\<rparr>)"
| serve: "lg_phase s = Serving \<Longrightarrow> lg_ch s \<noteq> [] \<Longrightarrow> receive flt s = (es, s') \<Longrightarrow> logger_step s es s'"
| tick: "lg_phase s = Serving \<Longrightarrow> flush flt s = (es, s') \<Longrightarrow> logger_step s es s'"
| start_draining: "lg_phase s = Serving \<Longrightarrow> lg_stop s \<Longrightarrow> flush flt s = (es, s') \<Longrightarrow>
    logger_step s es (s'\<lparr>lg_phase := Draining\<rparr>)"
| drain_one: "lg_phase s = Draining \<Longrightarrow> lg_ch s \<noteq> [] \<Longrightarrow> receive flt s = (es, s') \<Longrightarrow> logger_step s es s'"
| drain_end: "lg_phase s = Draining \<Longrightarrow> lg_ch s = [] \<Longrightarrow> flush flt s = (es, s') \<Longrightarrow>
    logger_step s es (s'\<lparr>lg_phase := Returned\<rparr>)"

inductive logger_run :: "logger \<Rightarrow> log_event list \<Rightarrow> logger \<Rightarrow> bool" where
  start: "logger_run s [] s"
| step: "logger_run s es s' \<Longrightarrow> logger_step s' fs s'' \<Longrightarrow> logger_run s (es @ fs) s''"

text \<open>The inner loop of the stop case, when nobody calls \<open>Log\<close> any more.\<close>

function drain :: "(nat \<Rightarrow> faults) \<Rightarrow> logger \<Rightarrow> log_event list \<times> logger" where
  "drain flts s =
     (if lg_ch s = [] then (case flush (flts 0) s of (es, s') \<Rightarrow> (es, s'\<lparr>lg_phase := Returned\<rparr>))
      else (case receive (flts 0) s of
          (es, s') \<Rightarrow> (case drain (\<lambda>n. flts (Suc n)) s' of (fs, s'') \<Rightarrow> (es @ fs, s''))))"
  by pat_completeness auto

lemma flush_fields:
  assumes "flush flt s = (es, s')"
  shows "lg_ch s' = lg_ch s" "lg_cap s' = lg_cap s" "lg_batch_size s' = lg_batch_size s"
    "lg_calls s' = lg_calls s" "lg_stop s' = lg_stop s" "lg_phase s' = lg_phase s" "lg_batch s' = []"
  using assms by (auto simp: flush_def split: if_splits prod.splits)

lemma receive_fields:
  assumes "receive flt s = (es, s')"
  shows "lg_ch s' = tl (lg_ch s)" "lg_cap s' = lg_cap s" "lg_batch_size s' = lg_batch_size s"
    "lg_calls s' = lg_calls s" "lg_stop s' = lg_stop s" "lg_phase s' = lg_phase s"
  using assms flush_fields [of flt "s\<lparr>lg_batch := lg_batch s @ [hd (lg_ch s)], lg_ch := tl (lg_ch s)\<rparr>" es s']
  by (auto simp: receive_def Let_def split: if_splits)

termination drain
  by (relation "measure (\<lambda>(_, s). length (lg_ch s))") (auto dest!: sym [THEN receive_fields(1)])

declare drain.simps [simp del]

text \<open>The stop case: flush, then the inner loop.\<close>

definition run_stop :: "(nat \<Rightarrow> faults) \<Rightarrow> logger \<Rightarrow> log_event list \<times> logger" where
  "run_stop flts s = (case flush (flts 0) s of
     (es, s') \<Rightarrow> (case drain (\<lambda>n. flts (Suc n)) (s'\<lparr>lg_phase := Draining\<rparr>) of (fs, s'') \<Rightarrow> (es @ fs, s'')))"

section \<open>Queries\<close>

record overview_options =
  ov_start :: string
  ov_end :: string

record list_options =
  li_key :: string
  li_model :: string
  li_start :: string
  li_end :: string
  li_page :: int
  li_page_size :: int

record model_cost =
  mc_model :: string
  mc_count :: int
  mc_cost :: real

record overview_summary =
  os_requests :: int
  os_prompt :: int
  os_completion :: int
  os_cost :: real

record logs_analytics =
  la_summary :: overview_summary
  la_average :: real
  la_models :: "model_cost list"

record user_stats =
  uu_summary :: overview_summary
  uu_top :: "model_cost list"

text \<open>SQLite's \<open>LIKE\<close>: \<open>%\<close> is any text, \<open>_\<close> any character, ASCII letters match in both cases.\<close>

fun sql_like :: "string \<Rightarrow> string \<Rightarrow> bool" where
  "sql_like [] s = (s = [])"
| "sql_like (p # ps) [] = (p = CHR ''%'' \<and> sql_like ps [])"
| "sql_like (p # ps) (c # s) =
     (if p = CHR ''%'' then sql_like ps (c # s) \<or> sql_like (p # ps) s
      else (p = CHR ''_'' \<or> lower_char p = lower_char c) \<and> sql_like ps s)"

definition in_window :: "string \<Rightarrow> string \<Rightarrow> usage_record \<Rightarrow> bool" where
  "in_window start end' r \<longleftrightarrow> (start \<noteq> [] \<longrightarrow> start \<le> us_timestamp r) \<and> (end' \<noteq> [] \<longrightarrow> us_timestamp r \<le> end')"

definition overview_where :: "overview_options \<Rightarrow> usage_record \<Rightarrow> bool" where
  "overview_where o' r = in_window (ov_start o') (ov_end o') r"

definition logs_where :: "list_options \<Rightarrow> usage_record \<Rightarrow> bool" where
  "logs_where o' r \<longleftrightarrow>
     (li_key o' \<noteq> [] \<longrightarrow> sql_like (''%'' @ li_key o' @ ''%'') (us_key r)) \<and>
     (li_model o' \<noteq> [] \<longrightarrow> sql_like (''%'' @ li_model o' @ ''%'') (us_model r)) \<and>
     in_window (li_start o') (li_end o') r"

text \<open>
  \<open>sumf\<close> is SQLite's \<open>SUM\<close> over a real column, whose rounding its version decides.  \<open>SUM\<close> over
  an integer column is exact and fails when it leaves the 64-bit range.
\<close>

fun sql_sum :: "int \<Rightarrow> int list \<Rightarrow> int option" where
  "sql_sum acc [] = Some acc"
| "sql_sum acc (n # ns) = (if i64 (acc + n) = acc + n then sql_sum (acc + n) ns else None)"

definition summarise :: "(real list \<Rightarrow> real) \<Rightarrow> usage_record list \<Rightarrow> overview_summary option" where
  "summarise sumf rs =
     (case (sql_sum 0 (map us_prompt rs), sql_sum 0 (map us_completion rs)) of
        (Some p, Some c) \<Rightarrow> Some \<lparr>os_requests = int (length rs), os_prompt = p, os_completion = c,
           os_cost = sumf (map us_cost rs)\<rparr>
      | _ \<Rightarrow> None)"

text \<open>\<open>LIMIT n\<close>: a negative limit is none.\<close>

definition sql_limit :: "int \<Rightarrow> 'a list \<Rightarrow> 'a list" where
  "sql_limit n xs = (if n < 0 then xs else take (nat n) xs)"

definition cost_by_model :: "(real list \<Rightarrow> real) \<Rightarrow> usage_record list \<Rightarrow> model_cost list" where
  "cost_by_model sumf rs =
     sort_key (\<lambda>m. - mc_cost m)
       (map (\<lambda>n. let own = filter (\<lambda>r. us_model r = n) rs in
            \<lparr>mc_model = n, mc_count = int (length own), mc_cost = sumf (map us_cost own)\<rparr>)
          (sort (remdups (map us_model rs))))"

definition overview_summary_query ::
  "(real list \<Rightarrow> real) \<Rightarrow> faults \<Rightarrow> overview_options \<Rightarrow> db \<Rightarrow> overview_summary option" where
  "overview_summary_query sumf flt o' d =
     (if flt 0 then None else summarise sumf (filter (overview_where o') (usage_t d)))"

definition model_cost_breakdown ::
  "(real list \<Rightarrow> real) \<Rightarrow> faults \<Rightarrow> int \<Rightarrow> overview_options \<Rightarrow> db \<Rightarrow> model_cost list option" where
  "model_cost_breakdown sumf flt limit o' d =
     (if flt 0 then None
      else Some (sql_limit limit (cost_by_model sumf (filter (overview_where o') (usage_t d)))))"

definition logs_analytics_query ::
  "(real list \<Rightarrow> real) \<Rightarrow> faults \<Rightarrow> list_options \<Rightarrow> db \<Rightarrow> logs_analytics option" where
  "logs_analytics_query sumf flt o' d =
     (let rs = filter (logs_where o') (usage_t d) in
      if flt 0 then None
      else (case summarise sumf rs of
          None \<Rightarrow> None
        | Some s \<Rightarrow>
            if flt 1 then None
            else Some \<lparr>la_summary = s,
               la_average = (if 0 < os_requests s then fl64 (os_cost s / fl64 (of_int (os_requests s))) else 0),
               la_models = sql_limit 10 (cost_by_model sumf rs)\<rparr>))"

definition user_stats_query ::
  "(real list \<Rightarrow> real) \<Rightarrow> faults \<Rightarrow> string \<Rightarrow> int \<Rightarrow> db \<Rightarrow> user_stats option" where
  "user_stats_query sumf flt user limit d =
     (let rs = filter (\<lambda>r. us_key r = user) (usage_t d) in
      if flt 0 then None
      else (case summarise sumf rs of
          None \<Rightarrow> None
        | Some s \<Rightarrow>
            if flt 1 then None
            else Some \<lparr>uu_summary = s,
               uu_top = sql_limit (if limit \<le> 0 then 5 else limit) (cost_by_model sumf rs)\<rparr>))"

definition newest_first :: "usage_record list \<Rightarrow> usage_record list" where
  "newest_first rs = rev (sort_key us_timestamp (sort_key us_id rs))"

definition list_records :: "faults \<Rightarrow> list_options \<Rightarrow> db \<Rightarrow> usage_record list option" where
  "list_records flt o' d =
     (let page = (if li_page o' \<le> 0 then 1 else li_page o');
          size = (if li_page_size o' \<le> 0 then 50 else li_page_size o');
          offset = i64 (i64 (page - 1) * size)
      in if flt 0 then None
         else Some (sql_limit size (drop (nat offset) (newest_first (filter (logs_where o') (usage_t d))))))"

end
