(* ===== verification/UsageProps.thy ===== *)
theory UsageProps
  imports Usage "HOL-Library.Sublist"
begin

text \<open>
  What the usage component guarantees: the accuracy of a request's cost, the histories of the
  asynchronous logger (nothing is lost unaccounted, order is kept, and after the stop every interleaving ends with
  what was queued flushed), and the queries of the administration pages.
\<close>

section \<open>Accuracy of a cost\<close>

definition eps64 :: real where
  "eps64 = 1 / 2 ^ 53"

lemma eps64_bounds [simp]: "0 \<le> eps64" "eps64 \<le> 1" "0 \<le> 1 + eps64"
  by (simp_all add: eps64_def)

text \<open>\<open>near k x y\<close>: \<open>x\<close> is \<open>y\<close> up to \<open>k\<close> roundings.\<close>

definition near :: "nat \<Rightarrow> real \<Rightarrow> real \<Rightarrow> bool" where
  "near k x y \<longleftrightarrow> y * (1 - eps64) ^ k \<le> x \<and> x \<le> y * (1 + eps64) ^ k"

lemma near_refl: "near 0 x x"
  by (simp add: near_def)

lemma near_nonneg: "near k x y \<Longrightarrow> 0 \<le> y \<Longrightarrow> 0 \<le> x"
  unfolding near_def by (rule order_trans [of _ "y * (1 - eps64) ^ k"]) auto

lemma near_fl64:
  assumes "near k x y" "0 \<le> y"
  shows "near (Suc k) (fl64 x) y"
proof -
  have x: "0 \<le> x" by (rule near_nonneg [OF assms])
  have e: "\<bar>fl64 x - x\<bar> \<le> x * eps64" using fl64_err [of x] x by (simp add: eps64_def)
  then have "fl64 x \<le> x + x * eps64" "x - x * eps64 \<le> fl64 x" by linarith+
  moreover have "x * (1 + eps64) \<le> y * (1 + eps64) ^ k * (1 + eps64)"
    using assms by (intro mult_right_mono) (simp_all add: near_def)
  moreover have "y * (1 - eps64) ^ k * (1 - eps64) \<le> x * (1 - eps64)"
    using assms by (intro mult_right_mono) (simp_all add: near_def)
  ultimately show ?thesis by (simp add: near_def algebra_simps)
qed

lemma near_mult:
  assumes "near k x y" "0 \<le> c"
  shows "near k (x * c) (y * c)"
proof -
  have "y * (1 - eps64) ^ k * c \<le> x * c" "x * c \<le> y * (1 + eps64) ^ k * c"
    using assms by (simp_all add: near_def mult_right_mono)
  then show ?thesis by (simp add: near_def ac_simps)
qed

lemma near_add: "near k x y \<Longrightarrow> near k u v \<Longrightarrow> near k (x + u) (y + v)"
  by (simp add: near_def distrib_right)

lemma near_abs:
  assumes "near k x y" "0 \<le> y"
  shows "\<bar>x - y\<bar> \<le> y * ((1 + eps64) ^ k - 1)"
proof -
  have b: "1 - (1 - eps64) ^ k \<le> (1 + eps64) ^ k - 1"
  proof (induction k)
    case (Suc k)
    have p: "(1 - eps64) ^ k \<le> (1 + eps64) ^ k" by (rule power_mono) auto
    have "(1 - eps64) ^ Suc k + (1 + eps64) ^ Suc k = (1 - eps64) ^ k + (1 + eps64) ^ k + eps64 * ((1 + eps64) ^ k - (1 - eps64) ^ k)"
      by (simp add: algebra_simps)
    moreover have "0 \<le> eps64 * ((1 + eps64) ^ k - (1 - eps64) ^ k)" using p by simp
    ultimately show ?case using Suc by linarith
  qed simp
  have "y * (1 - (1 - eps64) ^ k) \<le> y * ((1 + eps64) ^ k - 1)"
    by (rule mult_left_mono [OF b assms(2)])
  then have "y - y * (1 - eps64) ^ k \<le> y * (1 + eps64) ^ k - y" by (simp add: right_diff_distrib)
  then have "\<bar>x - y\<bar> \<le> y * (1 + eps64) ^ k - y" using assms(1) unfolding near_def by linarith
  then show ?thesis by (simp add: right_diff_distrib)
qed

lemma go_round_err: "\<bar>of_int (go_round x) - x\<bar> \<le> 1 / 2"
proof (cases "0 \<le> x")
  case True
  then have "go_round x = \<lfloor>x + 1 / 2\<rfloor>" by (simp add: go_round_def)
  then show ?thesis by linarith
next
  case False
  then have "go_round x = \<lceil>x - 1 / 2\<rceil>" by (simp add: go_round_def)
  then show ?thesis by linarith
qed

lemma go_round_nonneg: "0 \<le> x \<Longrightarrow> 0 \<le> go_round x"
  by (simp add: go_round_def)

lemma go_round_mono: "x \<le> y \<Longrightarrow> go_round x \<le> go_round y"
  unfolding go_round_def by (auto intro: floor_mono ceiling_mono) linarith

text \<open>The exact price of a request, from the price list alone: a model's own rate where it has one that is
  not zero, else the default rate, for input and output separately, per million tokens.\<close>

definition token_rate :: "usage_pricing \<Rightarrow> (model_price \<Rightarrow> real) \<Rightarrow> real \<Rightarrow> string \<Rightarrow> real" where
  "token_rate pc own fallback m =
     (case gm_get (up_models pc) m of
        Some x \<Rightarrow> (if own x \<noteq> 0 then own x else fallback)
      | None \<Rightarrow> fallback)"

definition exact_cost :: "usage_pricing \<Rightarrow> string \<Rightarrow> int \<Rightarrow> int \<Rightarrow> real" where
  "exact_cost pc m p c =
     (of_int p * token_rate pc mp_input (up_default_input pc) m +
      of_int c * token_rate pc mp_output (up_default_output pc) m) / 1000000"

lemma exact_cost_rates:
  "effective_rates pc m = (i, out) \<Longrightarrow> exact_cost pc m p c = (of_int p * i + of_int c * out) / 1000000"
  by (auto simp: exact_cost_def token_rate_def effective_rates_def Let_def split: option.split)

definition rates_ok :: "usage_pricing \<Rightarrow> bool" where
  "rates_ok pc \<longleftrightarrow> 0 \<le> up_default_input pc \<and> 0 \<le> up_default_output pc \<and>
     (\<forall>(m, p) \<in> set (up_models pc). 0 \<le> mp_input p \<and> 0 \<le> mp_output p)"

lemma effective_rates_nonneg:
  assumes "rates_ok pc" "effective_rates pc m = (i, out)"
  shows "0 \<le> i \<and> 0 \<le> out"
proof (cases "gm_get (up_models pc) m")
  case (Some p)
  then have "(m, p) \<in> set (up_models pc)" by (simp add: gm_get_def map_of_SomeD)
  then show ?thesis using assms by (auto simp: effective_rates_def rates_ok_def Some split: if_splits)
qed (use assms in \<open>auto simp: effective_rates_def rates_ok_def\<close>)

lemma near_tokens: "0 \<le> n \<Longrightarrow> 0 \<le> i \<Longrightarrow>
   near 3 (fl64 (fl64 (fl64 (of_int n) / 1000000) * i)) (of_int n * i / 1000000)"
proof -
  assume h: "0 \<le> n" "0 \<le> i"
  have "near 1 (fl64 (of_int n)) (of_int n)" using near_fl64 [OF near_refl, of "of_int n"] h by simp
  then have "near 1 (fl64 (of_int n) / 1000000) (of_int n / 1000000)"
    using near_mult [of 1 _ _ "1 / 1000000"] by simp
  then have "near 2 (fl64 (fl64 (of_int n) / 1000000)) (of_int n / 1000000)"
    using near_fl64 [of 1] h by (simp add: numeral_2_eq_2)
  then have "near 2 (fl64 (fl64 (of_int n) / 1000000) * i) (of_int n / 1000000 * i)"
    by (rule near_mult) (rule h)
  then show ?thesis using near_fl64 [of 2] h by (simp add: numeral_3_eq_3 numeral_2_eq_2)
qed

text \<open>The last three roundings.\<close>

definition round_cost :: "real \<Rightarrow> real" where
  "round_cost x = fl64 (of_int (go_round (fl64 (x * 100000000))) / 100000000)"

definition raw_cost :: "int \<Rightarrow> int \<Rightarrow> real \<Rightarrow> real \<Rightarrow> real" where
  "raw_cost p c i out = fl64 (fl64 (fl64 (fl64 (of_int p) / 1000000) * i) + fl64 (fl64 (fl64 (of_int c) / 1000000) * out))"

lemma calculate_cost_split:
  "effective_rates pc m = (i, out) \<Longrightarrow> calculate_cost pc m p c = round_cost (raw_cost p c i out)"
  by (simp add: calculate_cost_def round_cost_def raw_cost_def Let_def)

lemma raw_cost_near:
  assumes "0 \<le> i" "0 \<le> out" "0 \<le> p" "0 \<le> c"
  shows "near 4 (raw_cost p c i out) ((of_int p * i + of_int c * out) / 1000000)"
proof -
  have "near 3 (fl64 (fl64 (fl64 (of_int p) / 1000000) * i) + fl64 (fl64 (fl64 (of_int c) / 1000000) * out))
      (of_int p * i / 1000000 + of_int c * out / 1000000)"
    using assms by (intro near_add near_tokens)
  then have "near 4 (raw_cost p c i out) (of_int p * i / 1000000 + of_int c * out / 1000000)"
    using near_fl64 [of 3] assms by (simp add: raw_cost_def eval_nat_numeral)
  then show ?thesis by (simp add: add_divide_distrib)
qed

lemma cost_mono:
  assumes "0 \<le> i" "0 \<le> out" "0 \<le> p" "0 \<le> c"
  shows "\<forall>p' c'. p \<le> p' \<and> c \<le> c' \<longrightarrow> round_cost (raw_cost p c i out) \<le> round_cost (raw_cost p' c' i out)"
proof (intro allI impI)
  fix p' c' assume le: "p \<le> p' \<and> c \<le> c'"
  have t: "fl64 (fl64 (fl64 (of_int n) / 1000000) * x) \<le> fl64 (fl64 (fl64 (of_int n') / 1000000) * x)"
    if "n \<le> n'" "0 \<le> x" for n n' :: int and x
    using that by (intro fl64_mono mult_right_mono divide_right_mono) auto
  have "raw_cost p c i out \<le> raw_cost p' c' i out"
    unfolding raw_cost_def using le assms(1,2) by (intro fl64_mono [OF add_mono] t) auto
  then show "round_cost (raw_cost p c i out) \<le> round_cost (raw_cost p' c' i out)"
    unfolding round_cost_def
    by (intro fl64_mono divide_right_mono) (simp_all add: go_round_mono fl64_mono)
qed

lemma cost_nonneg:
  assumes "0 \<le> i" "0 \<le> out" "0 \<le> p" "0 \<le> c"
  shows "0 \<le> round_cost (raw_cost p c i out)"
proof -
  have "0 \<le> raw_cost p c i out"
    using near_nonneg [OF raw_cost_near [OF assms]] assms by simp
  then show ?thesis by (simp add: round_cost_def go_round_nonneg)
qed

lemma cost_accurate:
  assumes "0 \<le> i" "0 \<le> out" "0 \<le> p" "0 \<le> c"
  defines "e \<equiv> (of_int p * i + of_int c * out) / 1000000"
  shows "\<bar>round_cost (raw_cost p c i out) - e\<bar> \<le> e / 2 ^ 50 + (1 + 1 / 2 ^ 50) / (2 * 10 ^ 8)"
proof -
  have e: "0 \<le> e" using assms by (simp add: e_def)
  let ?x = "fl64 (raw_cost p c i out * 100000000)"
  have n4: "near 4 (raw_cost p c i out * 100000000) (e * 100000000)"
    using near_mult [OF raw_cost_near [OF assms(1-4)], of 100000000] by (simp add: e_def)
  have n5: "near 5 ?x (e * 100000000)" using near_fl64 [OF n4] e by simp
  have h: "(1 + eps64) ^ 5 - 1 \<le> 6 * eps64" by (simp add: eps64_def eval_nat_numeral)
  have "\<bar>?x - e * 100000000\<bar> \<le> e * 100000000 * ((1 + eps64) ^ 5 - 1)"
    using near_abs [OF n5] e by simp
  also have "\<dots> \<le> e * 100000000 * (6 * eps64)" using h e by (intro mult_left_mono) auto
  finally have a: "\<bar>?x - e * 100000000\<bar> \<le> e * 100000000 * (6 * eps64)" .
  let ?r = "of_int (go_round ?x) / 100000000 :: real"
  have r: "\<bar>?r - e\<bar> \<le> e * (6 * eps64) + 1 / 200000000"
  proof -
    have "\<bar>of_int (go_round ?x) - e * 100000000\<bar> \<le> e * 100000000 * (6 * eps64) + 1 / 2"
      using a go_round_err [of ?x] by linarith
    then have "\<bar>(?r - e) * 100000000\<bar> \<le> (e * (6 * eps64) + 1 / 200000000) * 100000000"
      by (simp add: algebra_simps)
    then show ?thesis by (simp only: abs_mult mult_le_cancel_right) simp
  qed
  have r0: "0 \<le> ?r" using near_nonneg [OF n5] e by (simp add: go_round_nonneg)
  have f: "\<bar>fl64 ?r - ?r\<bar> \<le> ?r * eps64" using fl64_err [of ?r] r0 by (simp add: eps64_def)
  have "?r * eps64 \<le> (e + (e * (6 * eps64) + 1 / 200000000)) * eps64"
    using r by (intro mult_right_mono) (simp_all add: abs_le_iff)
  with f r have "\<bar>fl64 ?r - e\<bar> \<le> e * (6 * eps64) + 1 / 200000000 + (e + (e * (6 * eps64) + 1 / 200000000)) * eps64"
    by linarith
  also have "\<dots> = e * (7 * eps64 + 6 * eps64 * eps64) + (1 + eps64) / 200000000" by (simp add: algebra_simps)
  also have "\<dots> \<le> e * (1 / 2 ^ 50) + (1 + 1 / 2 ^ 50) / (2 * 10 ^ 8)"
    using e by (intro add_mono mult_left_mono) (simp_all add: eps64_def)
  finally show ?thesis by (simp add: round_cost_def)
qed

text \<open>How far a charge may be from an exact price \<open>e\<close>: the relative error of the five rounded operations and
  half of the last digit kept.\<close>

definition cost_slack :: "real \<Rightarrow> real" where
  "cost_slack e = e / 2 ^ 50 + (1 + 1 / 2 ^ 50) / (2 * 10 ^ 8)"

lemma cost_near_exact:
  assumes "rates_ok pc" "0 \<le> p" "0 \<le> c"
  shows "\<bar>calculate_cost pc m p c - exact_cost pc m p c\<bar> \<le> cost_slack (exact_cost pc m p c)"
proof -
  obtain i out where r: "effective_rates pc m = (i, out)" by (cases "effective_rates pc m")
  then show ?thesis
    using cost_accurate [OF _ _ assms(2,3)] effective_rates_nonneg [OF assms(1) r]
    by (simp add: calculate_cost_split [OF r] exact_cost_rates [OF r] cost_slack_def)
qed

text \<open>C38: the cost charged for a request is, for non-negative rates and token counts, within half of
  one hundred millionth of a dollar of the exact price, up to the rounding of the floating-point
  operations; it is never negative, and more tokens never cost less.  The exact price is the one of the price
  list: prompt tokens at the model's input rate and completion tokens at its output rate, and for a model without a price of
  its own, or with the price zero, the default rate of the same kind.\<close>

theorem calculate_cost_accurate:
  assumes "rates_ok pc" "0 \<le> p" "0 \<le> c"
  shows "\<bar>calculate_cost pc m p c - exact_cost pc m p c\<bar> \<le> cost_slack (exact_cost pc m p c) \<and>
    (gm_get (up_models pc) m = None \<longrightarrow>
      exact_cost pc m p c = (of_int p * up_default_input pc + of_int c * up_default_output pc) / 10 ^ 6) \<and>
    (\<forall>x. gm_get (up_models pc) m = Some x \<longrightarrow>
      exact_cost pc m p c = (of_int p * (if mp_input x = 0 then up_default_input pc else mp_input x) +
        of_int c * (if mp_output x = 0 then up_default_output pc else mp_output x)) / 10 ^ 6) \<and>
    0 \<le> calculate_cost pc m p c \<and>
    (\<forall>p' c'. p \<le> p' \<and> c \<le> c' \<longrightarrow> calculate_cost pc m p c \<le> calculate_cost pc m p' c')"
proof -
  obtain i out where r: "effective_rates pc m = (i, out)" by (cases "effective_rates pc m")
  have nn: "0 \<le> i" "0 \<le> out" using effective_rates_nonneg [OF assms(1) r] by auto
  have "0 \<le> calculate_cost pc m p c"
      "\<forall>p' c'. p \<le> p' \<and> c \<le> c' \<longrightarrow> calculate_cost pc m p c \<le> calculate_cost pc m p' c'"
    using cost_mono [OF nn assms(2,3)] cost_nonneg [OF nn assms(2,3)] by (simp_all add: calculate_cost_split [OF r])
  then show ?thesis
    using cost_near_exact [OF assms] by (intro conjI) (simp_all add: exact_cost_def token_rate_def)
qed

text \<open>A model with an input rate of 3 dollars and the default output rate of 2: a thousand prompt and five hundred
  completion tokens cost 0.004 dollars.\<close>

theorem calculate_cost_accurate_witness:
  "\<bar>calculate_cost \<lparr>up_default_input = 1, up_default_output = 2, up_models = [(''m'', \<lparr>mp_input = 3, mp_output = 0\<rparr>)]\<rparr>
      ''m'' 1000 500 - 4 / 1000\<bar> \<le> 1 / 10 ^ 8"
proof -
  let ?pc = "\<lparr>up_default_input = 1, up_default_output = 2, up_models = [(''m'', \<lparr>mp_input = 3, mp_output = 0\<rparr>)]\<rparr>"
  have e: "exact_cost ?pc ''m'' 1000 500 = 4 / 1000" by (simp add: exact_cost_def token_rate_def gm_get_def)
  have "\<bar>calculate_cost ?pc ''m'' 1000 500 - exact_cost ?pc ''m'' 1000 500\<bar> \<le> cost_slack (exact_cost ?pc ''m'' 1000 500)"
    by (rule calculate_cost_accurate [THEN conjunct1]) (simp_all add: rates_ok_def)
  note this [unfolded e]
  also have "cost_slack (4 / 1000) \<le> 1 / 10 ^ 8" by (simp add: cost_slack_def)
  finally show ?thesis .
qed

section \<open>Histories of the logger\<close>

definition called :: "log_event list \<Rightarrow> usage_record list" where
  "called es = concat (map (\<lambda>e. case e of Called r \<Rightarrow> [r] | _ \<Rightarrow> []) es)"

definition queued :: "log_event list \<Rightarrow> usage_record list" where
  "queued es = concat (map (\<lambda>e. case e of Queued r \<Rightarrow> [r] | _ \<Rightarrow> []) es)"

definition discarded :: "log_event list \<Rightarrow> usage_record list" where
  "discarded es = concat (map (\<lambda>e. case e of Discarded r \<Rightarrow> [r] | _ \<Rightarrow> []) es)"

definition given_up :: "log_event list \<Rightarrow> usage_record list" where
  "given_up es = concat (map (\<lambda>e. case e of GivenUp r \<Rightarrow> [r] | _ \<Rightarrow> []) es)"

definition stored :: "log_event list \<Rightarrow> usage_record list" where
  "stored es = concat (map (\<lambda>e. case e of Stored rs \<Rightarrow> rs | _ \<Rightarrow> []) es)"

definition failed :: "log_event list \<Rightarrow> usage_record list" where
  "failed es = concat (map (\<lambda>e. case e of Failed rs \<Rightarrow> rs | _ \<Rightarrow> []) es)"

definition flushed :: "log_event list \<Rightarrow> usage_record list" where
  "flushed es = concat (map (\<lambda>e. case e of Stored rs \<Rightarrow> rs | Failed rs \<Rightarrow> rs | _ \<Rightarrow> []) es)"

lemmas history_defs = called_def queued_def discarded_def given_up_def stored_def failed_def flushed_def

lemma history_append [simp]:
  "called (es @ fs) = called es @ called fs" "queued (es @ fs) = queued es @ queued fs"
  "discarded (es @ fs) = discarded es @ discarded fs" "given_up (es @ fs) = given_up es @ given_up fs"
  "stored (es @ fs) = stored es @ stored fs" "failed (es @ fs) = failed es @ failed fs"
  "flushed (es @ fs) = flushed es @ flushed fs"
  by (simp_all add: history_defs)

fun call_record :: "log_call \<Rightarrow> usage_record" where
  "call_record (TrySend r) = r"
| "call_record (MakeRoom r) = r"
| "call_record (TryAgain r) = r"

definition anonymous :: "usage_record \<Rightarrow> usage_record" where
  "anonymous r = r\<lparr>us_id := 0\<rparr>"

definition usage_ok :: "usage_record list \<Rightarrow> bool" where
  "usage_ok t \<longleftrightarrow> sorted_wrt (<) (map us_id t)"

lemma fold_max_ids: "m \<le> fold (\<lambda>r m. max (us_id r) m) t m \<and> (\<forall>r \<in> set t. us_id r \<le> fold (\<lambda>r m. max (us_id r) m) t m)"
proof (induction t arbitrary: m)
  case (Cons r t)
  show ?case using Cons.IH [of "max (us_id r) m"] by auto
qed simp

lemma next_id_fresh: "r \<in> set t \<Longrightarrow> us_id r < next_id t"
  using fold_max_ids [of 0 t] by (auto simp: next_id_def less_le_trans)

lemma insert_usage_spec:
  "insert_usage flt k rs t = Some (k', t') \<Longrightarrow> map anonymous t' = map anonymous t @ map anonymous rs \<and> (usage_ok t \<longrightarrow> usage_ok t')"
proof (induction flt k rs t rule: insert_usage.induct)
  case (2 flt k r rs t)
  from 2(2) have nf: "\<not> flt k" by (auto split: if_splits)
  have "usage_ok t \<longrightarrow> usage_ok (t @ [r\<lparr>us_id := next_id t\<rparr>])"
    using next_id_fresh by (auto simp: usage_ok_def sorted_wrt_append)
  moreover have "anonymous (r\<lparr>us_id := next_id t\<rparr>) = anonymous r" by (simp add: anonymous_def)
  ultimately show ?case using 2(1) [OF nf] 2(2) nf by simp
qed simp

lemma insert_usage_total: "\<exists>k' t'. insert_usage no_faults k rs t = Some (k', t')"
  by (induction rs arbitrary: k t) auto

lemma batch_insert_spec:
  assumes "batch_insert flt rs d = (ok, d')"
  shows "(if ok then map anonymous (usage_t d') = map anonymous (usage_t d) @ map anonymous rs else d' = d)"
    "usage_ok (usage_t d) \<Longrightarrow> usage_ok (usage_t d')"
  using assms insert_usage_spec by (auto simp: batch_insert_def split: if_splits option.splits)

lemma batch_insert_no_faults: "fst (batch_insert no_faults rs d)"
  using insert_usage_total [of 2 rs "usage_t d"] by (auto simp: batch_insert_def)

text \<open>What the background goroutine does to the histories when it takes \<open>rs\<close> from the channel.\<close>

definition consumed :: "logger \<Rightarrow> usage_record list \<Rightarrow> log_event list \<Rightarrow> logger \<Rightarrow> bool" where
  "consumed s rs es s' \<longleftrightarrow>
     mset (stored es) + mset (failed es) + mset (lg_batch s') = mset (lg_batch s) + mset rs \<and> flushed es @ lg_batch s' = lg_batch s @ rs \<and>
     called es = [] \<and> queued es = [] \<and> discarded es = [] \<and> given_up es = [] \<and>
     map anonymous (usage_t (lg_db s')) = map anonymous (usage_t (lg_db s)) @ map anonymous (stored es) \<and>
     (usage_ok (usage_t (lg_db s)) \<longrightarrow> usage_ok (usage_t (lg_db s')))"

lemma consumed_flush:
  assumes "flush flt s = (es, s')"
  shows "consumed s [] es s'"
proof (cases "lg_batch s = []")
  case True
  then show ?thesis using assms by (simp add: flush_def consumed_def history_defs)
next
  case False
  obtain ok d where b: "batch_insert flt (lg_batch s) (lg_db s) = (ok, d)" by fastforce
  have e: "es = [if ok then Stored (lg_batch s) else Failed (lg_batch s)]" "s' = s\<lparr>lg_batch := [], lg_db := d\<rparr>"
    using assms False b by (auto simp: flush_def)
  show ?thesis using batch_insert_spec [OF b] by (cases ok) (simp_all add: e consumed_def history_defs)
qed

lemma receive_cases:
  assumes "receive flt s = (es, s')" "lg_ch s = r # ch"
  obtains (full) "flush flt (s\<lparr>lg_batch := lg_batch s @ [r], lg_ch := ch\<rparr>) = (es, s')"
  | (room) "es = []" "s' = s\<lparr>lg_batch := lg_batch s @ [r], lg_ch := ch\<rparr>" "length (lg_batch s') < lg_batch_size s'"
  using assms unfolding receive_def Let_def by (cases "lg_batch_size s \<le> length (lg_batch s @ [r])") auto

lemma consumed_receive:
  assumes "receive flt s = (es, s')" "lg_ch s = r # ch"
  shows "consumed s [r] es s'"
  using assms
proof (cases rule: receive_cases)
  case full
  from consumed_flush [OF full] show ?thesis by (simp add: consumed_def)
next
  case room
  then show ?thesis by (simp add: consumed_def history_defs)
qed

lemma receive_room:
  assumes "receive flt s = (es, s')" "lg_ch s = r # ch" "0 < lg_batch_size s"
  shows "length (lg_batch s') < lg_batch_size s"
  using assms(1,2)
proof (cases rule: receive_cases)
  case full
  from flush_fields [OF this] assms(3) show ?thesis by simp
qed auto

text \<open>The invariant of the histories.\<close>

definition history_ok :: "db \<Rightarrow> log_event list \<Rightarrow> logger \<Rightarrow> bool" where
  "history_ok d es s \<longleftrightarrow>
     mset (called es) = mset (stored es) + mset (failed es) + mset (discarded es) + mset (given_up es)
       + mset (lg_batch s) + mset (lg_ch s) + image_mset call_record (lg_calls s) \<and>
     subseq (flushed es @ lg_batch s @ lg_ch s) (queued es) \<and>
     length (lg_ch s) \<le> lg_cap s \<and> length (lg_batch s) < lg_batch_size s \<and>
     map anonymous (usage_t (lg_db s)) = map anonymous (usage_t d) @ map anonymous (stored es) \<and>
     (usage_ok (usage_t d) \<longrightarrow> usage_ok (usage_t (lg_db s)))"

lemma history_consumed:
  assumes "history_ok d es s" "consumed s rs fs s'" "lg_ch s = rs @ lg_ch s'" "lg_calls s' = lg_calls s"
    "lg_cap s' = lg_cap s" "length (lg_batch s') < lg_batch_size s'"
  shows "history_ok d (es @ fs) s'"
proof -
  have c: "mset (stored fs) + mset (failed fs) + mset (lg_batch s') = mset (lg_batch s) + mset rs"
    using assms(2) by (simp add: consumed_def)
  have f: "flushed fs @ lg_batch s' @ lg_ch s' = lg_batch s @ lg_ch s"
    using assms(2,3) unfolding consumed_def by (metis append.assoc)
  have m: "mset (called (es @ fs)) = mset (stored (es @ fs)) + mset (failed (es @ fs)) + mset (discarded (es @ fs))
      + mset (given_up (es @ fs)) + mset (lg_batch s') + mset (lg_ch s') + image_mset call_record (lg_calls s')"
    using assms(1-4) c unfolding history_ok_def consumed_def by (simp add: ac_simps)
  have q: "subseq (flushed (es @ fs) @ lg_batch s' @ lg_ch s') (queued (es @ fs))"
    using assms(1,2) by (simp add: f history_ok_def consumed_def)
  have "length (lg_ch s') \<le> lg_cap s'"
    using assms(1,3,5) by (simp add: history_ok_def)
  moreover have "map anonymous (usage_t (lg_db s')) = map anonymous (usage_t d) @ map anonymous (stored (es @ fs))"
    "usage_ok (usage_t d) \<longrightarrow> usage_ok (usage_t (lg_db s'))"
    using assms(1,2) by (simp_all add: history_ok_def consumed_def)
  ultimately show ?thesis using m q assms(6) by (simp add: history_ok_def)
qed

lemma history_flush:
  assumes "flush flt s = (fs, s')" "history_ok d es s"
  shows "history_ok d (es @ fs) s'"
proof (rule history_consumed [OF assms(2) consumed_flush [OF assms(1)]])
  show "length (lg_batch s') < lg_batch_size s'"
    using flush_fields [OF assms(1)] assms(2) by (simp add: history_ok_def)
qed (simp_all add: flush_fields [OF assms(1)])

lemma history_receive:
  assumes "receive flt s = (fs, s')" "lg_ch s = r # ch" "history_ok d es s"
  shows "history_ok d (es @ fs) s'"
proof (rule history_consumed [OF assms(3) consumed_receive [OF assms(1,2)]])
  show "length (lg_batch s') < lg_batch_size s'"
    using receive_fields [OF assms(1)] receive_room [OF assms(1,2)] assms(3) by (simp add: history_ok_def)
qed (simp_all add: receive_fields [OF assms(1)] assms(2))

lemma history_event [simp]:
  "called [Called r] = [r]" "queued [Called r] = []" "discarded [Called r] = []" "given_up [Called r] = []"
  "stored [Called r] = []" "failed [Called r] = []" "flushed [Called r] = []"
  "called [Queued r] = []" "queued [Queued r] = [r]" "discarded [Queued r] = []" "given_up [Queued r] = []"
  "stored [Queued r] = []" "failed [Queued r] = []" "flushed [Queued r] = []"
  "called [Discarded r] = []" "queued [Discarded r] = []" "discarded [Discarded r] = [r]" "given_up [Discarded r] = []"
  "stored [Discarded r] = []" "failed [Discarded r] = []" "flushed [Discarded r] = []"
  "called [GivenUp r] = []" "queued [GivenUp r] = []" "discarded [GivenUp r] = []" "given_up [GivenUp r] = [r]"
  "stored [GivenUp r] = []" "failed [GivenUp r] = []" "flushed [GivenUp r] = []"
  "called [] = []" "queued [] = []" "discarded [] = []" "given_up [] = []" "stored [] = []" "failed [] = []" "flushed [] = []"
  by (simp_all add: history_defs)

lemma subseq_snoc: "subseq (xs @ ys @ zs) q \<Longrightarrow> subseq (xs @ ys @ zs @ [r]) (q @ [r])"
  using subseq_append [of "xs @ ys @ zs" "[r]" q] by simp

lemma subseq_drop_head: "subseq (xs @ ys @ z # zs) q \<Longrightarrow> subseq (xs @ ys @ zs) q"
  by (rule subseq_order.trans [of _ "xs @ ys @ z # zs"]) (auto intro: list_emb_append_mono)

lemma history_step:
  assumes "logger_step s fs s'" "history_ok d es s"
  shows "history_ok d (es @ fs) s'"
  using assms
proof (cases rule: logger_step.cases)
  case (call r)
  then show ?thesis using assms(2) by (simp add: history_ok_def)
next
  case (send r cs)
  then show ?thesis using assms(2) by (auto simp: history_ok_def intro: subseq_snoc)
next
  case (full r cs)
  then show ?thesis using assms(2) by (simp add: history_ok_def)
next
  case (make_room r cs)
  then obtain x ch where "lg_ch s = x # ch" by (cases "lg_ch s") auto
  then show ?thesis using assms(2) make_room by (auto simp: history_ok_def intro: subseq_drop_head)
next
  case (no_room r cs)
  then show ?thesis using assms(2) by (simp add: history_ok_def)
next
  case (send_again r cs)
  then show ?thesis using assms(2) by (auto simp: history_ok_def intro: subseq_snoc)
next
  case (give_up r cs)
  then show ?thesis using assms(2) by (simp add: history_ok_def)
next
  case stop
  then show ?thesis using assms(2) by (simp add: history_ok_def)
next
  case (serve flt)
  then obtain x ch where "lg_ch s = x # ch" by (cases "lg_ch s") auto
  then show ?thesis using history_receive [OF serve(3) _ assms(2)] by simp
next
  case (tick flt)
  then show ?thesis using history_flush [OF tick(2) assms(2)] by simp
next
  case (start_draining flt s'')
  then show ?thesis using history_flush [OF start_draining(4) assms(2)] by (simp add: history_ok_def)
next
  case (drain_one flt)
  then obtain x ch where "lg_ch s = x # ch" by (cases "lg_ch s") auto
  then show ?thesis using history_receive [OF drain_one(3) _ assms(2)] by simp
next
  case (drain_end flt s'')
  then show ?thesis using history_flush [OF drain_end(4) assms(2)] by (simp add: history_ok_def)
qed

lemma history_start: "history_ok d [] (new_usage_logger o' d)"
  by (simp add: history_ok_def new_usage_logger_def logger_defaults_def default_logger_options_def Let_def)

lemma history_run: "logger_run s es s' \<Longrightarrow> history_ok d [] s \<Longrightarrow> history_ok d es s'"
  by (induction rule: logger_run.induct) (auto intro: history_step)

text \<open>C22: whatever the callers, the clock, the database and a shutdown do, every record that \<open>Log\<close>
  was given is accounted for exactly once: it is stored, in the batch, in the channel, still being
  handed over, or it was dropped in one of the three ways the code has (the oldest record of a
  full channel, a caller that gives up, a failed batch).  The channel and the batch stay within
  their bounds; the table holds what it held before and the stored records, in the order they
  were stored, under ever larger ids; and records are written in the order in which they were
  queued: what was flushed, then the batch, then the channel is a subsequence of the queueing.\<close>

theorem usage_records_accounted:
  assumes "logger_run (new_usage_logger o' d) es s"
  shows "mset (called es) = mset (stored es) + mset (failed es) + mset (discarded es) + mset (given_up es)
      + mset (lg_batch s) + mset (lg_ch s) + image_mset call_record (lg_calls s) \<and>
    subseq (flushed es @ lg_batch s @ lg_ch s) (queued es) \<and>
    length (lg_ch s) \<le> lg_cap s \<and> length (lg_batch s) < lg_batch_size s \<and>
    map anonymous (usage_t (lg_db s)) = map anonymous (usage_t d) @ map anonymous (stored es) \<and>
    (usage_ok (usage_t d) \<longrightarrow> usage_ok (usage_t (lg_db s)))"
  using history_run [OF assms history_start] by (simp add: history_ok_def)

section \<open>Shutdown\<close>

lemma run_trans: "logger_run b fs c \<Longrightarrow> logger_run a es b \<Longrightarrow> logger_run a (es @ fs) c"
proof (induction rule: logger_run.induct)
  case (step b fs c gs c')
  show ?case using logger_run.step [OF step.IH [OF step.prems] step.hyps(2)] by simp
qed simp

lemma one_step: "logger_step s es s' \<Longrightarrow> logger_run s es s'"
  using logger_run.step [OF logger_run.start] by force

lemma drain_runs:
  assumes "lg_phase s = Draining" "drain flts s = (es, s')"
  shows "logger_run s es s' \<and> lg_phase s' = Returned \<and> lg_ch s' = [] \<and> lg_batch s' = []"
  using assms
proof (induction flts s arbitrary: es s' rule: drain.induct)
  case (1 flts s)
  show ?case
  proof (cases "lg_ch s")
    case Nil
    obtain fs s1 where f: "flush (flts 0) s = (fs, s1)" by fastforce
    with 1(3) Nil have e: "es = fs" "s' = s1\<lparr>lg_phase := Returned\<rparr>" by (simp_all add: drain.simps [of flts s])
    show ?thesis using one_step [OF logger_step.drain_end [OF 1(2) Nil f]] flush_fields [OF f] Nil by (simp add: e)
  next
    case (Cons r ch)
    then have ne: "lg_ch s \<noteq> []" by simp
    obtain fs s1 where f: "receive (flts 0) s = (fs, s1)" by fastforce
    obtain gs s2 where g: "drain (\<lambda>n. flts (Suc n)) s1 = (gs, s2)" by fastforce
    from 1(3) ne f g have e: "es = fs @ gs" "s' = s2" by (simp_all add: drain.simps [of flts s])
    have p: "lg_phase s1 = Draining" using receive_fields [OF f] 1(2) by simp
    from 1(1) [OF ne f [symmetric] p g]
    show ?thesis using run_trans [OF _ one_step [OF logger_step.drain_one [OF 1(2) ne f]]] by (simp add: e)
  qed
qed

lemma consumed_trans:
  assumes "consumed s rs es s1" "consumed s1 qs fs s2"
  shows "consumed s (rs @ qs) (es @ fs) s2"
proof -
  have "mset (stored es) + mset (failed es) + (mset (stored fs) + mset (failed fs) + mset (lg_batch s2))
      = mset (lg_batch s) + mset rs + mset qs"
  proof -
    have "mset (stored es) + mset (failed es) + mset (lg_batch s1) = mset (lg_batch s) + mset rs"
      "mset (stored fs) + mset (failed fs) + mset (lg_batch s2) = mset (lg_batch s1) + mset qs"
      using assms by (simp_all add: consumed_def)
    then show ?thesis by (metis add.assoc)
  qed
  moreover have "flushed es @ flushed fs @ lg_batch s2 = lg_batch s @ rs @ qs"
    using assms unfolding consumed_def by (metis append.assoc)
  ultimately show ?thesis using assms by (simp add: consumed_def ac_simps)
qed

lemma drain_consumes:
  "drain flts s = (es, s') \<Longrightarrow> consumed s (lg_ch s) es s'"
proof (induction flts s arbitrary: es s' rule: drain.induct)
  case (1 flts s)
  show ?case
  proof (cases "lg_ch s")
    case Nil
    obtain fs s1 where f: "flush (flts 0) s = (fs, s1)" by fastforce
    with 1(2) Nil have e: "es = fs" "s' = s1\<lparr>lg_phase := Returned\<rparr>" by (simp_all add: drain.simps [of flts s])
    show ?thesis using consumed_flush [OF f] Nil by (simp add: e consumed_def)
  next
    case (Cons r ch)
    then have ne: "lg_ch s \<noteq> []" by simp
    obtain fs s1 where f: "receive (flts 0) s = (fs, s1)" by fastforce
    obtain gs s2 where g: "drain (\<lambda>n. flts (Suc n)) s1 = (gs, s2)" by fastforce
    from 1(2) ne f g have e: "es = fs @ gs" "s' = s2" by (simp_all add: drain.simps [of flts s])
    from 1(1) [OF ne f [symmetric] g] have c2: "consumed s1 ch gs s2"
      using receive_fields(1) [OF f] Cons by simp
    from consumed_trans [OF consumed_receive [OF f Cons] c2] show ?thesis by (simp add: e Cons)
  qed
qed

text \<open>Without faults nothing fails.\<close>

lemma flush_no_faults: "flush no_faults s = (es, s') \<Longrightarrow> failed es = [] \<and> stored es = flushed es"
  using batch_insert_no_faults [of "lg_batch s" "lg_db s"]
  by (cases "batch_insert no_faults (lg_batch s) (lg_db s)") (auto simp: flush_def history_defs split: if_splits)

lemma receive_no_faults: "receive no_faults s = (es, s') \<Longrightarrow> stored es = flushed es"
  using flush_no_faults by (auto simp: receive_def Let_def split: if_splits)

lemma drain_no_faults: "drain flts s = (es, s') \<Longrightarrow> (\<And>n. flts n = no_faults) \<Longrightarrow> stored es = flushed es"
proof (induction flts s arbitrary: es s' rule: drain.induct)
  case (1 flts s)
  have f0: "flts 0 = no_faults" by (rule 1(3))
  show ?case
  proof (cases "lg_ch s = []")
    case True
    then show ?thesis using 1(2) flush_no_faults [of s] by (auto simp: drain.simps [of flts s] f0 split: prod.splits)
  next
    case False
    obtain fs s1 where f: "receive (flts 0) s = (fs, s1)" by fastforce
    obtain gs s2 where g: "drain (\<lambda>n. flts (Suc n)) s1 = (gs, s2)" by fastforce
    have "stored gs = flushed gs" by (rule 1(1) [OF False f [symmetric] g]) (rule 1(3))
    moreover have "stored fs = flushed fs" using f receive_no_faults by (simp add: f0)
    ultimately show ?thesis using 1(2) False f g by (auto simp: drain.simps [of flts s])
  qed
qed

lemma returned_step: "logger_step s es s' \<Longrightarrow> lg_phase s = Returned \<Longrightarrow> lg_db s' = lg_db s \<and> lg_phase s' = Returned"
  by (cases rule: logger_step.cases) auto

lemma returned_run: "logger_run s es s' \<Longrightarrow> lg_phase s = Returned \<Longrightarrow> lg_db s' = lg_db s \<and> lg_phase s' = Returned"
  by (induction rule: logger_run.induct) (auto dest: returned_step)

text \<open>
  How much the logger has left to do: what each call of \<open>Log\<close> in progress, each record of the channel and of the
  batch, and the phases to come can still cause.  A call counts five, since its record may go through the channel.
\<close>

fun call_work :: "log_call \<Rightarrow> nat" where
  "call_work (TrySend r) = 5"
| "call_work (MakeRoom r) = 4"
| "call_work (TryAgain r) = 3"

fun phase_work :: "logger_phase \<Rightarrow> nat" where
  "phase_work Serving = 2"
| "phase_work Draining = 1"
| "phase_work Returned = 0"

definition work :: "logger \<Rightarrow> nat" where
  "work s = sum_mset (image_mset call_work (lg_calls s)) + 2 * length (lg_ch s) + length (lg_batch s)
     + phase_work (lg_phase s) + (if lg_stop s then 0 else 1)"

text \<open>Runs that count their steps, the idle ones left out: a tick with an empty batch, a second stop signal.\<close>

inductive counted_run :: "nat \<Rightarrow> logger \<Rightarrow> log_event list \<Rightarrow> logger \<Rightarrow> bool" where
  counted_start: "counted_run 0 s [] s"
| counted_step: "counted_run n s es s' \<Longrightarrow> logger_step s' fs s'' \<Longrightarrow> s'' \<noteq> s' \<Longrightarrow> counted_run (Suc n) s (es @ fs) s''"

definition settled :: "logger \<Rightarrow> bool" where
  "settled s \<longleftrightarrow> (\<forall>es s'. logger_step s es s' \<and> called es = [] \<longrightarrow> s' = s)"

lemma counted_logger_run: "counted_run n s es s' \<Longrightarrow> logger_run s es s'"
  by (induction rule: counted_run.induct) (auto intro: logger_run.intros)

lemma flush_work:
  assumes "flush flt s = (es, s')"
  shows "called es = []" "work s' + length (lg_batch s) = work s" "lg_batch s = [] \<Longrightarrow> s' = s"
  using consumed_flush [OF assms] flush_fields [OF assms] assms by (auto simp: work_def consumed_def flush_def)

lemma receive_work:
  assumes "receive flt s = (es, s')" "lg_ch s \<noteq> []"
  shows "called es = []" "Suc (work s') \<le> work s"
proof -
  obtain r ch where c: "lg_ch s = r # ch" using assms(2) by (cases "lg_ch s") auto
  show "called es = []" using consumed_receive [OF assms(1) c] by (simp add: consumed_def)
  let ?s = "s\<lparr>lg_batch := lg_batch s @ [r], lg_ch := ch\<rparr>"
  have "Suc (work ?s) = work s" by (simp add: work_def c)
  moreover have "work s' \<le> work ?s"
    using assms(1) c by (cases rule: receive_cases) (use flush_work(2) [of flt ?s es s'] in auto)
  ultimately show "Suc (work s') \<le> work s" by simp
qed

lemma work_step:
  assumes "logger_step s es s'" "s' \<noteq> s"
  shows "Suc (work s') \<le> work s + 6 * length (called es)"
  using assms
proof (cases rule: logger_step.cases)
  case (serve flt)
  then show ?thesis using receive_work [OF serve(3,2)] by simp
next
  case (drain_one flt)
  then show ?thesis using receive_work [OF drain_one(3,2)] by simp
next
  case (tick flt)
  then have "lg_batch s \<noteq> []" using flush_work(3) [OF tick(2)] assms(2) by blast
  then show ?thesis using flush_work(1,2) [OF tick(2)] by (cases "lg_batch s") auto
next
  case (start_draining flt s'')
  then show ?thesis using flush_work(1,2) [OF start_draining(4)] flush_fields(6) [OF start_draining(4)]
    by (simp add: work_def)
next
  case (drain_end flt s'')
  then show ?thesis using flush_work(1,2) [OF drain_end(4)] flush_fields(6) [OF drain_end(4)]
    by (simp add: work_def)
next
  case (make_room r cs)
  then show ?thesis by (cases "lg_ch s") (auto simp: work_def)
next
  case stop
  then show ?thesis using assms(2) by (cases "lg_stop s") (auto simp: work_def)
qed (auto simp: work_def)

lemma counted_bound: "counted_run n s es s' \<Longrightarrow> n + work s' \<le> work s + 6 * length (called es)"
proof (induction rule: counted_run.induct)
  case (counted_step n s es s' fs s'')
  then show ?case using work_step [OF counted_step.hyps(2,3)] by simp
qed simp

text \<open>A stopped logger that has nothing left to do has returned, and no call of \<open>Log\<close> is waiting.\<close>

lemma settled_returned:
  assumes "settled s" "lg_stop s"
  shows "lg_phase s = Returned \<and> lg_calls s = {#}"
proof (rule ccontr)
  assume n: "\<not> (lg_phase s = Returned \<and> lg_calls s = {#})"
  have no: "logger_step s es s' \<Longrightarrow> called es = [] \<Longrightarrow> s' = s" for es s' using assms(1) by (simp add: settled_def)
  then have nc: "logger_step s es s' \<Longrightarrow> called es = [] \<Longrightarrow> lg_calls s' = lg_calls s" for es s' by metis
  show False
  proof (cases "lg_calls s")
    case (add c cs)
    show False
    proof (cases c)
      case (TrySend r)
      then show False using nc [OF send [of s r cs]] nc [OF full [of s r cs]] add by (cases "length (lg_ch s) < lg_cap s") auto
    next
      case (MakeRoom r)
      then show False using nc [OF make_room [of s r cs]] nc [OF no_room [of s r cs]] add by (cases "lg_ch s = []") auto
    next
      case (TryAgain r)
      then show False using nc [OF send_again [of s r cs]] nc [OF give_up [of s r cs]] add by (cases "length (lg_ch s) < lg_cap s") auto
    qed
  next
    case empty
    obtain es s1 where f: "flush no_faults s = (es, s1)" by fastforce
    obtain fs s2 where r: "receive no_faults s = (fs, s2)" by fastforce
    show False
    proof (cases "lg_phase s")
      case Serving
      from no [OF start_draining [OF Serving assms(2) f] flush_work(1) [OF f]] Serving show False
        by (auto dest!: arg_cong [where f = lg_phase])
    next
      case Draining
      show False
      proof (cases "lg_ch s = []")
        case True
        from no [OF drain_end [OF Draining True f] flush_work(1) [OF f]] Draining show False
          by (auto dest!: arg_cong [where f = lg_phase])
      next
        case False
        from no [OF drain_one [OF Draining False r] receive_work(1) [OF r False]] receive_work(2) [OF r False] show False by simp
      qed
    qed (use n empty in simp)
  qed
qed

lemma settles:
  "\<exists>n es t. counted_run n s es t \<and> called es = [] \<and> settled t"
proof (induction "work s" arbitrary: s rule: less_induct)
  case less
  show ?case
  proof (cases "settled s")
    case True
    then show ?thesis using counted_start by fastforce
  next
    case False
    then obtain fs u where u: "logger_step s fs u" "called fs = []" "u \<noteq> s" by (auto simp: settled_def)
    then have "work u < work s" using work_step [OF u(1,3)] by simp
    from less [OF this] obtain n es t where t: "counted_run n u es t" "called es = []" "settled t" by blast
    have "counted_run (Suc n) s (fs @ es) t"
      using t(1) u(1,3)
    proof (induction rule: counted_run.induct)
      case (counted_start u)
      then show ?case using counted_run.counted_step [OF counted_run.counted_start] by force
    next
      case (counted_step n u es t gs t')
      then show ?case using counted_run.counted_step [of "Suc n" s "fs @ es" t gs t'] by simp
    qed
    then show ?thesis using t u(2) by (intro exI [of _ "Suc n"] exI [of _ "fs @ es"] exI [of _ t]) simp
  qed
qed

lemma stored_flushed: "failed es = [] \<Longrightarrow> stored es = flushed es"
  by (induction es) (auto simp: history_defs split: log_event.splits)

text \<open>Without calls, what was flushed, the batch and the channel are together always the same records, in order.\<close>

lemma quiet_run:
  assumes "logger_run s es t" "called es = []" "lg_calls s = {#}" "lg_phase s \<noteq> Returned"
  shows "lg_calls t = {#} \<and> flushed es @ lg_batch t @ lg_ch t = lg_batch s @ lg_ch s \<and>
    (lg_phase t = Returned \<longrightarrow> lg_batch t = [] \<and> lg_ch t = []) \<and>
    map anonymous (usage_t (lg_db t)) = map anonymous (usage_t (lg_db s)) @ map anonymous (stored es)"
  using assms
proof (induction rule: logger_run.induct)
  case (step s es t fs u)
  then have I: "lg_calls t = {#}" "flushed es @ lg_batch t @ lg_ch t = lg_batch s @ lg_ch s"
      "lg_phase t = Returned \<longrightarrow> lg_batch t = [] \<and> lg_ch t = []"
      "map anonymous (usage_t (lg_db t)) = map anonymous (usage_t (lg_db s)) @ map anonymous (stored es)" by simp_all
  have taken: "flushed (es @ fs) @ lg_batch u @ lg_ch u = lg_batch s @ lg_ch s \<and>
      map anonymous (usage_t (lg_db u)) = map anonymous (usage_t (lg_db s)) @ map anonymous (stored (es @ fs))"
    if "consumed t rs fs v" "lg_ch t = rs @ lg_ch v" "lg_batch u = lg_batch v" "lg_ch u = lg_ch v" "lg_db u = lg_db v" for rs v
  proof -
    have "flushed fs @ lg_batch v @ lg_ch v = lg_batch t @ lg_ch t"
      using that(1,2) unfolding consumed_def by (metis append.assoc)
    then have "flushed es @ flushed fs @ lg_batch v @ lg_ch v = lg_batch s @ lg_ch s" using I(2) by metis
    then show ?thesis using I(4) that(1,3-5) by (simp add: consumed_def)
  qed
  from step.hyps(2) show ?case
  proof (cases rule: logger_step.cases)
    case (serve flt)
    then obtain r ch where c: "lg_ch t = r # ch" by (cases "lg_ch t") auto
    show ?thesis using taken [OF consumed_receive [OF serve(3) c]] receive_fields [OF serve(3)] I(1) serve(1) c by simp
  next
    case (drain_one flt)
    then obtain r ch where c: "lg_ch t = r # ch" by (cases "lg_ch t") auto
    show ?thesis using taken [OF consumed_receive [OF drain_one(3) c]] receive_fields [OF drain_one(3)] I(1) drain_one(1) c by simp
  next
    case (tick flt)
    show ?thesis using taken [OF consumed_flush [OF tick(2)]] flush_fields [OF tick(2)] I(1) tick(1) by simp
  next
    case (start_draining flt v)
    show ?thesis using taken [OF consumed_flush [OF start_draining(4)]] flush_fields [OF start_draining(4)] I(1) start_draining(1) by simp
  next
    case (drain_end flt v)
    show ?thesis using taken [OF consumed_flush [OF drain_end(4)]] flush_fields [OF drain_end(4)] I(1) drain_end(1-3) by simp
  qed (use I step.prems in auto)
qed simp

text \<open>C24: once the stop signal is given the logger comes to an end, in every interleaving.  A history has at most as
  many steps, the idle ones not counted, as its start had work left, and six more for each call of \<open>Log\<close> that begins in it;
  it can always go on, without new calls, to a state in which nothing is left to do; and every such state is one in which the background
  goroutine has returned and no call is waiting.  When it returns and nobody called \<open>Log\<close> since the
  stop, the batch and every record of the channel have been flushed, in order: the table then ends with exactly these records, when
  no insertion failed; a failed insertion loses its batch.  After the return the
  table never changes again: records passed to \<open>Log\<close> from then on are never written.\<close>

theorem shutdown_writes_all:
  assumes "lg_stop s" "lg_phase s \<noteq> Returned" "counted_run n s es t"
  shows "n + work t \<le> work s + 6 * length (called es) \<and>
    (\<exists>m fs u. counted_run m t fs u \<and> called fs = [] \<and> settled u) \<and>
    (settled t \<longrightarrow> lg_phase t = Returned \<and> lg_calls t = {#}) \<and>
    (lg_phase t = Returned \<and> lg_calls s = {#} \<and> called es = [] \<longrightarrow>
       lg_batch t = [] \<and> lg_ch t = [] \<and> flushed es = lg_batch s @ lg_ch s \<and>
       (failed es = [] \<longrightarrow> map anonymous (usage_t (lg_db t)) = map anonymous (usage_t (lg_db s) @ lg_batch s @ lg_ch s))) \<and>
    (lg_phase t = Returned \<longrightarrow> (\<forall>fs u. logger_run t fs u \<longrightarrow> lg_db u = lg_db t))"
proof -
  note r = counted_logger_run [OF assms(3)]
  have "lg_stop t"
    using r assms(1) by (induction rule: logger_run.induct) (auto simp: flush_fields receive_fields elim!: logger_step.cases)
  then have "settled t \<longrightarrow> lg_phase t = Returned \<and> lg_calls t = {#}" using settled_returned by blast
  moreover have "lg_batch t = [] \<and> lg_ch t = [] \<and> flushed es = lg_batch s @ lg_ch s \<and>
       (failed es = [] \<longrightarrow> map anonymous (usage_t (lg_db t)) = map anonymous (usage_t (lg_db s) @ lg_batch s @ lg_ch s))"
    if "lg_phase t = Returned \<and> lg_calls s = {#} \<and> called es = []"
    using quiet_run [OF r _ _ assms(2)] that stored_flushed [of es] by auto
  moreover have "\<forall>fs u. logger_run t fs u \<longrightarrow> lg_db u = lg_db t" if "lg_phase t = Returned"
    using returned_run [of t] that by blast
  ultimately show ?thesis using counted_bound [OF assms(3)] settles [of t] by blast
qed

definition sample_usage :: usage_record where
  "sample_usage = \<lparr>us_id = 0, us_timestamp = ''2025-01-15T14:30:00Z'', us_key = ''alice'', us_model = ''m'',
     us_backend = ''http://b'', us_prompt = 10, us_completion = 5, us_duration = 20, us_cost = 0\<rparr>"

lemma sample_run:
  "logger_run (new_usage_logger default_logger_options empty_db) [Called sample_usage, Queued sample_usage]
     ((new_usage_logger default_logger_options empty_db)\<lparr>lg_ch := [sample_usage]\<rparr>)"
proof -
  let ?s = "new_usage_logger default_logger_options empty_db"
  have c: "logger_run ?s [Called sample_usage] (?s\<lparr>lg_calls := {#TrySend sample_usage#}\<rparr>)"
    using one_step [OF logger_step.call [of ?s sample_usage]] by (simp add: new_usage_logger_def Let_def)
  have "logger_step (?s\<lparr>lg_calls := {#TrySend sample_usage#}\<rparr>) [Queued sample_usage]
      (?s\<lparr>lg_calls := {#}, lg_ch := [sample_usage]\<rparr>)"
    using logger_step.send [of "?s\<lparr>lg_calls := {#TrySend sample_usage#}\<rparr>" sample_usage "{#}"]
    by (simp add: new_usage_logger_def Let_def logger_defaults_def default_logger_options_def)
  from logger_run.step [OF c this] show ?thesis by (simp add: new_usage_logger_def Let_def)
qed

theorem usage_records_accounted_witness:
  "mset (called [Called sample_usage, Queued sample_usage]) = {#sample_usage#}"
  using usage_records_accounted [OF sample_run] by (simp add: history_defs new_usage_logger_def Let_def)

text \<open>A stopped logger with one record in its channel: three steps, no more than four were possible, and it is written.\<close>

theorem shutdown_writes_all_witness:
  "\<exists>es t. counted_run 3 ((new_usage_logger default_logger_options empty_db)\<lparr>lg_ch := [sample_usage], lg_stop := True\<rparr>) es t \<and>
     3 + work t \<le> 4 \<and> lg_phase t = Returned \<and> map anonymous (usage_t (lg_db t)) = [sample_usage]"
proof -
  let ?s = "(new_usage_logger default_logger_options empty_db)\<lparr>lg_ch := [sample_usage], lg_stop := True\<rparr>"
  let ?s1 = "?s\<lparr>lg_phase := Draining\<rparr>"
  let ?s2 = "?s1\<lparr>lg_batch := [sample_usage], lg_ch := []\<rparr>"
  have f: "lg_phase ?s = Serving" "lg_stop ?s" "lg_calls ?s = {#}" "lg_batch ?s = []" "lg_batch_size ?s = 50"
      "usage_t (lg_db ?s) = []"
    by (simp_all add: new_usage_logger_def Let_def logger_defaults_def default_logger_options_def empty_db_def)
  have d: "lg_phase ?s1 = Draining" "lg_ch ?s1 \<noteq> []" "lg_phase ?s2 = Draining" "lg_ch ?s2 = []" by simp_all
  have r: "receive no_faults ?s1 = ([], ?s2)" "flush no_faults ?s = ([], ?s)" using f by (simp_all add: receive_def flush_def)
  obtain es t0 where fl: "flush no_faults ?s2 = (es, t0)" by fastforce
  let ?t = "t0\<lparr>lg_phase := Returned\<rparr>"
  have neq: "lg_phase a \<noteq> lg_phase b \<Longrightarrow> a \<noteq> b" "lg_ch a \<noteq> lg_ch b \<Longrightarrow> a \<noteq> b" for a b :: logger by auto
  have "?s1 \<noteq> ?s" "?s2 \<noteq> ?s1" "?t \<noteq> ?s2" by (rule neq(1), simp add: f, rule neq(2), simp, rule neq(1), simp)
  note n = this
  have "counted_run (Suc 0) ?s ([] @ []) ?s1" by (rule counted_step [OF counted_start start_draining [OF f(1,2) r(2)] n(1)])
  from counted_step [OF this drain_one [OF d(1,2) r(1)] n(2)] have "counted_run (Suc (Suc 0)) ?s (([] @ []) @ []) ?s2" .
  from counted_step [OF this drain_end [OF d(3,4) fl] n(3)] have run: "counted_run 3 ?s es ?t" by (simp add: numeral_3_eq_3)
  have e: "failed es = []" "called es = []" using flush_no_faults [OF fl] flush_work(1) [OF fl] by simp_all
  have w: "work ?s = 4" using f by (simp add: work_def)
  have "lg_phase ?s \<noteq> Returned" "lg_phase ?t = Returned" using f(1) by simp_all
  with shutdown_writes_all [OF f(2) _ run] e f w run show ?thesis
    by (intro exI [of _ es] exI [of _ ?t]) (simp add: anonymous_def sample_usage_def)
qed

section \<open>Queries\<close>

text \<open>A filter text without wildcards finds the rows that contain it, in either case.\<close>

lemma like_all: "sql_like ''%'' s"
  by (induction s) auto

lemma prefix_cases: "has_prefix (c # s) (k # p) = (c = k \<and> has_prefix s p)" "has_prefix [] (k # p) = False"
  "has_prefix s []"
  by (auto simp: has_prefix_def)

lemma like_prefix:
  "(\<forall>c \<in> set p. c \<noteq> CHR ''%'' \<and> c \<noteq> CHR ''_'') \<Longrightarrow> sql_like (p @ ''%'') s \<longleftrightarrow> has_prefix (to_lower s) (to_lower p)"
proof (induction p arbitrary: s)
  case Nil
  then show ?case using like_all by (simp add: has_prefix_def to_lower_def)
next
  case (Cons c p)
  show ?case
  proof (cases s)
    case (Cons d t)
    then show ?thesis using Cons.IH [of t] Cons.prems by (simp add: prefix_cases to_lower_def) metis
  qed (use Cons.prems in \<open>simp add: prefix_cases to_lower_def\<close>)
qed

lemma like_contains:
  assumes "\<forall>c \<in> set k. c \<noteq> CHR ''%'' \<and> c \<noteq> CHR ''_''"
  shows "sql_like (''%'' @ k @ ''%'') s \<longleftrightarrow> str_contains (to_lower s) (to_lower k)"
proof (induction s)
  case Nil
  show ?case using like_prefix [OF assms, of "[]"] by (auto simp: has_prefix_def to_lower_def)
next
  case (Cons c s)
  then show ?case using like_prefix [OF assms, of "c # s"] by (simp add: to_lower_def)
qed

text \<open>Pages cut the listing.\<close>

lemma concat_pages: "concat (map (\<lambda>p. take n (drop (p * n) xs)) [0..<k]) = take (k * n) xs"
proof (induction k)
  case (Suc k)
  have "take (k * n) xs @ take n (drop (k * n) xs) = take (k * n + n) xs" by (simp add: take_add)
  then show ?case using Suc by (simp add: add.commute)
qed simp

lemma list_records_page:
  assumes "li_page_size o' = int n" "0 < n" "li_page o' = int p + 1" "int p * int n < 2 ^ 63"
  shows "list_records no_faults o' d = Some (take n (drop (p * n) (newest_first (filter (logs_where o') (usage_t d)))))"
proof -
  have "int p * 1 \<le> int p * int n" using assms(2) by (intro mult_left_mono) auto
  moreover have nn: "0 \<le> int p * int n" by simp
  ultimately have "i64 (int p) = int p" using assms(4) by (intro i64_id) linarith+
  moreover have "i64 (int p * int n) = int p * int n" using assms(4) nn by (intro i64_id) linarith+
  moreover have "nat (int p * int n) = p * n" by (simp flip: of_nat_mult)
  ultimately show ?thesis using assms by (simp add: list_records_def Let_def sql_limit_def)
qed

lemma newest_first_sorted: "sorted_wrt (\<lambda>a b. us_timestamp b \<le> us_timestamp a) (newest_first rs)"
  using sorted_sort_key [of us_timestamp "sort_key us_id rs"]
  by (simp add: newest_first_def sorted_wrt_rev sorted_wrt_map)

lemma mset_newest_first: "mset (newest_first rs) = mset rs"
  by (simp add: newest_first_def)

lemma logs_where_page [simp]: "logs_where (o'\<lparr>li_page := p\<rparr>) = logs_where o'"
  by (simp add: logs_where_def fun_eq_iff)

lemma count_total: "distinct ns \<Longrightarrow> f ` set rs \<subseteq> set ns \<Longrightarrow>
   sum_list (map (\<lambda>n. int (length (filter (\<lambda>r. f r = n) rs))) ns) = int (length rs)"
proof (induction rs)
  case (Cons r rs)
  have "sum_list (map (\<lambda>n. int (length (filter (\<lambda>x. f x = n) (r # rs)))) ns)
      = sum_list (map (\<lambda>n. (if f r = n then 1 else 0)) ns) + sum_list (map (\<lambda>n. int (length (filter (\<lambda>x. f x = n) rs))) ns)"
    by (subst sum_list_addf [symmetric]) (auto intro!: arg_cong [where f = sum_list] map_cong)
  moreover have "sum_list (map (\<lambda>n. (if f r = n then 1 else 0 :: int)) ns) = 1"
    using Cons.prems by (simp add: sum_list_distinct_conv_sum_set sum.delta)
  ultimately show ?case using Cons by simp
qed (induction ns; simp)

lemma sum_list_sort_key: "sum_list (map g (sort_key f xs)) = (sum_list (map g xs) :: int)"
  by (metis mset_map mset_sort sum_mset_sum_list)

lemma cost_by_model_counts: "sum_list (map mc_count (cost_by_model sumf rs)) = int (length rs)"
proof -
  have "sum_list (map mc_count (cost_by_model sumf rs))
      = sum_list (map (\<lambda>n. int (length (filter (\<lambda>r. us_model r = n) rs))) (sort (remdups (map us_model rs))))"
    by (simp add: cost_by_model_def sum_list_sort_key comp_def Let_def)
  also have "\<dots> = int (length rs)" by (rule count_total) auto
  finally show ?thesis .
qed

text \<open>C39: the pages of the usage log show every matching record exactly once: page after page they
  are the matching rows, newest first, and nothing else; a key filter without wildcards matches the
  records whose key contains it, whatever the case of the letters.  The analytics count the same
  records, and with at most ten models their breakdown adds up to that count.\<close>

theorem usage_log_pages:
  fixes o' :: list_options and d :: db
  defines "rows \<equiv> filter (logs_where o') (usage_t d)"
  assumes "li_page_size o' = int n" "0 < n" "int (P * n) < 2 ^ 63" "length rows \<le> P * n"
  shows "\<exists>pages. (\<forall>p < P. list_records no_faults (o'\<lparr>li_page := int p + 1\<rparr>) d = Some (pages p)) \<and>
      mset (concat (map pages [0..<P])) = mset rows \<and>
      sorted_wrt (\<lambda>a b. us_timestamp b \<le> us_timestamp a) (concat (map pages [0..<P])) \<and>
      ((\<forall>c \<in> set (li_key o'). c \<noteq> CHR ''%'' \<and> c \<noteq> CHR ''_'') \<longrightarrow>
         (\<forall>r \<in> set (concat (map pages [0..<P])). str_contains (to_lower (us_key r)) (to_lower (li_key o')))) \<and>
      (\<forall>a sumf flt. logs_analytics_query sumf flt o' d = Some a \<longrightarrow>
         os_requests (la_summary a) = int (length (concat (map pages [0..<P]))) \<and>
         (length (cost_by_model sumf rows) \<le> 10 \<longrightarrow>
            sum_list (map mc_count (la_models a)) = int (length (concat (map pages [0..<P])))))"
proof -
  define pages where "pages = (\<lambda>p. take n (drop (p * n) (newest_first rows)))"
  have "concat (map pages [0..<P]) = take (P * n) (newest_first rows)"
    unfolding pages_def by (rule concat_pages)
  moreover have "length (newest_first rows) = length rows" by (simp add: newest_first_def)
  ultimately have all: "concat (map pages [0..<P]) = newest_first rows" using assms(5) by simp
  have page: "\<forall>p < P. list_records no_faults (o'\<lparr>li_page := int p + 1\<rparr>) d = Some (pages p)"
  proof (intro allI impI)
    fix p assume "p < P"
    then have "p * n \<le> P * n" by simp
    then have "int p * int n < 2 ^ 63" using assms(4) by (metis le_less_trans of_nat_le_iff of_nat_mult)
    then show "list_records no_faults (o'\<lparr>li_page := int p + 1\<rparr>) d = Some (pages p)"
      using list_records_page [of "o'\<lparr>li_page := int p + 1\<rparr>" n p d] assms(2,3) by (simp add: pages_def rows_def)
  qed
  have contains: "str_contains (to_lower (us_key r)) (to_lower (li_key o'))"
    if "\<forall>c \<in> set (li_key o'). c \<noteq> CHR ''%'' \<and> c \<noteq> CHR ''_''" "r \<in> set (newest_first rows)" for r
  proof (cases "li_key o' = []")
    case True
    then show ?thesis by (cases "to_lower (us_key r)") (simp_all add: to_lower_def has_prefix_def)
  next
    case False
    have "r \<in> set rows" using that(2) mset_newest_first [of rows] by (metis set_mset_mset)
    then show ?thesis using False like_contains [OF that(1)] by (simp add: rows_def logs_where_def)
  qed
  have analytics: "os_requests (la_summary a) = int (length rows) \<and>
      (length (cost_by_model sumf rows) \<le> 10 \<longrightarrow> sum_list (map mc_count (la_models a)) = int (length rows))"
    if "logs_analytics_query sumf flt o' d = Some a" for a sumf flt
    using that cost_by_model_counts [of sumf rows]
    by (auto simp: logs_analytics_query_def summarise_def rows_def [symmetric] sql_limit_def Let_def
        split: if_splits option.splits)
  show ?thesis
    using page all contains analytics newest_first_sorted [of rows] mset_newest_first [of rows]
    by (intro exI [of _ pages] conjI) (simp_all add: newest_first_def)
qed

theorem usage_log_pages_witness:
  "\<exists>pages. list_records no_faults \<lparr>li_key = ''AL'', li_model = [], li_start = [], li_end = [], li_page = 1, li_page_size = 1\<rparr>
      (empty_db\<lparr>usage_t := [sample_usage]\<rparr>) = Some (pages 0) \<and> mset (pages (0::nat)) = {#sample_usage#}"
proof -
  let ?o = "\<lparr>li_key = ''AL'', li_model = [], li_start = [], li_end = [], li_page = 0, li_page_size = 1\<rparr>"
  have f: "filter (logs_where ?o) (usage_t (empty_db\<lparr>usage_t := [sample_usage]\<rparr>)) = [sample_usage]"
    by code_simp
  have l: "length (filter (logs_where ?o) (usage_t (empty_db\<lparr>usage_t := [sample_usage]\<rparr>))) \<le> 1 * 1"
    unfolding f by simp
  show ?thesis using usage_log_pages [of ?o 1 1, OF _ _ _ l] unfolding f by auto
qed

end
