(* ===== verification/Proxy.thy ===== *)
theory Proxy
  imports AuthMiddleware OllamaClient Models RateLimit Usage
begin

text \<open>
  internal/proxy: the handler behind \<open>/api/\<close>.  It reads the model's name from the request, resolves
  it for the authenticated user, selects a backend, forwards the request with
  \<open>httputil.ReverseProxy\<close>, and logs the token counts of the answer.  The network is an argument:
  whether a TCP connection to an address succeeds, and what the backend answers.
\<close>

section \<open>Token counts of an answer (response.go)\<close>

record usage_stats =
  st_prompt :: int
  st_eval :: int

definition zero_usage :: usage_stats where
  "zero_usage = \<lparr>st_prompt = 0, st_eval = 0\<rparr>"

record capture =
  cw_buf :: string
  cw_prompt :: int
  cw_eval :: int

definition new_capture :: capture where
  "new_capture = \<lparr>cw_buf = [], cw_prompt = 0, cw_eval = 0\<rparr>"

text \<open>A member of the decoded object, when it is a number.\<close>

definition number_member :: "json gomap \<Rightarrow> string \<Rightarrow> int option" where
  "number_member m k = (case gm_get m k of Some (JNum lit x) \<Rightarrow> Some (f64_to_int x) | _ \<Rightarrow> None)"

text \<open>One complete line.\<close>

definition capture_line :: "string \<Rightarrow> capture \<Rightarrow> capture" where
  "capture_line line w =
     (case unmarshal_any_map line of
        None \<Rightarrow> w
      | Some m \<Rightarrow>
          (let w1 = (if cw_prompt w = 0 then
                 (case number_member m ''prompt_eval_count'' of Some n \<Rightarrow> w\<lparr>cw_prompt := n\<rparr> | None \<Rightarrow> w) else w)
           in (case number_member m ''eval_count'' of Some n \<Rightarrow> w1\<lparr>cw_eval := n\<rparr> | None \<Rightarrow> w1)))"

lemma cut_char_shorter: "cut_char c s = (a, Some b) \<Longrightarrow> length b < length s"
  by (induction c s arbitrary: a b rule: cut_char.induct) (auto split: if_splits prod.splits)

text \<open>The loop over the buffer.\<close>

function capture_loop :: "string \<Rightarrow> capture \<Rightarrow> capture" where
  "capture_loop buf w =
     (case cut_char (CHR 0x0A) buf of
        (line, None) \<Rightarrow> w\<lparr>cw_buf := buf\<rparr>
      | (line, Some rest) \<Rightarrow> capture_loop rest (capture_line line w))"
  by pat_completeness auto
termination
  by (relation "measure (\<lambda>(buf, _). length buf)") (auto dest: cut_char_shorter [OF sym])

declare capture_loop.simps [simp del]

definition parse_for_usage :: "string \<Rightarrow> capture \<Rightarrow> capture" where
  "parse_for_usage p w = capture_loop (cw_buf w @ p) w"

text \<open>\<open>Write\<close>, when the client takes the first \<open>n\<close> bytes.\<close>

definition capture_write :: "nat \<Rightarrow> string \<Rightarrow> capture \<Rightarrow> capture" where
  "capture_write n p w = (if n = 0 then w else parse_for_usage (take n p) w)"

definition capture_stats :: "capture \<Rightarrow> usage_stats" where
  "capture_stats w = \<lparr>st_prompt = cw_prompt w, st_eval = cw_eval w\<rparr>"

definition set_stats :: "usage_stats \<Rightarrow> capture \<Rightarrow> capture" where
  "set_stats st w = w\<lparr>cw_prompt := st_prompt st, cw_eval := st_eval st\<rparr>"

definition extract_non_streaming_usage :: "string \<Rightarrow> usage_stats" where
  "extract_non_streaming_usage body =
     (case unmarshal_any_map body of
        None \<Rightarrow> zero_usage
      | Some m \<Rightarrow> \<lparr>st_prompt = (case number_member m ''prompt_eval_count'' of Some n \<Rightarrow> n | None \<Rightarrow> 0),
                   st_eval = (case number_member m ''eval_count'' of Some n \<Rightarrow> n | None \<Rightarrow> 0)\<rparr>)"

text \<open>The message is pasted into the JSON text as it is.\<close>

definition write_json_error :: "nat \<Rightarrow> string \<Rightarrow> http_response" where
  "write_json_error code msg = \<lparr>rs_status = code,
     rs_headers = hdr_set ''Content-Type'' ''application/json'' [],
     rs_body = ''{'' @ [CHR 0x22] @ ''error'' @ [CHR 0x22] @ '':'' @ [CHR 0x22] @ msg @ [CHR 0x22] @ ''}''\<rparr>"

section \<open>Reading the request (handler.go)\<close>

text \<open>
  A member decoded into a struct field: every occurrence is decoded in turn, \<open>null\<close> leaves the
  field alone, and a value of another type is an error that decoding of the rest survives.
\<close>

definition string_field_of :: "string \<Rightarrow> (string \<times> json) list \<Rightarrow> bool \<times> string" where
  "string_field_of name kvs =
     fold (\<lambda>(k, v) (ok, s). if equal_fold k name then
         (case v of JStr t \<Rightarrow> (ok, t) | JNull \<Rightarrow> (ok, s) | _ \<Rightarrow> (False, s)) else (ok, s)) kvs (True, [])"

definition bool_field_of :: "string \<Rightarrow> (string \<times> json) list \<Rightarrow> bool option" where
  "bool_field_of name kvs =
     fold (\<lambda>(k, v) b. if equal_fold k name then
         (case v of JBool c \<Rightarrow> Some c | JNull \<Rightarrow> None | _ \<Rightarrow> b) else b) kvs None"

text \<open>\<open>None\<close> is an error; \<open>readable\<close> says whether the body can be read.\<close>

definition extract_model_from_request :: "bool \<Rightarrow> http_request \<Rightarrow> string option" where
  "extract_model_from_request readable r =
     (if rq_method r = ''GET'' \<or> rq_method r = ''HEAD'' then Some []
      else if \<not> readable then None
      else if rq_body r = [] then Some []
      else (case json_parse (rq_body r) of
          Some (JObj kvs) \<Rightarrow> (case string_field_of ''model'' kvs of (ok, m) \<Rightarrow> if ok then Some m else None)
        | Some JNull \<Rightarrow> Some []
        | _ \<Rightarrow> None))"

definition is_streaming_generate :: "http_request \<Rightarrow> bool" where
  "is_streaming_generate r =
     (if rq_method r \<noteq> ''POST'' \<or> \<not> has_prefix (rq_path r) ''/api/generate'' then False
      else (case json_parse (rq_body r) of
          Some (JObj kvs) \<Rightarrow> bool_field_of ''stream'' kvs = Some True
        | _ \<Rightarrow> False))"

definition get_client_ip :: "string list gomap \<Rightarrow> string \<Rightarrow> string" where
  "get_client_ip h remote =
     (let xff = hdr_get h ''X-Forwarded-For'' in
      if xff \<noteq> [] then trim_space (hd (split_char (CHR '','') xff))
      else trim_space (hd (split_char (CHR '':'') remote)))"

definition join_url_path :: "string \<Rightarrow> string \<Rightarrow> string" where
  "join_url_path base request =
     (let req = (if request = [] then ''/'' else request) in
      if base = [] \<or> base = ''/'' then req
      else if req = ''/'' then base
      else if has_suffix base ''/'' then base @ trim_prefix req ''/''
      else base @ req)"

section \<open>Forwarding\<close>

text \<open>The request that goes to the backend.\<close>

record proxied =
  px_method :: string
  px_scheme :: string
  px_host :: string
  px_path :: string
  px_query :: string
  px_headers :: "string list gomap"
  px_body :: string

definition apply_headers :: "string gomap \<Rightarrow> string list gomap \<Rightarrow> string list gomap" where
  "apply_headers hs h = set_headers hs h"

text \<open>The \<open>Director\<close>: the path stays the client's, the base path of the backend's URL is not used.\<close>

definition director :: "backend \<Rightarrow> http_request \<Rightarrow> proxied" where
  "director b r =
     (let host = u_host (be_url b);
          ip = get_client_ip (rq_headers r) (rq_remote r);
          h1 = (if ip \<noteq> [] then hdr_set ''X-Forwarded-For'' ip (rq_headers r) else rq_headers r);
          h2 = hdr_set ''X-Forwarded-Proto'' ''http'' (hdr_set ''X-Forwarded-Host'' host h1)
      in \<lparr>px_method = rq_method r, px_scheme = u_scheme (be_url b), px_host = host, px_path = rq_path r,
          px_query = rq_query r, px_headers = apply_headers (be_headers b) h2, px_body = rq_body r\<rparr>)"

text \<open>
  What \<open>httputil.ReverseProxy\<close> does to the directed request: it removes the headers that the
  \<open>Connection\<close> header lists and the hop-by-hop headers (no protocol upgrade, no trailers), appends
  the peer's address to \<open>X-Forwarded-For\<close>, and suppresses the default user agent.
\<close>

definition hop_headers :: "string list" where
  "hop_headers = [''Connection'', ''Proxy-Connection'', ''Keep-Alive'', ''Proxy-Authenticate'',
     ''Proxy-Authorization'', ''Te'', ''Trailer'', ''Transfer-Encoding'', ''Upgrade'']"

definition connection_listed :: "string list gomap \<Rightarrow> string list" where
  "connection_listed h = (case gm_get h ''Connection'' of None \<Rightarrow> []
     | Some fs \<Rightarrow> filter (\<lambda>s. s \<noteq> []) (map trim_space (concat (map (split_char (CHR '','')) fs))))"

definition remove_hop_headers :: "string list gomap \<Rightarrow> string list gomap" where
  "remove_hop_headers h = fold hdr_del hop_headers (fold hdr_del (connection_listed h) h)"

text \<open>\<open>net.SplitHostPort\<close>, the host.\<close>

definition remote_host :: "string \<Rightarrow> string option" where
  "remote_host s =
     (case cut_last (CHR '':'') s of
        None \<Rightarrow> None
      | Some (h, p) \<Rightarrow>
          if has_prefix h ''['' then
            (if has_suffix h '']'' \<and> CHR '']'' \<notin> set (butlast (tl h)) \<and> CHR ''['' \<notin> set (tl h) \<and>
                CHR ''['' \<notin> set p \<and> CHR '']'' \<notin> set p
             then Some (butlast (tl h)) else None)
          else if CHR '':'' \<in> set h \<or> CHR ''['' \<in> set s \<or> CHR '']'' \<in> set s then None
          else Some h)"

definition append_forwarded :: "string \<Rightarrow> string list gomap \<Rightarrow> string list gomap" where
  "append_forwarded remote h =
     (case remote_host remote of
        None \<Rightarrow> h
      | Some ip \<Rightarrow>
          hdr_set ''X-Forwarded-For''
            (case gm_get h ''X-Forwarded-For'' of
               Some (v # vs) \<Rightarrow> str_join '', '' (v # vs) @ '', '' @ ip | _ \<Rightarrow> ip) h)"

definition reverse_proxy_request :: "backend \<Rightarrow> http_request \<Rightarrow> proxied" where
  "reverse_proxy_request b r =
     (let q = director b r;
          h1 = append_forwarded (rq_remote r) (remove_hop_headers (px_headers q));
          h2 = (if gm_get h1 ''User-Agent'' = None then hdr_set ''User-Agent'' [] h1 else h1)
      in q\<lparr>px_headers := h2\<rparr>)"

text \<open>The backend's answer: no answer, or status, headers and body, in the pieces in which it
  arrives, with whether it arrives completely.\<close>

datatype upstream = UpstreamDown | UpstreamReply nat "string list gomap" "string list" bool

text \<open>
  \<open>modifyResponse\<close>: the answers of the generation routes are read as a whole, an incomplete one is
  replaced by nothing, and counts found in the body are kept.  The result is the body that remains
  to be copied, whether it is complete, and the capture.
\<close>

definition modify_response ::
  "string \<Rightarrow> string list \<Rightarrow> bool \<Rightarrow> capture option \<Rightarrow> string list \<times> bool \<times> capture option" where
  "modify_response path chunks whole sri =
     (if \<not> has_prefix path ''/api/generate'' \<and> \<not> has_prefix path ''/api/chat'' then (chunks, whole, sri)
      else if \<not> whole then ([], True, sri)
      else (let body = concat chunks; stats = extract_non_streaming_usage body
            in ([body], True,
                (case sri of
                   Some w \<Rightarrow> if 0 < st_prompt stats \<or> 0 < st_eval stats then Some (set_stats stats w) else sri
                 | None \<Rightarrow> None))))"

text \<open>The copy loop writes at most 32 KiB at a time.\<close>

function pieces :: "nat \<Rightarrow> 'a list \<Rightarrow> 'a list list" where
  "pieces n xs = (if xs = [] \<or> n = 0 then [] else take n xs # pieces n (drop n xs))"
  by pat_completeness auto
termination by (relation "measure (\<lambda>(n, xs). length xs)") auto

declare pieces.simps [simp del]

definition copy_buffer :: nat where
  "copy_buffer = 32768"

definition capture_body :: "string list \<Rightarrow> capture \<Rightarrow> capture" where
  "capture_body chunks w = fold (\<lambda>p. capture_write (length p) p) (concat (map (pieces copy_buffer) chunks)) w"

section \<open>The handler\<close>

record proxy_handler =
  ph_resolver :: resolver
  ph_auth :: "auth_store option"
  ph_logger :: bool
  ph_pricing :: "usage_pricing option"

record proxy_env =
  en_readable :: bool
  en_faults :: faults
  en_dial :: "string \<Rightarrow> string \<Rightarrow> bool"
  en_upstream :: "proxied \<Rightarrow> upstream"
  en_client_stays :: bool
  en_now :: string
  en_elapsed :: int

record proxy_result =
  pr_response :: http_response
  pr_aborted :: bool
  pr_sent :: "proxied option"
  pr_record :: "usage_record option"
  pr_handler :: proxy_handler

definition can_reach_backend :: "(string \<Rightarrow> string \<Rightarrow> bool) \<Rightarrow> backend \<Rightarrow> bool" where
  "can_reach_backend dial b =
     (let port = url_port (be_url b) in
      dial (url_hostname (be_url b))
        (if port \<noteq> [] then port else if u_scheme (be_url b) = ''https'' then ''443'' else ''80''))"

definition overrides_of :: "faults \<Rightarrow> auth_store option \<Rightarrow> auth_context option \<Rightarrow> user_overrides" where
  "overrides_of flt auth ctx =
     (case (auth, ctx) of
        (Some st, Some ac) \<Rightarrow>
          (case get_user_config flt st (ac_key_id ac) of
             Some uc \<Rightarrow> from_user_config (Some uc) | None \<Rightarrow> from_user_config None)
      | _ \<Rightarrow> from_user_config None)"

definition resolve_backend_pool ::
  "faults \<Rightarrow> proxy_handler \<Rightarrow> auth_context option \<Rightarrow> string \<Rightarrow> (resolution_error, pool_entry list) result" where
  "resolve_backend_pool flt h ctx model =
     (if model = [] then Inr (default_pool (rv_manager (ph_resolver h)))
      else resolve model (overrides_of flt (ph_auth h) ctx) (ph_resolver h))"

text \<open>\<open>logUsage\<close>: the record passed to the logger; the counts are those of the capture, if any.\<close>

definition log_usage ::
  "proxy_handler \<Rightarrow> string \<Rightarrow> string \<Rightarrow> string \<Rightarrow> int \<Rightarrow> string \<Rightarrow> capture option \<Rightarrow> usage_record option" where
  "log_usage h key backend_url now elapsed model sri =
     (if \<not> ph_logger h then None
      else (let st = (case sri of Some w \<Rightarrow> capture_stats w | None \<Rightarrow> zero_usage);
                cost = (case ph_pricing h of Some pc \<Rightarrow> calculate_cost pc model (st_prompt st) (st_eval st) | None \<Rightarrow> 0)
            in Some \<lparr>us_id = 0, us_timestamp = now, us_key = key, us_model = model, us_backend = backend_url,
                 us_prompt = st_prompt st, us_completion = st_eval st,
                 us_duration = go_div elapsed 1000000, us_cost = cost\<rparr>))"

definition answered :: "proxy_handler \<Rightarrow> http_response \<Rightarrow> proxy_result" where
  "answered h resp = \<lparr>pr_response = resp, pr_aborted = False, pr_sent = None, pr_record = None, pr_handler = h\<rparr>"

definition no_backend_message :: "string \<Rightarrow> string" where
  "no_backend_message model = ''no available backends for model '' @ quote_name model"

text \<open>
  The run of the reverse proxy and the log.  A copy that fails, because the client has gone or the
  backend breaks off, aborts the handler by a panic, before the log.
\<close>

definition run_proxy ::
  "proxy_env \<Rightarrow> proxy_handler \<Rightarrow> auth_context \<Rightarrow> http_request \<Rightarrow> string \<Rightarrow> backend \<Rightarrow> proxy_result" where
  "run_proxy env h ac r model b =
     (let q = reverse_proxy_request b r;
          streaming = is_streaming_generate r;
          sri = (if streaming \<or> has_prefix (rq_path r) ''/api/generate'' \<or> has_prefix (rq_path r) ''/api/chat''
                 then Some new_capture else None);
          record_of = log_usage h (ac_key_id ac) (url_string (be_url b)) (en_now env) (en_elapsed env) model
      in case en_upstream env q of
           UpstreamDown \<Rightarrow>
             \<lparr>pr_response = write_json_error 502 ''upstream backend request failed'', pr_aborted = False,
              pr_sent = Some q, pr_record = record_of sri, pr_handler = h\<rparr>
         | UpstreamReply code hs chunks whole \<Rightarrow>
             (case modify_response (rq_path r) chunks whole sri of
                (body, whole', sri') \<Rightarrow>
                  (let resp = \<lparr>rs_status = code, rs_headers = remove_hop_headers hs, rs_body = concat body\<rparr>;
                       ok = whole' \<and> en_client_stays env;
                       sri'' = (if streaming then map_option (capture_body body) sri' else sri')
                   in \<lparr>pr_response = resp, pr_aborted = \<not> ok, pr_sent = Some q,
                       pr_record = (if ok then record_of sri'' else None), pr_handler = h\<rparr>)))"

definition proxy_serve ::
  "proxy_env \<Rightarrow> proxy_handler \<Rightarrow> auth_context option \<Rightarrow> http_request \<Rightarrow> proxy_result" where
  "proxy_serve env h ctx r =
     (case ctx of
        None \<Rightarrow> answered h (write_json_error 401 ''missing API key'')
      | Some ac \<Rightarrow>
          (case extract_model_from_request (en_readable env) r of
             None \<Rightarrow> answered h (write_json_error 400 ''invalid request body'')
           | Some model \<Rightarrow>
               (case resolve_backend_pool (en_faults env) h ctx model of
                  Inl e \<Rightarrow> answered h (write_json_error (res_status e) (res_message e))
                | Inr pool \<Rightarrow>
                    (let mgr = rv_manager (ph_resolver h) in
                     case select pool (mg_heap mgr) of
                       (None, heap) \<Rightarrow>
                         answered (h\<lparr>ph_resolver := (ph_resolver h)\<lparr>rv_manager := mgr\<lparr>mg_heap := heap\<rparr>\<rparr>\<rparr>)
                           (write_json_error 503 (no_backend_message model))
                     | (Some p, heap) \<Rightarrow>
                         (let h' = h\<lparr>ph_resolver := (ph_resolver h)\<lparr>rv_manager := mgr\<lparr>mg_heap := heap\<rparr>\<rparr>\<rparr>;
                              b = heap ! p
                          in if \<not> can_reach_backend (en_dial env) b
                             then answered h' (write_json_error 502 ''upstream backend request failed'')
                             else run_proxy env h' ac r model b)))))"

end
