(* ===== verification/ProxyProps.thy ===== *)
theory ProxyProps
  imports Proxy ModelsProps UsageProps
begin

text \<open>
  What the proxy guarantees: the token counts do not depend on how an answer is cut into pieces,
  nothing is forwarded that the user may not use, and what the usage record of a request says.
\<close>

section \<open>Token counts\<close>

lemma cut_char_None: "c \<notin> set s \<Longrightarrow> cut_char c s = (s, None)"
  by (induction c s rule: cut_char.induct) auto

lemma cut_char_Some: "c \<notin> set l \<Longrightarrow> cut_char c (l @ c # r) = (l, Some r)"
  by (induction l) auto

lemma cut_char_cases:
  obtains (none) "c \<notin> set s" "cut_char c s = (s, None)"
  | (some) l r where "c \<notin> set l" "s = l @ c # r" "cut_char c s = (l, Some r)"
proof (cases "c \<in> set s")
  case True
  then obtain l r where "s = l @ c # r" "c \<notin> set l" by (meson split_list_first)
  then show ?thesis using some cut_char_Some by blast
qed (use none cut_char_None in blast)

lemma capture_loop_none: "CHR 0x0A \<notin> set s \<Longrightarrow> capture_loop s w = w\<lparr>cw_buf := s\<rparr>"
  by (simp add: capture_loop.simps [of s] cut_char_None)

lemma capture_loop_line:
  "CHR 0x0A \<notin> set l \<Longrightarrow> capture_loop (l @ CHR 0x0A # r) w = capture_loop r (capture_line l w)"
  by (simp add: capture_loop.simps [of "l @ _ # r"] cut_char_Some)

text \<open>The buffer the capture starts with does not matter to the loop, which sets it at the end.\<close>

lemma capture_line_buf: "capture_line l (w\<lparr>cw_buf := b\<rparr>) = (capture_line l w)\<lparr>cw_buf := b\<rparr>"
  by (simp add: capture_line_def Let_def split: option.split)

lemma capture_loop_buf: "capture_loop s (w\<lparr>cw_buf := b\<rparr>) = capture_loop s w"
proof (induction s w rule: capture_loop.induct)
  case (1 s w)
  show ?case
  proof (cases rule: cut_char_cases [of "CHR 0x0A" s])
    case none
    then show ?thesis by (simp add: capture_loop_none)
  next
    case (some l r)
    then show ?thesis using 1 by (simp add: capture_loop_line capture_line_buf)
  qed
qed

lemma capture_loop_append: "capture_loop (s @ t) w = parse_for_usage t (capture_loop s w)"
proof (induction s w rule: capture_loop.induct)
  case (1 s w)
  show ?case
  proof (cases rule: cut_char_cases [of "CHR 0x0A" s])
    case none
    then show ?thesis by (simp add: capture_loop_none parse_for_usage_def capture_loop_buf)
  next
    case (some l r)
    then show ?thesis using 1 by (simp add: capture_loop_line)
  qed
qed

lemma parse_append: "parse_for_usage (s @ t) w = parse_for_usage t (parse_for_usage s w)"
  using capture_loop_append [of "cw_buf w @ s" t w] by (simp add: parse_for_usage_def)

lemma capture_write_all:
  assumes "CHR 0x0A \<notin> set (cw_buf w)"
  shows "capture_write (length p) p w = parse_for_usage p w" "CHR 0x0A \<notin> set (cw_buf (capture_write (length p) p w))"
proof -
  show e: "capture_write (length p) p w = parse_for_usage p w"
    using assms by (simp add: capture_write_def parse_for_usage_def capture_loop_none)
  have "CHR 0x0A \<notin> set (cw_buf (capture_loop s v))" for s v
  proof (induction s v rule: capture_loop.induct)
    case (1 s v)
    show ?case by (cases rule: cut_char_cases [of "CHR 0x0A" s]) (simp_all add: capture_loop_none capture_loop_line 1)
  qed
  then show "CHR 0x0A \<notin> set (cw_buf (capture_write (length p) p w))" unfolding e by (simp add: parse_for_usage_def)
qed

lemma fold_capture_write:
  "CHR 0x0A \<notin> set (cw_buf w) \<Longrightarrow> fold (\<lambda>p. capture_write (length p) p) ps w = parse_for_usage (concat ps) w"
proof (induction ps arbitrary: w)
  case Nil
  then show ?case by (simp add: parse_for_usage_def capture_loop_none)
next
  case (Cons p ps)
  note W = capture_write_all [OF Cons.prems, of p]
  show ?case using Cons.IH [OF W(2)] W(1) by (simp add: parse_append [of p])
qed

lemma concat_pieces: "0 < n \<Longrightarrow> concat (pieces n xs) = xs"
proof (induction n xs rule: pieces.induct)
  case (1 n xs)
  then show ?case by (simp add: pieces.simps [of n xs])
qed

lemma capture_body_concat: "CHR 0x0A \<notin> set (cw_buf w) \<Longrightarrow> capture_body chunks w = parse_for_usage (concat chunks) w"
proof -
  assume w: "CHR 0x0A \<notin> set (cw_buf w)"
  have "concat (concat (map (pieces copy_buffer) chunks)) = concat chunks"
    by (induction chunks) (simp_all add: concat_pieces copy_buffer_def)
  then show ?thesis by (simp add: capture_body_def fold_capture_write [OF w])
qed

text \<open>The counts that a stream of lines carries.\<close>

definition line_count :: "string \<Rightarrow> string \<Rightarrow> int list" where
  "line_count k l = (case unmarshal_any_map l of None \<Rightarrow> []
     | Some m \<Rightarrow> (case number_member m k of Some n \<Rightarrow> [n] | None \<Rightarrow> []))"

definition first_nonzero :: "int list \<Rightarrow> int" where
  "first_nonzero xs = (case filter (\<lambda>n. n \<noteq> 0) xs of [] \<Rightarrow> 0 | n # _ \<Rightarrow> n)"

definition last_or :: "int \<Rightarrow> int list \<Rightarrow> int" where
  "last_or d xs = (if xs = [] then d else last xs)"

definition lines :: "string list \<Rightarrow> string" where
  "lines ls = concat (map (\<lambda>l. l @ [CHR 0x0A]) ls)"

lemma capture_lines:
  assumes "\<forall>l \<in> set ls. CHR 0x0A \<notin> set l" "CHR 0x0A \<notin> set r"
  shows "capture_loop (lines ls @ r) w = (fold capture_line ls w)\<lparr>cw_buf := r\<rparr>"
  using assms
  by (induction ls arbitrary: w) (simp_all add: lines_def capture_loop_none capture_loop_line)

lemma fold_capture_eval:
  "cw_eval (fold capture_line ls w) = last_or (cw_eval w) (concat (map (line_count ''eval_count'') ls))"
proof (induction ls arbitrary: w)
  case (Cons l ls)
  have "cw_eval (capture_line l w) = last_or (cw_eval w) (line_count ''eval_count'' l)"
    by (simp add: capture_line_def line_count_def last_or_def Let_def split: option.split)
  then show ?case by (simp add: Cons.IH last_or_def)
qed (simp add: last_or_def)

lemma fold_capture_prompt:
  "cw_prompt (fold capture_line ls w) =
     (if cw_prompt w \<noteq> 0 then cw_prompt w else first_nonzero (concat (map (line_count ''prompt_eval_count'') ls)))"
proof (induction ls arbitrary: w)
  case (Cons l ls)
  have "cw_prompt (capture_line l w) =
      (if cw_prompt w \<noteq> 0 then cw_prompt w else last_or 0 (line_count ''prompt_eval_count'' l))"
    by (simp add: capture_line_def line_count_def last_or_def Let_def split: option.split)
  moreover obtain ns where ns: "line_count ''prompt_eval_count'' l = ns" "ns = [] \<or> (\<exists>n. ns = [n])"
    by (auto simp: line_count_def split: option.split)
  ultimately show ?case by (auto simp: Cons.IH first_nonzero_def last_or_def)
qed (simp add: first_nonzero_def)

lemma capture_body_lines:
  assumes "concat chunks = lines ls @ r" "\<forall>l \<in> set ls. CHR 0x0A \<notin> set l" "CHR 0x0A \<notin> set r"
  shows "capture_stats (capture_body chunks new_capture) =
    \<lparr>st_prompt = first_nonzero (concat (map (line_count ''prompt_eval_count'') ls)),
     st_eval = last_or 0 (concat (map (line_count ''eval_count'') ls))\<rparr>"
proof -
  have "capture_body chunks new_capture = (fold capture_line ls new_capture)\<lparr>cw_buf := r\<rparr>"
    using capture_body_concat [of new_capture chunks] capture_lines [OF assms(2,3)]
    by (simp add: new_capture_def parse_for_usage_def assms(1))
  then show ?thesis
    by (simp add: capture_stats_def fold_capture_eval fold_capture_prompt) (simp add: new_capture_def)
qed

text \<open>C25: the token counts of a streamed answer do not depend on how the stream is cut into pieces on
  its way.  They are those of its complete lines: the first non-zero \<open>prompt_eval_count\<close> and the
  last \<open>eval_count\<close>; lines that are not JSON objects count for nothing, and so does what follows
  the last line end.\<close>

theorem capture_chunking:
  "(concat chunks = concat chunks' \<longrightarrow> capture_body chunks new_capture = capture_body chunks' new_capture) \<and>
   (\<forall>ls l. concat chunks = lines ls @ l \<and> (\<forall>x \<in> set (l # ls). CHR 0x0A \<notin> set x) \<longrightarrow>
      capture_stats (capture_body chunks new_capture) =
        \<lparr>st_prompt = first_nonzero (concat (map (line_count ''prompt_eval_count'') ls)),
         st_eval = last_or 0 (concat (map (line_count ''eval_count'') ls))\<rparr>)"
  using capture_body_concat [of new_capture] capture_body_lines [of chunks] by (simp add: new_capture_def)

theorem capture_chunking_witness:
  "capture_body [''ab'', ''c''] new_capture = capture_body [''a'', ''bc''] new_capture"
  using capture_chunking [of "[''ab'', ''c'']" "[''a'', ''bc'']"] by simp

section \<open>Selection\<close>

text \<open>Selecting changes nothing but current weights, and picks a usable backend of the pool.\<close>

definition same_but_current :: "bheap \<Rightarrow> bheap \<Rightarrow> bool" where
  "same_but_current h h' \<longleftrightarrow> length h' = length h \<and> (\<forall>p. (h' ! p)\<lparr>be_current := 0\<rparr> = (h ! p)\<lparr>be_current := 0\<rparr>)"

lemma same_but_current_refl: "same_but_current h h"
  by (simp add: same_but_current_def)

lemma same_but_current_trans: "same_but_current h h' \<Longrightarrow> same_but_current h' h'' \<Longrightarrow> same_but_current h h''"
  by (simp add: same_but_current_def)

lemma same_but_current_update: "same_but_current h (h[p := (h ! p)\<lparr>be_current := x\<rparr>])"
  by (cases "p < length h") (auto simp: same_but_current_def nth_list_update list_update_beyond)

lemma same_but_currentD:
  assumes "same_but_current h h'"
  shows "be_url (h' ! p) = be_url (h ! p)" "be_headers (h' ! p) = be_headers (h ! p)" "be_name (h' ! p) = be_name (h ! p)"
    "usable (h' ! p) = usable (h ! p)"
proof -
  have e: "(h' ! p)\<lparr>be_current := 0\<rparr> = (h ! p)\<lparr>be_current := 0\<rparr>" using assms by (simp add: same_but_current_def)
  from arg_cong [OF e, of be_url] show "be_url (h' ! p) = be_url (h ! p)" by simp
  from arg_cong [OF e, of be_headers] show "be_headers (h' ! p) = be_headers (h ! p)" by simp
  from arg_cong [OF e, of be_name] show "be_name (h' ! p) = be_name (h ! p)" by simp
  from arg_cong [OF e, of usable] show "usable (h' ! p) = usable (h ! p)" by (simp add: usable_def is_healthy_def)
qed

lemma select_loop_same:
  "select_loop es i h tot best bw = (h', tot', r) \<Longrightarrow>
   same_but_current h h' \<and> (r = best \<or> (\<exists>j < length es. r = Some (i + j) \<and> usable (h ! pe_backend (es ! j))))"
proof (induction es i h tot best bw arbitrary: h' tot' r rule: select_loop.induct)
  case (2 e es i h tot best bw)
  let ?b = "h ! pe_backend e"
  show ?case
  proof (cases "usable ?b")
    case False
    then have s: "select_loop es (i + 1) h tot best bw = (h', tot', r)"
      using 2(4) by (auto simp: usable_def not_less split: if_splits)
    from 2(1) [OF refl _ s] False show ?thesis by (force simp: usable_def not_less)
  next
    case True
    let ?c = "i64 (be_current ?b + pe_weight e)"
    let ?h = "h[pe_backend e := ?b\<lparr>be_current := ?c\<rparr>]"
    have u: "\<not> (\<not> is_healthy ?b \<or> be_effective ?b \<le> 0)" using True by (simp add: usable_def)
    have sb: "same_but_current h ?h" by (rule same_but_current_update)
    have IH: "same_but_current ?h h' \<and> (r = (if bw < ?c then Some i else best) \<or>
        (\<exists>j < length es. r = Some (i + 1 + j) \<and> usable (?h ! pe_backend (es ! j))))"
      using 2(2) [OF refl u refl refl refl, of h' tot' r] 2(3) [OF refl u refl refl refl, of h' tot' r] 2(4) u
      by (simp add: Let_def split: if_splits)
    have "\<exists>j < length (e # es). r = Some (i + j) \<and> usable (h ! pe_backend ((e # es) ! j))"
      if "\<exists>j < length es. r = Some (i + 1 + j) \<and> usable (?h ! pe_backend (es ! j))"
    proof -
      from that obtain j where "j < length es" "r = Some (i + 1 + j)" "usable (?h ! pe_backend (es ! j))" by blast
      then show ?thesis by (intro exI [of _ "Suc j"]) (simp add: same_but_currentD [OF sb])
    qed
    moreover have "\<exists>j < length (e # es). r = Some (i + j) \<and> usable (h ! pe_backend ((e # es) ! j))" if "r = Some i"
      using that True by (intro exI [of _ 0]) simp
    ultimately show ?thesis using IH same_but_current_trans [OF sb] by (auto split: if_splits)
  qed
qed (simp add: same_but_current_refl)

lemma select_same:
  "same_but_current h (snd (select es h))"
  "fst (select es h) = Some p \<Longrightarrow> \<exists>e \<in> set es. pe_backend e = p \<and> usable (h ! p)"
proof -
  obtain h' t r where l: "select_loop es 0 h 0 None (- max_int) = (h', t, r)" by (metis prod_cases3)
  note L = select_loop_same [OF l]
  show "same_but_current h (snd (select es h))"
    using L same_but_current_refl same_but_current_trans [OF _ same_but_current_update]
    by (auto simp: select_def l Let_def split: option.split)
  assume "fst (select es h) = Some p"
  then obtain i where "r = Some i" "p = pe_backend (es ! i)"
    by (auto simp: select_def l Let_def split: option.splits if_splits)
  then show "\<exists>e \<in> set es. pe_backend e = p \<and> usable (h ! p)" using L by auto
qed

section \<open>What is forwarded\<close>

lemma answered_simps [simp]:
  "pr_sent (answered h resp) = None" "pr_record (answered h resp) = None" "pr_response (answered h resp) = resp"
  "pr_aborted (answered h resp) = False" "pr_handler (answered h resp) = h"
  by (simp_all add: answered_def)

lemma write_json_error_status [simp]: "rs_status (write_json_error code msg) = code"
  by (simp add: write_json_error_def)

lemma run_proxy_sent: "pr_sent (run_proxy env h ac r model b) = Some (reverse_proxy_request b r)"
  by (simp add: run_proxy_def Let_def split: upstream.split prod.split)

text \<open>The one path on which something is forwarded.\<close>

definition forwards ::
  "proxy_env \<Rightarrow> proxy_handler \<Rightarrow> auth_context option \<Rightarrow> http_request \<Rightarrow> auth_context \<Rightarrow> string \<Rightarrow> pool_entry list
     \<Rightarrow> nat \<Rightarrow> proxy_handler \<Rightarrow> bool" where
  "forwards env h ctx r ac model pool p h' \<longleftrightarrow>
     ctx = Some ac \<and> extract_model_from_request (en_readable env) r = Some model \<and>
     resolve_backend_pool (en_faults env) h ctx model = Inr pool \<and>
     fst (select pool (mg_heap (rv_manager (ph_resolver h)))) = Some p \<and>
     h' = h\<lparr>ph_resolver := (ph_resolver h)\<lparr>rv_manager := (rv_manager (ph_resolver h))
            \<lparr>mg_heap := snd (select pool (mg_heap (rv_manager (ph_resolver h))))\<rparr>\<rparr>\<rparr> \<and>
     can_reach_backend (en_dial env) (mg_heap (rv_manager (ph_resolver h')) ! p)"

lemma proxy_serve_cases:
  obtains (refused) resp h' where "proxy_serve env h ctx r = answered h' resp" "rs_status resp \<in> {400, 401, 403, 404, 500, 502, 503}"
  | (forwarded) ac model pool p h' where "forwards env h ctx r ac model pool p h'"
      "proxy_serve env h ctx r = run_proxy env h' ac r model (mg_heap (rv_manager (ph_resolver h')) ! p)"
proof (cases ctx)
  case None
  then show ?thesis by (intro refused) (auto simp: proxy_serve_def)
next
  case ctx: (Some ac)
  show ?thesis
  proof (cases "extract_model_from_request (en_readable env) r")
    case None
    then show ?thesis by (intro refused) (auto simp: proxy_serve_def ctx)
  next
    case model: (Some model)
    show ?thesis
    proof (cases "resolve_backend_pool (en_faults env) h ctx model")
      case (Inl e)
      then have "res_status e \<in> {403, 404, 500}"
        by (auto simp: resolve_backend_pool_def resolve_def resolve_model_def Let_def model_not_found_def model_denied_def
            model_not_allowed_def bind_res_def split: if_splits option.splits sum.splits)
      then show ?thesis using Inl by (intro refused) (auto simp: proxy_serve_def ctx model)
    next
      case pool: (Inr pool)
      obtain r0 heap where sel: "select pool (mg_heap (rv_manager (ph_resolver h))) = (r0, heap)" by fastforce
      let ?h = "h\<lparr>ph_resolver := (ph_resolver h)\<lparr>rv_manager := (rv_manager (ph_resolver h))\<lparr>mg_heap := heap\<rparr>\<rparr>\<rparr>"
      show ?thesis
      proof (cases r0)
        case None
        have "proxy_serve env h ctx r = answered ?h (write_json_error 503 (no_backend_message model))"
          using pool by (simp add: proxy_serve_def ctx model Let_def sel None)
        then show ?thesis by (rule refused) simp
      next
        case (Some p)
        have e: "proxy_serve env h ctx r = (if \<not> can_reach_backend (en_dial env) (heap ! p)
            then answered ?h (write_json_error 502 ''upstream backend request failed'')
            else run_proxy env ?h ac r model (heap ! p))"
          using pool by (simp add: proxy_serve_def ctx model Let_def sel Some)
        show ?thesis
        proof (cases "can_reach_backend (en_dial env) (heap ! p)")
          case True
          show ?thesis
          proof (rule forwarded)
            show "forwards env h ctx r ac model pool p ?h"
              unfolding forwards_def using True Some pool model by (simp add: ctx sel)
            show "proxy_serve env h ctx r = run_proxy env ?h ac r model (mg_heap (rv_manager (ph_resolver ?h)) ! p)"
              using e True by simp
          qed
        next
          case False
          then have "proxy_serve env h ctx r = answered ?h (write_json_error 502 ''upstream backend request failed'')"
            using e by simp
          then show ?thesis by (rule refused) simp
        qed
      qed
    qed
  qed
qed

text \<open>Which backends a forwarded request may reach.\<close>

lemma default_pool_pointers: "map pe_backend (default_pool m) = mg_backends m"
proof -
  have "map pe_backend (new_pool hp es) = map pe_backend es" for hp es by (simp add: new_pool_def comp_def)
  then show ?thesis by (simp add: default_pool_def comp_def Let_def)
qed

lemma default_pool_addresses: "pe_backend ` set (default_pool m) = set (mg_backends m)"
  using default_pool_pointers by (metis list.set_map)

lemma reverse_proxy_request_fields:
  "px_method (reverse_proxy_request b r) = rq_method r" "px_path (reverse_proxy_request b r) = rq_path r"
  "px_query (reverse_proxy_request b r) = rq_query r" "px_body (reverse_proxy_request b r) = rq_body r"
  "px_host (reverse_proxy_request b r) = u_host (be_url b)" "px_scheme (reverse_proxy_request b r) = u_scheme (be_url b)"
  by (simp_all add: reverse_proxy_request_def director_def Let_def)

text \<open>The backends a user may reach with a model name.\<close>

definition permitted :: "faults \<Rightarrow> proxy_handler \<Rightarrow> auth_context option \<Rightarrow> string \<Rightarrow> backend \<Rightarrow> bool" where
  "permitted flt h ctx model b \<longleftrightarrow>
     (let ov = overrides_of flt (ph_auth h) ctx; name = resolved_name model ov; mgr = rv_manager (ph_resolver h) in
      (\<exists>p \<in> set (mg_backends mgr). b = mg_heap mgr ! p) \<and>
      (model \<noteq> [] \<longrightarrow>
        name \<notin> normalize_model_name ` set (deny_list ov) \<and>
        (allow_list ov = [] \<or> name \<in> normalize_model_name ` set (allow_list ov)) \<and>
        (\<exists>e. gm_get (rv_registry (ph_resolver h)) name = Some e \<and> be_name b \<in> set (re_backends e))))"

lemma pool_permitted:
  assumes "mgr_ok (rv_manager (ph_resolver h))"
    and "\<forall>n e. gm_get (rv_registry (ph_resolver h)) n = Some e \<longrightarrow> distinct (re_backends e)"
    and "resolve_backend_pool flt h ctx model = Inr pool" "e \<in> set pool"
  shows "permitted flt h ctx model (mg_heap (rv_manager (ph_resolver h)) ! pe_backend e)"
proof (cases "model = []")
  case True
  then have "pool = default_pool (rv_manager (ph_resolver h))" using assms(3) by (simp add: resolve_backend_pool_def)
  then have "pe_backend e \<in> set (mg_backends (rv_manager (ph_resolver h)))"
    using assms(4) default_pool_addresses by blast
  then show ?thesis using True by (auto simp: permitted_def Let_def)
next
  case False
  let ?m = "rv_manager (ph_resolver h)" and ?ov = "overrides_of flt (ph_auth h) ctx"
  have "resolve model ?ov (ph_resolver h) = Inr pool" using assms(3) False by (simp add: resolve_backend_pool_def)
  from resolve_pool [OF assms(1,2) this] obtain x where x: "gm_get (rv_registry (ph_resolver h)) (resolved_name model ?ov) = Some x"
    "resolved_name model ?ov \<notin> normalize_model_name ` set (deny_list ?ov)"
    "allow_list ?ov = [] \<or> resolved_name model ?ov \<in> normalize_model_name ` set (allow_list ?ov)"
    "pool_wf pool (mg_heap ?m)" "map (\<lambda>y. be_name (mg_heap ?m ! pe_backend y)) pool = re_backends x" by blast
  have "be_name (mg_heap ?m ! pe_backend e) \<in> set (re_backends x)"
    unfolding x(5) [symmetric] set_map using assms(4) by (intro rev_image_eqI [of e]) simp_all
  moreover have "pe_backend e \<in> set (mg_backends ?m)"
    using resolve_managed [OF assms(1,2) _ assms(4)] assms(3) False by (simp add: resolve_backend_pool_def)
  ultimately show ?thesis using x(1-3) False unfolding permitted_def Let_def by auto
qed

lemma proxy_forwards:
  assumes "mgr_ok (rv_manager (ph_resolver h))"
    and "\<forall>n e. gm_get (rv_registry (ph_resolver h)) n = Some e \<longrightarrow> distinct (re_backends e)"
  shows "(\<forall>q. pr_sent (proxy_serve env h ctx r) = Some q \<longrightarrow>
      (\<exists>model b. ctx \<noteq> None \<and> extract_model_from_request (en_readable env) r = Some model \<and>
         permitted (en_faults env) h ctx model b \<and> usable b \<and> can_reach_backend (en_dial env) b \<and>
         px_scheme q = u_scheme (be_url b) \<and> px_host q = u_host (be_url b) \<and> px_path q = rq_path r \<and>
         px_query q = rq_query r \<and> px_method q = rq_method r \<and> px_body q = rq_body r)) \<and>
    (pr_sent (proxy_serve env h ctx r) = None \<longrightarrow>
       rs_status (pr_response (proxy_serve env h ctx r)) \<in> {400, 401, 403, 404, 500, 502, 503} \<and>
       pr_record (proxy_serve env h ctx r) = None)"
proof (cases rule: proxy_serve_cases [of env h ctx r])
  case (refused resp h')
  then show ?thesis by simp
next
  case (forwarded ac model pool p h')
  note F = forwarded(1) [unfolded forwards_def]
  let ?m = "rv_manager (ph_resolver h)" and ?heap = "mg_heap (rv_manager (ph_resolver h'))"
  have sb: "same_but_current (mg_heap ?m) ?heap" using F select_same(1) [of "mg_heap ?m" pool] by simp
  obtain e where e: "e \<in> set pool" "pe_backend e = p" "usable (mg_heap ?m ! p)" using F select_same(2) by blast
  have pl: "resolve_backend_pool (en_faults env) h ctx model = Inr pool" using F by blast
  note D = same_but_currentD [OF sb, of p]
  have reach: "can_reach_backend (en_dial env) (mg_heap ?m ! p)"
  proof -
    have "can_reach_backend (en_dial env) (?heap ! p)" using F by blast
    then show ?thesis unfolding can_reach_backend_def D(1) .
  qed
  have perm: "permitted (en_faults env) h ctx model (mg_heap ?m ! p)"
    using pool_permitted [OF assms pl e(1)] e(2) by simp
  have sent: "pr_sent (proxy_serve env h ctx r) = Some (reverse_proxy_request (?heap ! p) r)"
    unfolding forwarded(2) by (rule run_proxy_sent)
  have "extract_model_from_request (en_readable env) r = Some model" "ctx \<noteq> None" using F by auto
  with perm e(3) reach show ?thesis
    unfolding sent
    by (intro conjI allI impI exI [of _ model] exI [of _ "mg_heap ?m ! p"])
      (auto simp: reverse_proxy_request_fields D(1))
qed

text \<open>C20: a request is forwarded only for an authenticated user and only where that user may go.  With
  a model name, the name resolves, under the overrides read for this user, to a registered model
  that is neither denied nor outside the allow list, and the request goes to one of the backends
  that the catalog lists for it and the manager has; without one it goes to any managed backend.  The
  backend was usable and accepted a connection.  What it gets has the method, path, query and body of the
  client: the body still names the model as the client wrote it, and the base path of the
  backend's URL is not put in front of the path.  Every other request gets an error answer and
  nothing is forwarded.\<close>

theorem proxy_forwards_permitted:
  assumes "mgr_ok (rv_manager (ph_resolver h))"
    and "\<forall>n e. gm_get (rv_registry (ph_resolver h)) n = Some e \<longrightarrow> distinct (re_backends e)"
  shows "(\<forall>q. pr_sent (proxy_serve env h ctx r) = Some q \<longrightarrow>
      (\<exists>model b. ctx \<noteq> None \<and> extract_model_from_request (en_readable env) r = Some model \<and>
         permitted (en_faults env) h ctx model b \<and> usable b \<and> can_reach_backend (en_dial env) b \<and>
         px_scheme q = u_scheme (be_url b) \<and> px_host q = u_host (be_url b) \<and> px_path q = rq_path r \<and>
         px_query q = rq_query r \<and> px_method q = rq_method r \<and> px_body q = rq_body r)) \<and>
    (pr_sent (proxy_serve env h ctx r) = None \<longrightarrow>
       rs_status (pr_response (proxy_serve env h ctx r)) \<in> {400, 401, 403, 404, 500, 502, 503} \<and>
       pr_record (proxy_serve env h ctx r) = None)"
  by (rule proxy_forwards [OF assms])

text \<open>A record is charged to the key of the request's context.\<close>

lemma proxy_record_key:
  "pr_record (proxy_serve env h (Some ac) r) = Some u \<Longrightarrow> us_key u = ac_key_id ac"
proof (cases rule: proxy_serve_cases [of env h "Some ac" r])
  case (forwarded ac' model pool p h')
  assume "pr_record (proxy_serve env h (Some ac) r) = Some u"
  then show ?thesis using forwarded
    by (auto simp: forwards_def run_proxy_def log_usage_def Let_def split: upstream.splits prod.splits if_splits)
qed simp

text \<open>What a request changes of the handler: the counters of the pool it selected from.\<close>

lemma run_proxy_handler [simp]: "pr_handler (run_proxy env h ac r model b) = h"
  by (simp add: run_proxy_def Let_def answered_def split: upstream.split prod.split)

lemma proxy_handler_after:
  "pr_handler (proxy_serve env h ctx r) = h \<or>
   (\<exists>es. pr_handler (proxy_serve env h ctx r) = h\<lparr>ph_resolver := (ph_resolver h)\<lparr>rv_manager :=
      (rv_manager (ph_resolver h))\<lparr>mg_heap := snd (select es (mg_heap (rv_manager (ph_resolver h))))\<rparr>\<rparr>\<rparr>)"
proof (cases rule: proxy_serve_cases [of env h ctx r])
  case (forwarded ac model pool p h')
  then show ?thesis by (auto simp: forwards_def intro: exI [of _ pool])
next
  case (refused resp h')
  show ?thesis
    by (auto simp: proxy_serve_def answered_def Let_def split: option.split sum.split prod.split) (metis snd_conv)+
qed

text \<open>The overrides are read once per request, and a failure to read them is not an error: when the
  database cannot be read, a user is treated as one without a deny or allow list.\<close>

lemma overrides_fail_open:
  "as_db st = Some d \<Longrightarrow> flt 0 \<Longrightarrow> overrides_of flt (Some st) (Some ac) = from_user_config None"
  by (simp add: overrides_of_def get_user_config_def)

section \<open>Headers of the backend\<close>









section \<open>Usage records\<close>

definition generation_route :: "string \<Rightarrow> bool" where
  "generation_route path \<longleftrightarrow> has_prefix path ''/api/generate'' \<or> has_prefix path ''/api/chat''"

text \<open>What a body that is one JSON object is billed.\<close>

definition billed :: "string \<Rightarrow> usage_stats" where
  "billed body = (let st = extract_non_streaming_usage body in
     if 0 < st_prompt st \<or> 0 < st_eval st then st else zero_usage)"

lemma streaming_generation: "is_streaming_generate r \<Longrightarrow> generation_route (rq_path r)"
  by (auto simp: is_streaming_generate_def generation_route_def split: if_splits)

lemma capture_stats_simps [simp]:
  "capture_stats new_capture = zero_usage" "capture_stats (set_stats st w) = st"
  by (simp_all add: capture_stats_def new_capture_def zero_usage_def set_stats_def)

lemma modify_response_complete:
  "generation_route path \<Longrightarrow> modify_response path chunks True (Some new_capture) =
     ([concat chunks], True, Some (if billed (concat chunks) = zero_usage then new_capture
        else set_stats (billed (concat chunks)) new_capture))"
  by (auto simp: modify_response_def generation_route_def billed_def Let_def zero_usage_def)

lemma log_usage_Some:
  "log_usage h key url now elapsed model sri = Some u \<Longrightarrow>
     us_key u = key \<and> us_model u = model \<and> us_backend u = url \<and>
     (us_prompt u, us_completion u) =
       (case sri of Some w \<Rightarrow> (st_prompt (capture_stats w), st_eval (capture_stats w)) | None \<Rightarrow> (0, 0)) \<and>
     us_cost u = (case ph_pricing h of Some pc \<Rightarrow> calculate_cost pc model (us_prompt u) (us_completion u) | None \<Rightarrow> 0)"
  by (auto simp: log_usage_def Let_def zero_usage_def split: if_splits option.splits)

lemma log_usage_None: "log_usage h key url now elapsed model sri = None \<longleftrightarrow> \<not> ph_logger h"
  by (simp add: log_usage_def Let_def)

text \<open>The counts of the record, by what the backend answered.\<close>

definition recorded_counts :: "http_request \<Rightarrow> upstream \<Rightarrow> int \<times> int" where
  "recorded_counts r up =
     (case up of
        UpstreamDown \<Rightarrow> (0, 0)
      | UpstreamReply code hs chunks whole \<Rightarrow>
          if \<not> generation_route (rq_path r) \<or> \<not> whole then (0, 0)
          else if \<not> is_streaming_generate r then (st_prompt (billed (concat chunks)), st_eval (billed (concat chunks)))
          else (let w = (if billed (concat chunks) = zero_usage then new_capture else set_stats (billed (concat chunks)) new_capture);
                    st = capture_stats (capture_body [concat chunks] w)
                in (st_prompt st, st_eval st)))"

lemma capture_body_Nil: "capture_body [] w = w"
  by (simp add: capture_body_def)

lemma run_proxy_record:
  assumes "pr_record (run_proxy env h ac r model b) = Some u"
  shows "us_key u = ac_key_id ac \<and> us_model u = model \<and> us_backend u = url_string (be_url b) \<and>
     (us_prompt u, us_completion u) = recorded_counts r (en_upstream env (reverse_proxy_request b r)) \<and>
     us_cost u = (case ph_pricing h of Some pc \<Rightarrow> calculate_cost pc model (us_prompt u) (us_completion u) | None \<Rightarrow> 0)"
proof -
  let ?sri = "if is_streaming_generate r \<or> generation_route (rq_path r) then Some new_capture else None"
  let ?log = "log_usage h (ac_key_id ac) (url_string (be_url b)) (en_now env) (en_elapsed env) model"
  show ?thesis
  proof (cases "en_upstream env (reverse_proxy_request b r)")
    case UpstreamDown
    then have "?log ?sri = Some u" using assms by (simp add: run_proxy_def Let_def generation_route_def)
    from log_usage_Some [OF this] show ?thesis
      by (auto simp: UpstreamDown recorded_counts_def zero_usage_def split: if_splits)
  next
    case (UpstreamReply code hs chunks whole)
    obtain body ok sri' where m: "modify_response (rq_path r) chunks whole ?sri = (body, ok, sri')" by (metis prod_cases3)
    let ?w = "if is_streaming_generate r then map_option (capture_body body) sri' else sri'"
    have l: "?log ?w = Some u" using assms m UpstreamReply
      by (auto simp: run_proxy_def Let_def generation_route_def split: if_splits)
    have c: "(case ?w of Some w \<Rightarrow> (st_prompt (capture_stats w), st_eval (capture_stats w)) | None \<Rightarrow> (0, 0))
        = recorded_counts r (en_upstream env (reverse_proxy_request b r))"
    proof (cases "generation_route (rq_path r)")
      case False
      then show ?thesis using m streaming_generation [of r]
        by (auto simp: UpstreamReply recorded_counts_def modify_response_def generation_route_def)
    next
      case gen: True
      show ?thesis
      proof (cases whole)
        case True
        then show ?thesis using m gen modify_response_complete [OF gen, of chunks]
          by (auto simp: UpstreamReply recorded_counts_def Let_def zero_usage_def)
      next
        case False
        then have "body = [] \<and> sri' = Some new_capture" using m gen by (auto simp: modify_response_def generation_route_def)
        then show ?thesis using gen False
          by (simp add: UpstreamReply recorded_counts_def zero_usage_def capture_body_Nil)
      qed
    qed
    from log_usage_Some [OF l] show ?thesis unfolding c by blast
  qed
qed

text \<open>
  The count that a member of a JSON object stands for, from the decoded answer alone: the last member with that name, when
  it is a number, with its fraction cut off; zero when there is none or it is no number.  A number outside of
  64 bits stands for no count.
\<close>

definition member_count :: "(string \<times> json) list \<Rightarrow> string \<Rightarrow> int \<Rightarrow> bool" where
  "member_count kvs k n \<longleftrightarrow>
     (case map_of (rev kvs) k of
        Some (JNum lit x) \<Rightarrow> n = (if 0 \<le> x then \<lfloor>x\<rfloor> else \<lceil>x\<rceil>) \<and> - (2 ^ 63) \<le> n \<and> n < 2 ^ 63
      | _ \<Rightarrow> n = 0)"

text \<open>A request asks for a stream: it posts an object to the generate route whose last flag named stream, in any case, is true.\<close>

definition asks_stream :: "http_request \<Rightarrow> bool" where
  "asks_stream r \<longleftrightarrow> rq_method r = ''POST'' \<and> has_prefix (rq_path r) ''/api/generate'' \<and>
     (\<exists>pre k post. json_parse (rq_body r) = Some (JObj (pre @ (k, JBool True) # post)) \<and> to_lower k = ''stream'' \<and>
        (\<forall>k' v. (k', v) \<in> set post \<and> to_lower k' = ''stream'' \<longrightarrow> v \<noteq> JNull \<and> (\<forall>b. v \<noteq> JBool b)))"

lemma bool_field_snoc: "bool_field_of name (kvs @ [(k, v)]) =
    (if equal_fold k name then (case v of JBool c \<Rightarrow> Some c | JNull \<Rightarrow> None | _ \<Rightarrow> bool_field_of name kvs) else bool_field_of name kvs)"
  by (cases v) (simp_all add: bool_field_of_def)

lemma bool_field_True:
  assumes low: "\<And>k. equal_fold k name \<longleftrightarrow> to_lower k = low"
  shows "bool_field_of name kvs = Some True \<longleftrightarrow> (\<exists>pre k post. kvs = pre @ (k, JBool True) # post \<and> to_lower k = low \<and>
     (\<forall>k' v. (k', v) \<in> set post \<and> to_lower k' = low \<longrightarrow> v \<noteq> JNull \<and> (\<forall>b. v \<noteq> JBool b)))" (is "_ \<longleftrightarrow> ?spec kvs")
proof (induction kvs rule: rev_induct)
  case Nil
  then show ?case by (simp add: bool_field_of_def)
next
  case (snoc x kvs)
  obtain k v where x: "x = (k, v)" by (cases x)
  have keep: "?spec (kvs @ [(k, v)]) \<longleftrightarrow> ?spec kvs" if "to_lower k = low \<longrightarrow> v \<noteq> JNull \<and> (\<forall>b. v \<noteq> JBool b)"
  proof
    assume "?spec kvs"
    then obtain pre k1 post where "kvs = pre @ (k1, JBool True) # post" "to_lower k1 = low"
      "\<forall>k' v. (k', v) \<in> set post \<and> to_lower k' = low \<longrightarrow> v \<noteq> JNull \<and> (\<forall>b. v \<noteq> JBool b)" by blast
    then show "?spec (kvs @ [(k, v)])"
      using that by (intro exI [of _ pre] exI [of _ k1] exI [of _ "post @ [(k, v)]"]) auto
  next
    assume "?spec (kvs @ [(k, v)])"
    then obtain pre k1 post where s: "kvs @ [(k, v)] = pre @ (k1, JBool True) # post" "to_lower k1 = low"
      "\<forall>k' v. (k', v) \<in> set post \<and> to_lower k' = low \<longrightarrow> v \<noteq> JNull \<and> (\<forall>b. v \<noteq> JBool b)" by blast
    then have "post \<noteq> []" using that by (cases post) auto
    then obtain p where p: "post = p @ [(k, v)]" using s(1) by (cases post rule: rev_cases) auto
    then show "?spec kvs" using s by (intro exI [of _ pre] exI [of _ k1] exI [of _ p]) auto
  qed
  have here: "?spec (kvs @ [(k, JBool True)])" if "to_lower k = low"
    using that by (intro exI [of _ kvs] exI [of _ k] exI [of _ "[]"]) simp
  have gone: "\<not> ?spec (kvs @ [(k, w)])" if "to_lower k = low" "w = JNull \<or> w = JBool False" for w
  proof
    assume "?spec (kvs @ [(k, w)])"
    then obtain pre k1 post where s: "kvs @ [(k, w)] = pre @ (k1, JBool True) # post"
      "\<forall>k' v. (k', v) \<in> set post \<and> to_lower k' = low \<longrightarrow> v \<noteq> JNull \<and> (\<forall>b. v \<noteq> JBool b)" by blast
    then show False using that by (cases post rule: rev_cases) auto
  qed
  show ?case
  proof (cases "to_lower k = low \<and> (v = JNull \<or> (\<exists>b. v = JBool b))")
    case True
    then consider "v = JNull" | "v = JBool True" | "v = JBool False" by (metis (full_types))
    then show ?thesis
    proof cases
      case 2
      then have "bool_field_of name (kvs @ [(k, v)]) = Some True" using True by (simp add: bool_field_snoc low)
      then show ?thesis using here True 2 unfolding x by blast
    next
      case 1
      then have "bool_field_of name (kvs @ [(k, v)]) \<noteq> Some True" using True by (simp add: bool_field_snoc low)
      moreover have "\<not> ?spec (kvs @ [(k, v)])" by (rule gone) (use True 1 in simp_all)
      ultimately show ?thesis unfolding x by blast
    next
      case 3
      then have "bool_field_of name (kvs @ [(k, v)]) \<noteq> Some True" using True by (simp add: bool_field_snoc low)
      moreover have "\<not> ?spec (kvs @ [(k, v)])" by (rule gone) (use True 3 in simp_all)
      ultimately show ?thesis unfolding x by blast
    qed
  next
    case False
    then have "bool_field_of name (kvs @ [(k, v)]) = bool_field_of name kvs"
      unfolding bool_field_snoc low by (cases v) auto
    then show ?thesis using False keep snoc by (simp add: x)
  qed
qed

lemma streaming_asked: "is_streaming_generate r \<longleftrightarrow> asks_stream r"
proof -
  have "equal_fold k ''stream'' \<longleftrightarrow> to_lower k = ''stream''" for k
  proof -
    have "to_lower ''stream'' = ''stream''" by code_simp
    then show ?thesis by (simp add: equal_fold_def)
  qed
  note B = bool_field_True [of "''stream''" "''stream''", OF this]
  show ?thesis
    by (auto simp: is_streaming_generate_def asks_stream_def B split: option.splits json.splits)
qed

text \<open>What is billed for a body that is one JSON object, and for one that is not.\<close>

lemma unmarshal_member:
  "json_parse body = Some (JObj kvs) \<Longrightarrow> unmarshal_any_map body = Some m \<Longrightarrow> gm_get m k = map_of (rev kvs) k"
proof -
  assume "json_parse body = Some (JObj kvs)" "unmarshal_any_map body = Some m"
  then have m: "m = fold (\<lambda>(k, v) m. gm_put k v m) kvs []" by (simp add: unmarshal_any_map_def)
  have "gm_get (fold (\<lambda>(k, v) m. gm_put k v m) kvs m0) k = (case map_of (rev kvs) k of Some v \<Rightarrow> Some v | None \<Rightarrow> gm_get m0 k)" for m0
    by (induction kvs arbitrary: m0) (auto simp: map_add_def split: option.split)
  from this [of "[]"] show ?thesis by (simp add: m gm_get_def split: option.split)
qed

lemma member_count_number:
  assumes "json_parse body = Some (JObj kvs)" "unmarshal_any_map body = Some m" "member_count kvs k n"
  shows "n = (case number_member m k of Some x \<Rightarrow> x | None \<Rightarrow> 0)"
  using assms(3) unmarshal_member [OF assms(1,2), of k]
  by (auto simp: member_count_def number_member_def f64_to_int_def Let_def split: option.splits json.splits)

lemma billed_object:
  assumes "json_parse body = Some (JObj kvs)" "member_count kvs ''prompt_eval_count'' p" "member_count kvs ''eval_count'' c"
  shows "billed body = (if 0 < p \<or> 0 < c then \<lparr>st_prompt = p, st_eval = c\<rparr> else zero_usage)"
proof -
  obtain m where m: "unmarshal_any_map body = Some m" using assms(1) by (simp add: unmarshal_any_map_def)
  show ?thesis
    using member_count_number [OF assms(1) m assms(2)] member_count_number [OF assms(1) m assms(3)]
    by (simp add: billed_def extract_non_streaming_usage_def m Let_def)
qed

lemma billed_other: "(\<nexists>kvs. json_parse body = Some (JObj kvs)) \<Longrightarrow> billed body = zero_usage"
proof (cases "unmarshal_any_map body")
  case (Some m)
  moreover assume "\<nexists>kvs. json_parse body = Some (JObj kvs)"
  ultimately have "m = []" by (auto simp: unmarshal_any_map_def split: option.splits json.splits)
  then show ?thesis using Some by (simp add: billed_def extract_non_streaming_usage_def number_member_def zero_usage_def gm_get_def)
qed (simp add: billed_def extract_non_streaming_usage_def zero_usage_def)

lemma capture_body_tail:
  assumes "CHR 0x0A \<notin> set body"
  shows "capture_stats (capture_body [body] (set_stats st new_capture)) = st" "capture_stats (capture_body [body] new_capture) = zero_usage"
  using assms capture_lines [of "[]" body] capture_body_concat [of "set_stats st new_capture" "[body]"] capture_body_concat [of new_capture "[body]"]
  by (simp_all add: parse_for_usage_def lines_def set_stats_def new_capture_def capture_stats_def zero_usage_def)

text \<open>C21: a forwarded request is recorded exactly once, unless there is no logger or the copy to the
  client breaks off, and then not at all.  The record names the authenticated user, the model as it
  was requested, the backend that got the request, and a cost within rounding of the exact price of its counts at the prices of that model, or zero without
  a price list.  The counts are told from the backend's answer alone: a complete answer on a generation route that is one JSON object counts by its own
  \<open>prompt_eval_count\<close> and \<open>eval_count\<close>, as they are, unless neither is positive (for a request that asked for a stream, when the object is on one line without end);
  a stream that the client asked for with \<open>stream: true\<close> counts by its lines;
  but a stream that the backend sends by default, on the chat route or without \<open>stream\<close>, is not one
  JSON object and is recorded with no tokens; and so are other routes, backends that do not answer, and incomplete answers.\<close>

theorem proxy_usage_record:
  assumes "pr_sent (proxy_serve env h ctx r) = Some q"
  shows "\<exists>ac model b. ctx = Some ac \<and> extract_model_from_request (en_readable env) r = Some model \<and>
     q = reverse_proxy_request b r \<and>
     (pr_record (proxy_serve env h ctx r) = None \<longleftrightarrow> \<not> ph_logger h \<or> pr_aborted (proxy_serve env h ctx r)) \<and>
     (\<forall>u. pr_record (proxy_serve env h ctx r) = Some u \<longrightarrow>
        us_key u = ac_key_id ac \<and> us_model u = model \<and> us_backend u = url_string (be_url b) \<and>
        (ph_pricing h = None \<longrightarrow> us_cost u = 0) \<and>
        (\<forall>pc. ph_pricing h = Some pc \<and> rates_ok pc \<and> 0 \<le> us_prompt u \<and> 0 \<le> us_completion u \<longrightarrow>
           \<bar>us_cost u - exact_cost pc model (us_prompt u) (us_completion u)\<bar>
             \<le> cost_slack (exact_cost pc model (us_prompt u) (us_completion u))) \<and>
        (en_upstream env q = UpstreamDown \<longrightarrow> (us_prompt u, us_completion u) = (0, 0)) \<and>
        (\<forall>code hs chunks whole. en_upstream env q = UpstreamReply code hs chunks whole \<longrightarrow>
           (\<not> generation_route (rq_path r) \<or> \<not> whole \<longrightarrow> (us_prompt u, us_completion u) = (0, 0)) \<and>
           (\<forall>kvs p c. generation_route (rq_path r) \<and> whole \<and> json_parse (concat chunks) = Some (JObj kvs) \<and>
              (\<not> asks_stream r \<or> CHR 0x0A \<notin> set (concat chunks)) \<and>
              member_count kvs ''prompt_eval_count'' p \<and> member_count kvs ''eval_count'' c \<longrightarrow>
              (us_prompt u, us_completion u) = (if 0 < p \<or> 0 < c then (p, c) else (0, 0))) \<and>
           (\<not> asks_stream r \<and> (\<nexists>kvs. json_parse (concat chunks) = Some (JObj kvs)) \<longrightarrow>
              (us_prompt u, us_completion u) = (0, 0)) \<and>
           (asks_stream r \<and> whole \<and> (\<nexists>kvs. json_parse (concat chunks) = Some (JObj kvs)) \<longrightarrow>
              (\<forall>ls l. concat chunks = lines ls @ l \<and> (\<forall>x \<in> set (l # ls). CHR 0x0A \<notin> set x) \<longrightarrow>
                 us_prompt u = first_nonzero (concat (map (line_count ''prompt_eval_count'') ls)) \<and>
                 us_completion u = last_or 0 (concat (map (line_count ''eval_count'') ls))))))"
proof (cases rule: proxy_serve_cases [of env h ctx r])
  case (refused resp h')
  then show ?thesis using assms by simp
next
  case (forwarded ac model pool p h')
  note F = forwarded(1) [unfolded forwards_def]
  let ?b = "mg_heap (rv_manager (ph_resolver h')) ! p"
  have q: "q = reverse_proxy_request ?b r" using assms unfolding forwarded(2) run_proxy_sent by simp
  have ph: "ph_logger h' = ph_logger h" "ph_pricing h' = ph_pricing h" using F by auto
  have none: "pr_record (run_proxy env h' ac r model ?b) = None \<longleftrightarrow> \<not> ph_logger h \<or> pr_aborted (run_proxy env h' ac r model ?b)"
    by (auto simp: run_proxy_def Let_def log_usage_None ph split: upstream.split prod.split)
  have stream: "capture_stats (capture_body [concat cs] new_capture) =
       \<lparr>st_prompt = first_nonzero (concat (map (line_count ''prompt_eval_count'') ls)),
        st_eval = last_or 0 (concat (map (line_count ''eval_count'') ls))\<rparr>"
    if "concat cs = lines ls @ l" "\<forall>x \<in> set (l # ls). CHR 0x0A \<notin> set x" for cs ls l
    using capture_body_lines [of "[concat cs]" ls l] that by simp
  show ?thesis
    unfolding forwarded(2)
  proof (intro exI conjI allI impI)
    show "ctx = Some ac" "extract_model_from_request (en_readable env) r = Some model" "q = reverse_proxy_request ?b r" using F q by blast+
    show "pr_record (run_proxy env h' ac r model ?b) = None \<longleftrightarrow> \<not> ph_logger h \<or> pr_aborted (run_proxy env h' ac r model ?b)"
      by (rule none)
    fix u assume "pr_record (run_proxy env h' ac r model ?b) = Some u"
    note R = run_proxy_record [OF this, folded q, unfolded ph]
    from R show "us_key u = ac_key_id ac" "us_model u = model" "us_backend u = url_string (be_url ?b)" by blast+
    have cost: "us_cost u = (case ph_pricing h of Some pc \<Rightarrow> calculate_cost pc model (us_prompt u) (us_completion u) | None \<Rightarrow> 0)"
      using R by blast
    then show "us_cost u = 0" if "ph_pricing h = None" using that by simp
    show "\<bar>us_cost u - exact_cost pc model (us_prompt u) (us_completion u)\<bar>
        \<le> cost_slack (exact_cost pc model (us_prompt u) (us_completion u))"
      if "ph_pricing h = Some pc \<and> rates_ok pc \<and> 0 \<le> us_prompt u \<and> 0 \<le> us_completion u" for pc
      using cost_near_exact [of pc "us_prompt u" "us_completion u" model] that by (simp add: cost)
    have C: "(us_prompt u, us_completion u) = recorded_counts r (en_upstream env q)" using R by blast
    show "(us_prompt u, us_completion u) = (0, 0)" if "en_upstream env q = UpstreamDown"
      using C that by (simp add: recorded_counts_def)
    fix code hs chunks whole assume up: "en_upstream env q = UpstreamReply code hs chunks whole"
    note C = C [unfolded up recorded_counts_def upstream.case streaming_asked]
    show "(us_prompt u, us_completion u) = (0, 0)" if "\<not> generation_route (rq_path r) \<or> \<not> whole"
      unfolding C using that by auto
    show "(us_prompt u, us_completion u) = (if 0 < p \<or> 0 < c then (p, c) else (0, 0))"
      if "generation_route (rq_path r) \<and> whole \<and> json_parse (concat chunks) = Some (JObj kvs) \<and>
        (\<not> asks_stream r \<or> CHR 0x0A \<notin> set (concat chunks)) \<and>
        member_count kvs ''prompt_eval_count'' p \<and> member_count kvs ''eval_count'' c" for kvs p c
    proof -
      have b: "billed (concat chunks) = (if 0 < p \<or> 0 < c then \<lparr>st_prompt = p, st_eval = c\<rparr> else zero_usage)"
        using billed_object that by blast
      have w: "\<lparr>st_prompt = p, st_eval = c\<rparr> = zero_usage \<longleftrightarrow> p = 0 \<and> c = 0" by (simp add: zero_usage_def)
      show ?thesis
      proof (cases "asks_stream r")
        case True
        then show ?thesis unfolding C b using that capture_body_tail [of "concat chunks"]
          by (auto simp: Let_def w zero_usage_def)
      next
        case False
        then show ?thesis unfolding C b using that by (simp add: zero_usage_def)
      qed
    qed
    show "(us_prompt u, us_completion u) = (0, 0)"
      if "\<not> asks_stream r \<and> (\<nexists>kvs. json_parse (concat chunks) = Some (JObj kvs))"
      unfolding C using that billed_other by (simp add: zero_usage_def)
    fix ls l assume s: "asks_stream r \<and> whole \<and> (\<nexists>kvs. json_parse (concat chunks) = Some (JObj kvs))"
      "concat chunks = lines ls @ l \<and> (\<forall>x \<in> set (l # ls). CHR 0x0A \<notin> set x)"
    have "billed (concat chunks) = zero_usage" by (rule billed_other) (use s in blast)
    then have "(us_prompt u, us_completion u) =
        (st_prompt (capture_stats (capture_body [concat chunks] new_capture)), st_eval (capture_stats (capture_body [concat chunks] new_capture)))"
      unfolding C using s(1) streaming_generation [of r, unfolded streaming_asked] by (simp add: Let_def)
    then show "us_prompt u = first_nonzero (concat (map (line_count ''prompt_eval_count'') ls))"
      "us_completion u = last_or 0 (concat (map (line_count ''eval_count'') ls))"
      unfolding stream [OF conjunct1 [OF s(2)] conjunct2 [OF s(2)]] by simp_all
  qed
qed

section \<open>An example\<close>

text \<open>A chat request without \<open>stream\<close>, which Ollama answers with a stream: it is recorded, with no tokens.\<close>

definition sample_handler :: proxy_handler where
  "sample_handler = \<lparr>ph_resolver = sample_resolver, ph_auth = None, ph_logger = True, ph_pricing = None\<rparr>"

definition sample_context :: auth_context where
  "sample_context = \<lparr>ac_key_id = ''alice'', ac_key_name = ''alice'', ac_is_admin = False\<rparr>"

definition sample_stream :: string where
  "sample_stream = ''{'' @ [CHR 0x22] @ ''eval_count'' @ [CHR 0x22] @ '':5}'' @ [CHR 0x0A] @ ''{}'' @ [CHR 0x0A]"

definition sample_env :: proxy_env where
  "sample_env = \<lparr>en_readable = True, en_faults = no_faults, en_dial = (\<lambda>_ _. True),
     en_upstream = (\<lambda>_. UpstreamReply 200 [] [sample_stream] True),
     en_client_stays = True, en_now = ''2025-01-15T14:30:00Z'', en_elapsed = 1000000\<rparr>"

definition chat_request :: http_request where
  "chat_request = \<lparr>rq_method = ''POST'', rq_path = ''/api/chat'', rq_query = [], rq_headers = [],
     rq_remote = ''10.0.0.1:5000'',
     rq_body = ''{'' @ [CHR 0x22] @ ''model'' @ [CHR 0x22] @ '':'' @ [CHR 0x22] @ ''m'' @ [CHR 0x22] @ ''}''\<rparr>"

lemma chat_model: "extract_model_from_request True chat_request = Some ''m''"
  by code_simp

lemma chat_not_streaming: "\<not> is_streaming_generate chat_request"
  by code_simp

lemma chat_pool:
  "\<exists>p. resolve ''m'' (from_user_config None) sample_resolver = Inr p \<and>
     (\<exists>i heap. select p (mg_heap (rv_manager sample_resolver)) = (Some i, heap))"
  by (simp add: resolve_def resolve_model_def sample_resolver_def sample_registry_def registry_get_def gm_get_Cons
      from_user_config_def resolved_name_plain no_alias_def Let_def pool_for_model_def sample_manager_def
      ref_weight_for_def new_pool_def select_def default_model_weight_def sample_backend_def is_healthy_def
      i64_def max_int_def)

lemma sample_forwards_any:
  "\<exists>q. pr_sent (proxy_serve (sample_env\<lparr>en_upstream := f\<rparr>) sample_handler (Some sample_context) chat_request) = Some q"
proof -
  obtain p i heap where p: "resolve ''m'' (from_user_config None) sample_resolver = Inr p"
    "select p (mg_heap (rv_manager sample_resolver)) = (Some i, heap)" using chat_pool by blast
  have e: "en_readable (sample_env\<lparr>en_upstream := f\<rparr>) = True" "ph_resolver sample_handler = sample_resolver"
    "overrides_of flt (ph_auth sample_handler) ctx = from_user_config None"
    "\<And>b. can_reach_backend (en_dial sample_env) b" for flt ctx
    by (simp_all add: sample_env_def sample_handler_def overrides_of_def can_reach_backend_def Let_def)
  show ?thesis
    using p by (simp add: proxy_serve_def chat_model resolve_backend_pool_def e Let_def run_proxy_sent)
qed

lemma sample_forwards: "\<exists>q. pr_sent (proxy_serve sample_env sample_handler (Some sample_context) chat_request) = Some q"
  using sample_forwards_any [of "en_upstream sample_env"] by simp

lemma sample_resolver_distinct: "\<forall>n e. gm_get (rv_registry sample_resolver) n = Some e \<longrightarrow> distinct (re_backends e)"
  by (auto simp: sample_resolver_def sample_registry_def gm_get_Cons)

theorem proxy_forwards_permitted_witness:
  "\<exists>q. pr_sent (proxy_serve sample_env sample_handler (Some sample_context) chat_request) = Some q \<and> px_path q = ''/api/chat''"
proof -
  have "mgr_ok (rv_manager (ph_resolver sample_handler))"
    by (simp add: sample_handler_def sample_resolver_def sample_manager_ok)
  moreover have "\<forall>n e. gm_get (rv_registry (ph_resolver sample_handler)) n = Some e \<longrightarrow> distinct (re_backends e)"
    using sample_resolver_distinct by (simp add: sample_handler_def)
  moreover obtain q where q: "pr_sent (proxy_serve sample_env sample_handler (Some sample_context) chat_request) = Some q"
    using sample_forwards by blast
  ultimately have "px_path q = rq_path chat_request"
    using proxy_forwards_permitted [of sample_handler sample_env "Some sample_context" chat_request] by blast
  then show ?thesis using q by (simp add: chat_request_def)
qed

text \<open>An answer that is one object with three prompt tokens and five generated ones.\<close>

definition sample_answer :: string where
  "sample_answer = ''{'' @ [CHR 0x22] @ ''prompt_eval_count'' @ [CHR 0x22] @ '':3,'' @ [CHR 0x22] @ ''eval_count'' @ [CHR 0x22] @ '':5}''"

lemma sample_answer_numbers:
  "json_num (''3,'' @ s) = Some (3, '','' @ s)" "json_num ''5}'' = Some (5, ''}'')"
proof -
  have "take_digits (''3,'' @ s) = (''3'', '','' @ s)" "take_digits ''5}'' = (''5'', ''}'')" "dec_nat ''3'' = 3" "dec_nat ''5'' = 5"
    by (code_simp, code_simp, code_simp, code_simp)
  then show "json_num (''3,'' @ s) = Some (3, '','' @ s)" "json_num ''5}'' = Some (5, ''}'')"
    by (simp_all add: json_num_def Let_def has_prefix_Cons fl64_numeral)
qed

lemma sample_answer_parsed:
  "\<exists>a b. json_parse sample_answer = Some (JObj [(''prompt_eval_count'', JNum a 3), (''eval_count'', JNum b 5)])"
  using sample_answer_numbers
  by (simp add: sample_answer_def json_parse_def has_prefix_Cons skip_ws_def json_ws_def eval_nat_numeral Let_def)

theorem proxy_usage_record_witness:
  "\<exists>u. pr_record (proxy_serve (sample_env\<lparr>en_upstream := \<lambda>_. UpstreamReply 200 [] [sample_answer] True\<rparr>)
      sample_handler (Some sample_context) chat_request) = Some u \<and>
     us_key u = ''alice'' \<and> us_prompt u = 3 \<and> us_completion u = 5"
proof -
  let ?env = "sample_env\<lparr>en_upstream := \<lambda>_. UpstreamReply 200 [] [sample_answer] True\<rparr>"
  let ?res = "proxy_serve ?env sample_handler (Some sample_context) chat_request"
  obtain q where q: "pr_sent ?res = Some q" using sample_forwards_any by blast
  have up: "en_upstream ?env q = UpstreamReply 200 [] [sample_answer] True" "ph_logger sample_handler"
    by (simp_all add: sample_handler_def)
  have na: "\<not> pr_aborted ?res"
  proof (cases rule: proxy_serve_cases [of ?env sample_handler "Some sample_context" chat_request])
    case (forwarded ac model pool p h')
    then show ?thesis
      by (auto simp: run_proxy_def sample_env_def modify_response_def Let_def split: prod.split)
  qed simp
  obtain a b where body: "json_parse (concat [sample_answer]) = Some (JObj [(''prompt_eval_count'', JNum a 3), (''eval_count'', JNum b 5)])"
    using sample_answer_parsed by auto
  let ?kvs = "[(''prompt_eval_count'', JNum a 3), (''eval_count'', JNum b 5)]"
  have m: "member_count ?kvs ''prompt_eval_count'' 3" "member_count ?kvs ''eval_count'' 5" by (simp_all add: member_count_def)
  have g: "generation_route (rq_path chat_request)" "\<not> asks_stream chat_request"
    using chat_not_streaming by (simp_all add: streaming_asked generation_route_def chat_request_def has_prefix_Cons)
  have one: "generation_route (rq_path chat_request) \<and> True \<and> json_parse (concat [sample_answer]) = Some (JObj ?kvs) \<and>
      (\<not> asks_stream chat_request \<or> CHR 0x0A \<notin> set (concat [sample_answer])) \<and>
      member_count ?kvs ''prompt_eval_count'' 3 \<and> member_count ?kvs ''eval_count'' 5"
    using g body m by blast
  from proxy_usage_record [OF q] show ?thesis
  proof (elim exE, goal_cases)
    case (1 ac model b)
    have "pr_record ?res \<noteq> None"
      using 1 [THEN conjunct2, THEN conjunct2, THEN conjunct2, THEN conjunct1] na up(2) by blast
    then obtain u where u: "pr_record ?res = Some u" by blast
    note U = 1 [THEN conjunct2, THEN conjunct2, THEN conjunct2, THEN conjunct2, THEN spec, THEN mp, OF u]
    note A = U [THEN conjunct2, THEN conjunct2, THEN conjunct2, THEN conjunct2, THEN conjunct2, THEN conjunct2,
        THEN spec, THEN spec, THEN spec, THEN spec, THEN mp, OF up(1), THEN conjunct2, THEN conjunct1,
        THEN spec, THEN spec, THEN spec, THEN mp, OF one]
    have "ac_key_id ac = ''alice''" using 1 [THEN conjunct1] by (auto simp: sample_context_def)
    then show ?thesis using u A U [THEN conjunct1] by (intro exI [of _ u]) simp
  qed
qed

end
