(* ===== verification/TlsRuntime.thy ===== *)
theory TlsRuntime
  imports Float64 ApiKey
begin

text \<open>
  Package \<open>tlsruntime\<close>: the certificate manager, which reloads a certificate pair when its files
  change, and the provider that swaps managers and starts and cancels their watchers.  Files are a
  map from paths to contents; \<open>kp\<close> is \<open>tls.X509KeyPair\<close> (the DER chain of a matching pair) and
  \<open>px\<close> is \<open>x509.ParseCertificate\<close> (here: the \<open>NotAfter\<close> time of a certificate).  Managers are
  shared by pointers, so they live on a heap; times and durations are nanoseconds.
\<close>

section \<open>Manager\<close>

record tls_certificate =
  tc_chain :: "string list"
  tc_not_after :: int

record tls_manager =
  tm_cert_path :: string
  tm_key_path :: string
  tm_check_interval :: int
  tm_warning_days :: int
  tm_cert :: "tls_certificate option"
  tm_last_reload_at :: int
  tm_expires_at :: int
  tm_fingerprint :: "string option"

record tls_status =
  ts_cert_path :: string
  ts_key_path :: string
  ts_check_interval :: int
  ts_warning_days :: int
  ts_loaded :: bool
  ts_last_reload_at :: int
  ts_expires_at :: int
  ts_days_remaining :: int
  ts_expired :: bool
  ts_expiring_soon :: bool

datatype tls_error =
    CertUnreadable | KeyUnreadable | BadKeyPair | NoLeaf | BadLeaf | NotLoaded | NoManager

datatype tls_event =
    CertLoaded int | CertReloaded int | CertExpired int | CertExpiresSoon int | CertCheckFailed tls_error

definition default_check_interval :: int where
  "default_check_interval = 24 * 3600 * 1000000000"

definition default_expiry_warning_day :: int where
  "default_expiry_warning_day = 30"

definition new_tls_manager :: "string \<Rightarrow> string \<Rightarrow> int \<Rightarrow> int \<Rightarrow> tls_manager" where
  "new_tls_manager cert key check_iv warning =
     \<lparr>tm_cert_path = cert, tm_key_path = key,
      tm_check_interval = (if check_iv \<le> 0 then default_check_interval else check_iv),
      tm_warning_days = (if warning \<le> 0 then default_expiry_warning_day else warning),
      tm_cert = None, tm_last_reload_at = 0, tm_expires_at = 0, tm_fingerprint = None\<rparr>"

text \<open>
  \<open>time.Until\<close> saturates at the bounds of a 64-bit duration; \<open>Hours\<close> and the division by 24 are on
  binary64 values and the conversion to \<open>int\<close> truncates.
\<close>

definition time_until :: "int \<Rightarrow> int \<Rightarrow> int" where
  "time_until now t = max (- (2 ^ 63)) (min (t - now) max_int)"

definition duration_hours :: "int \<Rightarrow> real" where
  "duration_hours d =
     fl64 (of_int (go_div d 3600000000000) + fl64 (of_int (go_mod d 3600000000000) / 3600000000000))"

definition go_trunc :: "real \<Rightarrow> int" where
  "go_trunc x = (if 0 \<le> x then \<lfloor>x\<rfloor> else \<lceil>x\<rceil>)"

definition days_until_expiry :: "int \<Rightarrow> int \<Rightarrow> int" where
  "days_until_expiry now not_after = go_trunc (fl64 (duration_hours (time_until now not_after) / 24))"

definition get_certificate :: "tls_manager \<Rightarrow> (tls_error, tls_certificate) result" where
  "get_certificate m = (case tm_cert m of None \<Rightarrow> Inl NotLoaded | Some c \<Rightarrow> Inr c)"

text \<open>\<open>Status\<close> reads the clock twice: \<open>now1\<close> for the days, \<open>now2\<close> for the expiry.\<close>

definition tls_status :: "int \<Rightarrow> int \<Rightarrow> tls_manager \<Rightarrow> tls_status" where
  "tls_status now1 now2 m =
     (let s = \<lparr>ts_cert_path = tm_cert_path m, ts_key_path = tm_key_path m,
         ts_check_interval = tm_check_interval m, ts_warning_days = tm_warning_days m,
         ts_loaded = False, ts_last_reload_at = 0, ts_expires_at = 0, ts_days_remaining = 0,
         ts_expired = False, ts_expiring_soon = False\<rparr> in
      case tm_cert m of
        None \<Rightarrow> s
      | Some c \<Rightarrow>
          let days = days_until_expiry now1 (tc_not_after c); expired = tm_expires_at m < now2 in
          s\<lparr>ts_loaded := True, ts_last_reload_at := tm_last_reload_at m, ts_expires_at := tm_expires_at m,
            ts_days_remaining := days, ts_expired := expired,
            ts_expiring_soon := \<not> expired \<and> days \<le> tm_warning_days m\<rparr>)"

definition log_expiry_for_leaf :: "int \<Rightarrow> int \<Rightarrow> tls_certificate \<Rightarrow> tls_event list" where
  "log_expiry_for_leaf now warning c =
     (let days = days_until_expiry now (tc_not_after c) in
      if tc_not_after c < now then [CertExpired days]
      else if days \<le> warning then [CertExpiresSoon days] else [])"

definition log_expiry_status :: "int \<Rightarrow> tls_manager \<Rightarrow> tls_event list" where
  "log_expiry_status now m =
     (case tm_cert m of None \<Rightarrow> [] | Some c \<Rightarrow> log_expiry_for_leaf now (tm_warning_days m) c)"

type_synonym tls_files = "string \<Rightarrow> string option"
type_synonym key_pair_parser = "string \<Rightarrow> string \<Rightarrow> string list option"
type_synonym cert_parser = "string \<Rightarrow> int option"

definition reload_if_changed ::
  "key_pair_parser \<Rightarrow> cert_parser \<Rightarrow> tls_files \<Rightarrow> int \<Rightarrow> bool \<Rightarrow> tls_manager
     \<Rightarrow> tls_error option \<times> tls_manager \<times> tls_event list" where
  "reload_if_changed kp px fs now force m =
     (case fs (tm_cert_path m) of
        None \<Rightarrow> (Some CertUnreadable, m, [])
      | Some cert_pem \<Rightarrow>
          (case fs (tm_key_path m) of
             None \<Rightarrow> (Some KeyUnreadable, m, [])
           | Some key_pem \<Rightarrow>
               (let fp = sha256 (cert_pem @ key_pem) in
                if \<not> force \<and> tm_fingerprint m = Some fp then (None, m, [])
                else (case kp cert_pem key_pem of
                    None \<Rightarrow> (Some BadKeyPair, m, [])
                  | Some [] \<Rightarrow> (Some NoLeaf, m, [])
                  | Some (leaf # chain) \<Rightarrow>
                      (case px leaf of
                         None \<Rightarrow> (Some BadLeaf, m, [])
                       | Some not_after \<Rightarrow>
                           (let c = \<lparr>tc_chain = leaf # chain, tc_not_after = not_after\<rparr>;
                                days = days_until_expiry now not_after in
                            (None,
                             m\<lparr>tm_cert := Some c, tm_last_reload_at := now, tm_expires_at := not_after,
                               tm_fingerprint := Some fp\<rparr>,
                             (if tm_cert m \<noteq> None then CertReloaded days else CertLoaded days)
                               # log_expiry_for_leaf now (tm_warning_days m) c)))))))"

definition load_initial ::
  "key_pair_parser \<Rightarrow> cert_parser \<Rightarrow> tls_files \<Rightarrow> int \<Rightarrow> tls_manager
     \<Rightarrow> tls_error option \<times> tls_manager \<times> tls_event list" where
  "load_initial kp px fs now m = reload_if_changed kp px fs now True m"

text \<open>One tick of the watcher loop \<open>Run\<close>.\<close>

definition watch_tick ::
  "key_pair_parser \<Rightarrow> cert_parser \<Rightarrow> tls_files \<Rightarrow> int \<Rightarrow> tls_manager \<Rightarrow> tls_manager \<times> tls_event list" where
  "watch_tick kp px fs now m =
     (case reload_if_changed kp px fs now False m of
        (err, m', evs) \<Rightarrow>
          (m', evs @ (case err of Some e \<Rightarrow> [CertCheckFailed e] | None \<Rightarrow> []) @ log_expiry_status now m'))"

section \<open>Provider\<close>

text \<open>
  \<open>cp_heap\<close> holds every manager ever created.  \<open>cp_watchers\<close> lists the goroutines started so far:
  the manager each runs and whether its context is still live; \<open>cp_cancel\<close> is the watcher that the
  stored cancel function stops.  \<open>cp_root\<close> is the root context, \<open>Some False\<close> once it is cancelled.
\<close>

record provider =
  cp_root :: "bool option"
  cp_manager :: "nat option"
  cp_cancel :: "nat option"
  cp_heap :: "tls_manager list"
  cp_watchers :: "(nat \<times> bool) list"

definition new_provider :: "tls_manager list \<Rightarrow> provider" where
  "new_provider h = \<lparr>cp_root = None, cp_manager = None, cp_cancel = None, cp_heap = h, cp_watchers = []\<rparr>"

definition cancel_watcher :: "provider \<Rightarrow> provider" where
  "cancel_watcher p =
     (case cp_cancel p of
        None \<Rightarrow> p
      | Some i \<Rightarrow> p\<lparr>cp_watchers := (cp_watchers p)[i := (fst (cp_watchers p ! i), False)], cp_cancel := None\<rparr>)"

definition restart_locked :: "provider \<Rightarrow> provider" where
  "restart_locked p =
     (let q = cancel_watcher p in
      case (cp_root q, cp_manager q) of
        (Some live, Some a) \<Rightarrow>
          q\<lparr>cp_cancel := Some (length (cp_watchers q)), cp_watchers := cp_watchers q @ [(a, live)]\<rparr>
      | _ \<Rightarrow> q)"

definition attach :: "bool \<Rightarrow> provider \<Rightarrow> provider" where
  "attach live p = restart_locked (p\<lparr>cp_root := Some live\<rparr>)"

definition set_manager :: "nat option \<Rightarrow> provider \<Rightarrow> provider" where
  "set_manager a p = restart_locked (p\<lparr>cp_manager := a\<rparr>)"

definition update_paths ::
  "key_pair_parser \<Rightarrow> cert_parser \<Rightarrow> tls_files \<Rightarrow> int \<Rightarrow> string \<Rightarrow> string \<Rightarrow> int \<Rightarrow> int \<Rightarrow> provider
     \<Rightarrow> tls_error option \<times> provider" where
  "update_paths kp px fs now cert key check_iv warning p =
     (case load_initial kp px fs now (new_tls_manager cert key check_iv warning) of
        (Some e, m, evs) \<Rightarrow> (Some e, p)
      | (None, m, evs) \<Rightarrow>
          (None, set_manager (Some (length (cp_heap p))) (p\<lparr>cp_heap := cp_heap p @ [m]\<rparr>)))"

definition provider_certificate :: "provider \<Rightarrow> (tls_error, tls_certificate) result" where
  "provider_certificate p =
     (case cp_manager p of None \<Rightarrow> Inl NoManager | Some a \<Rightarrow> get_certificate (cp_heap p ! a))"

definition provider_status :: "int \<Rightarrow> int \<Rightarrow> provider \<Rightarrow> tls_status option" where
  "provider_status now1 now2 p = map_option (\<lambda>a. tls_status now1 now2 (cp_heap p ! a)) (cp_manager p)"

definition close_provider :: "provider \<Rightarrow> provider" where
  "close_provider p = cancel_watcher p"

text \<open>The end of the root context ends the contexts derived from it.\<close>

definition root_done :: "provider \<Rightarrow> provider" where
  "root_done p = p\<lparr>cp_root := map_option (\<lambda>_. False) (cp_root p),
     cp_watchers := map (\<lambda>(a, live). (a, False)) (cp_watchers p)\<rparr>"

text \<open>A live watcher's tick works on its own manager, whichever manager the provider holds.\<close>

definition watcher_tick ::
  "key_pair_parser \<Rightarrow> cert_parser \<Rightarrow> tls_files \<Rightarrow> int \<Rightarrow> nat \<Rightarrow> provider \<Rightarrow> provider" where
  "watcher_tick kp px fs now i p =
     (let a = fst (cp_watchers p ! i) in
      p\<lparr>cp_heap := (cp_heap p)[a := fst (watch_tick kp px fs now (cp_heap p ! a))]\<rparr>)"

text \<open>
  The provider's life: calls of its methods, ticks of live watchers and the end of the root context,
  in any order, with the files changing between the steps.
\<close>

inductive provider_step :: "key_pair_parser \<Rightarrow> cert_parser \<Rightarrow> provider \<Rightarrow> provider \<Rightarrow> bool"
  for kp px where
  step_attach: "provider_step kp px p (attach alive p)"
| step_update: "update_paths kp px fs now c k iv w p = (e, p') \<Longrightarrow> provider_step kp px p p'"
| step_tick: "i < length (cp_watchers p) \<Longrightarrow> snd (cp_watchers p ! i) \<Longrightarrow>
    provider_step kp px p (watcher_tick kp px fs now i p)"
| step_close: "provider_step kp px p (close_provider p)"
| step_root_done: "provider_step kp px p (root_done p)"

inductive provider_run :: "key_pair_parser \<Rightarrow> cert_parser \<Rightarrow> provider \<Rightarrow> provider \<Rightarrow> bool"
  for kp px where
  run_refl: "provider_run kp px p p"
| run_step: "provider_run kp px p q \<Longrightarrow> provider_step kp px q r \<Longrightarrow> provider_run kp px p r"

section \<open>Lemmas\<close>

lemma reload_error_keeps:
  "reload_if_changed kp px fs now force m = (Some e, m', evs) \<Longrightarrow> m' = m \<and> evs = []"
  by (auto simp: reload_if_changed_def Let_def split: option.splits if_splits list.splits)

lemma reload_ok:
  assumes "reload_if_changed kp px fs now force m = (None, m', evs)"
  obtains (unchanged) "m' = m" "evs = []" "\<not> force" "tm_fingerprint m \<noteq> None"
    | (loaded) cert key chain leaf na where
        "fs (tm_cert_path m) = Some cert" "fs (tm_key_path m) = Some key"
        "kp cert key = Some (leaf # chain)" "px leaf = Some na"
        "m' = m\<lparr>tm_cert := Some \<lparr>tc_chain = leaf # chain, tc_not_after = na\<rparr>, tm_last_reload_at := now,
           tm_expires_at := na, tm_fingerprint := Some (sha256 (cert @ key))\<rparr>"
  using assms
  by (auto simp: reload_if_changed_def Let_def split: option.splits if_splits list.splits)

lemma reload_paths:
  "reload_if_changed kp px fs now force m = (e, m', evs) \<Longrightarrow>
     tm_cert_path m' = tm_cert_path m \<and> tm_key_path m' = tm_key_path m"
  by (cases e) (auto dest: reload_error_keeps elim: reload_ok)


definition genuine :: "key_pair_parser \<Rightarrow> cert_parser \<Rightarrow> tls_certificate \<Rightarrow> bool" where
  "genuine kp px c \<longleftrightarrow> (\<exists>cert key leaf chain. kp cert key = Some (leaf # chain) \<and>
     tc_chain c = leaf # chain \<and> px leaf = Some (tc_not_after c))"

definition manager_genuine :: "key_pair_parser \<Rightarrow> cert_parser \<Rightarrow> tls_manager \<Rightarrow> bool" where
  "manager_genuine kp px m \<longleftrightarrow> (case tm_cert m of None \<Rightarrow> False
     | Some c \<Rightarrow> genuine kp px c \<and> tm_expires_at m = tc_not_after c)"

definition live :: "provider \<Rightarrow> nat \<Rightarrow> bool" where
  "live p i \<longleftrightarrow> i < length (cp_watchers p) \<and> snd (cp_watchers p ! i)"

definition provider_ok :: "key_pair_parser \<Rightarrow> cert_parser \<Rightarrow> provider \<Rightarrow> bool" where
  "provider_ok kp px p \<longleftrightarrow>
     (\<exists>a. cp_manager p = Some a \<and> a < length (cp_heap p)) \<and>
     list_all (manager_genuine kp px) (cp_heap p) \<and>
     (\<forall>i. cp_cancel p = Some i \<longrightarrow> i < length (cp_watchers p)) \<and>
     (\<forall>i. live p i \<longrightarrow> cp_cancel p = Some i \<and> cp_manager p = Some (fst (cp_watchers p ! i)))"

lemma live_update [simp]:
  "live (p\<lparr>cp_root := r\<rparr>) i = live p i" "live (p\<lparr>cp_heap := h\<rparr>) i = live p i"
  "live (p\<lparr>cp_manager := a\<rparr>) i = live p i"
  by (simp_all add: live_def)

lemma provider_okD:
  assumes "provider_ok kp px p"
  shows "live p i \<Longrightarrow> cp_cancel p = Some i"
    and "live p i \<Longrightarrow> cp_manager p = Some (fst (cp_watchers p ! i))"
    and "list_all (manager_genuine kp px) (cp_heap p)"
    and "\<exists>a. cp_manager p = Some a \<and> a < length (cp_heap p)"
    and "cp_cancel p = Some j \<Longrightarrow> j < length (cp_watchers p)"
  using assms by (simp_all add: provider_ok_def)

lemma reload_genuine:
  assumes "reload_if_changed kp px fs now force m = (e, m', evs)"
    and "manager_genuine kp px m \<or> (force \<and> e = None)"
  shows "manager_genuine kp px m'"
proof (cases e)
  case None
  with assms(1) have "reload_if_changed kp px fs now force m = (None, m', evs)" by simp
  then show ?thesis
    by (cases rule: reload_ok) (use assms(2) in \<open>auto simp: manager_genuine_def genuine_def\<close>)
next
  case (Some err)
  then show ?thesis using assms reload_error_keeps [of kp px fs now force m err m' evs] by simp
qed

lemma live_cancel: "live (cancel_watcher p) i \<longleftrightarrow> live p i \<and> cp_cancel p \<noteq> Some i"
proof (cases "cp_cancel p")
  case (Some a)
  then show ?thesis by (cases "i = a") (auto simp: cancel_watcher_def live_def)
qed (simp add: cancel_watcher_def live_def)

lemma cancel_frame [simp]:
  "cp_manager (cancel_watcher p) = cp_manager p" "cp_heap (cancel_watcher p) = cp_heap p"
  "cp_cancel (cancel_watcher p) = None" "cp_root (cancel_watcher p) = cp_root p"
  by (simp_all add: cancel_watcher_def split: option.splits)

lemma restart_frame [simp]:
  "cp_manager (restart_locked p) = cp_manager p" "cp_heap (restart_locked p) = cp_heap p"
  by (simp_all add: restart_locked_def Let_def split: option.splits)

text \<open>
  After a restart at most the new watcher is live, whatever the manager was set to, provided that
  before it only the watcher of the stored cancel function was.
\<close>

lemma restart_live:
  assumes "\<And>i. live p i \<Longrightarrow> cp_cancel p = Some i"
  shows "live (restart_locked p) i \<Longrightarrow>
      cp_cancel (restart_locked p) = Some i \<and> cp_manager p = Some (fst (cp_watchers (restart_locked p) ! i))"
    and "cp_cancel (restart_locked p) = Some j \<Longrightarrow> j < length (cp_watchers (restart_locked p))"
proof -
  have dead: "\<not> live (cancel_watcher p) j" for j using assms by (auto simp: live_cancel)
  show "live (restart_locked p) i \<Longrightarrow>
      cp_cancel (restart_locked p) = Some i \<and> cp_manager p = Some (fst (cp_watchers (restart_locked p) ! i))"
    using dead [of i]
    by (auto simp: restart_locked_def Let_def live_def nth_append less_Suc_eq split: option.splits if_splits)
  show "cp_cancel (restart_locked p) = Some j \<Longrightarrow> j < length (cp_watchers (restart_locked p))"
    by (auto simp: restart_locked_def Let_def split: option.splits)
qed

lemma provider_ok_restart:
  assumes "\<And>i. live p i \<Longrightarrow> cp_cancel p = Some i" "cp_manager p = Some a" "a < length (cp_heap p)"
    "list_all (manager_genuine kp px) (cp_heap p)"
  shows "provider_ok kp px (restart_locked p)"
  using assms(2-4) restart_live [OF assms(1)] unfolding provider_ok_def by simp

lemma provider_ok_step:
  assumes "provider_step kp px p p'" and ok: "provider_ok kp px p"
  shows "provider_ok kp px p'"
  using assms(1)
proof (cases rule: provider_step.cases)
  case (step_attach alive)
  obtain a where "cp_manager p = Some a" "a < length (cp_heap p)" using provider_okD(4) [OF ok] by blast
  then show ?thesis using provider_okD(1,3) [OF ok] unfolding step_attach attach_def
    by (intro provider_ok_restart) simp_all
next
  case (step_update fs now c k iv w e)
  obtain e' m evs where l: "load_initial kp px fs now (new_tls_manager c k iv w) = (e', m, evs)"
    by (cases "load_initial kp px fs now (new_tls_manager c k iv w)") auto
  show ?thesis
  proof (cases e')
    case None
    have "manager_genuine kp px m"
      using l reload_genuine [of kp px fs now True _ None m evs] by (simp add: None load_initial_def)
    then have "provider_ok kp px (set_manager (Some (length (cp_heap p))) (p\<lparr>cp_heap := cp_heap p @ [m]\<rparr>))"
      unfolding set_manager_def
      using provider_okD(1,3) [OF ok] by (intro provider_ok_restart [where a = "length (cp_heap p)"]) simp_all
    then show ?thesis using step_update l by (simp add: update_paths_def None)
  qed (use step_update l ok in \<open>simp add: update_paths_def\<close>)
next
  case (step_tick i fs now)
  let ?a = "fst (cp_watchers p ! i)"
  obtain e m evs where r: "reload_if_changed kp px fs now False (cp_heap p ! ?a) = (e, m, evs)"
    by (cases "reload_if_changed kp px fs now False (cp_heap p ! ?a)") auto
  have "live p i" using step_tick by (simp add: live_def)
  from provider_okD(2) [OF ok this] provider_okD(4) [OF ok] have "?a < length (cp_heap p)" by simp
  with provider_okD(3) [OF ok] have "manager_genuine kp px (cp_heap p ! ?a)" by (simp add: list_all_length)
  then have "manager_genuine kp px m" using reload_genuine [OF r] by simp
  then have "list_all (manager_genuine kp px) ((cp_heap p)[?a := m])"
    using provider_okD(3) [OF ok] set_update_subset_insert [of "cp_heap p" ?a m]
    by (auto simp: list_all_iff)
  then show ?thesis using provider_okD(1,2,4,5) [OF ok] r unfolding step_tick(1)
    by (simp add: provider_ok_def watcher_tick_def watch_tick_def Let_def)
next
  case step_close
  have "\<not> live (cancel_watcher p) i" for i using provider_okD(1) [OF ok] by (auto simp: live_cancel)
  then show ?thesis using provider_okD(3,4) [OF ok] unfolding step_close close_provider_def
    by (simp add: provider_ok_def)
next
  case step_root_done
  have "\<not> live (root_done p) i" for i by (simp add: root_done_def live_def case_prod_beta)
  then show ?thesis using provider_okD(3,4,5) [OF ok] unfolding step_root_done
    by (simp add: provider_ok_def root_done_def)
qed

lemma provider_ok_run: "provider_run kp px p p' \<Longrightarrow> provider_ok kp px p \<Longrightarrow> provider_ok kp px p'"
  by (induction rule: provider_run.induct) (auto intro: provider_ok_step)

lemma provider_ok_serves:
  assumes "provider_ok kp px p"
  shows "\<exists>c. provider_certificate p = Inr c \<and> genuine kp px c"
proof -
  obtain a where a: "cp_manager p = Some a" "a < length (cp_heap p)" using provider_okD(4) [OF assms] by blast
  then have "manager_genuine kp px (cp_heap p ! a)" using provider_okD(3) [OF assms] by (simp add: list_all_length)
  then show ?thesis using a
    by (auto simp: provider_certificate_def get_certificate_def manager_genuine_def split: option.splits)
qed

lemma provider_ok_start:
  assumes "load_initial kp px fs now (new_tls_manager c k iv w) = (None, m, evs)"
  shows "provider_ok kp px (set_manager (Some 0) (new_provider [m]))"
proof -
  have "manager_genuine kp px m"
    using assms reload_genuine [of kp px fs now True _ None m evs] by (simp add: load_initial_def)
  then show ?thesis unfolding set_manager_def
    by (intro provider_ok_restart) (simp_all add: new_provider_def live_def)
qed

text \<open>
  A manager that the provider no longer holds is never refreshed again: after a successful
  \<open>UpdatePaths\<close> every later step leaves it as it is.
\<close>

lemma stale_step:
  assumes "provider_step kp px p p'" "provider_ok kp px p" "cp_manager p \<noteq> Some a" "a < length (cp_heap p)"
  shows "cp_heap p' ! a = cp_heap p ! a \<and> cp_manager p' \<noteq> Some a \<and> a < length (cp_heap p')"
  using assms
proof (cases rule: provider_step.cases)
  case (step_tick i fs now)
  then have "live p i" by (simp add: live_def)
  from provider_okD(2) [OF assms(2) this] assms(3) have "fst (cp_watchers p ! i) \<noteq> a" by auto
  then show ?thesis using step_tick assms by (simp add: watcher_tick_def Let_def)
qed (auto simp: attach_def close_provider_def root_done_def set_manager_def update_paths_def nth_append
      split: prod.splits option.splits)

lemma stale_manager_forever:
  assumes "provider_run kp px p p'" "provider_ok kp px p" "cp_manager p \<noteq> Some a" "a < length (cp_heap p)"
  shows "cp_heap p' ! a = cp_heap p ! a \<and> cp_manager p' \<noteq> Some a \<and> a < length (cp_heap p')"
  using assms
proof (induction rule: provider_run.induct)
  case (run_step p q r)
  then have "provider_ok kp px q" by (auto intro: provider_ok_run)
  then show ?case using run_step stale_step [of kp px q r a] by auto
qed simp

lemma update_paths_error_keeps:
  "update_paths kp px fs now c k iv w p = (Some e, p') \<Longrightarrow> p' = p"
  by (auto simp: update_paths_def split: prod.splits option.splits)

lemma update_paths_serves:
  assumes "update_paths kp px fs now c k iv w p = (None, p')"
  shows "\<exists>cert key chain leaf. fs c = Some cert \<and> fs k = Some key \<and> kp cert key = Some (leaf # chain) \<and>
    px leaf \<noteq> None \<and> provider_certificate p' = Inr \<lparr>tc_chain = leaf # chain, tc_not_after = the (px leaf)\<rparr>"
proof -
  obtain m evs where l: "reload_if_changed kp px fs now True (new_tls_manager c k iv w) = (None, m, evs)"
      and p': "p' = set_manager (Some (length (cp_heap p))) (p\<lparr>cp_heap := cp_heap p @ [m]\<rparr>)"
    using assms by (auto simp: update_paths_def load_initial_def split: prod.splits option.splits)
  from l show ?thesis
    by (cases rule: reload_ok)
      (auto simp: p' set_manager_def provider_certificate_def get_certificate_def new_tls_manager_def)
qed

section \<open>Properties\<close>

text \<open>C18: from the first certificate on, TLS handshakes are always answered: whatever the watchers find in
  the files, whichever paths a reload sets and however these calls are ordered, the provider serves
  a certificate that came from a matching, parsable pair.  At most one watcher goroutine is live and
  it watches the manager that serves.  A failed change of paths changes nothing; a successful one
  serves the new pair at once.\<close>

theorem tls_always_serves:
  assumes "load_initial kp px fs0 now0 (new_tls_manager c0 k0 iv0 w0) = (None, m, evs)"
    and "provider_run kp px (set_manager (Some 0) (new_provider [m])) p"
  shows "(\<exists>c. provider_certificate p = Inr c \<and> genuine kp px c) \<and>
    (\<forall>i j. live p i \<and> live p j \<longrightarrow> i = j) \<and>
    (\<forall>i. live p i \<longrightarrow> cp_manager p = Some (fst (cp_watchers p ! i))) \<and>
    (\<forall>e p'. update_paths kp px fs now c k iv w p = (e, p') \<longrightarrow>
       (case e of
          Some err \<Rightarrow> p' = p
        | None \<Rightarrow> \<exists>cert key chain leaf. fs c = Some cert \<and> fs k = Some key \<and>
            kp cert key = Some (leaf # chain) \<and> px leaf \<noteq> None \<and>
            provider_certificate p' = Inr \<lparr>tc_chain = leaf # chain, tc_not_after = the (px leaf)\<rparr>))"
proof -
  have ok: "provider_ok kp px p" by (rule provider_ok_run [OF assms(2) provider_ok_start [OF assms(1)]])
  then have "\<forall>i. live p i \<longrightarrow> cp_cancel p = Some i \<and> cp_manager p = Some (fst (cp_watchers p ! i))"
    by (simp add: provider_ok_def)
  moreover have "case e of Some err \<Rightarrow> p' = p
      | None \<Rightarrow> \<exists>cert key chain leaf. fs c = Some cert \<and> fs k = Some key \<and>
            kp cert key = Some (leaf # chain) \<and> px leaf \<noteq> None \<and>
            provider_certificate p' = Inr \<lparr>tc_chain = leaf # chain, tc_not_after = the (px leaf)\<rparr>"
    if "update_paths kp px fs now c k iv w p = (e, p')" for e p'
    using that update_paths_error_keeps update_paths_serves by (auto split: option.splits)
  moreover have "\<forall>i j. live p i \<and> live p j \<longrightarrow> i = j" by (metis provider_okD(1) [OF ok] option.inject)
  ultimately show ?thesis using provider_ok_serves [OF ok] by blast
qed

definition sample_pair :: key_pair_parser where
  "sample_pair cert key = (if cert = key then Some [cert] else None)"

lemma sample_initial:
  "fst (load_initial sample_pair (\<lambda>d. Some 5) (\<lambda>q. Some ''x'') 1 (new_tls_manager ''c'' ''k'' 0 0)) = None"
  by (simp add: load_initial_def reload_if_changed_def sample_pair_def Let_def)

theorem tls_always_serves_witness:
  "\<exists>m. (\<exists>c. provider_certificate (attach True (set_manager (Some 0) (new_provider [m]))) = Inr c) \<and>
     (\<forall>i j. live (attach True (set_manager (Some 0) (new_provider [m]))) i \<and>
        live (attach True (set_manager (Some 0) (new_provider [m]))) j \<longrightarrow> i = j)"
proof -
  obtain m evs where m: "load_initial sample_pair (\<lambda>d. Some 5) (\<lambda>q. Some ''x'') 1 (new_tls_manager ''c'' ''k'' 0 0) = (None, m, evs)"
    using sample_initial by (metis prod.collapse)
  have "provider_run sample_pair (\<lambda>d. Some 5) (set_manager (Some 0) (new_provider [m]))
      (attach True (set_manager (Some 0) (new_provider [m])))"
    by (rule run_step [OF run_refl step_attach])
  note T = tls_always_serves [OF m this, of "\<lambda>q. None" 0 "[]" "[]" 0 0]
  show ?thesis by (rule exI [of _ m]) (use T in blast)
qed

text \<open>A status never reports a certificate both as expired and as expiring soon.\<close>

lemma status_flags: "\<not> (ts_expired (tls_status n1 n2 m) \<and> ts_expiring_soon (tls_status n1 n2 m))"
  by (simp add: tls_status_def Let_def split: option.splits)

end
