(* ===== verification/Reloader.thy ===== *)
theory Reloader
  imports Config ApiKey
begin

text \<open>
  internal/config/reloader.go: the fail-safe reload of the configuration file, on SIGHUP and by a
  watcher that polls the file and waits until its content has settled.  The subsystems that a reload
  updates are a state \<open>'w\<close>, and the callbacks of \<open>RuntimeApplier\<close> are functions on it (the gateway's
  own ones are in theory Gateway); \<open>'e\<close> is the error type of the callbacks.  Files may change
  between any two reads, so the poll and the load read their own file systems.
\<close>

section \<open>State\<close>

record ('w, 'e) runtime_applier =
  ap_config_snapshot :: "(config \<Rightarrow> 'w \<Rightarrow> 'w) option"
  ap_admin_token_hash :: "(string \<Rightarrow> 'w \<Rightarrow> 'w) option"
  ap_backends :: "(backend_cfg list \<Rightarrow> 'w \<Rightarrow> 'e option \<times> 'w) option"
  ap_tls_paths :: "(string \<Rightarrow> string \<Rightarrow> int \<Rightarrow> int \<Rightarrow> 'w \<Rightarrow> 'e option \<times> 'w) option"

datatype 'e reload_failure =
    ReloadLoadFailed config_error | ReloadRefused policy_error
  | ReloadBackendsFailed 'e | ReloadTlsFailed 'e

record 'e reload_status =
  last_reload_at :: "int option"
  last_error :: "'e reload_failure option"
  last_trigger :: string

record 'e reloader =
  rl_path :: string
  rl_policy :: runtime_policy
  rl_watch_interval :: int
  rl_debounce :: int
  rl_current :: "config option"
  rl_last_hash :: "string option"
  rl_pending :: bool
  rl_pending_hash :: string
  rl_pending_since :: int
  rl_attempted_hash :: "string option"
  rl_status :: "'e reload_status"

text \<open>The zero policy, with every flag off, stands for the default.\<close>

definition new_reloader :: "string \<Rightarrow> config option \<Rightarrow> runtime_policy \<Rightarrow> 'e reloader" where
  "new_reloader path current policy =
     \<lparr>rl_path = path,
      rl_policy = (if policy = \<lparr>allow_admin_token_hash = False, allow_backends = False, allow_tls_paths = False\<rparr>
        then default_runtime_policy else policy),
      rl_watch_interval = second, rl_debounce = 300 * 1000000,
      rl_current = current, rl_last_hash = None, rl_pending = False, rl_pending_hash = [],
      rl_pending_since = 0, rl_attempted_hash = None,
      rl_status = \<lparr>last_reload_at = None, last_error = None, last_trigger = []\<rparr>\<rparr>"

section \<open>Reload\<close>

definition reload_fail :: "'e reload_failure \<Rightarrow> 'e reloader \<Rightarrow> 'w \<Rightarrow> 'e reload_failure option \<times> 'e reloader \<times> 'w" where
  "reload_fail e r w = (Some e, r\<lparr>rl_status := (rl_status r)\<lparr>last_error := Some e\<rparr>\<rparr>, w)"

definition call_backends ::
  "('w, 'e) runtime_applier \<Rightarrow> backend_cfg list \<Rightarrow> 'w \<Rightarrow> 'e option \<times> 'w" where
  "call_backends ap bs w = (case ap_backends ap of None \<Rightarrow> (None, w) | Some f \<Rightarrow> f bs w)"

definition call_tls :: "('w, 'e) runtime_applier \<Rightarrow> server_config \<Rightarrow> 'w \<Rightarrow> 'e option \<times> 'w" where
  "call_tls ap s w =
     (case ap_tls_paths ap of None \<Rightarrow> (None, w)
      | Some f \<Rightarrow> f (tls_cert_path s) (tls_key_path s) (tls_check_interval s) (tls_expiry_warning_days s) w)"

definition call_admin_snapshot :: "('w, 'e) runtime_applier \<Rightarrow> config \<Rightarrow> 'w \<Rightarrow> 'w" where
  "call_admin_snapshot ap next w =
     (let w1 = (case ap_admin_token_hash ap of None \<Rightarrow> w | Some f \<Rightarrow> f (cfg_admin_token_hash next) w) in
      case ap_config_snapshot ap of None \<Rightarrow> w1 | Some f \<Rightarrow> f next w1)"

definition reload ::
  "(string \<Rightarrow> string option) \<Rightarrow> (string \<Rightarrow> config option) \<Rightarrow> int \<Rightarrow> ('w, 'e) runtime_applier \<Rightarrow> string
     \<Rightarrow> 'e reloader \<Rightarrow> 'w \<Rightarrow> 'e reload_failure option \<times> 'e reloader \<times> 'w" where
  "reload fs yaml now ap reason r0 w0 =
     (let r = r0\<lparr>rl_status := (rl_status r0)\<lparr>last_trigger := reason\<rparr>\<rparr> in
      case load fs yaml (rl_path r) of
        Inl e \<Rightarrow> reload_fail (ReloadLoadFailed e) r w0
      | Inr next \<Rightarrow>
          (case validate_runtime_change (rl_policy r) (rl_current r) (Some next) of
             Some e \<Rightarrow> reload_fail (ReloadRefused e) r w0
           | None \<Rightarrow>
               (case call_backends ap (cfg_backends next) w0 of
                  (Some e, w1) \<Rightarrow> reload_fail (ReloadBackendsFailed e) r w1
                | (None, w1) \<Rightarrow>
                    (case call_tls ap (cfg_server next) w1 of
                       (Some e, w2) \<Rightarrow> reload_fail (ReloadTlsFailed e) r w2
                     | (None, w2) \<Rightarrow>
                         (None,
                          r\<lparr>rl_current := Some next,
                            rl_status := (rl_status r)\<lparr>last_reload_at := Some now, last_error := None\<rparr>\<rparr>,
                          call_admin_snapshot ap next w2)))))"

definition trigger_reload ::
  "(string \<Rightarrow> string option) \<Rightarrow> (string \<Rightarrow> config option) \<Rightarrow> int \<Rightarrow> ('w, 'e) runtime_applier \<Rightarrow> string
     \<Rightarrow> 'e reloader \<Rightarrow> 'w \<Rightarrow> 'e reload_failure option \<times> 'e reloader \<times> 'w" where
  "trigger_reload fs yaml now ap reason r w = reload fs yaml now ap reason r w"

section \<open>Watcher\<close>

text \<open>
  The locked part of a poll before the reload: it notes the content's hash and returns the hash to
  reload when the content has settled for the debounce time and was not attempted last.
\<close>

definition poll_decide :: "string \<Rightarrow> int \<Rightarrow> 'e reloader \<Rightarrow> string option \<times> 'e reloader" where
  "poll_decide data now r =
     (let h = sha256 data in
      case rl_last_hash r of
        None \<Rightarrow> (None, r\<lparr>rl_last_hash := Some h\<rparr>)
      | Some prev \<Rightarrow>
          (let r1 = (if h \<noteq> prev
               then r\<lparr>rl_last_hash := Some h, rl_pending := True, rl_pending_hash := h, rl_pending_since := now\<rparr>
               else r);
               due = rl_pending r1 \<and> rl_debounce r1 \<le> now - rl_pending_since r1;
               attempted = (rl_attempted_hash r1 = Some (rl_pending_hash r1)) in
           if \<not> due \<or> attempted then (None, r1) else (Some (rl_pending_hash r1), r1)))"

text \<open>The locked part after the reload.\<close>

definition poll_finish :: "string \<Rightarrow> 'e reloader \<Rightarrow> 'e reloader" where
  "poll_finish target r = r\<lparr>rl_attempted_hash := Some target, rl_pending := False\<rparr>"

datatype 'e poll_error = PollUnreadable | PollReload "'e reload_failure"

definition poll_and_maybe_reload ::
  "(string \<Rightarrow> string option) \<Rightarrow> int \<Rightarrow> (string \<Rightarrow> string option) \<Rightarrow> (string \<Rightarrow> config option) \<Rightarrow> int
     \<Rightarrow> ('w, 'e) runtime_applier \<Rightarrow> 'e reloader \<Rightarrow> 'w \<Rightarrow> 'e poll_error option \<times> 'e reloader \<times> 'w" where
  "poll_and_maybe_reload fs now fs' yaml now' ap r w =
     (case fs (rl_path r) of
        None \<Rightarrow> (Some PollUnreadable, r, w)
      | Some data \<Rightarrow>
          (case poll_decide data now r of
             (None, r1) \<Rightarrow> (None, r1, w)
           | (Some target, r1) \<Rightarrow>
               (case reload fs' yaml now' ap ''watcher'' r1 w of
                  (e, r2, w2) \<Rightarrow> (map_option PollReload e, poll_finish target r2, w2))))"

datatype stop_error = ContextCanceled | DeadlineExceeded | OtherStop

definition is_expected_stop :: "stop_error \<Rightarrow> bool" where
  "is_expected_stop e \<longleftrightarrow> e = ContextCanceled \<or> e = DeadlineExceeded"

text \<open>
  The lock is released between the decision, the reload and the bookkeeping of a poll, so a SIGHUP
  reload may come in between.  The watcher's phase says where it is.
\<close>

datatype watcher_phase = WatchIdle | WatchReload string | WatchFinish string

inductive watch_step ::
  "(string \<Rightarrow> config option) \<Rightarrow> ('w, 'e) runtime_applier
     \<Rightarrow> watcher_phase \<times> 'e reloader \<times> 'w \<Rightarrow> watcher_phase \<times> 'e reloader \<times> 'w \<Rightarrow> bool"
  for yaml ap where
  watch_quiet: "poll_decide data now r = (None, r') \<Longrightarrow>
    watch_step yaml ap (WatchIdle, r, w) (WatchIdle, r', w)"
| watch_due: "poll_decide data now r = (Some h, r') \<Longrightarrow>
    watch_step yaml ap (WatchIdle, r, w) (WatchReload h, r', w)"
| watch_reload: "reload fs yaml now ap ''watcher'' r w = (e, r', w') \<Longrightarrow>
    watch_step yaml ap (WatchReload h, r, w) (WatchFinish h, r', w')"
| watch_finish: "watch_step yaml ap (WatchFinish h, r, w) (WatchIdle, poll_finish h r, w)"
| watch_signal: "trigger_reload fs yaml now ap reason r w = (e, r', w') \<Longrightarrow>
    watch_step yaml ap (p, r, w) (p, r', w')"

inductive_cases watch_idleE: "watch_step yaml ap (WatchIdle, r, w) s'"
inductive_simps watch_finish_iff: "watch_step yaml ap (WatchFinish h, r, w) (WatchIdle, r', w')"

text \<open>A series of polls at given times, by \<open>Run\<close>'s ticker, while the file does not change.\<close>

fun polls ::
  "(string \<Rightarrow> string option) \<Rightarrow> (string \<Rightarrow> config option) \<Rightarrow> ('w, 'e) runtime_applier \<Rightarrow> int list
     \<Rightarrow> 'e reloader \<Rightarrow> 'w \<Rightarrow> 'e reloader \<times> 'w" where
  "polls fs yaml ap [] r w = (r, w)"
| "polls fs yaml ap (t # ts) r w =
     (case poll_and_maybe_reload fs t fs yaml t ap r w of (e, r', w') \<Rightarrow> polls fs yaml ap ts r' w')"

end
