(* ===== verification/ReloaderProps.thy ===== *)
theory ReloaderProps
  imports Reloader
begin

text \<open>
  Correctness of the reloader: what a reload changes when it succeeds and when it fails, what no
  history of reloads can change, when the watcher reloads, and the contract of the callbacks.
\<close>

section \<open>One reload\<close>

lemma reload_fail_simps [simp]:
  "fst (reload_fail e r w) = Some e" "snd (snd (reload_fail e r w)) = w"
  by (simp_all add: reload_fail_def)

lemma reload_ok_cases:
  assumes "reload fs yaml now ap reason r w = (None, r', w')"
  obtains "next" w1 w2 where
    "load fs yaml (rl_path r) = Inr next"
    "validate_runtime_change (rl_policy r) (rl_current r) (Some next) = None"
    "call_backends ap (cfg_backends next) w = (None, w1)"
    "call_tls ap (cfg_server next) w1 = (None, w2)"
    "w' = call_admin_snapshot ap next w2"
    "r' = r\<lparr>rl_current := Some next,
       rl_status := \<lparr>last_reload_at = Some now, last_error = None, last_trigger = reason\<rparr>\<rparr>"
  using assms
  by (auto simp: reload_def reload_fail_def Let_def split: sum.splits option.splits prod.splits)

lemma reload_error_cases:
  assumes "reload fs yaml now ap reason r w = (Some e, r', w')"
  shows "r' = r\<lparr>rl_status := (rl_status r)\<lparr>last_error := Some e, last_trigger := reason\<rparr>\<rparr> \<and>
    ((\<exists>c. e = ReloadLoadFailed c) \<or> (\<exists>c. e = ReloadRefused c) \<longrightarrow> w' = w)"
  using assms
  by (auto simp: reload_def reload_fail_def Let_def split: sum.splits option.splits prod.splits)

lemma reload_frame:
  assumes "reload fs yaml now ap reason r w = (e, r', w')"
  shows "rl_last_hash r' = rl_last_hash r \<and> rl_pending r' = rl_pending r \<and>
    rl_pending_hash r' = rl_pending_hash r \<and> rl_pending_since r' = rl_pending_since r \<and>
    rl_attempted_hash r' = rl_attempted_hash r \<and> rl_debounce r' = rl_debounce r \<and>
    rl_policy r' = rl_policy r \<and> rl_path r' = rl_path r"
proof (cases e)
  case None
  with assms show ?thesis by (auto elim: reload_ok_cases)
next
  case (Some err)
  with assms reload_error_cases [of fs yaml now ap reason r w err r' w'] show ?thesis by simp
qed

text \<open>C16: a reload is fail-safe.  When it reports an error, the active configuration and the time of the
  last reload stay, the error and its trigger are recorded, and if the file could not be loaded or
  asks for a change that needs a restart, no subsystem was touched.  When it succeeds, the new
  active configuration is what the file holds, it is well formed and allowed by the policy, and the
  subsystems got its backends, TLS paths, admin token hash and snapshot, in this order.\<close>

theorem reload_fail_safe:
  assumes "reload fs yaml now ap reason r w = (e, r', w')"
  shows "case e of
      Some err \<Rightarrow> rl_current r' = rl_current r \<and>
        last_reload_at (rl_status r') = last_reload_at (rl_status r) \<and>
        last_error (rl_status r') = Some err \<and> last_trigger (rl_status r') = reason \<and>
        ((\<exists>c. err = ReloadLoadFailed c) \<or> (\<exists>c. err = ReloadRefused c) \<longrightarrow> w' = w)
    | None \<Rightarrow> (\<exists>next w1 w2. rl_current r' = Some next \<and> load fs yaml (rl_path r) = Inr next \<and>
        config_ok next \<and> validate_runtime_change (rl_policy r) (rl_current r) (Some next) = None \<and>
        last_error (rl_status r') = None \<and> last_reload_at (rl_status r') = Some now \<and>
        call_backends ap (cfg_backends next) w = (None, w1) \<and>
        call_tls ap (cfg_server next) w1 = (None, w2) \<and> w' = call_admin_snapshot ap next w2)"
proof (cases e)
  case None
  with assms have "reload fs yaml now ap reason r w = (None, r', w')" by simp
  then obtain "next" w1 w2 where R: "load fs yaml (rl_path r) = Inr next"
      "validate_runtime_change (rl_policy r) (rl_current r) (Some next) = None"
      "call_backends ap (cfg_backends next) w = (None, w1)" "call_tls ap (cfg_server next) w1 = (None, w2)"
      "w' = call_admin_snapshot ap next w2"
      "r' = r\<lparr>rl_current := Some next,
         rl_status := \<lparr>last_reload_at = Some now, last_error = None, last_trigger = reason\<rparr>\<rparr>"
    by (rule reload_ok_cases)
  show ?thesis using R config_ok_load [OF R(1)] by (simp add: None)
next
  case (Some err)
  with assms reload_error_cases [of fs yaml now ap reason r w err r' w'] show ?thesis by simp
qed

definition no_applier :: "(unit, unit) runtime_applier" where
  "no_applier = \<lparr>ap_config_snapshot = None, ap_admin_token_hash = None, ap_backends = None, ap_tls_paths = None\<rparr>"

definition sample_reloader :: "unit reloader" where
  "sample_reloader = new_reloader ''c.yaml'' (Some (apply_defaults sample_config)) default_runtime_policy"

lemma sample_reload:
  "\<exists>r. reload (\<lambda>p. Some []) (\<lambda>d. Some sample_config) 7 no_applier ''sighup'' sample_reloader ()
     = (None, r, ())"
  by (simp add: reload_def sample_reloader_def new_reloader_def sample_load validate_runtime_change_def
      call_backends_def call_tls_def no_applier_def call_admin_snapshot_def default_runtime_policy_def Let_def)

theorem reload_fail_safe_witness:
  "\<exists>r. reload (\<lambda>p. Some []) (\<lambda>d. Some sample_config) 7 no_applier ''sighup'' sample_reloader ()
     = (None, r, ()) \<and> last_reload_at (rl_status r) = Some 7"
proof -
  obtain r where r: "reload (\<lambda>p. Some []) (\<lambda>d. Some sample_config) 7 no_applier ''sighup'' sample_reloader ()
     = (None, r, ())" using sample_reload by blast
  from reload_fail_safe [OF r] show ?thesis by (auto simp: r)
qed

section \<open>Histories of reloads\<close>

text \<open>What only a restart may change.\<close>

definition restart_settings :: "config \<Rightarrow> (string \<times> int \<times> int \<times> int) \<times> string \<times> (int \<times> int \<times> int) \<times> bool" where
  "restart_settings c =
     ((listen_addr (cfg_server c), read_timeout (cfg_server c), write_timeout (cfg_server c),
       idle_timeout (cfg_server c)), cfg_database_path c,
      (interval_seconds (cfg_health c), timeout_seconds (cfg_health c), unhealthy_threshold (cfg_health c)),
      tls_paths_enabled (tls_cert_path (cfg_server c)) (tls_key_path (cfg_server c)))"

lemma runtime_change_restart:
  "validate_runtime_change p (Some c) (Some n) = None \<Longrightarrow> restart_settings n = restart_settings c"
  by (simp add: validate_runtime_change_def restart_settings_def Let_def split: if_splits)

definition active_ok :: "config \<Rightarrow> 'e reloader \<Rightarrow> bool" where
  "active_ok c0 r \<longleftrightarrow> (\<exists>c. rl_current r = Some c \<and> restart_settings c = restart_settings c0 \<and>
     (c = c0 \<or> config_ok c))"

lemma active_ok_reload:
  assumes "reload fs yaml now ap reason r w = (e, r', w')" and ok: "active_ok c0 r"
  shows "active_ok c0 r'"
proof (cases e)
  case None
  with assms have "reload fs yaml now ap reason r w = (None, r', w')" by simp
  then show ?thesis
  proof (rule reload_ok_cases)
    fix "next" w1 w2
    assume "load fs yaml (rl_path r) = Inr next"
      and v: "validate_runtime_change (rl_policy r) (rl_current r) (Some next) = None"
      and r': "r' = r\<lparr>rl_current := Some next,
         rl_status := \<lparr>last_reload_at = Some now, last_error = None, last_trigger = reason\<rparr>\<rparr>"
    then show ?thesis using ok runtime_change_restart config_ok_load
      by (auto simp: active_ok_def)
  qed
next
  case (Some err)
  with assms reload_error_cases [of fs yaml now ap reason r w err r' w'] show ?thesis
    by (simp add: active_ok_def)
qed

lemma poll_decide_current: "poll_decide data now r = (t, r') \<Longrightarrow> rl_current r' = rl_current r"
  by (auto simp: poll_decide_def Let_def split: option.splits if_splits)

lemma active_ok_step:
  assumes "watch_step yaml ap (p, r, w) (p', r', w')" and "active_ok c0 r"
  shows "active_ok c0 r'"
  using assms
  by (cases rule: watch_step.cases)
    (auto simp: active_ok_def poll_finish_def trigger_reload_def
      dest!: poll_decide_current dest: active_ok_reload [unfolded active_ok_def])

interpretation active_history: kept_by_steps "watch_step yaml ap" "\<lambda>s. active_ok c0 (fst (snd s))" for yaml ap c0
  by unfold_locales (auto intro: active_ok_step)

text \<open>No history of polls, reloads and SIGHUP triggers, interleaved in any way and whatever the file
  contains at each moment, changes what only a restart may change: the address and timeouts of the
  server, the database, the health-check settings and whether TLS is on.  The active configuration
  is always the initial one or a well-formed one.\<close>

theorem restart_settings_fixed:
  assumes "(watch_step yaml ap)\<^sup>*\<^sup>* (WatchIdle, new_reloader path (Some c0) policy, w) (p, r, w')"
  shows "\<exists>c. rl_current r = Some c \<and> restart_settings c = restart_settings c0 \<and> (c = c0 \<or> config_ok c)"
proof -
  have "active_ok c0 (fst (snd (WatchIdle, new_reloader path (Some c0) policy, w)))"
    by (simp add: active_ok_def new_reloader_def)
  from active_history.history_keeps [OF assms this] show ?thesis by (simp add: active_ok_def)
qed

theorem restart_settings_fixed_witness:
  "\<exists>r c. (watch_step (\<lambda>d. Some sample_config) no_applier)\<^sup>*\<^sup>* (WatchIdle, sample_reloader, ()) (WatchIdle, r, ()) \<and>
     last_reload_at (rl_status r) = Some 7 \<and>
     rl_current r = Some c \<and> restart_settings c = restart_settings (apply_defaults sample_config)"
proof -
  obtain r where l: "reload (\<lambda>p. Some []) (\<lambda>d. Some sample_config) 7 no_applier ''sighup'' sample_reloader ()
     = (None, r, ())" using sample_reload by blast
  then have "watch_step (\<lambda>d. Some sample_config) no_applier (WatchIdle, sample_reloader, ()) (WatchIdle, r, ())"
    by (intro watch_signal) (simp add: trigger_reload_def)
  then have run: "(watch_step (\<lambda>d. Some sample_config) no_applier)\<^sup>*\<^sup>* (WatchIdle, sample_reloader, ()) (WatchIdle, r, ())"
    by blast
  have "last_reload_at (rl_status r) = Some 7" using l by (auto elim: reload_ok_cases)
  with run restart_settings_fixed [OF run [unfolded sample_reloader_def]] show ?thesis by blast
qed

section \<open>When the watcher reloads\<close>

text \<open>A poll is the sequence of its steps.\<close>

lemma poll_steps:
  assumes "poll_and_maybe_reload fs now fs' yaml now' ap r w = (e, r', w')" "fs (rl_path r) \<noteq> None"
  shows "(watch_step yaml ap)\<^sup>*\<^sup>* (WatchIdle, r, w) (WatchIdle, r', w')"
proof -
  obtain data where d: "fs (rl_path r) = Some data" using assms(2) by blast
  obtain t r1 where p: "poll_decide data now r = (t, r1)" by fastforce
  show ?thesis
  proof (cases t)
    case None
    then have "r' = r1" "w' = w" using assms(1) d p by (auto simp: poll_and_maybe_reload_def)
    then show ?thesis using p None by (auto intro: r_into_rtranclp watch_quiet)
  next
    case (Some h)
    obtain e2 r2 w2 where l: "reload fs' yaml now' ap ''watcher'' r1 w = (e2, r2, w2)"
      by (cases "reload fs' yaml now' ap ''watcher'' r1 w")
    have "r' = poll_finish h r2" "w' = w2" using assms(1) d p l Some by (auto simp: poll_and_maybe_reload_def)
    moreover have "watch_step yaml ap (WatchIdle, r, w) (WatchReload h, r1, w)" by (rule watch_due) (use p Some in simp)
    moreover have "watch_step yaml ap (WatchReload h, r1, w) (WatchFinish h, r2, w2)" by (rule watch_reload [OF l])
    ultimately show ?thesis using watch_finish by (metis (no_types, lifting) rtranclp.simps)
  qed
qed

lemma decide_settled:
  assumes "rl_last_hash r = Some (sha256 d)" "\<not> rl_pending r \<or> rl_attempted_hash r = Some (rl_pending_hash r)"
  shows "poll_decide d t r = (None, r)"
  using assms by (auto simp: poll_decide_def Let_def)

lemma poll_settled:
  assumes "fs (rl_path r) = Some d" "rl_last_hash r = Some (sha256 d)" "\<not> rl_pending r"
  shows "poll_and_maybe_reload fs t fs' yaml t' ap r w = (None, r, w)"
  using assms by (simp add: poll_and_maybe_reload_def decide_settled)

lemma polls_settled:
  assumes "fs (rl_path r) = Some d" "rl_last_hash r = Some (sha256 d)" "\<not> rl_pending r"
  shows "polls fs yaml ap ts r w = (r, w)"
  using assms by (induction ts) (simp_all add: poll_settled)

lemma polls_early:
  assumes "fs (rl_path r) = Some d" "rl_last_hash r = Some (sha256 d)"
    "\<forall>s \<in> set ts. s < rl_pending_since r + rl_debounce r"
  shows "polls fs yaml ap ts r w = (r, w)"
  using assms(3)
proof (induction ts)
  case (Cons s ts)
  have "poll_decide d s r = (None, r)" using assms(2) Cons.prems by (simp add: poll_decide_def Let_def)
  then show ?case using Cons assms(1) by (simp add: poll_and_maybe_reload_def)
qed simp

lemma polls_baseline:
  assumes "fs (rl_path r) = Some d" "rl_last_hash r = None" "\<not> rl_pending r" "ts \<noteq> []"
  shows "polls fs yaml ap ts r w = (r\<lparr>rl_last_hash := Some (sha256 d)\<rparr>, w)"
proof -
  obtain t us where ts: "ts = t # us" using assms(4) by (cases ts) auto
  have "polls fs yaml ap us (r\<lparr>rl_last_hash := Some (sha256 d)\<rparr>) w = (r\<lparr>rl_last_hash := Some (sha256 d)\<rparr>, w)"
    by (rule polls_settled) (simp_all add: assms)
  then show ?thesis using assms by (simp add: ts poll_and_maybe_reload_def poll_decide_def)
qed

text \<open>
  The first poll takes the file as it is for its baseline: what changed between the start of the
  process and this poll is never loaded, as long as the content stays.
\<close>

lemma baseline_change_missed:
  assumes "fs path = Some d"
  shows "rl_current (fst (polls fs yaml ap ts (new_reloader path c policy) w)) = c"
proof (cases "ts = []")
  case False
  have "polls fs yaml ap ts (new_reloader path c policy) w
      = ((new_reloader path c policy)\<lparr>rl_last_hash := Some (sha256 d)\<rparr>, w)"
    by (rule polls_baseline) (simp_all add: new_reloader_def assms False)
  then show ?thesis by (simp add: new_reloader_def)
qed (simp add: new_reloader_def)

text \<open>
  A reload on SIGHUP leaves the watcher's bookkeeping alone.  So when a change is loaded by SIGHUP
  and taken back before the next poll, the watcher sees the content it knows and never loads it
  again: the gateway keeps running on a configuration that the file no longer holds.
\<close>

lemma signalled_change_stays:
  assumes "rl_last_hash r = Some (sha256 d)" "\<not> rl_pending r" "fs (rl_path r) = Some d"
    and "trigger_reload fs0 yaml now ap reason r w = (None, r', w')"
  shows "\<exists>c. load fs0 yaml (rl_path r) = Inr c \<and> rl_current (fst (polls fs yaml ap ts r' w')) = Some c"
proof -
  have "rl_last_hash r' = rl_last_hash r" "rl_pending r' = rl_pending r" "rl_path r' = rl_path r"
    using reload_frame [OF assms(4) [unfolded trigger_reload_def]] by auto
  then have "polls fs yaml ap ts r' w' = (r', w')" using assms(1-3) by (intro polls_settled) simp_all
  moreover have "\<exists>c. load fs0 yaml (rl_path r) = Inr c \<and> rl_current r' = Some c"
    using assms(4) unfolding trigger_reload_def by (auto elim: reload_ok_cases)
  ultimately show ?thesis by simp
qed

lemma polls_waiting:
  assumes "fs (rl_path r) = Some d" "rl_last_hash r = Some (sha256 d)" "rl_pending r"
    "rl_pending_hash r = sha256 d" "rl_attempted_hash r \<noteq> Some (sha256 d)"
    "\<forall>s \<in> set ts. s < rl_pending_since r + rl_debounce r" "rl_pending_since r + rl_debounce r \<le> t"
    and l: "reload fs yaml t ap ''watcher'' r w = (e, r2, w2)"
  shows "polls fs yaml ap (ts @ t # us) r w = (poll_finish (sha256 d) r2, w2)"
  using assms(1-7)
proof (induction ts)
  case Nil
  have "poll_decide d t r = (Some (sha256 d), r)" using Nil by (simp add: poll_decide_def Let_def)
  then have "poll_and_maybe_reload fs t fs yaml t ap r w = (map_option PollReload e, poll_finish (sha256 d) r2, w2)"
    using Nil l by (simp add: poll_and_maybe_reload_def)
  moreover have "polls fs yaml ap us (poll_finish (sha256 d) r2) w2 = (poll_finish (sha256 d) r2, w2)"
    by (rule polls_settled) (use reload_frame [OF l] Nil in \<open>simp_all add: poll_finish_def\<close>)
  ultimately show ?case by simp
next
  case (Cons s ts)
  have "poll_decide d s r = (None, r)" using Cons.prems by (simp add: poll_decide_def Let_def)
  then show ?case using Cons by (simp add: poll_and_maybe_reload_def)
qed

text \<open>C17: the watcher reloads a changed file exactly once: when its content differs from the one last seen
  and from the one last attempted, and then stays, the polls of the first 300 milliseconds do
  nothing, the first poll after them reloads, and no later poll does anything.  So if this reload
  succeeds, the content is the active configuration, and if it fails, the file is not tried again
  until its content changes.\<close>

theorem watcher_reloads_once:
  assumes "fs (rl_path r) = Some d"
    and "rl_last_hash r = Some h" "h \<noteq> sha256 d" "rl_attempted_hash r \<noteq> Some (sha256 d)" "0 < rl_debounce r"
    and "\<forall>s \<in> set ts. s < t0 + rl_debounce r" "t0 + rl_debounce r \<le> t"
  shows "\<exists>r1 e r2 w2. poll_decide d t0 r = (None, r1) \<and> rl_current r1 = rl_current r \<and>
    polls fs yaml ap (t0 # ts) r w = (r1, w) \<and>
    reload fs yaml t ap ''watcher'' r1 w = (e, r2, w2) \<and>
    polls fs yaml ap (t0 # ts @ t # us) r w = (poll_finish (sha256 d) r2, w2) \<and>
    (if e = None then \<exists>c. load fs yaml (rl_path r) = Inr c \<and> rl_current (poll_finish (sha256 d) r2) = Some c
     else rl_current (poll_finish (sha256 d) r2) = rl_current r)"
proof -
  let ?r = "r\<lparr>rl_last_hash := Some (sha256 d), rl_pending := True, rl_pending_hash := sha256 d, rl_pending_since := t0\<rparr>"
  obtain e r2 w2 where l: "reload fs yaml t ap ''watcher'' ?r w = (e, r2, w2)"
    by (cases "reload fs yaml t ap ''watcher'' ?r w")
  have p: "poll_decide d t0 r = (None, ?r)" using assms by (auto simp: poll_decide_def Let_def)
  then have q: "poll_and_maybe_reload fs t0 fs yaml t0 ap r w = (None, ?r, w)"
    using assms(1) by (simp add: poll_and_maybe_reload_def)
  have "polls fs yaml ap ts ?r w = (?r, w)"
    by (rule polls_early [where d = d]) (use assms in simp_all)
  moreover have "polls fs yaml ap (ts @ t # us) ?r w = (poll_finish (sha256 d) r2, w2)"
    by (rule polls_waiting [OF _ _ _ _ _ _ _ l]) (use assms in simp_all)
  moreover have "if e = None then \<exists>c. load fs yaml (rl_path r) = Inr c \<and> rl_current (poll_finish (sha256 d) r2) = Some c
     else rl_current (poll_finish (sha256 d) r2) = rl_current r"
    using l reload_error_cases [of fs yaml t ap "''watcher''" ?r w "the e" r2 w2]
    by (auto simp: poll_finish_def elim: reload_ok_cases)
  ultimately show ?thesis using p q l by (intro exI [of _ ?r] exI [of _ e] exI [of _ r2] exI [of _ w2]) simp
qed

text \<open>A changed file, polled at 5, 6, and 400000000 and 500000000 nanoseconds: the third poll loads its
  configuration, and the content is remembered as attempted.\<close>

theorem watcher_reloads_once_witness:
  "\<exists>r2. polls (\<lambda>p. Some ''x'') (\<lambda>d. Some sample_config) no_applier [5, 6, 400000000, 500000000]
       (sample_reloader\<lparr>rl_last_hash := Some [], rl_current := Some ((apply_defaults sample_config)\<lparr>cfg_backends := []\<rparr>)\<rparr>) () = (r2, ()) \<and>
     rl_current r2 = Some (apply_defaults sample_config) \<and> rl_attempted_hash r2 = Some (sha256 ''x'') \<and>
     last_reload_at (rl_status r2) = Some 400000000"
proof -
  let ?fs = "\<lambda>p :: string. Some ''x''" and ?yaml = "\<lambda>d :: string. Some sample_config"
  let ?r = "sample_reloader\<lparr>rl_last_hash := Some [], rl_current := Some ((apply_defaults sample_config)\<lparr>cfg_backends := []\<rparr>)\<rparr>"
  have ne: "[] \<noteq> sha256 ''x''" using length_sha256 [of "''x''"] by (metis list.size(3) zero_neq_numeral)
  have load: "load ?fs ?yaml p = Inr (apply_defaults sample_config)" for p
    using sample_load by (simp add: load_def)
  obtain r1 e r2 w2 where R: "poll_decide ''x'' 5 ?r = (None, r1)"
      "reload ?fs ?yaml 400000000 no_applier ''watcher'' r1 () = (e, r2, w2)"
      "polls ?fs ?yaml no_applier (5 # [6] @ 400000000 # [500000000]) ?r () = (poll_finish (sha256 ''x'') r2, w2)"
      "if e = None then \<exists>c. load ?fs ?yaml (rl_path ?r) = Inr c \<and> rl_current (poll_finish (sha256 ''x'') r2) = Some c
       else rl_current (poll_finish (sha256 ''x'') r2) = rl_current ?r"
    using watcher_reloads_once [of ?fs ?r "''x''" "[]" "[6]" 5 400000000 ?yaml no_applier "()" "[500000000]"] ne
    by (auto simp: sample_reloader_def new_reloader_def)
  have "e = None \<and> last_reload_at (rl_status r2) = Some 400000000"
    using R(1,2) ne
    by (auto simp: poll_decide_def Let_def reload_def load sample_reloader_def new_reloader_def call_backends_def
      call_tls_def no_applier_def call_admin_snapshot_def default_runtime_policy_def validate_runtime_change_def split: if_splits)
  then show ?thesis using R(3,4) load by (intro exI [of _ "poll_finish (sha256 ''x'') r2"]) (auto simp: poll_finish_def)
qed

section \<open>The contract of the callbacks\<close>

text \<open>Callbacks that keep an invariant of the subsystems: then every history does.\<close>

locale safe_applier =
  fixes inv :: "'w \<Rightarrow> bool" and ap :: "('w, 'e) runtime_applier"
  assumes snapshot_inv: "ap_config_snapshot ap = Some f \<Longrightarrow> inv w \<Longrightarrow> inv (f c w)"
    and admin_inv: "ap_admin_token_hash ap = Some g \<Longrightarrow> inv w \<Longrightarrow> inv (g h w)"
    and backends_inv: "ap_backends ap = Some b \<Longrightarrow> b bs w = (e, w') \<Longrightarrow> inv w \<Longrightarrow> inv w'"
    and tls_inv: "ap_tls_paths ap = Some t \<Longrightarrow> t cert key iv days w = (e, w') \<Longrightarrow> inv w \<Longrightarrow> inv w'"
begin

lemma backends_keep: "call_backends ap bs w = (e, w') \<Longrightarrow> inv w \<Longrightarrow> inv w'"
  by (auto simp: call_backends_def backends_inv split: option.splits)

lemma tls_keep: "call_tls ap s w = (e, w') \<Longrightarrow> inv w \<Longrightarrow> inv w'"
  by (auto simp: call_tls_def tls_inv split: option.splits)

lemma admin_snapshot_keep: "inv w \<Longrightarrow> inv (call_admin_snapshot ap c w)"
  by (auto simp: call_admin_snapshot_def Let_def admin_inv snapshot_inv split: option.splits)

lemma reload_keeps:
  assumes "reload fs yaml now ap reason r w = (e, r', w')" and "inv w"
  shows "inv w'"
  using assms
  by (auto simp: reload_def reload_fail_def Let_def admin_snapshot_keep backends_keep tls_keep
      split: sum.splits option.splits prod.splits)

lemma watch_keeps:
  assumes "watch_step yaml ap (p, r, w) (p', r', w')" and "inv w"
  shows "inv w'"
  using assms by (cases rule: watch_step.cases) (auto simp: trigger_reload_def intro: reload_keeps)

end

sublocale safe_applier \<subseteq> watched: kept_by_steps "watch_step yaml ap" "\<lambda>s. inv (snd (snd s))" for yaml
  by unfold_locales (auto intro: watch_keeps)

end
