(* ===== verification/Gateway.thy ===== *)
theory Gateway
  imports ModelTables BackendStore ReloaderProps TlsRuntime RateLimitProps ProxyProps UsageProps
begin

text \<open>
  cmd/gateway/main.go: how the gateway is put together.  The start-up sequence from the configuration
  file to the running components, the callbacks of the reloader, the routes, and the composition of
  the API pipeline.  The configuration object that the code shares by pointer between the user store,
  the limiter, the dashboard and the reloader is one field; the database that all stores share is
  one field.  \<open>faults\<close> schedules are given per store call, in the order of the calls.
\<close>

section \<open>State\<close>

record gateway =
  gw_cfg :: config
  gw_db :: db
  gw_limiter :: limiter_backend
  gw_resolver :: resolver
  gw_pricing :: usage_pricing
  gw_tls :: "provider option"
  gw_catalog :: catalog

datatype exit_reason =
    ExitConfig config_error | ExitDatabase | ExitAuth auth_err | ExitNoModels
  | ExitBackends manager_error | ExitTls tls_error | ExitNoDatabasePath

record start_env =
  se_exists :: "string \<Rightarrow> bool"
  se_config_flag :: string
  se_seed_flag :: bool
  se_files :: "string \<Rightarrow> string option"
  se_yaml :: "string \<Rightarrow> config option"
  se_open_db :: "db option"
  se_faults :: "nat \<Rightarrow> faults"
  se_net :: net
  se_redis :: "string \<Rightarrow> int \<Rightarrow> bool"
  se_key_pair :: key_pair_parser
  se_parse_cert :: cert_parser
  se_now :: int

definition gw_auth :: "gateway \<Rightarrow> auth_store" where
  "gw_auth g = \<lparr>as_cfg = gw_cfg g, as_db = Some (gw_db g)\<rparr>"

definition gw_limiter_store :: "gateway \<Rightarrow> limiter_store" where
  "gw_limiter_store g = \<lparr>ls_cfg = gw_cfg g, ls_auth = Some (gw_auth g), ls_backend = gw_limiter g\<rparr>"

definition gw_proxy :: "gateway \<Rightarrow> proxy_handler" where
  "gw_proxy g = \<lparr>ph_resolver = gw_resolver g, ph_auth = Some (gw_auth g), ph_logger = True,
     ph_pricing = Some (gw_pricing g)\<rparr>"

section \<open>Start\<close>

definition default_config_path :: string where
  "default_config_path = ''/etc/ollama-gateway/config.yaml''"

definition usage_pricing_from_config :: "pricing_config \<Rightarrow> usage_pricing" where
  "usage_pricing_from_config p =
     \<lparr>up_default_input = default_input_per_1m p, up_default_output = default_output_per_1m p,
      up_models = fold (\<lambda>(n, x). gm_put n \<lparr>mp_input = input_per_1m x, mp_output = output_per_1m x\<rparr>)
        (pricing_models p) []\<rparr>"

text \<open>Seeding and loading the backends; failures are logged and the configured ones stay.\<close>

definition start_backends :: "(nat \<Rightarrow> faults) \<Rightarrow> config \<Rightarrow> db \<Rightarrow> config \<times> db" where
  "start_backends flts cfg d =
     (let d1 = snd (seed_backends (flts 0) (cfg_backends cfg) d) in
      case load_active_backends (flts 1) d1 of
        Inl _ \<Rightarrow> (cfg, d1)
      | Inr bs \<Rightarrow> (if bs \<noteq> [] then cfg\<lparr>cfg_backends := bs\<rparr> else cfg, d1))"

text \<open>The catalog before discovery: the table's, or the YAML models when asked for and it is empty.\<close>

definition seed_catalog :: "(nat \<Rightarrow> faults) \<Rightarrow> bool \<Rightarrow> config \<Rightarrow> db \<Rightarrow> catalog \<times> db" where
  "seed_catalog flts seed cfg d =
     (let cat0 = (case load_active_catalog (flts 0) d of Inl _ \<Rightarrow> [] | Inr c \<Rightarrow> c) in
      if seed \<and> cat0 = [] \<and> cfg_models cfg \<noteq> [] then
        (case sync_discovered_catalog (flts 1) (normalize_catalog (catalog_from_config cfg)) d of
           ((st, Some e), d') \<Rightarrow> (cat0, d')
         | ((st, None), d') \<Rightarrow>
             (case load_active_catalog (flts 2) d' of Inl _ \<Rightarrow> (cat0, d') | Inr c \<Rightarrow> (c, d')))
      else (cat0, d))"

definition start_catalog :: "(nat \<Rightarrow> faults) \<Rightarrow> bool \<Rightarrow> net \<Rightarrow> config \<Rightarrow> db \<Rightarrow> catalog \<times> db" where
  "start_catalog flts seed net cfg d =
     (let (cat1, d1) = seed_catalog flts seed cfg d;
          (disc, stats, err) = discover_catalog net cfg;
          d2 = (if err = None \<or> 0 < length disc then snd (sync_discovered_catalog (flts 3) disc d1) else d1)
      in case load_active_catalog (flts 4) d2 of Inl _ \<Rightarrow> (cat1, d2) | Inr c \<Rightarrow> (c, d2))"

definition start_pricing :: "(nat \<Rightarrow> faults) \<Rightarrow> config \<Rightarrow> db \<Rightarrow> config \<times> db" where
  "start_pricing flts cfg d =
     (case load_model_pricing (flts 0) d of
        Inl _ \<Rightarrow> (cfg, d)
      | Inr p \<Rightarrow>
          if p = [] then
            (if pricing_models (cfg_pricing cfg) \<noteq> []
             then (cfg, snd (replace_model_pricing (flts 1) (pricing_models (cfg_pricing cfg)) d))
             else (cfg, d))
          else (cfg\<lparr>cfg_pricing := (cfg_pricing cfg)\<lparr>pricing_models := p\<rparr>\<rparr>, d))"

definition tls_enabled :: "config \<Rightarrow> bool" where
  "tls_enabled cfg \<longleftrightarrow> tls_cert_path (cfg_server cfg) \<noteq> [] \<and> tls_key_path (cfg_server cfg) \<noteq> []"

text \<open>Loading the certificate and starting its watcher.\<close>

definition start_tls ::
  "key_pair_parser \<Rightarrow> cert_parser \<Rightarrow> tls_files \<Rightarrow> int \<Rightarrow> config \<Rightarrow> (exit_reason, provider option) result" where
  "start_tls kp px fs now cfg =
     (if tls_enabled cfg then
        (case load_initial kp px fs now
            (new_tls_manager (tls_cert_path (cfg_server cfg)) (tls_key_path (cfg_server cfg))
               (tls_check_interval (cfg_server cfg)) (tls_expiry_warning_days (cfg_server cfg))) of
           (Some e, m, evs) \<Rightarrow> Inl (ExitTls e)
         | (None, m, evs) \<Rightarrow> Inr (Some (attach True (set_manager (Some 0) (new_provider [m])))))
      else Inr None)"

text \<open>From a loaded configuration and an opened database to the running gateway.\<close>

definition start_components :: "start_env \<Rightarrow> config \<Rightarrow> db \<Rightarrow> (exit_reason, gateway) result" where
  "start_components env cfg0 d0 =
     (case validate_store (se_faults env 0) \<lparr>as_cfg = cfg0, as_db = Some d0\<rparr> of
        (Some e, st) \<Rightarrow> Inl (ExitAuth e)
      | (None, st) \<Rightarrow>
          (let (cfg1, d1) = start_backends (\<lambda>k. se_faults env (1 + k)) (as_cfg st) (the (as_db st));
               (cat, d2) = start_catalog (\<lambda>k. se_faults env (3 + k)) (se_seed_flag env) (se_net env) cfg1 d1
           in if cat = [] then Inl ExitNoModels
              else let (cfg2, d3) = start_pricing (\<lambda>k. se_faults env (8 + k)) cfg1 d2 in
                bind_res (map_sum ExitBackends id (new_resolver_with_catalog cfg2 cat)) (\<lambda>rv.
                bind_res (start_tls (se_key_pair env) (se_parse_cert env) (se_files env) (se_now env) cfg2) (\<lambda>tls.
                  Inr \<lparr>gw_cfg = cfg2, gw_db = d3,
                       gw_limiter = ls_backend (new_limiter_store (se_redis env) cfg2 (Some \<lparr>as_cfg = cfg2, as_db = Some d3\<rparr>)),
                       gw_resolver = rv, gw_pricing = usage_pricing_from_config (cfg_pricing cfg2),
                       gw_tls = tls, gw_catalog = cat\<rparr>))))"

definition gateway_start :: "start_env \<Rightarrow> (exit_reason, gateway) result" where
  "gateway_start env =
     bind_res (map_sum ExitConfig id (resolve_config_path (se_exists env) (se_config_flag env) default_config_path))
       (\<lambda>path. bind_res (map_sum ExitConfig id (load (se_files env) (se_yaml env) path)) (\<lambda>cfg.
         if cfg_database_path cfg = [] then Inl ExitNoDatabasePath
         else (case se_open_db env of None \<Rightarrow> Inl ExitDatabase | Some d \<Rightarrow> start_components env cfg d)))"

section \<open>Reload callbacks\<close>

datatype apply_error = ApplyBackendStore | ApplyManager manager_error | ApplyTls tls_error

text \<open>\<open>flt\<close> are the faults of the query of \<open>HasAnyBackends\<close>.\<close>

definition gateway_apply_backends :: "faults \<Rightarrow> backend_cfg list \<Rightarrow> gateway \<Rightarrow> apply_error option \<times> gateway" where
  "gateway_apply_backends flt bs g =
     (case apply_reload_backends flt (Some (gw_db g)) bs (rv_manager (gw_resolver g)) of
        (e, m) \<Rightarrow> (map_option (case_reload_error ApplyBackendStore ApplyManager) e,
          g\<lparr>gw_resolver := (gw_resolver g)\<lparr>rv_manager := m\<rparr>\<rparr>))"

definition gateway_apply_tls ::
  "key_pair_parser \<Rightarrow> cert_parser \<Rightarrow> tls_files \<Rightarrow> int \<Rightarrow> string \<Rightarrow> string \<Rightarrow> int \<Rightarrow> int \<Rightarrow> gateway
     \<Rightarrow> apply_error option \<times> gateway" where
  "gateway_apply_tls kp px fs now cert key check_iv warning g =
     (case gw_tls g of
        None \<Rightarrow> (None, g)
      | Some p \<Rightarrow>
          (case update_paths kp px fs now cert key check_iv warning p of
             (e, p') \<Rightarrow> (map_option ApplyTls e, g\<lparr>gw_tls := Some p'\<rparr>)))"

definition gateway_applier ::
  "faults \<Rightarrow> key_pair_parser \<Rightarrow> cert_parser \<Rightarrow> tls_files \<Rightarrow> int \<Rightarrow> (gateway, apply_error) runtime_applier" where
  "gateway_applier flt kp px fs now =
     \<lparr>ap_config_snapshot = None,
      ap_admin_token_hash = Some (\<lambda>h g. g\<lparr>gw_cfg := as_cfg (apply_admin_token_hash (gw_auth g) h)\<rparr>),
      ap_backends = Some (gateway_apply_backends flt),
      ap_tls_paths = Some (gateway_apply_tls kp px fs now)\<rparr>"

section \<open>Routes\<close>

datatype route = RouteApi | RouteAdmin | RouteRedirect string | RouteNotFound

text \<open>\<open>ServeMux\<close>: a pattern that ends in a slash redirects its own name without the slash, a path that
  is not clean is redirected, and otherwise the pattern that is a prefix of the path decides.\<close>

definition mux_clean_path :: "string \<Rightarrow> string" where
  "mux_clean_path p =
     (if p = [] then ''/''
      else let q = (if hd p = CHR ''/'' then p else CHR ''/'' # p); c = path_clean q
           in if last q = CHR ''/'' \<and> c \<noteq> ''/'' then c @ ''/'' else c)"

definition mux_route :: "string \<Rightarrow> route" where
  "mux_route p =
     (let c = mux_clean_path p in
      if c = ''/api'' \<or> c = ''/admin'' then RouteRedirect (c @ ''/'')
      else if c \<noteq> p then RouteRedirect c
      else if has_prefix p ''/api/'' then RouteApi
      else if has_prefix p ''/admin/'' then RouteAdmin
      else RouteNotFound)"

text \<open>What a request to the API route leaves: the answer, what was sent upstream, the usage record.\<close>

record api_outcome =
  ao_response :: http_response
  ao_sent :: "proxied option"
  ao_record :: "usage_record option"

definition api_denied :: "http_response \<Rightarrow> api_outcome" where
  "api_denied resp = \<lparr>ao_response = resp, ao_sent = None, ao_record = None\<rparr>"

text \<open>\<open>authStore.Middleware(rateLimitMw.Handler(apiRouter))\<close>.\<close>

definition serve_api ::
  "faults \<Rightarrow> faults \<Rightarrow> int \<Rightarrow> proxy_env \<Rightarrow> gateway \<Rightarrow> http_request \<Rightarrow> api_outcome \<times> gateway" where
  "serve_api flt_key flt_limit now env g r =
     (case auth_middleware flt_key (gw_auth g)
         (\<lambda>ctx q. rate_middleware flt_limit now (\<lambda>ctx' q'. proxy_serve env (gw_proxy g) ctx' q')
            (gw_limiter_store g) ctx q) r of
        Inl resp \<Rightarrow> (api_denied resp, g)
      | Inr (Inl resp, s) \<Rightarrow> (api_denied resp, g\<lparr>gw_limiter := ls_backend s\<rparr>)
      | Inr (Inr res, s) \<Rightarrow>
          (\<lparr>ao_response = pr_response res, ao_sent = pr_sent res, ao_record = pr_record res\<rparr>,
           g\<lparr>gw_limiter := ls_backend s, gw_resolver := ph_resolver (pr_handler res)\<rparr>))"

end
