(* ===== verification/GatewayProps.thy ===== *)
theory GatewayProps
  imports Gateway
begin

text \<open>
  Properties of the assembled gateway: what a successful start establishes, what every step of the
  running gateway keeps, what the API pipeline lets through, and what a reload of the configuration
  file can do.
\<close>

section \<open>Invariant\<close>

definition registry_ok :: "registry \<Rightarrow> bool" where
  "registry_ok r \<longleftrightarrow> (\<forall>n e. gm_get r n = Some e \<longrightarrow> distinct (re_backends e))"

definition resolver_ok :: "resolver \<Rightarrow> bool" where
  "resolver_ok rv \<longleftrightarrow> mgr_ok (rv_manager rv) \<and> registry_ok (rv_registry rv)"

definition gateway_ok :: "key_pair_parser \<Rightarrow> cert_parser \<Rightarrow> gateway \<Rightarrow> bool" where
  "gateway_ok kp px g \<longleftrightarrow> resolver_ok (gw_resolver g) \<and> db_ok (gw_db g) \<and>
     (\<forall>p. gw_tls g = Some p \<longrightarrow> provider_ok kp px p)"

section \<open>Start\<close>

definition catalog_distinct :: "catalog \<Rightarrow> bool" where
  "catalog_distinct c \<longleftrightarrow> (\<forall>(n, m) \<in> set c. distinct (map ref_backend (me_backends m)))"

lemma gm_put_all:
  "\<forall>(k, v) \<in> set m. P v \<Longrightarrow> P w \<Longrightarrow> \<forall>(k, v) \<in> set (gm_put a w m). P v"
  unfolding gm_put_def by (induction m) auto

lemma fold_gm_put_all:
  "\<forall>(k, v) \<in> set m. P v \<Longrightarrow> \<forall>(k, v) \<in> set c. P (f k v) \<Longrightarrow> \<forall>(k, v) \<in> set (fold (\<lambda>(k, v). gm_put k (f k v)) c m). P v"
proof (induction c arbitrary: m)
  case (Cons x c)
  obtain k v where x: "x = (k, v)" by (cases x)
  have "\<forall>(k, v) \<in> set (gm_put k (f k v) m). P v"
    by (rule gm_put_all) (use Cons.prems x in auto)
  then show ?case using Cons x by auto
qed simp

lemma gm_get_mem: "gm_get m k = Some v \<Longrightarrow> (k, v) \<in> set m"
  by (simp add: gm_get_def map_of_SomeD)

lemma build_registry_ok: "catalog_distinct c \<Longrightarrow> registry_ok (build_registry c)"
proof -
  assume c: "catalog_distinct c"
  let ?P = "\<lambda>e. distinct (re_backends e)"
  let ?c = "fold (\<lambda>(k, m). gm_put k
     \<lparr>re_name = (if me_name m = [] then k else me_name m), re_backends = map ref_backend (me_backends m)\<rparr>) c []"
  have "\<forall>(k, e) \<in> set ?c. ?P e"
    by (rule fold_gm_put_all) (use c in \<open>auto simp: catalog_distinct_def\<close>)
  then have "\<forall>(k, e) \<in> set (new_registry ?c). ?P e"
    unfolding new_registry_def by (intro fold_gm_put_all) auto
  then show ?thesis using gm_get_mem unfolding build_registry_def registry_ok_def by fastforce
qed

lemma load_catalog_distinct:
  assumes "load_active_catalog flt d = Inr c" "db_ok d"
  shows "catalog_distinct c"
proof -
  have c: "load_active_catalog no_faults d = Inr c" using assms(1) by (simp add: load_active_catalog_def split: if_splits)
  have ok: "tbl_ok mr_name (models_t d)" using assms(2) by (simp add: db_ok_def)
  have "gm_ok c"
    using c by (auto simp: load_active_catalog_def gm_ok_fold_add_row)
  moreover have "distinct (map ref_backend (me_backends e))" if "gm_get c n = Some e" for n e
  proof -
    let ?rs = "refs_of n (model_backends_t d)"
    have e: "me_backends e = map row_ref (sort_key rr_backend ?rs)"
      using that load_get [OF ok c, of n] by (auto split: option.splits if_splits)
    have "inj_on rr_backend (set ?rs) \<and> distinct ?rs"
      using assms(2) unfolding db_ok_def distinct_map refs_of_def inj_on_def by auto
    then have "distinct (map rr_backend (sort_key rr_backend ?rs))" by (simp add: distinct_map)
    then show ?thesis by (simp add: e comp_def row_ref_def)
  qed
  ultimately show ?thesis by (auto simp: catalog_distinct_def gm_get_in)
qed

text \<open>What each part of the start keeps: the schema and the rows that it does not touch.\<close>

definition same_users :: "db \<Rightarrow> db \<Rightarrow> bool" where
  "same_users d d' \<longleftrightarrow> api_users d' = api_users d"

lemma store_upsert_db_ok: "store_upsert_backend flt c d = (e, d') \<Longrightarrow> db_ok d \<Longrightarrow> db_ok d' \<and> same_users d d'"
proof -
  assume u: "store_upsert_backend flt c d = (e, d')" and ok: "db_ok d"
  have "tbl_ok br_name (upsert_backend_row (row_of_backend c) (backend_configs_t d))"
    using ok unfolding upsert_backend_row_def by (intro tbl_ok_upsert) (simp_all add: db_ok_def)
  then show ?thesis using u ok
    by (cases "flt 0") (clarsimp simp: store_upsert_backend_def db_ok_def same_users_def)+
qed

lemma upsert_all_db_ok: "upsert_all flt cs d = (e, d') \<Longrightarrow> db_ok d \<Longrightarrow> db_ok d' \<and> same_users d d'"
proof (induction flt cs d rule: upsert_all.induct)
  case (2 flt c cs d)
  obtain e1 d1 where u: "store_upsert_backend flt c d = (e1, d1)" by fastforce
  note U = store_upsert_db_ok [OF u "2.prems"(2)]
  show ?case using 2 u U by (cases e1) (auto simp: same_users_def)
qed (simp add: same_users_def)

lemma seed_backends_db_ok: "seed_backends flt cs d = (e, d') \<Longrightarrow> db_ok d \<Longrightarrow> db_ok d' \<and> same_users d d'"
  unfolding seed_backends_def using upsert_all_db_ok by (auto simp: same_users_def split: if_splits)

lemma sync_same_users:
  assumes "sync_discovered_catalog flt c d = (r, d')"
  shows "same_users d d' \<and> backend_configs_t d' = backend_configs_t d"
proof (cases "snd r")
  case None
  then have "sync_discovered_catalog flt c d = ((fst r, None), d')" using assms by (cases r) auto
  from sync_success_same [OF this] obtain q where "sync_discovered_catalog no_faults c d = (q, d')" by blast
  from sync_db(2) [OF this] show ?thesis by (simp add: same_users_def)
qed (use assms sync_atomic [of flt c d] in \<open>simp add: same_users_def\<close>)

lemma start_backends_ok:
  assumes "start_backends flts cfg d = (cfg', d')" "db_ok d" "distinct (map bc_name (cfg_backends cfg))"
  shows "db_ok d' \<and> same_users d d' \<and> distinct (map bc_name (cfg_backends cfg')) \<and>
    cfg_pricing cfg' = cfg_pricing cfg \<and> cfg_server cfg' = cfg_server cfg \<and> cfg_users cfg' = cfg_users cfg"
proof -
  obtain e d1 where s: "seed_backends (flts 0) (cfg_backends cfg) d = (e, d1)" by fastforce
  note S = seed_backends_db_ok [OF s assms(2)]
  have d': "d' = d1" using assms(1) by (auto simp: start_backends_def s Let_def split: sum.splits if_splits)
  have "distinct (map bc_name bs)" if "load_active_backends (flts 1) d1 = Inr bs" for bs
  proof -
    have "tbl_ok br_name (backend_configs_t d1)" using S by (simp add: db_ok_def)
    then have "distinct (map br_name (sort_key br_name (filter br_active (backend_configs_t d1))))"
      by (simp add: tbl_ok_def distinct_map inj_on_def)
    then show ?thesis using that
      by (auto simp: load_active_backends_def backend_of_row_def comp_def split: if_splits)
  qed
  then show ?thesis using assms(1,3) S
    by (auto simp: start_backends_def s d' Let_def split: sum.splits if_splits)
qed

lemma catalog_distinct_Nil [simp]: "catalog_distinct []"
  by (simp add: catalog_distinct_def)

lemma seed_catalog_ok:
  assumes "seed_catalog flts seed cfg d = (c, d')" "db_ok d"
  shows "db_ok d' \<and> same_users d d' \<and> backend_configs_t d' = backend_configs_t d \<and> catalog_distinct c"
proof -
  obtain st err d1 where s: "sync_discovered_catalog (flts (Suc 0)) (normalize_catalog (catalog_from_config cfg)) d = ((st, err), d1)"
    by (metis prod.collapse)
  note K = sync_keeps_db_ok [OF s assms(2)] sync_same_users [OF s]
  show ?thesis using assms K load_catalog_distinct
    by (auto simp: seed_catalog_def s Let_def same_users_def split: sum.splits if_splits option.splits)
qed

lemma start_catalog_ok:
  assumes "start_catalog flts seed net cfg d = (c, d')" "db_ok d"
  shows "db_ok d' \<and> same_users d d' \<and> backend_configs_t d' = backend_configs_t d \<and> catalog_distinct c"
proof -
  obtain c1 d1 where s: "seed_catalog flts seed cfg d = (c1, d1)" by fastforce
  obtain disc stats err where di: "discover_catalog net cfg = (disc, stats, err)" by (metis prod_cases3)
  note S = seed_catalog_ok [OF s assms(2)]
  obtain r d2 where y: "sync_discovered_catalog (flts 3) disc d1 = (r, d2)" by fastforce
  have "db_ok d1" using S by blast
  note K = sync_keeps_db_ok [OF y this] sync_same_users [OF y]
  show ?thesis using assms S K load_catalog_distinct
    by (auto simp: start_catalog_def s di y Let_def same_users_def split: sum.splits if_splits)
qed

lemma start_pricing_ok:
  assumes "start_pricing flts cfg d = (cfg', d')" "db_ok d" "gm_ok (pricing_models (cfg_pricing cfg))"
  shows "db_ok d' \<and> same_users d d' \<and> backend_configs_t d' = backend_configs_t d \<and>
    cfg_backends cfg' = cfg_backends cfg \<and> cfg_server cfg' = cfg_server cfg \<and> cfg_users cfg' = cfg_users cfg"
proof -
  obtain e d1 where r: "replace_model_pricing (flts (Suc 0)) (pricing_models (cfg_pricing cfg)) d = (e, d1)" by fastforce
  have "db_ok d1 \<and> same_users d d1 \<and> backend_configs_t d1 = backend_configs_t d"
    using replace_pricing_db_ok [OF r assms(3,2)] replace_pricing_rows(1) [of "flts (Suc 0)" _ d d1, OF _ assms(3)] r
      replace_pricing_error [of "flts (Suc 0)" _ d _ d1]
    by (cases e) (auto simp: same_users_def, (metis db.select_convs(1,5) db.surjective db.update_convs(4))+)
  then show ?thesis using assms(1,2)
    by (auto simp: start_pricing_def r same_users_def split: sum.splits if_splits)
qed

lemma start_tls_ok:
  assumes "start_tls kp px fs now cfg = Inr tls"
  shows "(tls \<noteq> None \<longleftrightarrow> tls_enabled cfg) \<and> (\<forall>p. tls = Some p \<longrightarrow> provider_ok kp px p)"
proof (cases "tls_enabled cfg")
  case True
  then obtain m evs where l: "load_initial kp px fs now
      (new_tls_manager (tls_cert_path (cfg_server cfg)) (tls_key_path (cfg_server cfg))
         (tls_check_interval (cfg_server cfg)) (tls_expiry_warning_days (cfg_server cfg))) = (None, m, evs)"
      and t: "tls = Some (attach True (set_manager (Some 0) (new_provider [m])))"
    using assms by (auto simp: start_tls_def split: prod.splits option.splits)
  have "provider_ok kp px (attach True (set_manager (Some 0) (new_provider [m])))"
    by (rule provider_ok_step [OF step_attach provider_ok_start [OF l]])
  then show ?thesis using True t by simp
next
  case False
  then show ?thesis using assms by (simp add: start_tls_def)
qed

text \<open>
  Without database faults, the catalog that a start leaves is exactly what the reachable backends
  answered, as soon as one of them listed a model or all were reached: models that only an
  unreachable backend serves, and models seeded from the YAML file, are gone.  Otherwise it is the
  catalog of the table.
\<close>

lemma start_catalog_exact:
  assumes "db_ok d" and "discover_catalog net cfg = (disc, stats, err)"
    and "start_catalog (\<lambda>k. no_faults) seed net cfg d = (c, d')"
  shows "if err = None \<or> disc \<noteq> [] then \<forall>n b. has_ref c n b \<longleftrightarrow> has_ref (normalize_catalog disc) n b
    else c = fst (seed_catalog (\<lambda>k. no_faults) seed cfg d) \<or> load_active_catalog no_faults d' = Inr c"
proof -
  obtain c1 d1 where s: "seed_catalog (\<lambda>k. no_faults) seed cfg d = (c1, d1)" by fastforce
  have "db_ok d1" using seed_catalog_ok [OF s assms(1)] by blast
  then obtain st d2 c2 where y: "sync_discovered_catalog no_faults disc d1 = ((st, None), d2)"
      "load_active_catalog no_faults d2 = Inr c2" "\<forall>n b. has_ref c2 n b \<longleftrightarrow> has_ref (normalize_catalog disc) n b"
    using sync_exact by blast
  show ?thesis using assms(3) y
    by (auto simp: start_catalog_def s assms(2) Let_def split: if_splits sum.splits)
qed

text \<open>The configuration that the YAML decoder yields: a mapping has each key once.\<close>

definition yaml_maps_ok :: "(string \<Rightarrow> config option) \<Rightarrow> bool" where
  "yaml_maps_ok yaml \<longleftrightarrow> (\<forall>data c. yaml data = Some c \<longrightarrow>
     gm_ok (cfg_users c) \<and> gm_ok (pricing_models (cfg_pricing c)))"

lemma load_maps_ok:
  assumes "load fs yaml path = Inr c" "yaml_maps_ok yaml"
  shows "gm_ok (cfg_users c) \<and> gm_ok (pricing_models (cfg_pricing c))"
proof -
  obtain data c0 where "yaml data = Some c0" and c: "c = apply_defaults c0"
    using assms(1) by (auto simp: load_def Let_def split: option.splits)
  then have "gm_ok (cfg_users c0) \<and> gm_ok (pricing_models (cfg_pricing c0))"
    using assms(2) by (simp add: yaml_maps_ok_def)
  then show ?thesis by (simp add: c apply_defaults_def Let_def)
qed

text \<open>The user store's start-up validation leaves the configuration and the backend table alone.\<close>

definition same_setup :: "auth_store \<Rightarrow> auth_store \<Rightarrow> bool" where
  "same_setup st st' \<longleftrightarrow> as_cfg st' = as_cfg st \<and>
     (\<forall>d. as_db st = Some d \<longrightarrow> (\<exists>d'. as_db st' = Some d' \<and> backend_configs_t d' = backend_configs_t d))"

lemma same_setup_refl [simp]: "same_setup st st"
  by (simp add: same_setup_def)

lemma same_setup_trans: "same_setup a b \<Longrightarrow> same_setup b c \<Longrightarrow> same_setup a c"
  unfolding same_setup_def by fastforce

lemma create_user_setup:
  assumes "create_user f s u c = (r, s')" "as_db s \<noteq> None"
  shows "same_setup s s' \<and> as_db s' \<noteq> None"
proof -
  obtain d where "as_db s = Some d" using assms(2) by blast
  then show ?thesis using assms(1)
    by (auto simp: create_user_def set_rows_def Let_def same_setup_def split: if_splits)
qed

lemma bootstrap_setup: "as_db s \<noteq> None \<Longrightarrow> same_setup s (snd (bootstrap_loop f s us))"
proof (induction f s us rule: bootstrap_loop.induct)
  case (2 f s uid uc us)
  obtain q s1 where c: "create_user f s uid uc = (q, s1)" by fastforce
  note C = create_user_setup [OF c "2.prems"]
  then have "same_setup s1 (snd (bootstrap_loop (later 1 f) s1 us)) \<Longrightarrow> same_setup s (snd (bootstrap_loop (later 1 f) s1 us))"
    using same_setup_trans by blast
  then show ?case using c C "2.IH" by (auto split: option.split auth_err.split)
qed simp

lemma validate_store_setup:
  assumes "validate_store flt st = (None, st')" "as_db st \<noteq> None"
  shows "same_setup st st' \<and> (\<exists>d. as_db st' = Some d \<and> api_users d \<noteq> [])"
proof -
  obtain r s1 where b: "bootstrap_users (later 3 flt) st = (r, s1)" by fastforce
  have "same_setup st (snd (bootstrap_users (later 3 flt) st))"
    using bootstrap_setup [OF assms(2)] by (simp add: bootstrap_users_def split: option.split)
  then have "same_setup st s1" by (simp add: b)
  moreover have "as_db s1 \<noteq> None" using calculation assms(2) by (auto simp: same_setup_def)
  ultimately show ?thesis using assms b
    by (auto simp: validate_store_def split: if_splits option.splits)
qed

lemma seed_backends_rows:
  assumes "cs \<noteq> []" "distinct (map bc_name cs)"
  shows "backend_configs_t (snd (seed_backends no_faults cs d)) \<noteq> []"
proof (cases "backend_configs_t d = []")
  case True
  have "distinct (map bc_name (sort_key bc_name cs))" using assms(2) by (metis distinct_map distinct_sort set_sort)
  moreover have "map row_of_backend (sort_key bc_name cs) \<noteq> []" using assms(1) by (metis list.map_disc_iff set_empty set_sort)
  ultimately show ?thesis using True upsert_all_new [of "sort_key bc_name cs" d]
    by (simp add: seed_backends_def)
qed (simp add: seed_backends_def)

lemma start_backends_rows:
  assumes "start_backends flts cfg d = (cfg', d')" "config_ok cfg" "flts 0 = no_faults"
  shows "backend_configs_t d' \<noteq> []"
proof -
  have "d' = snd (seed_backends no_faults (cfg_backends cfg) d)"
    using assms(1,3) by (auto simp: start_backends_def Let_def split: sum.splits if_splits)
  then show ?thesis using seed_backends_rows assms(2) by (simp add: config_ok_def)
qed

lemma start_components_ok:
  assumes st: "start_components env cfg d = Inr g" and cfg: "config_ok cfg" "gm_ok (cfg_users cfg)"
      "gm_ok (pricing_models (cfg_pricing cfg))" and d: "db_ok d"
  shows "gateway_ok (se_key_pair env) (se_parse_cert env) g \<and> gw_catalog g \<noteq> [] \<and> api_users (gw_db g) \<noteq> [] \<and>
    (gw_tls g \<noteq> None \<longleftrightarrow> tls_enabled cfg) \<and> cfg_server (gw_cfg g) = cfg_server cfg \<and>
    rv_registry (gw_resolver g) = build_registry (gw_catalog g) \<and>
    gw_pricing g = usage_pricing_from_config (cfg_pricing (gw_cfg g)) \<and>
    (se_faults env 1 = no_faults \<longrightarrow> backend_configs_t (gw_db g) \<noteq> [])"
proof -
  let ?st = "\<lparr>as_cfg = cfg, as_db = Some d\<rparr>"
  obtain e0 s0 where v: "validate_store (se_faults env 0) ?st = (e0, s0)" by fastforce
  have e0: "e0 = None" using st v by (auto simp: start_components_def split: option.splits)
  have "auth_ok ?st" using cfg(2) d by (simp add: auth_ok_def as_users_def)
  then have ok0: "auth_ok s0" using auth_ok_validate [of ?st "se_faults env 0"] v by simp
  obtain d0 where d0: "as_db s0 = Some d0" "api_users d0 \<noteq> []" "as_cfg s0 = cfg"
    using validate_store_setup [of "se_faults env 0" ?st s0] v e0 by (auto simp: same_setup_def)
  have dok0: "db_ok d0" using ok0 d0(1) by (simp add: auth_ok_def)
  obtain cfg1 d1 where b: "start_backends (\<lambda>k. se_faults env (1 + k)) cfg d0 = (cfg1, d1)" by fastforce
  have "distinct (map bc_name (cfg_backends cfg))" using cfg(1) by (simp add: config_ok_def)
  note B = start_backends_ok [OF b dok0 this]
  obtain cat d2 where c: "start_catalog (\<lambda>k. se_faults env (3 + k)) (se_seed_flag env) (se_net env) cfg1 d1 = (cat, d2)" by fastforce
  from B have dok1: "db_ok d1" by blast
  note C = start_catalog_ok [OF c dok1]
  obtain cfg2 d3 where p: "start_pricing (\<lambda>k. se_faults env (8 + k)) cfg1 d2 = (cfg2, d3)" by fastforce
  have "db_ok d2" "gm_ok (pricing_models (cfg_pricing cfg1))" using B C cfg(3) by simp_all
  note P = start_pricing_ok [OF p this]
  have cat: "cat \<noteq> []" using st v e0 d0 b c by (auto simp: start_components_def split: if_splits)
  obtain rv tls where rv: "new_resolver_with_catalog cfg2 cat = Inr rv"
    and tls: "start_tls (se_key_pair env) (se_parse_cert env) (se_files env) (se_now env) cfg2 = Inr tls"
    and g: "g = \<lparr>gw_cfg = cfg2, gw_db = d3,
        gw_limiter = ls_backend (new_limiter_store (se_redis env) cfg2 (Some \<lparr>as_cfg = cfg2, as_db = Some d3\<rparr>)),
        gw_resolver = rv, gw_pricing = usage_pricing_from_config (cfg_pricing cfg2), gw_tls = tls, gw_catalog = cat\<rparr>"
    using st v e0 d0 b c p cat
    by (auto simp: start_components_def bind_res_Inr_iff map_sum_def id_def split: if_splits sum.splits)
  obtain m where m: "new_manager cfg2 = Inr m" "rv = \<lparr>rv_registry = build_registry cat, rv_manager = m, rv_weights = weight_index cat\<rparr>"
    using rv by (cases "new_manager cfg2") (auto simp: new_resolver_with_catalog_def)
  have "distinct (map bc_name (cfg_backends cfg2))" using B P by simp
  from mgr_ok_new_distinct [OF this m(1)] have "resolver_ok rv"
    using build_registry_ok C by (simp add: resolver_ok_def m(2))
  moreover have "tls_enabled cfg2 = tls_enabled cfg" using B P by (simp add: tls_enabled_def)
  moreover have "se_faults env 1 = no_faults \<longrightarrow> backend_configs_t d3 \<noteq> []"
    using start_backends_rows [OF b cfg(1)] C P by simp
  ultimately show ?thesis using start_tls_ok [OF tls] B C P cat d0(2) m(2)
    by (simp add: g gateway_ok_def same_users_def)
qed

lemma gateway_start_components:
  assumes "gateway_start env = Inr g" "yaml_maps_ok (se_yaml env)"
  obtains path cfg d where
    "resolve_config_path (se_exists env) (se_config_flag env) default_config_path = Inr path"
    "load (se_files env) (se_yaml env) path = Inr cfg" "config_ok cfg" "gm_ok (cfg_users cfg)"
    "gm_ok (pricing_models (cfg_pricing cfg))"
    "se_open_db env = Some d" "start_components env cfg d = Inr g"
proof -
  obtain path where p: "resolve_config_path (se_exists env) (se_config_flag env) default_config_path = Inr path"
    using assms(1) by (cases "resolve_config_path (se_exists env) (se_config_flag env) default_config_path")
      (auto simp: gateway_start_def)
  obtain cfg where c: "load (se_files env) (se_yaml env) path = Inr cfg"
    using assms(1) p by (cases "load (se_files env) (se_yaml env) path") (auto simp: gateway_start_def)
  obtain d where "se_open_db env = Some d" "start_components env cfg d = Inr g"
    using assms(1) p c by (auto simp: gateway_start_def split: if_splits option.splits)
  then show ?thesis using that [OF p c] config_ok_load [OF c] load_maps_ok [OF c assms(2)] by blast
qed

section \<open>The running gateway\<close>

text \<open>The reloader's callbacks keep the invariant, whatever they report.\<close>

lemma reload_upserts_keep: "mgr_ok m \<Longrightarrow> reload_upserts cs m = (e, m') \<Longrightarrow> mgr_ok m'"
proof (induction cs arbitrary: m)
  case (Cons c cs)
  then show ?case by (cases "upsert_backend c m") (auto intro: mgr_ok_upsert)
qed simp

lemma reload_removals_keep: "mgr_ok m \<Longrightarrow> reload_removals t ns m = (e, m') \<Longrightarrow> mgr_ok m'"
proof (induction ns arbitrary: m)
  case (Cons n ns)
  then show ?case by (cases "n \<in> set t"; cases "remove_backend n m") (auto intro: mgr_ok_remove)
qed simp

lemma apply_reload_keep:
  assumes "apply_reload_backends flt d cs m = (e, m')" "mgr_ok m"
  shows "mgr_ok m'"
proof -
  obtain e1 m1 where u: "reload_upserts cs m = (e1, m1)" by fastforce
  note ok1 = reload_upserts_keep [OF assms(2) u]
  obtain e2 m2 where r: "reload_removals (map bc_name cs) (map (\<lambda>p. be_name (mg_heap m1 ! p)) (mg_backends m1)) m1 = (e2, m2)"
    by fastforce
  have "m' \<in> {m, m1, m2}" using assms(1)
    by (simp add: apply_reload_backends_def Let_def u r split: option.splits sum.splits bool.splits)
  then show ?thesis using assms(2) ok1 reload_removals_keep [OF ok1 r] by blast
qed

definition gateway_inv :: "key_pair_parser \<Rightarrow> cert_parser \<Rightarrow> bool \<Rightarrow> gateway \<Rightarrow> bool" where
  "gateway_inv kp px tls g \<longleftrightarrow> gateway_ok kp px g \<and> (gw_tls g \<noteq> None \<longleftrightarrow> tls)"

interpretation applier: safe_applier "gateway_inv kp px tls" "gateway_applier flt kp px fs now" for kp px tls flt fs now
proof
  fix f c g assume "ap_config_snapshot (gateway_applier flt kp px fs now) = Some f" "gateway_inv kp px tls g"
  then show "gateway_inv kp px tls (f c g)" by (simp add: gateway_applier_def)
next
  fix f h g assume "ap_admin_token_hash (gateway_applier flt kp px fs now) = Some f" "gateway_inv kp px tls g"
  then show "gateway_inv kp px tls (f h g)" by (auto simp: gateway_applier_def gateway_ok_def gateway_inv_def)
next
  fix b bs g e g'
  assume "ap_backends (gateway_applier flt kp px fs now) = Some b" "b bs g = (e, g')" "gateway_inv kp px tls g"
  moreover obtain x m where "apply_reload_backends flt (Some (gw_db g)) bs (rv_manager (gw_resolver g)) = (x, m)" by fastforce
  ultimately show "gateway_inv kp px tls g'" using apply_reload_keep [of flt "Some (gw_db g)" bs _ x m]
    by (auto simp: gateway_applier_def gateway_apply_backends_def gateway_ok_def resolver_ok_def gateway_inv_def)
next
  fix t cert key iv days g e g'
  assume t: "ap_tls_paths (gateway_applier flt kp px fs now) = Some t" "t cert key iv days g = (e, g')" "gateway_inv kp px tls g"
  have "provider_ok kp px p'" if "update_paths kp px fs now cert key iv days p = (x, p')" "provider_ok kp px p" for p p' x
    using provider_ok_step [OF step_update [OF that(1)] that(2)] .
  then show "gateway_inv kp px tls g'" using t
    by (auto simp: gateway_applier_def gateway_apply_tls_def gateway_ok_def gateway_inv_def split: option.splits prod.splits)
qed

lemma resolver_ok_select:
  "resolver_ok rv \<Longrightarrow> resolver_ok (rv\<lparr>rv_manager := (rv_manager rv)\<lparr>mg_heap := snd (select es (mg_heap (rv_manager rv)))\<rparr>\<rparr>)"
  by (simp add: resolver_ok_def mgr_ok_select)

definition user_context :: "string \<Rightarrow> auth_context" where
  "user_context uid = \<lparr>ac_key_id = uid, ac_key_name = uid, ac_is_admin = False\<rparr>"

text \<open>The two ways an API request can go: a gate answers it, or the proxy does for a known user.\<close>

lemma serve_api_cases:
  assumes "serve_api fk fl now env g r = (a, g')"
  obtains (denied) resp lb where "a = api_denied resp" "rs_status resp \<in> {401, 429}" "g' = g\<lparr>gw_limiter := lb\<rparr>"
  | (served) uid w s where
      "row_accepts (gw_auth g) (api_key_from_request r) uid \<or> yaml_accepts (gw_auth g) (api_key_from_request r) uid"
      "store_allow fl now (gw_limiter_store g) uid = ((True, w), s)"
      "a = \<lparr>ao_response = pr_response (proxy_serve env (gw_proxy g) (Some (user_context uid)) r),
            ao_sent = pr_sent (proxy_serve env (gw_proxy g) (Some (user_context uid)) r),
            ao_record = pr_record (proxy_serve env (gw_proxy g) (Some (user_context uid)) r)\<rparr>"
      "g' = g\<lparr>gw_limiter := ls_backend s,
              gw_resolver := ph_resolver (pr_handler (proxy_serve env (gw_proxy g) (Some (user_context uid)) r))\<rparr>"
proof (cases "auth_middleware fk (gw_auth g)
    (\<lambda>ctx q. rate_middleware fl now (\<lambda>ctx' q'. proxy_serve env (gw_proxy g) ctx' q') (gw_limiter_store g) ctx q) r")
  case (Inl resp)
  then have "rs_status resp = 401" using auth_middleware_Inl by blast
  then show ?thesis using assms Inl by (intro denied [of resp "gw_limiter g"]) (simp_all add: serve_api_def)
next
  case (Inr x)
  then obtain k where k: "lookup_api_key fk (gw_auth g) (api_key_from_request r) = Some k"
    and x: "x = rate_middleware fl now (\<lambda>ctx' q'. proxy_serve env (gw_proxy g) ctx' q') (gw_limiter_store g)
        (Some \<lparr>ac_key_id = ak_id k, ac_key_name = ak_name k, ac_is_admin = ak_is_admin k\<rparr>) r"
    by (auto simp: auth_middleware_Inr)
  note L = lookup_sound [OF k]
  then have ctx: "\<lparr>ac_key_id = ak_id k, ac_key_name = ak_name k, ac_is_admin = ak_is_admin k\<rparr> = user_context (ak_id k)"
    by (simp add: user_context_def)
  obtain ok w s where a: "store_allow fl now (gw_limiter_store g) (ak_id k) = ((ok, w), s)" by (metis prod.collapse)
  show ?thesis
  proof (cases ok)
    case True
    then show ?thesis using L a assms Inr
      by (intro served [of "ak_id k" w s])
        (auto simp: x ctx serve_api_def rate_middleware_def user_context_def)
  next
    case False
    then show ?thesis using a assms Inr
      by (intro denied [of "ao_response a" "ls_backend s"])
        (auto simp: x ctx serve_api_def rate_middleware_def user_context_def api_denied_def)
  qed
qed

lemma serve_api_ok:
  assumes "serve_api fk fl now env g r = (a, g')" "gateway_ok kp px g"
  shows "gateway_ok kp px g' \<and> gw_cfg g' = gw_cfg g \<and> gw_db g' = gw_db g \<and> gw_tls g' = gw_tls g"
  using assms(1)
proof (cases rule: serve_api_cases)
  case (denied resp lb)
  then show ?thesis using assms(2) by (simp add: gateway_ok_def)
next
  case (served uid w s)
  have "resolver_ok (ph_resolver (pr_handler (proxy_serve env (gw_proxy g) (Some (user_context uid)) r)))"
    using proxy_handler_after [of env "gw_proxy g" "Some (user_context uid)" r] assms(2) resolver_ok_select
    by (auto simp: gateway_ok_def gw_proxy_def)
  then show ?thesis using assms(2) by (simp add: served gateway_ok_def)
qed

text \<open>
  The steps of the running gateway: an API request, a step of the configuration watcher or a SIGHUP,
  a health-check cycle, a step of the certificate provider, an administrator's change of a backend,
  and the usage logger's insertion.
\<close>

inductive gateway_step ::
  "(string \<Rightarrow> config option) \<Rightarrow> key_pair_parser \<Rightarrow> cert_parser
     \<Rightarrow> watcher_phase \<times> apply_error reloader \<times> gateway \<Rightarrow> watcher_phase \<times> apply_error reloader \<times> gateway \<Rightarrow> bool"
  for yaml kp px where
  gw_api: "serve_api fk fl now env g r = (a, g') \<Longrightarrow> gateway_step yaml kp px (p, rl, g) (p, rl, g')"
| gw_reload: "watch_step yaml (gateway_applier flt kp px fs now) (p, rl, g) (p', rl', g') \<Longrightarrow>
    gateway_step yaml kp px (p, rl, g) (p', rl', g')"
| gw_health: "gateway_step yaml kp px (p, rl, g)
    (p, rl, g\<lparr>gw_resolver := (gw_resolver g)\<lparr>rv_manager := check_all probe now (rv_manager (gw_resolver g))\<rparr>\<rparr>)"
| gw_tls_step: "gw_tls g = Some t \<Longrightarrow> provider_step kp px t t' \<Longrightarrow>
    gateway_step yaml kp px (p, rl, g) (p, rl, g\<lparr>gw_tls := Some t'\<rparr>)"
| gw_admin: "manager_step (rv_manager (gw_resolver g)) m \<Longrightarrow>
    gateway_step yaml kp px (p, rl, g) (p, rl, g\<lparr>gw_resolver := (gw_resolver g)\<lparr>rv_manager := m\<rparr>\<rparr>)"
| gw_usage: "batch_insert flt rs (gw_db g) = (ok, d) \<Longrightarrow>
    gateway_step yaml kp px (p, rl, g) (p, rl, g\<lparr>gw_db := d\<rparr>)"

inductive_cases gateway_stepE: "gateway_step yaml kp px (p, rl, g) (p', rl', g')"

lemma batch_insert_db_ok: "batch_insert flt rs d = (ok, d') \<Longrightarrow> db_ok d \<Longrightarrow> db_ok d'"
proof -
  have "db_ok (d\<lparr>usage_t := t\<rparr>) = db_ok d" for t by (simp add: db_ok_def)
  then show "batch_insert flt rs d = (ok, d') \<Longrightarrow> db_ok d \<Longrightarrow> db_ok d'"
    by (auto simp: batch_insert_def split: if_splits option.splits)
qed

lemma gateway_inv_step:
  assumes "gateway_step yaml kp px (p, rl, g) (p', rl', g')" "gateway_inv kp px tls g"
  shows "gateway_inv kp px tls g'"
  using assms
proof (elim gateway_stepE)
  fix fk fl now env r a assume "serve_api fk fl now env g r = (a, g')"
  then show ?thesis using serve_api_ok assms(2) unfolding gateway_inv_def by metis
next
  fix flt fs now assume "watch_step yaml (gateway_applier flt kp px fs now) (p, rl, g) (p', rl', g')"
  then show ?thesis using applier.watch_keeps assms(2) by blast
next
  fix t t' assume "provider_step kp px t t'" "gw_tls g = Some t" "g' = g\<lparr>gw_tls := Some t'\<rparr>"
  then show ?thesis using assms(2) provider_ok_step by (auto simp: gateway_inv_def gateway_ok_def)
next
  fix m assume "manager_step (rv_manager (gw_resolver g)) m" "g' = g\<lparr>gw_resolver := (gw_resolver g)\<lparr>rv_manager := m\<rparr>\<rparr>"
  then show ?thesis using assms(2) mgr_ok_step by (auto simp: gateway_inv_def gateway_ok_def resolver_ok_def)
next
  fix flt rs ok d assume "batch_insert flt rs (gw_db g) = (ok, d)" "g' = g\<lparr>gw_db := d\<rparr>"
  then show ?thesis using assms(2) batch_insert_db_ok by (auto simp: gateway_inv_def gateway_ok_def)
qed (simp add: gateway_inv_def gateway_ok_def resolver_ok_def mgr_ok_check)

lemma gateway_active_step:
  assumes "gateway_step yaml kp px (p, rl, g) (p', rl', g')" "active_ok c0 rl"
  shows "active_ok c0 rl'"
  using assms by (elim gateway_stepE) (auto intro: active_ok_step)

interpretation gateway_history: kept_by_steps "gateway_step yaml kp px"
    "\<lambda>s. gateway_inv kp px tls (snd (snd s)) \<and> active_ok c0 (fst (snd s))" for yaml kp px tls c0
  by unfold_locales (auto intro: gateway_inv_step gateway_active_step)

section \<open>Properties\<close>

text \<open>C4: everything between a client and a backend, composed: a request on the API route reaches a backend
  only with a key that an enabled user row or a YAML user accepts, only when that user's rate limit
  grants it, and only for a backend that the requested model, resolved and permitted under that
  user's overrides, lists.  The usage record, if any, is charged to that user.  Every other request is
  answered with an error, nothing is sent upstream and nothing is recorded.  The configuration, the
  database and the certificates stay as they are.\<close>

theorem api_pipeline:
  assumes "gateway_ok kp px g" and "serve_api fk fl now env g r = (a, g')"
  shows "gateway_ok kp px g' \<and> gw_cfg g' = gw_cfg g \<and> gw_db g' = gw_db g \<and> gw_tls g' = gw_tls g \<and>
    (\<forall>q. ao_sent a = Some q \<longrightarrow> (\<exists>uid model b w s.
       (row_accepts (gw_auth g) (api_key_from_request r) uid \<or> yaml_accepts (gw_auth g) (api_key_from_request r) uid) \<and>
       store_allow fl now (gw_limiter_store g) uid = ((True, w), s) \<and>
       extract_model_from_request (en_readable env) r = Some model \<and>
       permitted (en_faults env) (gw_proxy g) (Some (user_context uid)) model b \<and> usable b \<and>
       px_host q = u_host (be_url b) \<and> px_path q = rq_path r \<and> px_body q = rq_body r \<and>
       (\<forall>u. ao_record a = Some u \<longrightarrow> us_key u = uid))) \<and>
    (ao_sent a = None \<longrightarrow> rs_status (ao_response a) \<in> {400, 401, 403, 404, 429, 500, 502, 503} \<and> ao_record a = None)"
  using assms(2)
proof (cases rule: serve_api_cases)
  case (denied resp lb)
  then show ?thesis using serve_api_ok [OF assms(2,1)] by (auto simp: api_denied_def)
next
  case (served uid w s)
  let ?res = "proxy_serve env (gw_proxy g) (Some (user_context uid)) r"
  have inv: "mgr_ok (rv_manager (ph_resolver (gw_proxy g)))"
      "\<forall>n e. gm_get (rv_registry (ph_resolver (gw_proxy g))) n = Some e \<longrightarrow> distinct (re_backends e)"
    using assms(1) by (simp_all add: gateway_ok_def resolver_ok_def registry_ok_def gw_proxy_def)
  note F = proxy_forwards [OF inv, of env "Some (user_context uid)" r]
  have key: "us_key u = uid" if "pr_record ?res = Some u" for u
    using proxy_record_key [OF that] by (simp add: user_context_def)
  show ?thesis
  proof (intro conjI)
    show "\<forall>q. ao_sent a = Some q \<longrightarrow> (\<exists>uid model b w s.
       (row_accepts (gw_auth g) (api_key_from_request r) uid \<or> yaml_accepts (gw_auth g) (api_key_from_request r) uid) \<and>
       store_allow fl now (gw_limiter_store g) uid = ((True, w), s) \<and>
       extract_model_from_request (en_readable env) r = Some model \<and>
       permitted (en_faults env) (gw_proxy g) (Some (user_context uid)) model b \<and> usable b \<and>
       px_host q = u_host (be_url b) \<and> px_path q = rq_path r \<and> px_body q = rq_body r \<and>
       (\<forall>u. ao_record a = Some u \<longrightarrow> us_key u = uid))"
    proof (intro allI impI)
      fix q assume "ao_sent a = Some q"
      then have "pr_sent ?res = Some q" by (simp add: served)
      with F obtain model b where "extract_model_from_request (en_readable env) r = Some model"
          "permitted (en_faults env) (gw_proxy g) (Some (user_context uid)) model b" "usable b"
          "px_host q = u_host (be_url b)" "px_path q = rq_path r" "px_body q = rq_body r" by blast
      then show "\<exists>uid model b w s.
         (row_accepts (gw_auth g) (api_key_from_request r) uid \<or> yaml_accepts (gw_auth g) (api_key_from_request r) uid) \<and>
         store_allow fl now (gw_limiter_store g) uid = ((True, w), s) \<and>
         extract_model_from_request (en_readable env) r = Some model \<and>
         permitted (en_faults env) (gw_proxy g) (Some (user_context uid)) model b \<and> usable b \<and>
         px_host q = u_host (be_url b) \<and> px_path q = rq_path r \<and> px_body q = rq_body r \<and>
         (\<forall>u. ao_record a = Some u \<longrightarrow> us_key u = uid)"
        using served(1,2) key
        by (intro exI [of _ uid] exI [of _ model] exI [of _ b] exI [of _ w] exI [of _ s]) (simp add: served(3))
    qed
  next
    show "ao_sent a = None \<longrightarrow> rs_status (ao_response a) \<in> {400, 401, 403, 404, 429, 500, 502, 503} \<and> ao_record a = None"
      using F by (auto simp: served)
  qed (use serve_api_ok [OF assms(2,1)] in auto)
qed

text \<open>C10: a successful start: the catalog has a model, the user table has a user, the names of the backends
  are distinct and indexed, no model lists a backend twice, the schema of the database holds, TLS
  runs exactly when both paths are set and then already has a certificate, and the server's
  settings are those of the well-formed configuration that was loaded.  This holds whatever
  statements of the stores failed on the way.\<close>

theorem gateway_start_ok:
  assumes "gateway_start env = Inr g" and "se_open_db env = Some d" and "db_ok d" and "yaml_maps_ok (se_yaml env)"
  shows "gateway_ok (se_key_pair env) (se_parse_cert env) g \<and> gw_catalog g \<noteq> [] \<and> api_users (gw_db g) \<noteq> [] \<and>
    rv_registry (gw_resolver g) = build_registry (gw_catalog g) \<and>
    (\<exists>path cfg. load (se_files env) (se_yaml env) path = Inr cfg \<and> config_ok cfg \<and>
       cfg_server (gw_cfg g) = cfg_server cfg \<and>
       (tls_enabled cfg \<longleftrightarrow> (\<exists>p c. gw_tls g = Some p \<and> provider_certificate p = Inr c)))"
  using assms(1,4)
proof (rule gateway_start_components)
  fix path cfg d'
  assume c: "load (se_files env) (se_yaml env) path = Inr cfg" "config_ok cfg" "gm_ok (cfg_users cfg)"
      "gm_ok (pricing_models (cfg_pricing cfg))" "se_open_db env = Some d'" "start_components env cfg d' = Inr g"
  have "db_ok d'" using c(5) assms(2,3) by simp
  note S = start_components_ok [OF c(6,2-4) this]
  have "\<forall>p. gw_tls g = Some p \<longrightarrow> (\<exists>x. provider_certificate p = Inr x)"
    using S by (auto simp: gateway_ok_def dest!: provider_ok_serves)
  then have "tls_enabled cfg \<longleftrightarrow> (\<exists>p x. gw_tls g = Some p \<and> provider_certificate p = Inr x)"
    using S by (cases "gw_tls g") auto
  then show ?thesis using S c(1,2) by blast
qed

text \<open>From a successful start on, whatever happens (API requests, reloads by the watcher or on SIGHUP with
  any content of the files, health checks, certificate changes, administrators' changes of backends,
  insertions of usage records, in any order and with any failures), the gateway keeps its invariant,
  TLS stays on or off as it started and every handshake finds a certificate that was loaded from a
  matching pair, and the settings that need a restart are those it started with.\<close>

theorem gateway_always_ok:
  assumes "gateway_start env = Inr g" and "se_open_db env = Some d" and "db_ok d" and "yaml_maps_ok (se_yaml env)"
    and "(gateway_step (se_yaml env) (se_key_pair env) (se_parse_cert env))\<^sup>*\<^sup>*
      (WatchIdle, new_reloader path (Some (gw_cfg g)) default_runtime_policy, g) (p, rl, g')"
  shows "gateway_ok (se_key_pair env) (se_parse_cert env) g' \<and>
    (gw_tls g \<noteq> None \<longrightarrow> (\<exists>t c. gw_tls g' = Some t \<and> provider_certificate t = Inr c \<and>
       genuine (se_key_pair env) (se_parse_cert env) c)) \<and>
    (gw_tls g = None \<longrightarrow> gw_tls g' = None) \<and>
    (\<exists>c. rl_current rl = Some c \<and> restart_settings c = restart_settings (gw_cfg g))"
  using assms(1,4)
proof (rule gateway_start_components)
  fix path cfg d'
  assume c: "config_ok cfg" "gm_ok (cfg_users cfg)" "gm_ok (pricing_models (cfg_pricing cfg))"
      "se_open_db env = Some d'" "start_components env cfg d' = Inr g"
  have "db_ok d'" using c(4) assms(2,3) by simp
  from start_components_ok [OF c(5,1-3) this]
  have "gateway_inv (se_key_pair env) (se_parse_cert env) (gw_tls g \<noteq> None) g" by (simp add: gateway_inv_def)
  moreover have "active_ok (gw_cfg g) (new_reloader path' (Some (gw_cfg g)) default_runtime_policy :: apply_error reloader)" for path'
    by (simp add: active_ok_def new_reloader_def)
  ultimately have "gateway_inv (se_key_pair env) (se_parse_cert env) (gw_tls g \<noteq> None) g' \<and> active_ok (gw_cfg g) rl"
    using gateway_history.history_keeps [OF assms(5), of "gw_tls g \<noteq> None" "gw_cfg g"] by (simp del: not_None_eq)
  then show ?thesis
    by (auto simp: gateway_inv_def gateway_ok_def active_ok_def dest!: provider_ok_serves)
qed








section \<open>A sample start\<close>

definition sample_db :: db where
  "sample_db = empty_db\<lparr>models_t := [\<lparr>mr_name = ''m'', mr_display = None, mr_active = True\<rparr>],
     model_backends_t := [\<lparr>rr_model = ''m'', rr_backend = ''a'', rr_weight = 1\<rparr>]\<rparr>"

definition sample_start_env :: start_env where
  "sample_start_env = \<lparr>se_exists = (\<lambda>p. True), se_config_flag = ''c.yaml'', se_seed_flag = False,
     se_files = (\<lambda>p. Some []), se_yaml = (\<lambda>d. Some sample_config), se_open_db = Some sample_db,
     se_faults = (\<lambda>k. no_faults), se_net = (\<lambda>q. TransportFailed), se_redis = (\<lambda>a t. False),
     se_key_pair = sample_pair, se_parse_cert = (\<lambda>d. Some 5), se_now = 1\<rparr>"

lemma sample_db_ok: "db_ok sample_db"
  by (simp add: sample_db_def empty_db_def db_ok_def tbl_ok_def)

lemma sample_yaml_ok: "yaml_maps_ok (se_yaml sample_start_env)"
  by (simp add: sample_start_env_def yaml_maps_ok_def sample_config_def gm_ok_def)

lemma discover_unreachable:
  "discover_loop (\<lambda>q. TransportFailed) bs c st errs = (c', st', errs') \<Longrightarrow>
     c' = c \<and> successful_backends st' = successful_backends st"
proof (induction bs arbitrary: st errs)
  case (Cons b bs)
  have "\<exists>e. discover_backend_models (\<lambda>q. TransportFailed) b = Inl e"
    by (simp add: discover_backend_models_def Let_def)
  then show ?case using Cons by auto
qed simp

lemma discover_catalog_unreachable:
  "\<exists>st e. discover_catalog (\<lambda>q. TransportFailed) cfg = ([], st, Some e)"
proof -
  obtain c st errs where l: "discover_loop (\<lambda>q. TransportFailed) (cfg_backends cfg) []
      \<lparr>successful_backends = 0, failed_backends = 0\<rparr> [] = (c, st, errs)" by (metis prod_cases3)
  from discover_unreachable [OF l] show ?thesis by (simp add: discover_catalog_def l)
qed

abbreviation sample_loaded :: config where
  "sample_loaded \<equiv> apply_defaults sample_config"

lemma sample_validated:
  "\<exists>d. validate_store no_faults \<lparr>as_cfg = sample_loaded, as_db = Some sample_db\<rparr>
      = (None, \<lparr>as_cfg = sample_loaded, as_db = Some d\<rparr>) \<and>
    backend_configs_t d = [] \<and> models_t d = models_t sample_db \<and> model_backends_t d = model_backends_t sample_db \<and>
    model_pricing_t d = []"
  by (simp add: validate_store_def bootstrap_users_def sample_db_def empty_db_def as_users_def apply_defaults_def Let_def
      sample_config_def user_ttl_default_def create_user_def trim_space_def trim_left_def trim_right_def is_space_def
      tbl_get_def set_rows_def)

lemma sample_one_backend: "\<exists>b. cfg_backends sample_loaded = [b] \<and> bc_url b = ''http://h''"
  by (simp add: apply_defaults_def sample_config_def Let_def backend_defaults_def)

lemma sample_backends:
  assumes "backend_configs_t d = []" "cfg_backends cfg = [b]"
  shows "\<exists>d'. start_backends (\<lambda>k. no_faults) cfg d = (cfg\<lparr>cfg_backends := [stored_backend b]\<rparr>, d') \<and>
    models_t d' = models_t d \<and> model_backends_t d' = model_backends_t d \<and> model_pricing_t d' = model_pricing_t d"
proof -
  have s: "seed_backends no_faults [b] d = (None, d\<lparr>backend_configs_t := [row_of_backend b]\<rparr>)"
    using upsert_all_new [of "[b]" d] assms(1) by (simp add: seed_backends_def)
  have l: "load_active_backends no_faults (d\<lparr>backend_configs_t := [row_of_backend b]\<rparr>) = Inr [stored_backend b]"
    by (simp add: load_active_backends_def stored_backend_def)
  show ?thesis unfolding start_backends_def Let_def assms(2) s by (simp add: l)
qed

lemma sample_catalog:
  assumes "models_t d = models_t sample_db" "model_backends_t d = model_backends_t sample_db"
  shows "\<exists>c. start_catalog (\<lambda>k. no_faults) False (\<lambda>q. TransportFailed) cfg d = (c, d) \<and> c \<noteq> []"
proof -
  obtain st e where "discover_catalog (\<lambda>q. TransportFailed) cfg = ([], st, Some e)"
    using discover_catalog_unreachable by blast
  moreover obtain c where c: "load_active_catalog no_faults d = Inr c" using load_total by blast
  moreover have "c \<noteq> []" using c assms
    by (auto simp: load_active_catalog_def active_refs_def sample_db_def empty_db_def add_row_def gm_put_def)
  ultimately show ?thesis by (simp add: start_catalog_def seed_catalog_def)
qed

lemma sample_start: "\<exists>g. gateway_start sample_start_env = Inr g \<and> gw_tls g = None \<and>
  restart_settings (gw_cfg g) = restart_settings sample_loaded"
proof -
  obtain b0 where b0: "cfg_backends sample_loaded = [b0]" "bc_url b0 = ''http://h''" using sample_one_backend by blast
  let ?cfg = "sample_loaded\<lparr>cfg_backends := [stored_backend b0]\<rparr>"
  obtain d where v: "validate_store no_faults \<lparr>as_cfg = sample_loaded, as_db = Some sample_db\<rparr>
      = (None, \<lparr>as_cfg = sample_loaded, as_db = Some d\<rparr>)"
    "backend_configs_t d = []" "models_t d = models_t sample_db" "model_backends_t d = model_backends_t sample_db"
    "model_pricing_t d = []" using sample_validated by blast
  obtain d1 where b: "start_backends (\<lambda>k. no_faults) sample_loaded d = (?cfg, d1)"
    "models_t d1 = models_t sample_db" "model_backends_t d1 = model_backends_t sample_db" "model_pricing_t d1 = []"
    using sample_backends [OF v(2) b0(1)] v by auto
  obtain c where c: "start_catalog (\<lambda>k. no_faults) False (\<lambda>q. TransportFailed) ?cfg d1 = (c, d1)" "c \<noteq> []"
    using sample_catalog [OF b(2,3)] by blast
  have p: "start_pricing (\<lambda>k. no_faults) ?cfg d1 = (?cfg, d1)"
    using b(4) by (simp add: start_pricing_def load_model_pricing_def apply_defaults_def sample_config_def Let_def)
  have "bc_url (stored_backend b0) = ''http://h''"
    by (simp add: stored_backend_def backend_of_row_def row_of_backend_def Let_def b0)
  then obtain m where "new_manager ?cfg = Inr m"
    using sample_url by (auto simp: new_manager_def new_backend_def)
  moreover have "start_tls kp px fs now ?cfg = Inr None" for kp px fs now
    by (simp add: start_tls_def tls_enabled_def apply_defaults_def sample_config_def Let_def server_defaults_def)
  moreover have "cfg_database_path sample_loaded \<noteq> []" by (rule apply_defaults_positive)
  ultimately show ?thesis using v(1) b(1) c p sample_load
    by (simp add: gateway_start_def start_components_def sample_start_env_def resolve_config_path_def
        new_resolver_with_catalog_def Let_def restart_settings_def)
qed

theorem gateway_start_ok_witness:
  "\<exists>g. gateway_start sample_start_env = Inr g \<and> gw_catalog g \<noteq> [] \<and> api_users (gw_db g) \<noteq> []"
proof -
  obtain g where g: "gateway_start sample_start_env = Inr g" using sample_start by blast
  have "se_open_db sample_start_env = Some sample_db" by (simp add: sample_start_env_def)
  from gateway_start_ok [OF g this sample_db_ok sample_yaml_ok] g show ?thesis by blast
qed

lemma sample_facts: "se_open_db sample_start_env = Some sample_db" "se_faults sample_start_env 1 = no_faults"
  by (simp_all add: sample_start_env_def)


theorem gateway_always_ok_witness:
  "\<exists>g c. gateway_start sample_start_env = Inr g \<and> restart_settings c = restart_settings (gw_cfg g) \<and>
     gateway_ok (se_key_pair sample_start_env) (se_parse_cert sample_start_env)
       (g\<lparr>gw_resolver := (gw_resolver g)\<lparr>rv_manager := check_all (\<lambda>u. ProbeFailed) 1 (rv_manager (gw_resolver g))\<rparr>\<rparr>)"
proof -
  obtain g where g: "gateway_start sample_start_env = Inr g" using sample_start by blast
  let ?g = "g\<lparr>gw_resolver := (gw_resolver g)\<lparr>rv_manager := check_all (\<lambda>u. ProbeFailed) 1 (rv_manager (gw_resolver g))\<rparr>\<rparr>"
  let ?rl = "new_reloader ''c.yaml'' (Some (gw_cfg g)) default_runtime_policy"
  have "(gateway_step (se_yaml sample_start_env) (se_key_pair sample_start_env) (se_parse_cert sample_start_env))\<^sup>*\<^sup>*
      (WatchIdle, ?rl, g) (WatchIdle, ?rl, ?g)"
    by (rule r_into_rtranclp, rule gw_health)
  from gateway_always_ok [OF g sample_facts(1) sample_db_ok sample_yaml_ok this] g show ?thesis by blast
qed

definition sample_gateway :: gateway where
  "sample_gateway = \<lparr>gw_cfg = sample_config\<lparr>cfg_users := []\<rparr>,
     gw_db = empty_db\<lparr>api_users := [\<lparr>ur_id = ''alice'', ur_key_hash = hash_api_key ''k'', ur_rate = None, ur_burst = None,
        ur_ttl = None, ur_allow = [], ur_deny = [], ur_aliases = [], ur_disabled = False\<rparr>]\<rparr>,
     gw_limiter = RedisBackend sample_config, gw_resolver = sample_resolver,
     gw_pricing = \<lparr>up_default_input = 0, up_default_output = 0, up_models = []\<rparr>, gw_tls = None, gw_catalog = []\<rparr>"

definition keyed_request :: http_request where
  "keyed_request = chat_request\<lparr>rq_headers := [(''X-Api-Key'', [''k''])]\<rparr>"

lemma keyed_request_key: "api_key_from_request keyed_request = ''k''"
  by code_simp

lemma keyed_request_model: "extract_model_from_request True keyed_request = Some ''m''"
  by code_simp

lemma sample_gateway_ok: "gateway_ok kp px sample_gateway"
  using sample_resolver_distinct sample_manager_ok
  by (simp add: gateway_ok_def resolver_ok_def registry_ok_def sample_gateway_def sample_resolver_def
      empty_db_def db_ok_def tbl_ok_def)

lemma sample_gateway_serves:
  "\<exists>a g'. serve_api no_faults no_faults 0 (sample_env\<lparr>en_faults := (\<lambda>k. True)\<rparr>) sample_gateway keyed_request = (a, g') \<and>
     ao_sent a \<noteq> None"
proof -
  let ?env = "sample_env\<lparr>en_faults := (\<lambda>k. True)\<rparr>" and ?h = "gw_proxy sample_gateway"
  obtain p i heap where p: "resolve ''m'' (from_user_config None) sample_resolver = Inr p"
    "select p (mg_heap (rv_manager sample_resolver)) = (Some i, heap)" using chat_pool by blast
  have e: "en_readable ?env = True" "ph_resolver ?h = sample_resolver" "\<And>b. can_reach_backend (en_dial sample_env) b"
    "overrides_of (\<lambda>k. True) (ph_auth ?h) (Some ac) = from_user_config None" for ac
    by (simp_all add: sample_env_def gw_proxy_def sample_gateway_def can_reach_backend_def Let_def gw_auth_def
        overrides_of_def get_user_config_def)
  have "pr_sent (proxy_serve ?env ?h (Some ac) keyed_request) \<noteq> None" for ac
    using p by (simp add: proxy_serve_def keyed_request_model resolve_backend_pool_def e Let_def run_proxy_sent)
  moreover have "lookup_api_key no_faults (gw_auth sample_gateway) ''k'' = Some \<lparr>ak_id = ''alice'', ak_name = ''alice'', ak_is_admin = False\<rparr>"
    by (simp add: lookup_api_key_def gw_auth_def sample_gateway_def)
  moreover have "\<exists>w s. store_allow no_faults 0 (gw_limiter_store sample_gateway) ''alice'' = ((True, w), s)"
    by (simp add: store_allow_def gw_limiter_store_def sample_gateway_def backend_allow_def redis_allow_def split: prod.split)
  ultimately show ?thesis
    by (auto simp: serve_api_def auth_middleware_def keyed_request_key rate_middleware_def Let_def)
qed

theorem api_pipeline_witness:
  "\<exists>a g'. serve_api no_faults no_faults 0 (sample_env\<lparr>en_faults := (\<lambda>k. True)\<rparr>) sample_gateway keyed_request = (a, g') \<and>
     (\<exists>q. ao_sent a = Some q \<and> px_path q = ''/api/chat'')"
proof -
  obtain a g' where s: "serve_api no_faults no_faults 0 (sample_env\<lparr>en_faults := (\<lambda>k. True)\<rparr>) sample_gateway keyed_request = (a, g')"
      "ao_sent a \<noteq> None" using sample_gateway_serves by blast
  from api_pipeline [OF sample_gateway_ok s(1)] s(2) have "\<exists>q. ao_sent a = Some q \<and> px_path q = rq_path keyed_request"
    by fastforce
  then show ?thesis using s(1) by (auto simp: keyed_request_def chat_request_def)
qed

end
