(* ===== verification/HttpForm.thy ===== *)
theory HttpForm
  imports Http GoUrl
begin

text \<open>
  How \<open>net/http\<close> and \<open>net/url\<close> read what a browser sends: query strings, URL-encoded form bodies
  (\<open>ParseForm\<close>, \<open>FormValue\<close>, \<open>Query\<close>) and cookies, read and set.  The parameters of a media type are
  taken as well formed.
\<close>

section \<open>Query strings\<close>

type_synonym form = "string list gomap"

fun query_unescape :: "string \<Rightarrow> string option" where
  "query_unescape [] = Some []"
| "query_unescape (c # s) =
     (if c = CHR ''%'' then
        (case s of h # l # t \<Rightarrow>
           (case (unhex h, unhex l) of
              (Some a, Some b) \<Rightarrow> map_option (\<lambda>r. char_of (16 * a + b) # r) (query_unescape t)
            | _ \<Rightarrow> None)
         | _ \<Rightarrow> None)
      else map_option (\<lambda>r. (if c = CHR ''+'' then CHR '' '' else c) # r) (query_unescape s))"

definition form_add :: "string \<Rightarrow> string \<Rightarrow> form \<Rightarrow> form" where
  "form_add k v f = gm_put k ((case gm_get f k of Some vs \<Rightarrow> vs | None \<Rightarrow> []) @ [v]) f"

text \<open>One \<open>key=value\<close> piece: the form, and whether it was in order.\<close>

definition add_pair :: "string \<Rightarrow> form \<times> bool \<Rightarrow> form \<times> bool" where
  "add_pair p acc =
     (if CHR '';'' \<in> set p then (fst acc, False)
      else if p = [] then acc
      else (let (k, v) = cut_char (CHR ''='') p in
        case (query_unescape k, query_unescape (case v of None \<Rightarrow> [] | Some t \<Rightarrow> t)) of
          (Some k', Some v') \<Rightarrow> (form_add k' v' (fst acc), snd acc)
        | _ \<Rightarrow> (fst acc, False)))"

text \<open>\<open>url.ParseQuery\<close>: everything that could be read, and whether all could.\<close>

definition parse_query :: "string \<Rightarrow> form \<times> bool" where
  "parse_query q = fold add_pair (split_char (CHR ''&'') q) ([], True)"

definition url_query :: "http_request \<Rightarrow> form" where
  "url_query r = fst (parse_query (rq_query r))"

definition form_value :: "form \<Rightarrow> string \<Rightarrow> string" where
  "form_value f k = (case gm_get f k of Some (v # _) \<Rightarrow> v | _ \<Rightarrow> [])"

definition form_values :: "form \<Rightarrow> string \<Rightarrow> string list" where
  "form_values f k = (case gm_get f k of Some vs \<Rightarrow> vs | None \<Rightarrow> [])"

section \<open>Form bodies\<close>

definition media_type :: "string \<Rightarrow> string" where
  "media_type ct = trim_space (to_lower (fst (cut_char (CHR '';'') ct)))"

definition max_form_size :: nat where
  "max_form_size = 10485760"

definition parse_post_form :: "http_request \<Rightarrow> form \<times> bool" where
  "parse_post_form r =
     (if media_type (hdr_get (rq_headers r) ''Content-Type'') = ''application/x-www-form-urlencoded'' then
        (if max_form_size < length (rq_body r) then ([], False) else parse_query (rq_body r))
      else ([], True))"

text \<open>Body values before those of the query.\<close>

definition copy_values :: "form \<Rightarrow> form \<Rightarrow> form" where
  "copy_values dst src = fold (\<lambda>(k, vs) f. gm_put k (form_values f k @ vs) f) src dst"

definition parse_form :: "http_request \<Rightarrow> form option" where
  "parse_form r =
     (let (post, ok1) = (if rq_method r \<in> {''POST'', ''PUT'', ''PATCH''} then parse_post_form r else ([], True));
          (query, ok2) = parse_query (rq_query r)
      in if ok1 \<and> ok2 then Some (copy_values post query) else None)"

section \<open>Cookies\<close>

definition trim_ascii :: "string \<Rightarrow> string" where
  "trim_ascii s =
     (let sp = (\<lambda>c. c = CHR '' '' \<or> c = CHR 0x09 \<or> c = CHR 0x0A \<or> c = CHR 0x0D)
      in rev (dropWhile sp (rev (dropWhile sp s))))"

definition token_char :: "char \<Rightarrow> bool" where
  "token_char c \<longleftrightarrow> is_letter c \<or> is_digit c \<or> c \<in> set ''!#$%&*+-.^_`|~'' \<or> c = CHR 0x27"

definition is_token :: "string \<Rightarrow> bool" where
  "is_token s \<longleftrightarrow> s \<noteq> [] \<and> list_all token_char s"

definition cookie_char :: "char \<Rightarrow> bool" where
  "cookie_char c = (let n = of_char c :: nat in 32 \<le> n \<and> n < 127 \<and> n \<noteq> 34 \<and> n \<noteq> 59 \<and> n \<noteq> 92)"

definition parse_cookie_value :: "string \<Rightarrow> string option" where
  "parse_cookie_value v =
     (let raw = (if 1 < length v \<and> hd v = CHR 0x22 \<and> last v = CHR 0x22 then butlast (tl v) else v)
      in if list_all cookie_char raw then Some raw else None)"

definition cookie_of_part :: "string \<Rightarrow> (string \<times> string) option" where
  "cookie_of_part p =
     (let (n, v) = cut_char (CHR ''='') (trim_ascii p); name = trim_ascii n in
      if is_token name then
        map_option (\<lambda>x. (name, x)) (parse_cookie_value (case v of None \<Rightarrow> [] | Some t \<Rightarrow> t))
      else None)"

definition read_cookies :: "http_request \<Rightarrow> (string \<times> string) list" where
  "read_cookies r =
     List.map_filter cookie_of_part
       (concat (map (\<lambda>line. split_char (CHR '';'') (trim_ascii line)) (form_values (rq_headers r) ''Cookie'')))"

text \<open>\<open>Request.Cookie\<close>: the value of the first cookie of the name.\<close>

definition cookie_value :: "http_request \<Rightarrow> string \<Rightarrow> string option" where
  "cookie_value r name = map_option snd (List.find (\<lambda>(n, _). n = name) (read_cookies r))"

text \<open>The \<open>name=value\<close> that \<open>http.SetCookie\<close> writes: bytes a cookie cannot hold are dropped, a value
  with a blank or a comma is quoted.\<close>

definition sanitize_cookie_value :: "string \<Rightarrow> string" where
  "sanitize_cookie_value v =
     (let u = filter cookie_char v
      in if CHR '' '' \<in> set u \<or> CHR '','' \<in> set u then [CHR 0x22] @ u @ [CHR 0x22] else u)"

definition cookie_pair :: "string \<Rightarrow> string \<Rightarrow> string" where
  "cookie_pair name v = name @ ''='' @ sanitize_cookie_value v"

lemma cut_char_none: "sep \<notin> set s \<Longrightarrow> cut_char sep s = (s, None)"
  by (induction s) auto

lemma cut_char_some: "sep \<notin> set a \<Longrightarrow> cut_char sep (a @ sep # b) = (a, Some b)"
  by (induction a) auto

lemma cut_char_eq: "sep \<notin> set a \<Longrightarrow> cut_char sep (a @ [sep] @ b) = (a, Some b)"
  using cut_char_some by simp

end
