(* ===== verification/DashForms.thy ===== *)
theory DashForms
  imports HttpForm Usage Backend
begin

text \<open>
  internal/dashboard/handler.go, the functions without state: the parsers and printers of the
  administration forms, themes, paths, filters and the helpers of the templates.  What the code
  reports in words is a constructor of \<open>form_error\<close>.
\<close>

datatype form_error =
    AliasFormat string | AliasIncomplete string
  | RatePositive | BurstPositive | TtlPositive
  | RefsMissing | RefFormat string | RefNameEmpty | RefUnknown string | RefWeight string | RefDuplicate string
  | InputCostInvalid | OutputCostInvalid
  | BackendNameNeeded | BackendUrlNeeded | WeightPositive | TimeoutPositive | HealthPathSlash

section \<open>Lists in a text\<close>

fun add_unseen :: "string list \<Rightarrow> string list \<Rightarrow> string list" where
  "add_unseen res [] = res"
| "add_unseen res (p # ps) =
     (let item = trim_space p in
      if item = [] then add_unseen res ps
      else if item \<in> set res then add_unseen res ps
      else add_unseen (res @ [item]) ps)"

definition split_csv :: "string \<Rightarrow> string list" where
  "split_csv input =
     (let t = trim_space input in if t = [] then [] else add_unseen [] (split_char (CHR '','') t))"

definition contains_csv_value :: "string list \<Rightarrow> string \<Rightarrow> bool" where
  "contains_csv_value items target = list_ex (\<lambda>i. trim_space i = target) items"

definition remove_csv_value :: "string list \<Rightarrow> string \<Rightarrow> string list" where
  "remove_csv_value items target = filter (\<lambda>i. trim_space i \<noteq> target) items"

definition contains_string :: "string list \<Rightarrow> string \<Rightarrow> bool" where
  "contains_string items target = list_ex (\<lambda>i. i = target) items"

definition model_accessible_for_user :: "user_config \<Rightarrow> string \<Rightarrow> bool" where
  "model_accessible_for_user uc m =
     (if contains_csv_value (model_deny uc) m then False
      else if length (model_allow uc) = 0 then True
      else contains_csv_value (model_allow uc) m)"

section \<open>Aliases\<close>

fun parse_alias_entries :: "string list \<Rightarrow> string gomap \<Rightarrow> (form_error, string gomap) result" where
  "parse_alias_entries [] m = Inr m"
| "parse_alias_entries (e # es) m =
     (let item = trim_space e in
      if item = [] then parse_alias_entries es m
      else (case split_n2 (CHR '':'') item of
          [a, b] \<Rightarrow>
            (if trim_space a = [] \<or> trim_space b = [] then Inl (AliasIncomplete item)
             else parse_alias_entries es (gm_put (trim_space a) (trim_space b) m))
        | _ \<Rightarrow> Inl (AliasFormat item)))"

definition parse_aliases :: "string \<Rightarrow> (form_error, string gomap) result" where
  "parse_aliases input =
     (let t = trim_space input in
      if t = [] then Inr [] else parse_alias_entries (split_char (CHR '','') t) [])"

definition format_aliases :: "string gomap \<Rightarrow> string" where
  "format_aliases m =
     (if length m = 0 then []
      else str_join '', '' (map (\<lambda>k. k @ '':'' @ (case gm_get m k of Some v \<Rightarrow> v | None \<Rightarrow> [])) (sort (gm_keys m))))"

section \<open>Backend references\<close>

definition format_model_backend_refs :: "model_backend_ref list \<Rightarrow> string" where
  "format_model_backend_refs refs =
     str_join '', '' (map (\<lambda>r. ref_backend r @ '':'' @ itoa (if ref_weight r \<le> 0 then 1 else ref_weight r))
       (filter (\<lambda>r. ref_backend r \<noteq> []) refs))"

fun parse_ref_items ::
  "string list \<Rightarrow> string list \<Rightarrow> model_backend_ref list \<Rightarrow> (form_error, model_backend_ref list) result" where
  "parse_ref_items valid [] refs = Inr refs"
| "parse_ref_items valid (p # ps) refs =
     (let item = trim_space p in
      if item = [] then parse_ref_items valid ps refs
      else (case split_n2 (CHR '':'') item of
          [a, b] \<Rightarrow>
            (let name = trim_space a in
             if name = [] then Inl RefNameEmpty
             else if name \<notin> set valid then Inl (RefUnknown name)
             else (case atoi (trim_space b) of
                 None \<Rightarrow> Inl (RefWeight name)
               | Some w \<Rightarrow>
                   if w \<le> 0 then Inl (RefWeight name)
                   else if name \<in> ref_backend ` set refs then Inl (RefDuplicate name)
                   else parse_ref_items valid ps (refs @ [\<lparr>ref_backend = name, ref_weight = w\<rparr>])))
        | _ \<Rightarrow> Inl (RefFormat item)))"

definition parse_model_backend_refs ::
  "string \<Rightarrow> backend_cfg list \<Rightarrow> (form_error, model_backend_ref list) result" where
  "parse_model_backend_refs input bs =
     (let t = trim_space input in
      if t = [] then Inl RefsMissing
      else (case parse_ref_items (map bc_name bs) (split_char (CHR '','') t) [] of
          Inl e \<Rightarrow> Inl e
        | Inr refs \<Rightarrow> if refs = [] then Inl RefsMissing else Inr refs))"

section \<open>Numbers with a fraction\<close>

text \<open>
  \<open>strconv.ParseFloat\<close>: infinities and NaN by name, decimal and hexadecimal literals with
  underscores between digits; a literal beyond the largest \<open>float64\<close> is an error, one below half the
  smallest is zero.  Finite values are those of theory Float64.
\<close>

datatype go_float = FFinite real | FInf bool | FNaN

definition cut_sign :: "string \<Rightarrow> bool \<times> string" where
  "cut_sign s = (case s of c # t \<Rightarrow> (if c = CHR ''-'' then (True, t) else if c = CHR ''+'' then (False, t) else (False, s))
     | [] \<Rightarrow> (False, []))"

definition special_float :: "string \<Rightarrow> go_float option" where
  "special_float s =
     (case cut_sign s of (neg, t) \<Rightarrow>
        if to_lower t = ''inf'' \<or> to_lower t = ''infinity'' then Some (FInf neg)
        else if to_lower s = ''nan'' then Some FNaN else None)"

datatype saw = SawStart | SawDigit | SawUnderscore | SawOther

fun underscore_loop :: "bool \<Rightarrow> saw \<Rightarrow> string \<Rightarrow> bool" where
  "underscore_loop hx w [] = (w \<noteq> SawUnderscore)"
| "underscore_loop hx w (c # s) =
     (if is_digit c \<or> hx \<and> unhex c \<noteq> None then underscore_loop hx SawDigit s
      else if c = CHR ''_'' then w = SawDigit \<and> underscore_loop hx SawUnderscore s
      else w \<noteq> SawUnderscore \<and> underscore_loop hx SawOther s)"

definition base_prefix :: "string \<Rightarrow> char option" where
  "base_prefix t = (case t of z # c # _ \<Rightarrow> (if z = CHR ''0'' \<and> lower_char c \<in> set ''box'' then Some (lower_char c) else None)
     | _ \<Rightarrow> None)"

definition underscore_ok :: "string \<Rightarrow> bool" where
  "underscore_ok s =
     (case cut_sign s of (_, t) \<Rightarrow>
       (case base_prefix t of
          Some c \<Rightarrow> underscore_loop (c = CHR ''x'') SawDigit (drop 2 t)
        | None \<Rightarrow> underscore_loop False SawStart t))"

fun digits_in :: "int \<Rightarrow> int \<Rightarrow> string \<Rightarrow> int option" where
  "digits_in base acc [] = Some acc"
| "digits_in base acc (c # s) =
     (case unhex c of
        None \<Rightarrow> None
      | Some d \<Rightarrow> if base \<le> int d then None else digits_in base (base * acc + int d) s)"

text \<open>A signed, non-empty exponent.\<close>

definition exponent_of :: "string \<Rightarrow> int option" where
  "exponent_of s =
     (case cut_sign s of (neg, t) \<Rightarrow>
        if t = [] then None else map_option (\<lambda>n. if neg then - n else n) (digits_in 10 0 t))"

text \<open>The value of an unsigned literal without underscores.\<close>

definition literal_value :: "string \<Rightarrow> real option" where
  "literal_value t =
     (let hx = base_prefix t = Some (CHR ''x'');
          base = (if hx then 16 else 10);
          body = (if hx then drop 2 t else t);
          mark = (if hx then CHR ''p'' else CHR ''e'');
          m = takeWhile (\<lambda>c. lower_char c \<noteq> mark) body;
          e = dropWhile (\<lambda>c. lower_char c \<noteq> mark) body;
          (ip, fp) = cut_char (CHR ''.'') m;
          frac = (case fp of None \<Rightarrow> [] | Some f \<Rightarrow> f)
      in if ip @ frac = [] \<or> hx \<and> e = [] then None
         else (case (digits_in base 0 (ip @ frac), if e = [] then Some 0 else exponent_of (tl e)) of
             (Some n, Some x) \<Rightarrow>
               Some (of_int n * (if hx then 2 powi (x - 4 * int (length frac)) else 10 powi (x - int (length frac))))
           | _ \<Rightarrow> None))"

definition parse_float :: "string \<Rightarrow> go_float option" where
  "parse_float s =
     (case special_float s of
        Some v \<Rightarrow> Some v
      | None \<Rightarrow>
          (case cut_sign s of (neg, t) \<Rightarrow>
            if CHR ''_'' \<in> set t \<and> \<not> underscore_ok s then None
            else (case literal_value (filter (\<lambda>c. c \<noteq> CHR ''_'') t) of
                None \<Rightarrow> None
              | Some x \<Rightarrow>
                  (let y = (if x \<le> 2 powi (- 1075) then 0 else fl64 x) in
                   if 2 powi 1024 \<le> y then None else Some (FFinite (if neg then - y else y))))))"

text \<open>Go's comparisons with zero, false for NaN.\<close>

definition float_neg :: "go_float \<Rightarrow> bool" where
  "float_neg v = (case v of FFinite x \<Rightarrow> x < 0 | FInf n \<Rightarrow> n | FNaN \<Rightarrow> False)"

definition float_not_pos :: "go_float \<Rightarrow> bool" where
  "float_not_pos v = (case v of FFinite x \<Rightarrow> x \<le> 0 | FInf n \<Rightarrow> n | FNaN \<Rightarrow> False)"

section \<open>Forms\<close>

definition checked_on :: "form \<Rightarrow> string \<Rightarrow> bool" where
  "checked_on f k = equal_fold (trim_space (form_value f k)) ''on''"

definition cost_field :: "form_error \<Rightarrow> string \<Rightarrow> (form_error, go_float) result" where
  "cost_field err raw =
     (let t = trim_space raw in
      if t = [] then Inr (FFinite 0)
      else (case parse_float t of
          None \<Rightarrow> Inl err
        | Some v \<Rightarrow> if float_neg v then Inl err else Inr v))"

definition parse_model_pricing_form :: "form \<Rightarrow> (form_error, go_float \<times> go_float) result" where
  "parse_model_pricing_form f =
     bind_res (cost_field InputCostInvalid (form_value f ''input_cost_per_1m_tokens'')) (\<lambda>i.
     bind_res (cost_field OutputCostInvalid (form_value f ''output_cost_per_1m_tokens'')) (\<lambda>out. Inr (i, out)))"

text \<open>A rate limit as the form gives it: its rate need not be finite.\<close>

record form_limit =
  fl_rate :: go_float
  fl_burst :: int
  fl_ttl :: int

record user_form =
  uf_limit :: "form_limit option"
  uf_allow :: "string list"
  uf_deny :: "string list"
  uf_aliases :: "string gomap"

definition positive_int :: "form_error \<Rightarrow> string \<Rightarrow> (form_error, int) result" where
  "positive_int err raw =
     (case atoi (trim_space raw) of None \<Rightarrow> Inl err | Some n \<Rightarrow> if n \<le> 0 then Inl err else Inr n)"

definition limit_of_form :: "form \<Rightarrow> (form_error, form_limit option) result" where
  "limit_of_form f =
     (if checked_on f ''rate_limit_enabled'' then
        (case parse_float (trim_space (form_value f ''rate_limit_rate'')) of
           None \<Rightarrow> Inl RatePositive
         | Some rate \<Rightarrow>
             if float_not_pos rate then Inl RatePositive
             else bind_res (positive_int BurstPositive (form_value f ''rate_limit_burst'')) (\<lambda>burst.
                  bind_res (positive_int TtlPositive (form_value f ''rate_limit_ttl_seconds'')) (\<lambda>ttl.
                  Inr (Some \<lparr>fl_rate = rate, fl_burst = burst, fl_ttl = i64 (ttl * second)\<rparr>))))
      else Inr None)"

definition build_user_config_from_form :: "form \<Rightarrow> (form_error, user_form) result" where
  "build_user_config_from_form f =
     bind_res (parse_aliases (form_value f ''aliases'')) (\<lambda>als.
     bind_res (limit_of_form f) (\<lambda>rl.
       Inr \<lparr>uf_limit = rl, uf_allow = split_csv (form_value f ''model_allow''),
            uf_deny = split_csv (form_value f ''model_deny''), uf_aliases = als\<rparr>))"

definition build_backend_config_from_form :: "form \<Rightarrow> (form_error, backend_cfg) result" where
  "build_backend_config_from_form f =
     (let name = trim_space (form_value f ''backend_name''); url = trim_space (form_value f ''backend_url'') in
      if name = [] then Inl BackendNameNeeded
      else if url = [] then Inl BackendUrlNeeded
      else bind_res (positive_int WeightPositive (form_value f ''backend_weight'')) (\<lambda>weight.
           bind_res (positive_int TimeoutPositive (form_value f ''backend_timeout_seconds'')) (\<lambda>secs.
             (let path0 = trim_space (form_value f ''backend_health_path'');
                  path = (if path0 = [] then ''/api/version'' else path0)
              in if \<not> has_prefix path ''/'' then Inl HealthPathSlash
                 else Inr \<lparr>bc_name = name, bc_url = url, bc_weight = weight,
                        bc_tag = trim_space (form_value f ''backend_tag''), bc_headers = [],
                        bc_timeout = i64 (secs * second), bc_health_path = path\<rparr>))))"

definition last_value :: "form \<Rightarrow> string \<Rightarrow> string" where
  "last_value f k = (case form_values f k of [] \<Rightarrow> [] | vs \<Rightarrow> trim_space (last vs))"

section \<open>What the pages show\<close>

definition user_rate_or_default :: "rate_limit_cfg option \<Rightarrow> real \<Rightarrow> real" where
  "user_rate_or_default rl d = (case rl of Some r \<Rightarrow> if 0 < rlc_rate r then rlc_rate r else d | None \<Rightarrow> d)"

definition user_burst_or_default :: "rate_limit_cfg option \<Rightarrow> int \<Rightarrow> int" where
  "user_burst_or_default rl d = (case rl of Some r \<Rightarrow> if 0 < rlc_burst r then rlc_burst r else d | None \<Rightarrow> d)"

definition user_ttl_or_default_seconds :: "rate_limit_cfg option \<Rightarrow> int \<Rightarrow> int" where
  "user_ttl_or_default_seconds rl d =
     (let own = (case rl of Some r \<Rightarrow> if 0 < rlc_ttl r then Some (rlc_ttl r) else None | None \<Rightarrow> None) in
      case own of Some t \<Rightarrow> go_div t second | None \<Rightarrow> if d \<le> 0 then 0 else go_div d second)"

definition fallback_value :: "string \<Rightarrow> string \<Rightarrow> string" where
  "fallback_value v fallback = (if trim_space v = [] then fallback else v)"

text \<open>\<open>%.nf\<close>: the exact value rounded to \<open>n\<close> decimals, ties to even.\<close>

definition pad_zeros :: "nat \<Rightarrow> string \<Rightarrow> string" where
  "pad_zeros n s = replicate (n - length s) (CHR ''0'') @ s"

definition fixed_text :: "nat \<Rightarrow> real \<Rightarrow> string" where
  "fixed_text n x =
     (let m = nat (rne (\<bar>x\<bar> * 10 ^ n));
          frac = (if n = 0 then [] else ''.'' @ pad_zeros n (nat_digits (m mod 10 ^ n)))
      in (if x < 0 then ''-'' else []) @ nat_digits (m div 10 ^ n) @ frac)"

datatype cost_arg = CostNil | CostFloat real | CostInt int | CostOther

definition format_cost :: "cost_arg \<Rightarrow> string" where
  "format_cost v =
     (case v of
        CostNil \<Rightarrow> ''$0.00''
      | CostFloat x \<Rightarrow> ''$'' @ fixed_text 2 x
      | CostInt n \<Rightarrow> ''$'' @ fixed_text 2 (fl64 (of_int n))
      | CostOther \<Rightarrow> ''$0.00'')"

definition humanize_duration :: "int \<Rightarrow> string" where
  "humanize_duration ms =
     (if ms \<le> 0 then ''0ms''
      else if ms < 1000 then itoa ms @ ''ms''
      else fixed_text 1 (fl64 (fl64 (of_int ms) / 1000)) @ ''s'')"

text \<open>\<open>None\<close> is the panic of a slice with a negative bound.\<close>

definition trim_text :: "string \<Rightarrow> int \<Rightarrow> string option" where
  "trim_text s max_len =
     (if int (length s) \<le> max_len then Some s
      else if max_len < 0 then None
      else Some (take (nat max_len) s @ ''...''))"

definition add_int :: "int \<Rightarrow> int \<Rightarrow> int" where
  "add_int a b = i64 (a + b)"

definition sub_int :: "int \<Rightarrow> int \<Rightarrow> int" where
  "sub_int a b = i64 (a - b)"

section \<open>Prices and catalogs\<close>

definition build_usage_pricing_config :: "pricing_config \<Rightarrow> usage_pricing" where
  "build_usage_pricing_config p =
     \<lparr>up_default_input = default_input_per_1m p, up_default_output = default_output_per_1m p,
      up_models = fold (\<lambda>(n, x). gm_put n \<lparr>mp_input = input_per_1m x, mp_output = output_per_1m x\<rparr>)
        (pricing_models p) []\<rparr>"

definition clone_config_catalog :: "catalog \<Rightarrow> catalog" where
  "clone_config_catalog c =
     fold (\<lambda>(n, e). gm_put n \<lparr>me_name = me_name e,
        me_backends = map (\<lambda>r. \<lparr>ref_backend = ref_backend r, ref_weight = ref_weight r\<rparr>) (me_backends e)\<rparr>) c []"

section \<open>Themes\<close>

definition default_theme_id :: string where
  "default_theme_id = ''default''"

definition required_theme_ids :: "string list" where
  "required_theme_ids = [''light'', ''dark'', ''matrix'', ''space'']"

definition theme_char :: "char \<Rightarrow> bool" where
  "theme_char c = (let n = of_char c :: nat in 97 \<le> n \<and> n \<le> 122 \<or> 48 \<le> n \<and> n \<le> 57 \<or> c = CHR ''-'')"

definition sanitize_theme_id :: "string \<Rightarrow> string" where
  "sanitize_theme_id raw = (let t = to_lower (trim_space raw) in if list_all theme_char t then t else [])"

definition theme_label :: "string \<Rightarrow> string" where
  "theme_label t =
     (if t = ''light'' then ''Light'' else if t = ''dark'' then ''Dark''
      else if t = ''matrix'' then ''Matrix'' else if t = ''space'' then ''Space''
      else str_join '' '' (map (\<lambda>p. case p of [] \<Rightarrow> [] | c # s \<Rightarrow> upper_char c # s) (split_char (CHR ''-'') t)))"

text \<open>\<open>filepath.Ext\<close>.\<close>

definition path_ext :: "string \<Rightarrow> string" where
  "path_ext s =
     (let t = rev (takeWhile (\<lambda>c. c \<noteq> CHR ''/'') (rev s)) in
      case cut_last (CHR ''.'') t of None \<Rightarrow> [] | Some (_, e) \<Rightarrow> CHR ''.'' # e)"

text \<open>The themes of the directory: its entries, each with whether it is a directory itself.\<close>

definition theme_of_entry :: "string \<times> bool \<Rightarrow> string option" where
  "theme_of_entry e =
     (case e of (name, dir) \<Rightarrow>
        if dir \<or> to_lower (path_ext name) \<noteq> ''.css'' then None
        else (let t = sanitize_theme_id (trim_suffix name (path_ext name))
              in if t = [] \<or> t = default_theme_id then None else Some t))"

definition available_themes :: "(string \<times> bool) list option \<Rightarrow> (string \<times> string) list" where
  "available_themes entries =
     (let found = (case entries of None \<Rightarrow> [] | Some es \<Rightarrow> List.map_filter theme_of_entry es)
      in (default_theme_id, ''Default'') #
         map (\<lambda>t. (t, theme_label t)) (sort (remdups (required_theme_ids @ found))))"

definition selected_theme_from_request :: "http_request \<Rightarrow> (string \<times> string) list \<Rightarrow> string" where
  "selected_theme_from_request r available =
     (case cookie_value r ''admin_theme'' of
        Some v \<Rightarrow> (if sanitize_theme_id v \<in> fst ` set available then sanitize_theme_id v else default_theme_id)
      | None \<Rightarrow> default_theme_id)"

definition theme_stylesheet_href :: "string \<Rightarrow> string" where
  "theme_stylesheet_href t =
     (if sanitize_theme_id t = [] \<or> t = default_theme_id then []
      else ''/admin/static/themes/'' @ t @ ''.css'')"

definition theme_head_oob_element :: "string \<Rightarrow> string" where
  "theme_head_oob_element t =
     (let href = theme_stylesheet_href t; q = [CHR 0x22] in
      if href = [] then ''<style id='' @ q @ ''dashboard-theme-css'' @ q @ '' hx-swap-oob='' @ q @ ''outerHTML'' @ q @ ''></style>''
      else ''<link id='' @ q @ ''dashboard-theme-css'' @ q @ '' rel='' @ q @ ''stylesheet'' @ q @ '' href='' @ q @ href @ q
             @ '' hx-swap-oob='' @ q @ ''outerHTML'' @ q @ ''>'')"

section \<open>Paths and filters\<close>

definition normalize_admin_path :: "string \<Rightarrow> string" where
  "normalize_admin_path raw =
     (let t = trim_space raw in
      if t = [] then []
      else (case url_parse t of
          None \<Rightarrow> []
        | Some u \<Rightarrow>
            (let p0 = (if u_path u = [] then t else u_path u);
                 p = (if p0 = ''/admin'' \<or> p0 = ''/admin/'' then ''/admin/overview'' else p0)
             in if \<not> has_prefix p ''/admin/'' then []
                else if p = ''/admin/theme'' then ''/admin/overview''
                else if u_query u = [] then p
                else p @ ''?'' @ u_query u)))"

definition theme_refresh_path :: "http_request \<Rightarrow> string" where
  "theme_refresh_path r =
     (let p = normalize_admin_path (hdr_get (rq_headers r) ''HX-Current-URL'') in
      if p \<noteq> [] then p
      else (let q = normalize_admin_path (hdr_get (rq_headers r) ''Referer'') in
            if q \<noteq> [] then q else ''/admin/overview''))"

definition parse_logs_list_options :: "http_request \<Rightarrow> list_options" where
  "parse_logs_list_options r =
     (let q = url_query r in
      \<lparr>li_key = form_value q ''api_key_id'', li_model = form_value q ''model'', li_start = form_value q ''start'',
       li_end = form_value q ''end'',
       li_page = (if form_value q ''page'' = [] then 1
          else case atoi (form_value q ''page'') of Some n \<Rightarrow> if 0 < n then n else 1 | None \<Rightarrow> 1),
       li_page_size = 10\<rparr>)"

definition logs_canonical_url :: "http_request \<Rightarrow> string" where
  "logs_canonical_url r =
     (if trim_space (rq_query r) = [] then ''/admin/logs'' else ''/admin/logs?'' @ rq_query r)"

datatype overview_window = WindowAll | Window24h | Window7d

definition parse_overview_window :: "http_request \<Rightarrow> overview_window" where
  "parse_overview_window r =
     (let w = to_lower (trim_space (form_value (url_query r) ''window'')) in
      if w = ''24h'' then Window24h else if w = ''7d'' then Window7d else WindowAll)"

definition overview_window_label :: "overview_window \<Rightarrow> string" where
  "overview_window_label w = (case w of Window24h \<Rightarrow> ''last 24h'' | Window7d \<Rightarrow> ''last 7d'' | WindowAll \<Rightarrow> ''all time'')"

definition overview_canonical_url :: "http_request \<Rightarrow> string" where
  "overview_canonical_url r =
     (case parse_overview_window r of
        WindowAll \<Rightarrow> ''/admin/overview''
      | Window24h \<Rightarrow> ''/admin/overview?window='' @ ''24h''
      | Window7d \<Rightarrow> ''/admin/overview?window='' @ ''7d'')"

text \<open>\<open>Format(time.RFC3339)\<close> of a UTC time given in nanoseconds since 1970: the civil date of a day
  number, and the time of day.\<close>

definition civil_date :: "int \<Rightarrow> int \<times> int \<times> int" where
  "civil_date days =
     (let z = days + 719468; era = z div 146097; doe = z mod 146097;
          yoe = (doe - doe div 1460 + doe div 36524 - doe div 146096) div 365;
          doy = doe - (365 * yoe + yoe div 4 - yoe div 100);
          mp = (5 * doy + 2) div 153; d = doy - (153 * mp + 2) div 5 + 1;
          m = (if mp < 10 then mp + 3 else mp - 9); y = yoe + era * 400
      in (if m \<le> 2 then y + 1 else y, m, d))"

definition padded :: "nat \<Rightarrow> int \<Rightarrow> string" where
  "padded n x = pad_zeros n (itoa x)"

definition rfc3339 :: "int \<Rightarrow> string" where
  "rfc3339 t =
     (let secs = t div second; (y, m, d) = civil_date (secs div 86400); s = secs mod 86400
      in padded 4 y @ ''-'' @ padded 2 m @ ''-'' @ padded 2 d @ ''T'' @
         padded 2 (s div 3600) @ '':'' @ padded 2 (s div 60 mod 60) @ '':'' @ padded 2 (s mod 60) @ ''Z'')"

definition overview_window_bounds :: "int \<Rightarrow> overview_window \<Rightarrow> overview_options" where
  "overview_window_bounds now w =
     (case w of
        WindowAll \<Rightarrow> \<lparr>ov_start = [], ov_end = []\<rparr>
      | Window24h \<Rightarrow> \<lparr>ov_start = rfc3339 (now - 24 * 3600 * second), ov_end = rfc3339 now\<rparr>
      | Window7d \<Rightarrow> \<lparr>ov_start = rfc3339 (now - 7 * 24 * 3600 * second), ov_end = rfc3339 now\<rparr>)"

definition format_optional_timestamp :: "int option \<Rightarrow> string" where
  "format_optional_timestamp ts = (case ts of None \<Rightarrow> ''never'' | Some t \<Rightarrow> rfc3339 t)"

end
