(* ===== verification/PullJob.thy ===== *)
theory PullJob
  imports DashForms OllamaClient ApiKey
begin

text \<open>
  internal/dashboard/handler.go: the model download of the dashboard.  A job is started by a request,
  fed and finished by a background goroutine, and looked at (and, ten seconds after its end,
  forgotten) by the pages.  The operations, their interleavings as a step relation, and what these
  keep.  The clock is read once per operation.
\<close>

section \<open>Operations\<close>

record pull_job =
  pj_id :: string
  pj_backend :: string
  pj_model :: string
  pj_status :: string
  pj_digest :: string
  pj_total :: int
  pj_completed :: int
  pj_started_at :: int
  pj_completed_at :: "int option"
  pj_error :: string
  pj_active :: bool

record pull_view =
  pv_id :: string
  pv_backend :: string
  pv_model :: string
  pv_status :: string
  pv_digest :: string
  pv_total :: int
  pv_completed :: int
  pv_percent :: int
  pv_started_at :: string
  pv_completed_at :: string
  pv_error :: string
  pv_is_active :: bool
  pv_is_complete :: bool
  pv_is_error :: bool
  pv_is_indeterminate :: bool
  pv_should_poll :: bool

definition pull_percent :: "int \<Rightarrow> int \<Rightarrow> int" where
  "pull_percent completed total' =
     (if 0 < total' then (let p = go_div (i64 (completed * 100)) total' in if 100 < p then 100 else p) else 0)"

definition pull_view_of :: "int \<Rightarrow> pull_job \<Rightarrow> pull_view" where
  "pull_view_of now j =
     (let is_error = trim_space (pj_error j) \<noteq> []; complete = \<not> pj_active j \<and> \<not> is_error in
      \<lparr>pv_id = pj_id j, pv_backend = pj_backend j, pv_model = pj_model j,
       pv_status = (if trim_space (pj_status j) = [] then
           (if is_error then ''Download failed'' else if complete then ''Download complete'' else ''Starting download'')
         else pj_status j),
       pv_digest = pj_digest j, pv_total = pj_total j, pv_completed = pj_completed j,
       pv_percent = pull_percent (pj_completed j) (pj_total j),
       pv_started_at = rfc3339 (pj_started_at j),
       pv_completed_at = (case pj_completed_at j of None \<Rightarrow> [] | Some t \<Rightarrow> rfc3339 t),
       pv_error = pj_error j, pv_is_active = pj_active j, pv_is_complete = complete, pv_is_error = is_error,
       pv_is_indeterminate = pj_total j \<le> 0,
       pv_should_poll = (pj_active j \<or> (case pj_completed_at j of None \<Rightarrow> False | Some t \<Rightarrow> now < t + 10 * second))\<rparr>)"

text \<open>\<open>currentPullJobView\<close>: what is shown, and the job that is left.\<close>

definition current_pull_job_view :: "int \<Rightarrow> pull_job option \<Rightarrow> pull_view option \<times> pull_job option" where
  "current_pull_job_view now job =
     (case job of
        None \<Rightarrow> (None, None)
      | Some j \<Rightarrow>
          if \<not> pj_active j \<and> (case pj_completed_at j of None \<Rightarrow> False | Some t \<Rightarrow> t + 10 * second < now)
          then (None, None) else (Some (pull_view_of now j), Some j))"

text \<open>The job that is already active, or the new one.\<close>

definition start_pull_job ::
  "int \<Rightarrow> string \<Rightarrow> string \<Rightarrow> string \<Rightarrow> pull_job option \<Rightarrow> (pull_job, pull_job) result" where
  "start_pull_job now job_id backend_name model job =
     (case job of
        Some j \<Rightarrow> if pj_active j then Inl j else Inr
          \<lparr>pj_id = job_id, pj_backend = backend_name, pj_model = model, pj_status = ''Starting download'',
           pj_digest = [], pj_total = 0, pj_completed = 0, pj_started_at = now, pj_completed_at = None,
           pj_error = [], pj_active = True\<rparr>
      | None \<Rightarrow> Inr
          \<lparr>pj_id = job_id, pj_backend = backend_name, pj_model = model, pj_status = ''Starting download'',
           pj_digest = [], pj_total = 0, pj_completed = 0, pj_started_at = now, pj_completed_at = None,
           pj_error = [], pj_active = True\<rparr>)"

definition progressed :: "pull_progress \<Rightarrow> pull_job \<Rightarrow> pull_job" where
  "progressed p j =
     j\<lparr>pj_status := (if equal_fold (trim_space (pp_status p)) ''success'' then ''Download complete''
          else if trim_space (pp_status p) \<noteq> [] then trim_space (pp_status p) else pj_status j),
       pj_digest := (if trim_space (pp_digest p) \<noteq> [] then trim_space (pp_digest p) else pj_digest j),
       pj_total := (if 0 < pp_total p then pp_total p else pj_total j),
       pj_completed := (if 0 < pp_completed p then pp_completed p else pj_completed j),
       pj_error := (if trim_space (pp_error p) \<noteq> [] then trim_space (pp_error p) else pj_error j)\<rparr>"

definition record_pull_job_progress :: "string \<Rightarrow> pull_progress \<Rightarrow> pull_job option \<Rightarrow> pull_job option" where
  "record_pull_job_progress job_id p job =
     (case job of None \<Rightarrow> None | Some j \<Rightarrow> if pj_id j \<noteq> job_id then Some j else Some (progressed p j))"

definition finished :: "int \<Rightarrow> string option \<Rightarrow> pull_job \<Rightarrow> pull_job" where
  "finished now err j0 =
     (let j = j0\<lparr>pj_active := False, pj_completed_at := Some now\<rparr> in
      case err of
        Some msg \<Rightarrow> j\<lparr>pj_error := msg, pj_status := ''Download failed''\<rparr>
      | None \<Rightarrow>
          (let j1 = (if 0 < pj_completed j \<and> 0 < pj_total j \<and> pj_completed j < pj_total j
                then j\<lparr>pj_completed := pj_total j\<rparr> else j);
               j2 = (if trim_space (pj_status j1) = [] \<or> equal_fold (trim_space (pj_status j1)) ''success''
                then j1\<lparr>pj_status := ''Download complete''\<rparr> else j1)
           in if 0 < pj_total j2 \<and> pj_completed j2 = 0 then j2\<lparr>pj_completed := pj_total j2\<rparr> else j2))"

definition finish_pull_job :: "int \<Rightarrow> string \<Rightarrow> string option \<Rightarrow> pull_job option \<Rightarrow> pull_job option" where
  "finish_pull_job now job_id err job =
     (case job of None \<Rightarrow> None | Some j \<Rightarrow> if pj_id j \<noteq> job_id then Some j else Some (finished now err j))"

text \<open>The body of the goroutine: the events that the stream reports, one after the other, and its end.
  \<open>msg\<close> is the text of a client error.\<close>

definition pull_goroutine ::
  "(client_error \<Rightarrow> string) \<Rightarrow> net \<Rightarrow> int \<Rightarrow> string \<Rightarrow> string \<Rightarrow> backend \<Rightarrow> pull_job option \<Rightarrow> pull_job option" where
  "pull_goroutine msg net now job_id model b job =
     (case pull_model_stream net model b of
        (ps, err) \<Rightarrow> finish_pull_job now job_id (map_option msg err) (fold (record_pull_job_progress job_id) ps job))"

section \<open>Interleavings\<close>

text \<open>The job, and the identities of the goroutines that are running.\<close>

record pulls =
  ps_job :: "pull_job option"
  ps_running :: "string list"

inductive pulls_step :: "pulls \<Rightarrow> pulls \<Rightarrow> bool" where
  start: "start_pull_job now i b m (ps_job s) = Inr j \<Longrightarrow>
    pulls_step s (s\<lparr>ps_job := Some j, ps_running := ps_running s @ [i]\<rparr>)"
| refuse: "start_pull_job now i b m (ps_job s) = Inl j \<Longrightarrow> pulls_step s s"
| event: "i \<in> set (ps_running s) \<Longrightarrow>
    pulls_step s (s\<lparr>ps_job := record_pull_job_progress i p (ps_job s)\<rparr>)"
| finish: "i \<in> set (ps_running s) \<Longrightarrow>
    pulls_step s (s\<lparr>ps_job := finish_pull_job now i err (ps_job s), ps_running := remove1 i (ps_running s)\<rparr>)"
| look: "pulls_step s (s\<lparr>ps_job := snd (current_pull_job_view now (ps_job s))\<rparr>)"

inductive_cases pulls_stepE: "pulls_step s s'"

definition no_pulls :: pulls where
  "no_pulls = \<lparr>ps_job = None, ps_running = []\<rparr>"

definition job_ok :: "pull_job \<Rightarrow> bool" where
  "job_ok j \<longleftrightarrow> 0 \<le> pj_total j \<and> 0 \<le> pj_completed j \<and> trim_space (pj_status j) \<noteq> [] \<and>
     (pj_active j \<longleftrightarrow> pj_completed_at j = None)"

text \<open>Only the active job has a goroutine, and only one.\<close>

definition pulls_ok :: "pulls \<Rightarrow> bool" where
  "pulls_ok s \<longleftrightarrow>
     (case ps_job s of
        None \<Rightarrow> ps_running s = []
      | Some j \<Rightarrow> job_ok j \<and> ps_running s = (if pj_active j then [pj_id j] else []))"

lemma pulls_ok_simps [simp]:
  "pulls_ok \<lparr>ps_job = None, ps_running = rs\<rparr> \<longleftrightarrow> rs = []"
  "pulls_ok \<lparr>ps_job = Some j, ps_running = rs\<rparr> \<longleftrightarrow> job_ok j \<and> rs = (if pj_active j then [pj_id j] else [])"
  by (simp_all add: pulls_ok_def)

lemma pulls_ok_start: "no_pulls = s \<Longrightarrow> pulls_ok s"
  by (auto simp: no_pulls_def)

lemma start_pull_job_Inr:
  "start_pull_job now i b m job = Inr j \<Longrightarrow>
     pj_id j = i \<and> pj_backend j = b \<and> pj_model j = m \<and> pj_active j \<and> pj_error j = [] \<and> job_ok j \<and>
     (\<forall>j0. job = Some j0 \<longrightarrow> \<not> pj_active j0)"
  by (auto simp: start_pull_job_def job_ok_def trim_space_tight tight_def is_space_def split: option.splits if_splits)

lemma start_pull_job_Inl: "start_pull_job now i b m job = Inl j \<longleftrightarrow> job = Some j \<and> pj_active j"
  by (auto simp: start_pull_job_def split: option.splits)

lemma tight_texts [simp]:
  "trim_space ''Download complete'' = ''Download complete''" "trim_space ''Download failed'' = ''Download failed''"
  "trim_space ''Starting download'' = ''Starting download''"
  by (simp_all add: trim_space_tight tight_def is_space_def)

lemma progressed_ok:
  "pj_id (progressed p j) = pj_id j" "pj_active (progressed p j) = pj_active j"
  "job_ok j \<Longrightarrow> job_ok (progressed p j)"
  by (auto simp: progressed_def job_ok_def)

lemma finished_ok:
  "pj_id (finished now err j) = pj_id j" "\<not> pj_active (finished now err j)"
  "job_ok j \<Longrightarrow> job_ok (finished now err j)"
  by (auto simp: finished_def job_ok_def Let_def split: option.split)

lemma pulls_step_ok [inv_intros]: "pulls_step s s' \<Longrightarrow> pulls_ok s \<Longrightarrow> pulls_ok s'"
proof (induction rule: pulls_step.induct)
  case (start now i b m s j)
  then show ?case using start_pull_job_Inr [OF start(1)]
    by (cases s; cases "ps_job s") auto
next
  case (event i s p)
  then show ?case
    by (cases s; cases "ps_job s") (auto simp: record_pull_job_progress_def progressed_ok split: if_splits)
next
  case (finish i s now err)
  then show ?case
    by (cases s; cases "ps_job s") (auto simp: finish_pull_job_def finished_ok split: if_splits)
next
  case (look s now)
  then show ?case by (cases s; cases "ps_job s") (auto simp: current_pull_job_view_def)
qed auto

interpretation pull_history: kept_by_steps pulls_step pulls_ok
  by unfold_locales (rule pulls_step_ok)

section \<open>What the page shows\<close>

lemma pull_percent_bounds:
  assumes "0 \<le> c" "100 * c < 2 ^ 63"
  shows "0 \<le> pull_percent c t \<and> pull_percent c t \<le> 100"
proof -
  have "i64 (c * 100) = c * 100" using assms by (intro i64_id) auto
  moreover have "0 < t \<Longrightarrow> 0 \<le> c * 100 div t" using assms(1) by (simp add: pos_imp_zdiv_nonneg_iff)
  ultimately show ?thesis using assms by (simp add: pull_percent_def go_div_nonneg Let_def)
qed

lemma pull_percent_full:
  assumes "0 < t" "t \<le> c" "100 * c < 2 ^ 63"
  shows "pull_percent c t = 100"
proof -
  have "i64 (c * 100) = c * 100" using assms by (intro i64_id) auto
  moreover have "100 \<le> c * 100 div t" using zdiv_mono1 [of "t * 100" "c * 100" t] assms by simp
  ultimately show ?thesis using assms by (simp add: pull_percent_def go_div_nonneg Let_def)
qed

text \<open>C15: at most one download runs at a time, whatever requests, progress events, ends and page
  views interleave: the running goroutine is the active job's, a further start is refused and names that job,
  without an active job a start always succeeds, and no page view forgets an active job.  The status
  shown is never blank, an active job is always polled for, and the percentage lies between 0 and
  100 as long as a hundred times the bytes fit in 64 bits.\<close>

theorem pull_single_flight:
  assumes "pulls_step\<^sup>*\<^sup>* no_pulls s"
  shows "length (ps_running s) \<le> 1 \<and>
    (\<forall>i. i \<in> set (ps_running s) \<longleftrightarrow> (\<exists>j. ps_job s = Some j \<and> pj_active j \<and> pj_id j = i)) \<and>
    (\<forall>now i b m j. start_pull_job now i b m (ps_job s) = Inl j \<longleftrightarrow> ps_job s = Some j \<and> ps_running s = [pj_id j] \<and> pj_active j) \<and>
    (ps_running s = [] \<longrightarrow> (\<forall>now i b m. \<exists>j. start_pull_job now i b m (ps_job s) = Inr j \<and> pj_id j = i \<and> pj_active j)) \<and>
    (\<forall>now j. ps_job s = Some j \<longrightarrow> pj_active j \<longrightarrow> snd (current_pull_job_view now (ps_job s)) = Some j) \<and>
    (\<forall>now v. fst (current_pull_job_view now (ps_job s)) = Some v \<longrightarrow>
       trim_space (pv_status v) \<noteq> [] \<and> (pv_is_active v \<longrightarrow> pv_should_poll v) \<and>
       (100 * pv_completed v < 2 ^ 63 \<longrightarrow> 0 \<le> pv_percent v \<and> pv_percent v \<le> 100))"
proof -
  have ok: "pulls_ok s" by (rule pull_history.history_keeps [OF assms pulls_ok_start [OF refl]])
  show ?thesis
  proof (cases "ps_job s")
    case None
    then show ?thesis using ok
      by (simp add: pulls_ok_def start_pull_job_Inl current_pull_job_view_def) (simp add: start_pull_job_def)
  next
    case (Some j)
    then have j: "job_ok j" "ps_running s = (if pj_active j then [pj_id j] else [])"
      using ok by (auto simp: pulls_ok_def)
    have v: "pv_completed (pull_view_of now j) = pj_completed j" "trim_space (pv_status (pull_view_of now j)) \<noteq> []"
      "pv_percent (pull_view_of now j) = pull_percent (pj_completed j) (pj_total j)"
      "pv_is_active (pull_view_of now j) \<longrightarrow> pv_should_poll (pull_view_of now j)" for now
      using j(1) by (simp_all add: pull_view_of_def job_ok_def Let_def)
    have b: "100 * pj_completed j < 2 ^ 63 \<Longrightarrow> 0 \<le> pull_percent (pj_completed j) (pj_total j) \<and> pull_percent (pj_completed j) (pj_total j) \<le> 100"
      using j(1) by (intro pull_percent_bounds) (auto simp: job_ok_def)
    have view: "current_pull_job_view now (Some j) = (Some (pull_view_of now j), Some j) \<or>
        \<not> pj_active j \<and> current_pull_job_view now (Some j) = (None, None)" for now
      by (auto simp: current_pull_job_view_def)
    have show': "fst (current_pull_job_view now (Some j)) = Some w \<Longrightarrow> w = pull_view_of now j" for now w
      using view [of now] by auto
    have keep: "pj_active j \<Longrightarrow> snd (current_pull_job_view now (Some j)) = Some j" for now
      using view [of now] by auto
    have new: "\<not> pj_active j \<Longrightarrow> \<exists>k. start_pull_job now i b m (Some j) = Inr k \<and> pj_id k = i \<and> pj_active k" for now i b m
      by (simp add: start_pull_job_def)
    show ?thesis unfolding Some start_pull_job_Inl using j(2) new keep v b
      by (auto dest!: show' split: if_splits)
  qed
qed

section \<open>The end of a download\<close>

lemma stream_ok: "pull_model_stream net m b = (ps, None) \<Longrightarrow> list_all pull_ok ps"
  by (auto simp: pull_model_stream_def Let_def simp del: pull_events.simps dest!: pull_events_None
      split: if_splits http_reply.splits option.splits)

lemma fold_progress:
  "fold (record_pull_job_progress i) ps (Some j) = Some (if pj_id j = i then fold progressed ps j else j)"
  by (induction ps arbitrary: j) (auto simp: record_pull_job_progress_def progressed_ok)

lemma fold_progressed_ok:
  "pj_id (fold progressed ps j) = pj_id j" "pj_active (fold progressed ps j) = pj_active j"
  "pj_model (fold progressed ps j) = pj_model j" "pj_backend (fold progressed ps j) = pj_backend j"
  "job_ok j \<Longrightarrow> job_ok (fold progressed ps j)"
  "list_all pull_ok ps \<Longrightarrow> pj_error (fold progressed ps j) = pj_error j"
  by (induction ps arbitrary: j) (auto simp: progressed_ok pull_ok_def progressed_def job_ok_def)

lemma finished_success:
  "pj_error (finished now None j) = pj_error j" "pj_total (finished now None j) = pj_total j"
  "job_ok j \<Longrightarrow> 0 < pj_total j \<Longrightarrow> pj_total j \<le> pj_completed (finished now None j)"
  by (auto simp: finished_def Let_def job_ok_def)

text \<open>From the start of a job to the end of its goroutine: the job ends inactive and still names
  its model and backend; the page shows it as complete, without error and, when sizes were reported and
  fit, at 100 per cent, exactly when the backend's stream ended well, and otherwise shows the
  error of the client and a failed download.\<close>

theorem pull_outcome_shown:
  assumes "start_pull_job now0 i backend_name m job = Inr j0"
    and "\<And>e. trim_space (msg e) \<noteq> []"
  shows "\<exists>j. pull_goroutine msg net now i m b (Some j0) = Some j \<and> \<not> pj_active j \<and>
    pj_id j = i \<and> pj_model j = m \<and> pj_backend j = backend_name \<and>
    (let v = pull_view_of now j in
     (case snd (pull_model_stream net m b) of
        None \<Rightarrow> pv_is_complete v \<and> \<not> pv_is_error v \<and>
          (0 < pv_total v \<and> 100 * pv_completed v < 2 ^ 63 \<longrightarrow> pv_percent v = 100)
      | Some e \<Rightarrow> pv_is_error v \<and> \<not> pv_is_complete v \<and> pv_error v = msg e \<and> pv_status v = ''Download failed''))"
proof -
  obtain ps err where st: "pull_model_stream net m b = (ps, err)" by (cases "pull_model_stream net m b")
  note j0 = start_pull_job_Inr [OF assms(1)]
  let ?f = "fold progressed ps j0"
  let ?j = "finished now (map_option msg err) ?f"
  have g: "pull_goroutine msg net now i m b (Some j0) = Some ?j"
    using j0 by (simp add: pull_goroutine_def st fold_progress finish_pull_job_def fold_progressed_ok)
  have basic: "\<not> pj_active ?j" "pj_id ?j = i" "pj_model ?j = m" "pj_backend ?j = backend_name"
    using j0 by (auto simp: finished_def Let_def fold_progressed_ok split: option.split)
  show ?thesis
  proof (cases err)
    case None
    have ok: "list_all pull_ok ps" using st None by (auto intro: stream_ok)
    have e: "pj_error ?j = []" using j0 ok by (simp add: None finished_success fold_progressed_ok)
    have jo: "job_ok ?f" using j0 by (simp add: fold_progressed_ok)
    have "0 < pj_total ?j \<Longrightarrow> pj_total ?j \<le> pj_completed ?j"
      using finished_success(3) [OF jo] by (simp add: None finished_success)
    then show ?thesis using g basic e pull_percent_full [of "pj_total ?j" "pj_completed ?j"]
      by (simp add: st None Let_def pull_view_of_def)
  next
    case (Some e)
    have "pj_error ?j = msg e" "pj_status ?j = ''Download failed''" by (simp_all add: Some finished_def Let_def)
    then show ?thesis using g basic assms(2) [of e] by (simp add: st Some Let_def pull_view_of_def)
  qed
qed

definition sample_job :: pull_job where
  "sample_job = projr (start_pull_job 0 ''j1'' ''a'' ''m'' None)"

theorem pull_single_flight_witness:
  "pulls_step\<^sup>*\<^sup>* no_pulls \<lparr>ps_job = Some sample_job, ps_running = [''j1'']\<rparr> \<and>
   start_pull_job 5 ''j2'' ''a'' ''n'' (Some sample_job) = Inl sample_job"
proof -
  have st: "start_pull_job 0 ''j1'' ''a'' ''m'' None = Inr sample_job" by (simp add: sample_job_def start_pull_job_def)
  have r: "pulls_step\<^sup>*\<^sup>* no_pulls \<lparr>ps_job = Some sample_job, ps_running = [''j1'']\<rparr>"
    using pulls_step.start [of 0 "''j1''" "''a''" "''m''" no_pulls sample_job] st by (auto simp: no_pulls_def)
  have j: "pj_active sample_job" "pj_id sample_job = ''j1''" using start_pull_job_Inr [OF st] by simp_all
  note c = pull_single_flight [OF r, THEN conjunct2, THEN conjunct2, THEN conjunct1]
  show ?thesis using r c [rule_format, of 5 "''j2''" "''a''" "''n''" sample_job] j by (simp only: pulls.simps simp_thms)
qed

lemma tight_x: "tight ''x''"
  by (simp add: tight_def is_space_def)

theorem pull_outcome_shown_witness:
  "\<exists>j. pull_goroutine (\<lambda>_. ''x'') (\<lambda>_. TransportFailed) 9 ''j1'' ''m'' sample_client_backend (Some sample_job) = Some j \<and> \<not> pj_active j"
proof -
  have "start_pull_job 0 ''j1'' ''a'' ''m'' None = Inr sample_job" by (simp add: sample_job_def start_pull_job_def)
  then have "\<exists>j. pull_goroutine (\<lambda>_. ''x'') (\<lambda>_. TransportFailed) 9 ''j1'' ''m'' sample_client_backend (Some sample_job) = Some j \<and> \<not> pj_active j \<and> P j"
    if "P = (\<lambda>j. pj_id j = ''j1'' \<and> pj_model j = ''m'' \<and> pj_backend j = ''a'' \<and>
      (let v = pull_view_of 9 j in
       (case snd (pull_model_stream (\<lambda>_. TransportFailed) ''m'' sample_client_backend) of
          None \<Rightarrow> pv_is_complete v \<and> \<not> pv_is_error v \<and>
            (0 < pv_total v \<and> 100 * pv_completed v < 2 ^ 63 \<longrightarrow> pv_percent v = 100)
        | Some e \<Rightarrow> pv_is_error v \<and> \<not> pv_is_complete v \<and> pv_error v = ''x'' \<and> pv_status v = ''Download failed'')))" for P
    unfolding that by (rule pull_outcome_shown) (simp add: trim_space_tight tight_x)
  then show ?thesis by blast
qed

end
