(* ===== verification/Dashboard.thy ===== *)
theory Dashboard
  imports PullJob AuthMiddleware BackendStore ModelStoreProps TlsRuntime Gateway
begin

text \<open>
  internal/dashboard/handler.go, the handler: its state, the pages with the data they show, and the
  operations on users, models and backends behind the forms.  The user store, the configuration and
  the database are the gateway's own, as cmd/gateway/main.go passes them: one field each.  What the
  code reports in words is a \<open>notice\<close>; the HTML of the pages is not modelled, the data given to the
  templates is.  \<open>de_flts stage call\<close> are the faults of the calls to the stores: stage 0 is the
  operation, 1 its persistence, 2 the prices, 3 the reload, 4 the page.
\<close>

section \<open>State\<close>

datatype op_error =
    OpNoManager | OpBackendNotFound string | OpClient client_error | OpNeedsModel | OpUnknownAction string

datatype dash_error =
    ModelExists | ModelMissing | ByUserStore auth_err | ByModelStore model_store_err
  | BackendExists | BackendMissing | ByBackendStore backend_store_err | ByManager manager_error

datatype notice =
    NoNotice
  | BackendNameRequired | BackendNotFound string | CannotRemove string "string list" | ConfirmRemoval string
  | ConfirmationMismatch | RemoveFailed string dash_error | BackendRemoved string
  | InvalidBackend string form_error | BackendCreateFailed string dash_error | BackendCreated string
  | BackendUpdateFailed string dash_error | BackendUpdated string | UnknownBackendAction
  | UserNameNeeded | UserNotFound string | RotateFailed string auth_err | KeyRotated string
  | AlreadyDeactivated string | DeactivateFailed string auth_err | UserDeactivated string
  | InvalidUser string form_error | UserUpdateFailed string auth_err | UserUpdated string
  | UserAlreadyExists string | UserCreateFailed string auth_err | UserCreated string
  | BackendRequired | OperationNeedsModel | ModelNameNeeded | OperationFailed op_error
  | InvalidRefs string form_error | InvalidPricing string form_error | UnknownModelAction
  | ModelDeleteFailed string dash_error | DeletePersistFailed string dash_error
  | DeletePricesFailed string dash_error | DeleteRefreshFailed string dash_error | ModelDeleted string
  | ModelCreateFailed string dash_error | ModelUpdateFailed string dash_error | AccessFailed string dash_error
  | PersistFailed string dash_error | PricesFailed string dash_error | RefreshFailed string dash_error
  | ModelCreated string | ModelUpdated string
  | DownloadBackendRequired | DownloadModelRequired | DownloadActive string string
  | Refreshed string | RefreshPartly string client_error | Inspecting string string
  | DeletionRequested string string | EjectRequested string string | UnknownOperation string

record backend_model_state =
  bm_action :: string
  bm_backend :: string
  bm_model :: string
  bm_available :: "model_info list"
  bm_in_memory :: "model_info list"
  bm_details :: "json gomap"
  bm_parsed :: "show_metadata option"
  bm_error :: notice
  bm_success :: notice

definition blank_bm :: backend_model_state where
  "blank_bm = \<lparr>bm_action = [], bm_backend = [], bm_model = [], bm_available = [], bm_in_memory = [],
     bm_details = [], bm_parsed = None, bm_error = NoNotice, bm_success = NoNotice\<rparr>"

text \<open>What the dashboard has told a backend to do.\<close>

datatype backend_op = OpDelete string string | OpEject string string | OpPull string string string

text \<open>
  A component is \<open>None\<close> where the code has nil.  The two callbacks of \<open>SetModelRuntimeRefreshers\<close> are
  the lists of the arguments they were called with, newest first.
\<close>

record dash =
  dh_cfg :: config
  dh_db :: "db option"
  dh_manager :: "manager option"
  dh_tls :: "tls_manager option"
  dh_models :: "catalog option"
  dh_disabled :: "bool gomap"
  dh_bm :: "backend_model_state option"
  dh_pulls :: pulls
  dh_catalogs_given :: "catalog list option"
  dh_prices_given :: "usage_pricing list option"
  dh_ops :: "backend_op list"

record dash_env =
  de_flts :: "nat \<Rightarrow> nat \<Rightarrow> faults"
  de_net :: net
  de_now :: int
  de_random :: "nat \<Rightarrow> string option"
  de_sum :: "real list \<Rightarrow> real"
  de_themes :: "(string \<times> bool) list option"
  de_assets :: "string \<Rightarrow> string option"
  de_mime :: "string \<Rightarrow> string"
  de_detect :: "string \<Rightarrow> string"
  de_reload :: "(string \<times> int option \<times> string) option"

definition new_handler :: "config \<Rightarrow> db option \<Rightarrow> dash" where
  "new_handler cfg d =
     \<lparr>dh_cfg = cfg, dh_db = d, dh_manager = (case new_manager cfg of Inl _ \<Rightarrow> None | Inr m \<Rightarrow> Some m),
      dh_tls = None, dh_models = None, dh_disabled = [], dh_bm = None, dh_pulls = no_pulls,
      dh_catalogs_given = None, dh_prices_given = None, dh_ops = []\<rparr>"

definition set_manager_of :: "manager option \<Rightarrow> dash \<Rightarrow> dash" where
  "set_manager_of m h = h\<lparr>dh_manager := m\<rparr>"

definition set_tls_manager :: "tls_manager option \<Rightarrow> dash \<Rightarrow> dash" where
  "set_tls_manager m h = h\<lparr>dh_tls := m\<rparr>"

definition set_model_catalog :: "catalog option \<Rightarrow> dash \<Rightarrow> dash" where
  "set_model_catalog c h = h\<lparr>dh_models := map_option clone_config_catalog c\<rparr>"

definition set_model_runtime_refreshers :: "bool \<Rightarrow> bool \<Rightarrow> dash \<Rightarrow> dash" where
  "set_model_runtime_refreshers catalog prices h =
     h\<lparr>dh_catalogs_given := (if catalog then Some [] else None), dh_prices_given := (if prices then Some [] else None)\<rparr>"

definition dash_auth :: "dash \<Rightarrow> auth_store" where
  "dash_auth h = \<lparr>as_cfg = dh_cfg h, as_db = dh_db h\<rparr>"

definition with_auth :: "auth_store \<Rightarrow> dash \<Rightarrow> dash" where
  "with_auth st h = h\<lparr>dh_cfg := as_cfg st, dh_db := as_db st\<rparr>"

definition current_model_catalog :: "dash \<Rightarrow> catalog" where
  "current_model_catalog h = (case dh_models h of Some c \<Rightarrow> c | None \<Rightarrow> cfg_models (dh_cfg h))"

definition users_snapshot :: "faults \<Rightarrow> dash \<Rightarrow> user_config gomap" where
  "users_snapshot flt h =
     (case list_users flt (dash_auth h) of
        Inl _ \<Rightarrow> fold (\<lambda>(k, v). gm_put k v) (cfg_users (dh_cfg h)) []
      | Inr us \<Rightarrow> us)"

definition is_authenticated :: "dash \<Rightarrow> http_request \<Rightarrow> bool" where
  "is_authenticated h r =
     (if admin_token_from_request r \<noteq> [] \<and> check_admin_token (dash_auth h) (admin_token_from_request r) then True
      else (case cookie_value r ''admin_session'' of
          None \<Rightarrow> False
        | Some v \<Rightarrow> v \<noteq> [] \<and> check_admin_token (dash_auth h) v))"

text \<open>\<open>generateAPIKey\<close>: 24 random bytes, or the clock in hexadecimal.\<close>

function hex_digits :: "nat \<Rightarrow> string" where
  "hex_digits n = (if n < 16 then [hex_lower n] else hex_digits (n div 16) @ [hex_lower (n mod 16)])"
  by auto
termination
  by (relation "measure id") auto

declare hex_digits.simps [simp del]

definition generate_api_key :: "dash_env \<Rightarrow> string" where
  "generate_api_key env =
     (case de_random env 0 of
        Some bs \<Rightarrow> hex_encode bs
      | None \<Rightarrow> (if de_now env < 0 then ''-'' else []) @ hex_digits (nat \<bar>de_now env\<bar>))"

definition new_pull_job_id :: "dash_env \<Rightarrow> string" where
  "new_pull_job_id env =
     (case de_random env 1 of Some bs \<Rightarrow> hex_encode bs | None \<Rightarrow> ''pull-'' @ itoa (de_now env))"

section \<open>What the pages are given\<close>

record page_frame =
  pf_themes :: "(string \<times> string) list"
  pf_selected :: string
  pf_href :: string
  pf_pull :: "pull_view option"

record tls_view =
  tv_cert_path :: string
  tv_interval :: int
  tv_expires :: "int option"
  tv_last_reload :: "int option"
  tv_days :: "int option"
  tv_label :: string
  tv_class :: string

record reload_view =
  rw_class :: string
  rw_label :: string
  rw_trigger :: string
  rw_last_reload :: string
  rw_error :: string

record overview_view =
  vo_backend_count :: nat
  vo_model_count :: nat
  vo_user_count :: nat
  vo_backends :: "backend_cfg list"
  vo_disabled :: "bool gomap"
  vo_window :: overview_window
  vo_label :: string
  vo_updated :: string
  vo_tls :: "tls_view option"
  vo_summary :: "(overview_summary \<times> model_cost list) option"
  vo_reload :: "reload_view option"

record model_view =
  mv_name :: string
  mv_display :: string
  mv_weights :: string
  mv_input :: real
  mv_output :: real
  mv_users :: "string list"
  mv_limited :: bool

record models_view =
  vm_models :: "model_view list"
  vm_backends :: "backend_cfg list"
  vm_users :: "string list"
  vm_disabled :: "bool gomap"
  vm_default_input :: real
  vm_default_output :: real
  vm_error :: notice
  vm_success :: notice
  vm_bm :: "backend_model_state option"

record backends_view =
  vb_backends :: "backend_cfg list"
  vb_disabled :: "bool gomap"
  vb_error :: notice
  vb_success :: notice
  vb_pending :: string

record user_view =
  vu_id :: string
  vu_config :: user_config
  vu_allow :: string
  vu_deny :: string
  vu_aliases :: string
  vu_rate :: real
  vu_burst :: int
  vu_ttl :: int
  vu_stats :: "user_stats option"

record users_view =
  vs_users :: "user_view list"
  vs_key :: string
  vs_hash :: string
  vs_error :: notice
  vs_success :: notice

record logs_view =
  vl_filters :: list_options
  vl_records :: "usage_record list option"
  vl_analytics :: "logs_analytics option"

datatype page =
    OverviewPage overview_view | ModelsPage models_view | BackendFragment "backend_cfg list" "backend_model_state option"
  | BackendsPage backends_view | UsersPage users_view | LogsPage logs_view | PullStatus

text \<open>An answer: the login form (refused or not), a redirection with the cookie it sets, a plain error,
  a page with the URL to push, and the others; \<open>Panics\<close> is a nil dereference in the handler, and
  \<open>NotFinite\<close> stands for the storing of a price or a rate that is infinite or not a number.\<close>

datatype reply =
    LoginForm bool | SeeOther string "string option" | PlainError nat string
  | Rendered "string option" page page_frame | ToggleText string bool | HealthText string
  | ThemeSwap string string string | Asset string string | Panics | NotFinite

definition with_theme_data :: "dash_env \<Rightarrow> http_request \<Rightarrow> dash \<Rightarrow> page_frame \<times> dash" where
  "with_theme_data env r h =
     (let themes = available_themes (de_themes env); sel = selected_theme_from_request r themes;
          (view, job) = current_pull_job_view (de_now env) (ps_job (dh_pulls h))
      in (\<lparr>pf_themes = themes, pf_selected = sel, pf_href = theme_stylesheet_href sel, pf_pull = view\<rparr>,
          h\<lparr>dh_pulls := (dh_pulls h)\<lparr>ps_job := job\<rparr>\<rparr>))"

definition render :: "dash_env \<Rightarrow> http_request \<Rightarrow> string option \<Rightarrow> page \<Rightarrow> dash \<Rightarrow> reply \<times> dash" where
  "render env r push p h = (case with_theme_data env r h of (f, h') \<Rightarrow> (Rendered push p f, h'))"

subsection \<open>Overview\<close>

definition tls_view_of :: "dash_env \<Rightarrow> dash \<Rightarrow> tls_view option" where
  "tls_view_of env h =
     (let s = cfg_server (dh_cfg h) in
      if trim_space (tls_cert_path s) \<noteq> [] \<and> trim_space (tls_key_path s) \<noteq> [] then
        (let v = \<lparr>tv_cert_path = tls_cert_path s, tv_interval = tls_check_interval s, tv_expires = None,
               tv_last_reload = None, tv_days = None, tv_label = ''unavailable'', tv_class = ''disabled''\<rparr>
         in Some (case dh_tls h of
              None \<Rightarrow> v
            | Some m \<Rightarrow>
                (let st = tls_status (de_now env) (de_now env) m; v1 = v\<lparr>tv_interval := ts_check_interval st\<rparr> in
                 if \<not> ts_loaded st then v1
                 else v1\<lparr>tv_expires := Some (ts_expires_at st), tv_last_reload := Some (ts_last_reload_at st),
                   tv_days := Some (ts_days_remaining st),
                   tv_label := (if ts_expired st then ''expired'' else if ts_expiring_soon st then ''expiring'' else ''healthy''),
                   tv_class := (if ts_expired st then ''expired'' else if ts_expiring_soon st then ''warning'' else ''healthy'')\<rparr>)))
      else None)"

definition reload_view_of :: "dash_env \<Rightarrow> reload_view option" where
  "reload_view_of env =
     map_option (\<lambda>(trigger, ts, err).
       (let never = trigger = [] \<and> ts = None in
        \<lparr>rw_class = (if never then ''disabled'' else if err \<noteq> [] then ''warning'' else ''healthy''),
         rw_label = (if never then ''not-run'' else if err \<noteq> [] then ''error'' else ''ready''),
         rw_trigger = fallback_value trigger ''n/a'', rw_last_reload = format_optional_timestamp ts,
         rw_error = fallback_value err ''none''\<rparr>)) (de_reload env)"

definition load_overview_summary ::
  "dash_env \<Rightarrow> overview_window \<Rightarrow> dash \<Rightarrow> (overview_summary \<times> model_cost list) option" where
  "load_overview_summary env w h =
     (case dh_db h of
        None \<Rightarrow> None
      | Some d \<Rightarrow>
          (let o' = overview_window_bounds (de_now env) w in
           case overview_summary_query (de_sum env) (de_flts env 4 1) o' d of
             None \<Rightarrow> None
           | Some s \<Rightarrow> map_option (\<lambda>b. (s, b)) (model_cost_breakdown (de_sum env) (de_flts env 4 2) 10 o' d)))"

definition overview_view_data :: "dash_env \<Rightarrow> http_request \<Rightarrow> dash \<Rightarrow> overview_view" where
  "overview_view_data env r h =
     (let w = parse_overview_window r in
      \<lparr>vo_backend_count = length (cfg_backends (dh_cfg h)), vo_model_count = length (current_model_catalog h),
       vo_user_count = length (users_snapshot (de_flts env 4 0) h), vo_backends = cfg_backends (dh_cfg h),
       vo_disabled = dh_disabled h, vo_window = w, vo_label = overview_window_label w,
       vo_updated = rfc3339 (de_now env), vo_tls = tls_view_of env h,
       vo_summary = load_overview_summary env w h, vo_reload = reload_view_of env\<rparr>)"

definition render_overview :: "dash_env \<Rightarrow> http_request \<Rightarrow> dash \<Rightarrow> reply \<times> dash" where
  "render_overview env r h = render env r None (OverviewPage (overview_view_data env r h)) h"

definition render_overview_partial :: "dash_env \<Rightarrow> http_request \<Rightarrow> dash \<Rightarrow> reply \<times> dash" where
  "render_overview_partial env r h =
     render env r (Some (overview_canonical_url r)) (OverviewPage (overview_view_data env r h)) h"

subsection \<open>Users, backends, logs\<close>

definition load_user_stats :: "dash_env \<Rightarrow> nat \<Rightarrow> string \<Rightarrow> dash \<Rightarrow> user_stats option" where
  "load_user_stats env k uid h =
     (case dh_db h of None \<Rightarrow> None | Some d \<Rightarrow> user_stats_query (de_sum env) (de_flts env 4 k) uid 5 d)"

definition user_view_of :: "dash_env \<Rightarrow> dash \<Rightarrow> nat \<Rightarrow> string \<times> user_config \<Rightarrow> user_view" where
  "user_view_of env h k u =
     (case u of (uid, uc) \<Rightarrow>
       \<lparr>vu_id = uid, vu_config = uc, vu_allow = str_join '', '' (model_allow uc), vu_deny = str_join '', '' (model_deny uc),
        vu_aliases = format_aliases (aliases uc),
        vu_rate = user_rate_or_default (rate_limit uc) (default_rate (cfg_rate_limit (dh_cfg h))),
        vu_burst = user_burst_or_default (rate_limit uc) (default_burst (cfg_rate_limit (dh_cfg h))),
        vu_ttl = user_ttl_or_default_seconds (rate_limit uc) (default_ttl (cfg_rate_limit (dh_cfg h))),
        vu_stats = load_user_stats env k uid h\<rparr>)"

definition render_users_page ::
  "dash_env \<Rightarrow> http_request \<Rightarrow> string \<Rightarrow> string \<Rightarrow> notice \<Rightarrow> notice \<Rightarrow> dash \<Rightarrow> reply \<times> dash" where
  "render_users_page env r key hash err ok h =
     render env r None (UsersPage
       \<lparr>vs_users = sort_key vu_id (map (\<lambda>(k, u). user_view_of env h (1 + k) u)
            (enumerate 0 (users_snapshot (de_flts env 4 0) h))),
        vs_key = key, vs_hash = hash, vs_error = err, vs_success = ok\<rparr>) h"

definition render_backends_page ::
  "dash_env \<Rightarrow> http_request \<Rightarrow> notice \<Rightarrow> notice \<Rightarrow> string \<Rightarrow> dash \<Rightarrow> reply \<times> dash" where
  "render_backends_page env r err ok pending h =
     render env r None (BackendsPage
       \<lparr>vb_backends = sort_key bc_name (cfg_backends (dh_cfg h)), vb_disabled = dh_disabled h,
        vb_error = err, vb_success = ok, vb_pending = pending\<rparr>) h"

definition load_recent_records :: "dash_env \<Rightarrow> list_options \<Rightarrow> dash \<Rightarrow> usage_record list option" where
  "load_recent_records env f h = (case dh_db h of None \<Rightarrow> None | Some d \<Rightarrow> list_records (de_flts env 4 0) f d)"

definition load_logs_analytics :: "dash_env \<Rightarrow> list_options \<Rightarrow> dash \<Rightarrow> logs_analytics option" where
  "load_logs_analytics env f h =
     (case dh_db h of None \<Rightarrow> None | Some d \<Rightarrow> logs_analytics_query (de_sum env) (de_flts env 4 1) f d)"

definition logs_view_data :: "dash_env \<Rightarrow> http_request \<Rightarrow> dash \<Rightarrow> logs_view" where
  "logs_view_data env r h =
     (let f = parse_logs_list_options r
      in \<lparr>vl_filters = f, vl_records = load_recent_records env f h, vl_analytics = load_logs_analytics env f h\<rparr>)"

definition render_logs :: "dash_env \<Rightarrow> http_request \<Rightarrow> dash \<Rightarrow> reply \<times> dash" where
  "render_logs env r h = render env r None (LogsPage (logs_view_data env r h)) h"

definition render_logs_partial :: "dash_env \<Rightarrow> http_request \<Rightarrow> dash \<Rightarrow> reply \<times> dash" where
  "render_logs_partial env r h = render env r (Some (logs_canonical_url r)) (LogsPage (logs_view_data env r h)) h"

definition render_backend_health :: "dash \<Rightarrow> reply" where
  "render_backend_health h =
     HealthText (concat (map (\<lambda>b. bc_name b @
        (if gm_get (dh_disabled h) (bc_name b) = Some True then '':disabled'' else '':healthy'') @ [CHR 0x0A])
       (cfg_backends (dh_cfg h))))"

end
