(* ===== verification/DashActions.thy ===== *)
theory DashActions
  imports Dashboard
begin

text \<open>
  internal/dashboard/handler.go: the operations behind the forms (model operations on a backend,
  models, backends, users, downloads, themes, toggles) and \<open>ServeHTTP\<close>.
\<close>

section \<open>Model operations on a backend\<close>

text \<open>The error, and the state unless it is nil.\<close>

definition refresh_backend_model_state ::
  "dash_env \<Rightarrow> string \<Rightarrow> string \<Rightarrow> dash \<Rightarrow> op_error option \<times> backend_model_state option" where
  "refresh_backend_model_state env name model h =
     (case dh_manager h of
        None \<Rightarrow> (Some OpNoManager, None)
      | Some m \<Rightarrow>
          (case get_by_name m name of
             None \<Rightarrow> (Some (OpBackendNotFound name), None)
           | Some b \<Rightarrow>
               (let st = blank_bm\<lparr>bm_action := ''refresh'', bm_backend := name, bm_model := model\<rparr> in
                case list_models (de_net env) b of
                  Inl e \<Rightarrow> (Some (OpClient e), Some st)
                | Inr available \<Rightarrow>
                    (let st1 = st\<lparr>bm_available := available, bm_success := Refreshed name\<rparr> in
                     case list_in_memory_models (de_net env) b of
                       Inl e \<Rightarrow> (None, Some (st1\<lparr>bm_error := RefreshPartly name e\<rparr>))
                     | Inr loaded \<Rightarrow> (None, Some (st1\<lparr>bm_in_memory := loaded\<rparr>))))))"

definition default_backend_model_state :: "dash_env \<Rightarrow> dash \<Rightarrow> backend_model_state option" where
  "default_backend_model_state env h =
     (case (dh_manager h, cfg_backends (dh_cfg h)) of
        (Some m, b # _) \<Rightarrow>
          (let name = trim_space (bc_name b) in
           if name = [] then None
           else if get_by_name m name = None then None
           else (case refresh_backend_model_state env name [] h of
               (None, st) \<Rightarrow> st | (Some e, st) \<Rightarrow> None))
      | _ \<Rightarrow> None)"

text \<open>The call to the backend behind an action, with the operation it asks the backend for.\<close>

definition apply_backend_action ::
  "dash_env \<Rightarrow> string \<Rightarrow> string \<Rightarrow> string \<Rightarrow> backend \<Rightarrow> backend_model_state
     \<Rightarrow> op_error option \<times> backend_model_state \<times> backend_op list" where
  "apply_backend_action env action name model b st =
     (if action = ''inspect'' then
        (case show_model (de_net env) model b of
           Inl e \<Rightarrow> (Some (OpClient e), st, [])
         | Inr details \<Rightarrow> (None, st\<lparr>bm_details := details, bm_parsed := Some (parse_model_show_metadata details),
               bm_success := Inspecting model name\<rparr>, []))
      else if action = ''delete'' then
        (case delete_model (de_net env) model b of
           Some e \<Rightarrow> (Some (OpClient e), st, [OpDelete name model])
         | None \<Rightarrow> (None, st\<lparr>bm_success := DeletionRequested model name\<rparr>, [OpDelete name model]))
      else if action = ''eject'' then
        (case eject_model (de_net env) model b of
           Some e \<Rightarrow> (Some (OpClient e), st, [OpEject name model])
         | None \<Rightarrow> (None, st\<lparr>bm_success := EjectRequested model name\<rparr>, [OpEject name model]))
      else (Some (OpUnknownAction action), st\<lparr>bm_error := UnknownOperation action\<rparr>, []))"

text \<open>\<open>None\<close> is the dereference of the nil state that a failed refresh returns for an unknown backend.\<close>

definition execute_backend_model_action ::
  "dash_env \<Rightarrow> string \<Rightarrow> string \<Rightarrow> string \<Rightarrow> dash \<Rightarrow> (op_error option \<times> backend_model_state) option \<times> dash" where
  "execute_backend_model_action env action name model h =
     (case refresh_backend_model_state env name model h of
        (e, None) \<Rightarrow> (None, h)
      | (Some e, Some st) \<Rightarrow> (Some (Some e, st\<lparr>bm_action := action\<rparr>), h)
      | (None, Some st0) \<Rightarrow>
          (let st = st0\<lparr>bm_action := action\<rparr> in
           if action = ''refresh'' then (Some (None, st), h)
           else if trim_space model = [] then (Some (Some OpNeedsModel, st\<lparr>bm_error := OperationNeedsModel\<rparr>), h)
           else (case Option.bind (dh_manager h) (\<lambda>m. get_by_name m name) of
               None \<Rightarrow> (Some (Some (OpBackendNotFound name), st\<lparr>bm_error := BackendNotFound name\<rparr>), h)
             | Some b \<Rightarrow>
                 (case apply_backend_action env action name model b st of
                    (e, st', ops) \<Rightarrow> (Some (e, st'), h\<lparr>dh_ops := dh_ops h @ ops\<rparr>)))))"

section \<open>The models page\<close>

definition model_view_of :: "dash \<Rightarrow> string list \<Rightarrow> user_config gomap \<Rightarrow> string \<Rightarrow> model_view" where
  "model_view_of h all_users users name =
     (let entry = (case gm_get (current_model_catalog h) name of Some e \<Rightarrow> e | None \<Rightarrow> \<lparr>me_name = [], me_backends = []\<rparr>);
          allowed = filter (\<lambda>u. case gm_get users u of Some uc \<Rightarrow> model_accessible_for_user uc name | None \<Rightarrow> False) all_users;
          price = gm_get (pricing_models (cfg_pricing (dh_cfg h))) name
      in \<lparr>mv_name = name, mv_display = me_name entry, mv_weights = format_model_backend_refs (me_backends entry),
          mv_input = (case price of Some p \<Rightarrow> input_per_1m p | None \<Rightarrow> 0),
          mv_output = (case price of Some p \<Rightarrow> output_per_1m p | None \<Rightarrow> 0),
          mv_users = allowed, mv_limited = (0 < length all_users \<and> length allowed \<noteq> length all_users)\<rparr>)"

definition ensure_bm :: "dash_env \<Rightarrow> dash \<Rightarrow> dash" where
  "ensure_bm env h =
     (case dh_bm h of
        Some st \<Rightarrow> h
      | None \<Rightarrow> (case default_backend_model_state env h of None \<Rightarrow> h | Some st \<Rightarrow> h\<lparr>dh_bm := Some st\<rparr>))"

definition render_models_page :: "dash_env \<Rightarrow> http_request \<Rightarrow> notice \<Rightarrow> notice \<Rightarrow> dash \<Rightarrow> reply \<times> dash" where
  "render_models_page env r err ok h0 =
     (let h = ensure_bm env h0; users = users_snapshot (de_flts env 4 0) h; all_users = sort (gm_keys users)
      in render env r None (ModelsPage
           \<lparr>vm_models = map (model_view_of h all_users users) (sort (gm_keys (current_model_catalog h))),
            vm_backends = cfg_backends (dh_cfg h), vm_users = all_users, vm_disabled = dh_disabled h,
            vm_default_input = default_input_per_1m (cfg_pricing (dh_cfg h)),
            vm_default_output = default_output_per_1m (cfg_pricing (dh_cfg h)),
            vm_error = err, vm_success = ok, vm_bm = dh_bm h\<rparr>) h)"

definition backend_model_request_values :: "http_request \<Rightarrow> form option" where
  "backend_model_request_values r = (if rq_method r = ''POST'' then parse_form r else Some (url_query r))"

definition render_models_backend_fragment :: "dash_env \<Rightarrow> http_request \<Rightarrow> dash \<Rightarrow> reply \<times> dash" where
  "render_models_backend_fragment env r h =
     (if \<not> is_authenticated h r then (PlainError 403 ''forbidden'', h)
      else (case backend_model_request_values r of
          None \<Rightarrow> (PlainError 400 ''invalid form'', h)
        | Some f \<Rightarrow>
            (let a0 = last_value f ''backend_model_action'';
                 action = (if a0 = [] then ''refresh'' else a0);
                 name = trim_space (form_value f ''backend_model_backend'');
                 model = trim_space (form_value f ''backend_model_name'');
                 answer = (\<lambda>st g. render env r None (BackendFragment (cfg_backends (dh_cfg g)) st)
                     (case st of None \<Rightarrow> g | Some s \<Rightarrow> g\<lparr>dh_bm := Some s\<rparr>))
             in if name = [] then answer (default_backend_model_state env h) h
                else (case execute_backend_model_action env action name model h of
                    (None, g) \<Rightarrow> (Panics, g)
                  | (Some (Some e, st), g) \<Rightarrow>
                      answer (Some (blank_bm\<lparr>bm_action := action, bm_backend := name, bm_model := model,
                        bm_error := OperationFailed e\<rparr>)) g
                  | (Some (None, st), g) \<Rightarrow> answer (Some st) g))))"

section \<open>Models\<close>

definition put_models :: "(catalog \<Rightarrow> catalog) \<Rightarrow> dash \<Rightarrow> dash" where
  "put_models f h = h\<lparr>dh_cfg := (dh_cfg h)\<lparr>cfg_models := f (cfg_models (dh_cfg h))\<rparr>\<rparr>"

definition put_prices :: "(model_pricing gomap \<Rightarrow> model_pricing gomap) \<Rightarrow> dash \<Rightarrow> dash" where
  "put_prices f h = h\<lparr>dh_cfg := (dh_cfg h)\<lparr>cfg_pricing :=
     (cfg_pricing (dh_cfg h))\<lparr>pricing_models := f (pricing_models (cfg_pricing (dh_cfg h)))\<rparr>\<rparr>\<rparr>"

text \<open>Writing the current catalog (the map that \<open>currentModelCatalog\<close> returns) and the configuration's.
  The map is one that was made: Go's nil map cannot be written.\<close>

definition put_catalog_entry :: "string \<Rightarrow> model_entry \<Rightarrow> dash \<Rightarrow> dash" where
  "put_catalog_entry name e h = put_models (gm_put name e) (h\<lparr>dh_models := map_option (gm_put name e) (dh_models h)\<rparr>)"

definition create_model :: "string \<Rightarrow> model_entry \<Rightarrow> dash \<Rightarrow> dash_error option \<times> dash" where
  "create_model name e h =
     (if gm_get (current_model_catalog h) name \<noteq> None then (Some ModelExists, h)
      else (None, put_catalog_entry name e h))"

definition update_model :: "string \<Rightarrow> model_entry \<Rightarrow> dash \<Rightarrow> dash_error option \<times> dash" where
  "update_model name e h =
     (if gm_get (current_model_catalog h) name = None then (Some ModelMissing, h)
      else (None, put_catalog_entry name e h))"

text \<open>The loops over the users, in the order in which the map is visited.\<close>

definition forget_model :: "string \<Rightarrow> user_config \<Rightarrow> user_config" where
  "forget_model name uc = uc\<lparr>model_allow := remove_csv_value (model_allow uc) name,
     model_deny := remove_csv_value (model_deny uc) name\<rparr>"

fun forget_loop ::
  "(nat \<Rightarrow> faults) \<Rightarrow> string \<Rightarrow> user_config gomap \<Rightarrow> auth_store \<Rightarrow> auth_err option \<times> auth_store" where
  "forget_loop flts name [] st = (None, st)"
| "forget_loop flts name ((uid, uc) # us) st =
     (if length (remove_csv_value (model_allow uc) name) = length (model_allow uc) \<and>
         length (remove_csv_value (model_deny uc) name) = length (model_deny uc)
      then forget_loop flts name us st
      else (case update_user (flts 0) st uid (forget_model name uc) of
          (Some e, st') \<Rightarrow> (Some e, st')
        | (None, st') \<Rightarrow> forget_loop (\<lambda>k. flts (Suc k)) name us st'))"

definition delete_model_action :: "(nat \<Rightarrow> faults) \<Rightarrow> string \<Rightarrow> dash \<Rightarrow> dash_error option \<times> dash" where
  "delete_model_action flts name h =
     (if gm_get (current_model_catalog h) name = None then (Some ModelMissing, h)
      else (let h1 = put_prices (gm_del name) (put_models (gm_del name) (h\<lparr>dh_models := map_option (gm_del name) (dh_models h)\<rparr>))
            in case forget_loop (\<lambda>k. flts (Suc k)) name (users_snapshot (flts 0) h1) (dash_auth h1) of
                 (e, st) \<Rightarrow> (map_option ByUserStore e, with_auth st h1)))"

definition grant_model :: "string \<Rightarrow> user_config \<Rightarrow> user_config" where
  "grant_model name uc =
     uc\<lparr>model_allow := sort (if 0 < length (model_allow uc) \<and> \<not> contains_csv_value (model_allow uc) name
          then model_allow uc @ [name] else model_allow uc),
        model_deny := sort (remove_csv_value (model_deny uc) name)\<rparr>"

definition withhold_model :: "string \<Rightarrow> user_config \<Rightarrow> user_config" where
  "withhold_model name uc =
     uc\<lparr>model_allow := sort (remove_csv_value (model_allow uc) name),
        model_deny := sort (if \<not> contains_csv_value (model_deny uc) name then model_deny uc @ [name] else model_deny uc)\<rparr>"

fun access_loop ::
  "(nat \<Rightarrow> faults) \<Rightarrow> string \<Rightarrow> bool \<Rightarrow> string set \<Rightarrow> user_config gomap \<Rightarrow> auth_store
     \<Rightarrow> auth_err option \<times> auth_store" where
  "access_loop flts name limited selected [] st = (None, st)"
| "access_loop flts name limited selected ((uid, uc) # us) st =
     (let allowed = (if limited then uid \<in> selected else True) in
      case update_user (flts 0) st uid (if allowed then grant_model name uc else withhold_model name uc) of
        (Some e, st') \<Rightarrow> (Some e, st')
      | (None, st') \<Rightarrow> access_loop (\<lambda>k. flts (Suc k)) name limited selected us st')"

definition apply_model_access ::
  "(nat \<Rightarrow> faults) \<Rightarrow> string \<Rightarrow> bool \<Rightarrow> string set \<Rightarrow> dash \<Rightarrow> dash_error option \<times> dash" where
  "apply_model_access flts name limited selected h =
     (case access_loop (\<lambda>k. flts (Suc k)) name limited selected (users_snapshot (flts 0) h) (dash_auth h) of
        (e, st) \<Rightarrow> (map_option ByUserStore e, with_auth st h))"

definition set_model_pricing :: "string \<Rightarrow> real \<Rightarrow> real \<Rightarrow> dash \<Rightarrow> dash" where
  "set_model_pricing name i out h =
     put_prices (if i = 0 \<and> out = 0 then gm_del name
       else gm_put name \<lparr>input_per_1m = i, output_per_1m = out\<rparr>) h"

datatype model_action = CreateAction | UpdateAction | DeleteAction

definition persist_model_mutation ::
  "faults \<Rightarrow> model_action \<Rightarrow> string \<Rightarrow> model_entry \<Rightarrow> dash \<Rightarrow> dash_error option \<times> dash" where
  "persist_model_mutation flt action name e h =
     (case dh_db h of
        None \<Rightarrow> (None, h)
      | Some d \<Rightarrow>
          (case (if action = DeleteAction then deactivate_model flt name d else upsert_model flt name e d) of
             (err, d') \<Rightarrow>
               (map_option (\<lambda>x. if action = DeleteAction \<and> x = ErrModelNotFound then ModelMissing else ByModelStore x) err,
                h\<lparr>dh_db := Some d'\<rparr>)))"

definition persist_model_pricing :: "faults \<Rightarrow> dash \<Rightarrow> dash_error option \<times> dash" where
  "persist_model_pricing flt h =
     (case dh_db h of
        None \<Rightarrow> (None, h)
      | Some d \<Rightarrow>
          (case replace_model_pricing flt (pricing_models (cfg_pricing (dh_cfg h))) d of
             (err, d') \<Rightarrow> (map_option ByModelStore err, h\<lparr>dh_db := Some d'\<rparr>)))"

text \<open>The calls of the two callbacks.\<close>

definition refresh_runtime :: "catalog \<Rightarrow> dash \<Rightarrow> dash" where
  "refresh_runtime c h =
     h\<lparr>dh_catalogs_given := map_option (\<lambda>cs. c # cs) (dh_catalogs_given h),
       dh_prices_given := map_option (\<lambda>ps. build_usage_pricing_config (cfg_pricing (dh_cfg h)) # ps) (dh_prices_given h)\<rparr>"

definition reload_model_runtime_from_store :: "(nat \<Rightarrow> faults) \<Rightarrow> dash \<Rightarrow> dash_error option \<times> dash" where
  "reload_model_runtime_from_store flts h =
     (case dh_db h of
        None \<Rightarrow> (None, refresh_runtime (current_model_catalog h) h)
      | Some d \<Rightarrow>
          (case load_active_catalog (flts 0) d of
             Inl e \<Rightarrow> (Some (ByModelStore e), h)
           | Inr c \<Rightarrow>
               (let h1 = put_models (\<lambda>_. clone_config_catalog c) (set_model_catalog (Some c) h) in
                case load_model_pricing (flts 1) d of
                  Inl e \<Rightarrow> (Some (ByModelStore e), h1)
                | Inr p \<Rightarrow> (None, refresh_runtime c (put_prices (\<lambda>_. p) h1)))))"

text \<open>What follows a change of a model: persisting it, the prices, and the reload; the first failure
  ends it and is reported by one of the three notices.\<close>

definition settle_model ::
  "(nat \<Rightarrow> nat \<Rightarrow> faults) \<Rightarrow> model_action \<Rightarrow> string \<Rightarrow> model_entry \<Rightarrow> (dash_error \<Rightarrow> notice) \<Rightarrow> (dash_error \<Rightarrow> notice)
     \<Rightarrow> (dash_error \<Rightarrow> notice) \<Rightarrow> dash \<Rightarrow> notice option \<times> dash" where
  "settle_model flts action name e n1 n2 n3 h =
     (case persist_model_mutation (flts 1 0) action name e h of
        (Some x, h1) \<Rightarrow> (Some (n1 x), h1)
      | (None, h1) \<Rightarrow>
          (case persist_model_pricing (flts 2 0) h1 of
             (Some x, h2) \<Rightarrow> (Some (n2 x), h2)
           | (None, h2) \<Rightarrow>
               (case reload_model_runtime_from_store (flts 3) h2 of
                  (Some x, h3) \<Rightarrow> (Some (n3 x), h3)
                | (None, h3) \<Rightarrow> (None, h3))))"

definition entry_of_form :: "string \<Rightarrow> form \<Rightarrow> model_backend_ref list \<Rightarrow> model_entry" where
  "entry_of_form name f refs =
     (let display = trim_space (form_value f ''display_name'')
      in \<lparr>me_name = (if display = [] then name else display), me_backends = refs\<rparr>)"

definition selected_users :: "form \<Rightarrow> string set" where
  "selected_users f = set (filter (\<lambda>u. u \<noteq> []) (map trim_space (form_values f ''user_access'')))"

text \<open>The notice of a creation or an update, with whether it is a success.\<close>

definition save_model ::
  "(nat \<Rightarrow> nat \<Rightarrow> faults) \<Rightarrow> model_action \<Rightarrow> string \<Rightarrow> model_entry \<Rightarrow> real \<Rightarrow> real \<Rightarrow> bool \<Rightarrow> string set \<Rightarrow> dash
     \<Rightarrow> (notice, notice) result \<times> dash" where
  "save_model flts action name e i out limited selected h =
     (case (if action = CreateAction then create_model name e h else update_model name e h) of
        (Some x, h1) \<Rightarrow> (Inl (if action = CreateAction then ModelCreateFailed name x else ModelUpdateFailed name x), h1)
      | (None, h1) \<Rightarrow>
          (case apply_model_access (flts 0) name limited selected (set_model_pricing name i out h1) of
             (Some x, h2) \<Rightarrow> (Inl (AccessFailed name x), h2)
           | (None, h2) \<Rightarrow>
               (let stored = (case gm_get (current_model_catalog h2) name of Some x \<Rightarrow> x
                     | None \<Rightarrow> \<lparr>me_name = [], me_backends = []\<rparr>)
                in case settle_model flts action name stored (PersistFailed name) (PricesFailed name) (RefreshFailed name) h2 of
                     (Some n, h3) \<Rightarrow> (Inl n, h3)
                   | (None, h3) \<Rightarrow> (Inr (if action = CreateAction then ModelCreated name else ModelUpdated name), h3))))"

definition remove_model ::
  "(nat \<Rightarrow> nat \<Rightarrow> faults) \<Rightarrow> string \<Rightarrow> dash \<Rightarrow> (notice, notice) result \<times> dash" where
  "remove_model flts name h =
     (case delete_model_action (flts 0) name h of
        (Some x, h1) \<Rightarrow> (Inl (ModelDeleteFailed name x), h1)
      | (None, h1) \<Rightarrow>
          (case settle_model flts DeleteAction name \<lparr>me_name = [], me_backends = []\<rparr> (DeletePersistFailed name)
              (DeletePricesFailed name) (DeleteRefreshFailed name) h1 of
             (Some n, h2) \<Rightarrow> (Inl n, h2)
           | (None, h2) \<Rightarrow> (Inr (ModelDeleted name), h2)))"

definition show_model_result ::
  "dash_env \<Rightarrow> http_request \<Rightarrow> (notice, notice) result \<times> dash \<Rightarrow> reply \<times> dash" where
  "show_model_result env r res =
     (case res of (Inl n, h) \<Rightarrow> render_models_page env r n NoNotice h
      | (Inr n, h) \<Rightarrow> render_models_page env r NoNotice n h)"

text \<open>The first part of \<open>handleModelAction\<close>: an operation on a backend's models.\<close>

definition handle_backend_model_action ::
  "dash_env \<Rightarrow> http_request \<Rightarrow> form \<Rightarrow> string \<Rightarrow> dash \<Rightarrow> reply \<times> dash" where
  "handle_backend_model_action env r f action h =
     (let name = trim_space (form_value f ''backend_model_backend'');
          model = trim_space (form_value f ''backend_model_name'') in
      if name = [] then
        render_models_page env r BackendRequired NoNotice (h\<lparr>dh_bm := Some (blank_bm\<lparr>bm_error := BackendRequired\<rparr>)\<rparr>)
      else if model = [] \<and> action \<noteq> ''refresh'' then
        render_models_page env r OperationNeedsModel NoNotice (h\<lparr>dh_bm := Some (blank_bm\<lparr>bm_error := OperationNeedsModel\<rparr>)\<rparr>)
      else (case execute_backend_model_action env action name model h of
          (None, g) \<Rightarrow> (Panics, g)
        | (Some (Some e, st), g) \<Rightarrow>
            render_models_page env r (OperationFailed e) NoNotice (g\<lparr>dh_bm := Some (st\<lparr>bm_error := OperationFailed e\<rparr>)\<rparr>)
        | (Some (None, st), g) \<Rightarrow> render_models_page env r NoNotice (bm_success st) (g\<lparr>dh_bm := Some st\<rparr>)))"

text \<open>The forms are read completely before the action is looked at.\<close>

definition save_model_form :: "dash_env \<Rightarrow> http_request \<Rightarrow> form \<Rightarrow> string \<Rightarrow> string \<Rightarrow> dash \<Rightarrow> reply \<times> dash" where
  "save_model_form env r f action name h =
     (case parse_model_backend_refs (form_value f ''backend_weights'') (cfg_backends (dh_cfg h)) of
        Inl e \<Rightarrow> render_models_page env r (InvalidRefs name e) NoNotice h
      | Inr refs \<Rightarrow>
          (case parse_model_pricing_form f of
             Inl e \<Rightarrow> render_models_page env r (InvalidPricing name e) NoNotice h
           | Inr (i, out) \<Rightarrow>
               if action = ''create'' \<or> action = ''update'' then
                 (case (i, out) of
                    (FFinite x, FFinite y) \<Rightarrow>
                      show_model_result env r
                        (save_model (de_flts env) (if action = ''create'' then CreateAction else UpdateAction) name
                           (entry_of_form name f refs) x y (checked_on f ''limit_access'') (selected_users f) h)
                  | _ \<Rightarrow> (NotFinite, h))
               else render_models_page env r UnknownModelAction NoNotice h))"

definition handle_model_action :: "dash_env \<Rightarrow> http_request \<Rightarrow> dash \<Rightarrow> reply \<times> dash" where
  "handle_model_action env r h =
     (case parse_form r of
        None \<Rightarrow> (PlainError 400 ''invalid form'', h)
      | Some f \<Rightarrow>
          (let action = trim_space (form_value f ''action''); backend_action = last_value f ''backend_model_action'';
               name = trim_space (form_value f ''model_name'')
           in if backend_action \<noteq> [] then handle_backend_model_action env r f backend_action h
              else if name = [] then render_models_page env r ModelNameNeeded NoNotice h
              else if action = ''delete'' then show_model_result env r (remove_model (de_flts env) name h)
              else save_model_form env r f action name h))"

end
