(* ===== verification/DashServe.thy ===== *)
theory DashServe
  imports DashActions
begin

text \<open>
  internal/dashboard/handler.go: the operations on backends and users, downloads, the live toggle,
  login and themes, and \<open>ServeHTTP\<close>, which routes a request to them.
\<close>

section \<open>Backends\<close>

definition backend_by_name :: "string \<Rightarrow> dash \<Rightarrow> backend_cfg option" where
  "backend_by_name name h = List.find (\<lambda>b. bc_name b = name) (cfg_backends (dh_cfg h))"

definition put_backends :: "(backend_cfg list \<Rightarrow> backend_cfg list) \<Rightarrow> dash \<Rightarrow> dash" where
  "put_backends f h = h\<lparr>dh_cfg := (dh_cfg h)\<lparr>cfg_backends := f (cfg_backends (dh_cfg h))\<rparr>\<rparr>"

text \<open>The first of the name is replaced, or the backend is appended.\<close>

fun upsert_in_list :: "backend_cfg \<Rightarrow> backend_cfg list \<Rightarrow> backend_cfg list" where
  "upsert_in_list c [] = [c]"
| "upsert_in_list c (b # bs) = (if bc_name b = bc_name c then c # bs else b # upsert_in_list c bs)"

definition upsert_backend_in_config :: "backend_cfg \<Rightarrow> dash \<Rightarrow> dash" where
  "upsert_backend_in_config c h = put_backends (upsert_in_list c) h"

definition remove_backend_from_config :: "string \<Rightarrow> dash \<Rightarrow> dash" where
  "remove_backend_from_config name h = put_backends (filter (\<lambda>b. bc_name b \<noteq> name)) h"

definition models_referencing_backend :: "string \<Rightarrow> dash \<Rightarrow> string list" where
  "models_referencing_backend name h =
     sort (map fst (filter (\<lambda>(n, e). list_ex (\<lambda>r. ref_backend r = name) (me_backends e)) (current_model_catalog h)))"

definition reload_backends_from_store :: "faults \<Rightarrow> dash \<Rightarrow> dash_error option \<times> dash" where
  "reload_backends_from_store flt h =
     (case dh_db h of
        None \<Rightarrow> (None, h)
      | Some d \<Rightarrow>
          (case load_active_backends flt d of
             Inl e \<Rightarrow> (Some (ByBackendStore e), h)
           | Inr bs \<Rightarrow> (None, put_backends (\<lambda>_. bs)
               (h\<lparr>dh_disabled := filter (\<lambda>(n, _). n \<in> bc_name ` set bs) (dh_disabled h)\<rparr>))))"

text \<open>What \<open>createBackend\<close> and \<open>updateBackend\<close> share: the table, the manager, the flags, the list.\<close>

definition save_backend :: "(nat \<Rightarrow> faults) \<Rightarrow> backend_cfg \<Rightarrow> dash \<Rightarrow> dash_error option \<times> dash" where
  "save_backend flts c h =
     (case (case dh_db h of None \<Rightarrow> (None, h)
            | Some d \<Rightarrow> (case store_upsert_backend (flts 0) c d of
                (e, d') \<Rightarrow> (map_option ByBackendStore e, h\<lparr>dh_db := Some d'\<rparr>))) of
        (Some e, h1) \<Rightarrow> (Some e, h1)
      | (None, h1) \<Rightarrow>
          (case (case dh_manager h1 of None \<Rightarrow> Inr h1
                 | Some m \<Rightarrow> map_sum ByManager (\<lambda>m'. h1\<lparr>dh_manager := Some m'\<rparr>) (upsert_backend c m)) of
             Inl e \<Rightarrow> (Some e, h1)
           | Inr h2 \<Rightarrow>
               reload_backends_from_store (flts 1)
                 (upsert_backend_in_config c (h2\<lparr>dh_disabled := gm_del (bc_name c) (dh_disabled h2)\<rparr>))))"

definition create_backend :: "(nat \<Rightarrow> faults) \<Rightarrow> backend_cfg \<Rightarrow> dash \<Rightarrow> dash_error option \<times> dash" where
  "create_backend flts c h =
     (if backend_by_name (bc_name c) h \<noteq> None then (Some BackendExists, h) else save_backend flts c h)"

definition update_backend :: "(nat \<Rightarrow> faults) \<Rightarrow> backend_cfg \<Rightarrow> dash \<Rightarrow> dash_error option \<times> dash" where
  "update_backend flts c h =
     (if backend_by_name (bc_name c) h = None then (Some BackendMissing, h) else save_backend flts c h)"

definition drop_backend :: "(nat \<Rightarrow> faults) \<Rightarrow> string \<Rightarrow> dash \<Rightarrow> dash_error option \<times> dash" where
  "drop_backend flts name h =
     (case (case dh_db h of None \<Rightarrow> (None, h)
            | Some d \<Rightarrow> (case store_remove_backend (flts 0) name d of
                (e, d') \<Rightarrow> (map_option (\<lambda>x. if x = BackendRowNotFound then BackendMissing else ByBackendStore x) e,
                  h\<lparr>dh_db := Some d'\<rparr>))) of
        (Some e, h1) \<Rightarrow> (Some e, h1)
      | (None, h1) \<Rightarrow>
          (case (case dh_manager h1 of None \<Rightarrow> Inr h1
                 | Some m \<Rightarrow> map_sum (\<lambda>x. if x = ErrBackendNotFound then BackendMissing else ByManager x)
                     (\<lambda>m'. h1\<lparr>dh_manager := Some m'\<rparr>) (remove_backend name m)) of
             Inl e \<Rightarrow> (Some e, h1)
           | Inr h2 \<Rightarrow>
               reload_backends_from_store (flts 1)
                 (remove_backend_from_config name (h2\<lparr>dh_disabled := gm_del name (dh_disabled h2)\<rparr>))))"

definition removal_form :: "dash_env \<Rightarrow> http_request \<Rightarrow> form \<Rightarrow> string \<Rightarrow> bool \<Rightarrow> dash \<Rightarrow> reply \<times> dash" where
  "removal_form env r f name confirmed h =
     (let blocking = models_referencing_backend name h in
      if \<not> confirmed \<and> backend_by_name name h = None then render_backends_page env r (BackendNotFound name) NoNotice [] h
      else if confirmed \<and> trim_space (form_value f ''confirm_backend_name'') \<noteq> name then
        render_backends_page env r ConfirmationMismatch NoNotice name h
      else if 0 < length blocking then render_backends_page env r (CannotRemove name blocking) NoNotice [] h
      else if \<not> confirmed then render_backends_page env r NoNotice (ConfirmRemoval name) name h
      else (case drop_backend (de_flts env 0) name h of
          (Some e, h1) \<Rightarrow> render_backends_page env r (RemoveFailed name e) NoNotice [] h1
        | (None, h1) \<Rightarrow> render_backends_page env r NoNotice (BackendRemoved name) [] h1))"

definition handle_backend_action :: "dash_env \<Rightarrow> http_request \<Rightarrow> dash \<Rightarrow> reply \<times> dash" where
  "handle_backend_action env r h =
     (case parse_form r of
        None \<Rightarrow> (PlainError 400 ''invalid form'', h)
      | Some f \<Rightarrow>
          (let action = trim_space (form_value f ''action''); name = trim_space (form_value f ''backend_name'') in
           if name = [] then render_backends_page env r BackendNameRequired NoNotice [] h
           else if action = ''remove-intent'' then removal_form env r f name False h
           else if action = ''remove-confirm'' then removal_form env r f name True h
           else (case build_backend_config_from_form f of
               Inl e \<Rightarrow> render_backends_page env r (InvalidBackend name e) NoNotice [] h
             | Inr c \<Rightarrow>
                 if action = ''create'' then
                   (case create_backend (de_flts env 0) c h of
                      (Some e, h1) \<Rightarrow> render_backends_page env r (BackendCreateFailed name e) NoNotice [] h1
                    | (None, h1) \<Rightarrow> render_backends_page env r NoNotice (BackendCreated name) [] h1)
                 else if action = ''update'' then
                   (case update_backend (de_flts env 0) c h of
                      (Some e, h1) \<Rightarrow> render_backends_page env r (BackendUpdateFailed name e) NoNotice [] h1
                    | (None, h1) \<Rightarrow> render_backends_page env r NoNotice (BackendUpdated name) [] h1)
                 else render_backends_page env r UnknownBackendAction NoNotice [] h)))"

definition toggle_name :: "string \<Rightarrow> string" where
  "toggle_name path = trim_prefix path ''backends/toggle/''"

definition respond_backend_toggle :: "http_request \<Rightarrow> string \<Rightarrow> bool \<Rightarrow> reply" where
  "respond_backend_toggle r name enabled =
     (if rq_method r = ''POST'' then SeeOther ''/admin/backends'' None else ToggleText name enabled)"

definition handle_backend_toggle :: "http_request \<Rightarrow> string \<Rightarrow> dash \<Rightarrow> reply \<times> dash" where
  "handle_backend_toggle r path h =
     (let name = toggle_name path; was_disabled = gm_get (dh_disabled h) name = Some True in
      if name = [] \<or> name = ''backends/toggle/'' then (PlainError 400 ''backend name required'', h)
      else (let h1 = h\<lparr>dh_disabled := (if was_disabled then gm_del name (dh_disabled h) else gm_put name True (dh_disabled h)),
                       dh_manager := map_option (toggle_backend name was_disabled) (dh_manager h)\<rparr>
            in (respond_backend_toggle r name was_disabled, h1)))"

section \<open>Users\<close>

definition limit_of_user_form :: "form_limit option \<Rightarrow> rate_limit_cfg option option" where
  "limit_of_user_form rl =
     (case rl of None \<Rightarrow> Some None
      | Some l \<Rightarrow> (case fl_rate l of
          FFinite x \<Rightarrow> Some (Some \<lparr>rlc_rate = x, rlc_burst = fl_burst l, rlc_ttl = fl_ttl l\<rparr>) | _ \<Rightarrow> None))"

text \<open>The user that a form stands for, with its key hash; \<open>None\<close> when the rate is not finite.\<close>

definition user_of_form :: "string \<Rightarrow> user_form \<Rightarrow> user_config option" where
  "user_of_form hash u =
     map_option (\<lambda>rl. \<lparr>api_key_hash = hash, rate_limit = rl, model_allow = uf_allow u, model_deny = uf_deny u,
        aliases = uf_aliases u\<rparr>) (limit_of_user_form (uf_limit u))"

definition rotate_form :: "dash_env \<Rightarrow> http_request \<Rightarrow> string \<Rightarrow> dash \<Rightarrow> reply \<times> dash" where
  "rotate_form env r name h =
     (case rotate_user_key (de_flts env 0 0) (dash_auth h) name (generate_api_key env) of
        (Inl ErrUserNotFound, st) \<Rightarrow> render_users_page env r [] [] (UserNotFound name) NoNotice (with_auth st h)
      | (Inl e, st) \<Rightarrow> render_users_page env r [] [] (RotateFailed name e) NoNotice (with_auth st h)
      | (Inr (raw, hash), st) \<Rightarrow> render_users_page env r raw hash NoNotice (KeyRotated name) (with_auth st h))"

definition deactivate_form :: "dash_env \<Rightarrow> http_request \<Rightarrow> string \<Rightarrow> dash \<Rightarrow> reply \<times> dash" where
  "deactivate_form env r name h =
     (case deactivate_user (de_flts env 0 0) (dash_auth h) name of
        (Some ErrUserNotFound, st) \<Rightarrow> render_users_page env r [] [] (UserNotFound name) NoNotice (with_auth st h)
      | (Some ErrUserDeactivated, st) \<Rightarrow> render_users_page env r [] [] (AlreadyDeactivated name) NoNotice (with_auth st h)
      | (Some e, st) \<Rightarrow> render_users_page env r [] [] (DeactivateFailed name e) NoNotice (with_auth st h)
      | (None, st) \<Rightarrow> render_users_page env r [] [] NoNotice (UserDeactivated name) (with_auth st h))"

definition update_form :: "dash_env \<Rightarrow> http_request \<Rightarrow> form \<Rightarrow> string \<Rightarrow> dash \<Rightarrow> reply \<times> dash" where
  "update_form env r f name h =
     (case build_user_config_from_form f of
        Inl e \<Rightarrow> render_users_page env r [] [] (InvalidUser name e) NoNotice h
      | Inr u \<Rightarrow>
          (case user_of_form [] u of
             None \<Rightarrow> (NotFinite, h)
           | Some uc \<Rightarrow>
               (case update_user (de_flts env 0 0) (dash_auth h) name uc of
                  (Some ErrUserNotFound, st) \<Rightarrow> render_users_page env r [] [] (UserNotFound name) NoNotice (with_auth st h)
                | (Some e, st) \<Rightarrow> render_users_page env r [] [] (UserUpdateFailed name e) NoNotice (with_auth st h)
                | (None, st) \<Rightarrow> render_users_page env r [] [] NoNotice (UserUpdated name) (with_auth st h))))"

definition create_form :: "dash_env \<Rightarrow> http_request \<Rightarrow> form \<Rightarrow> string \<Rightarrow> dash \<Rightarrow> reply \<times> dash" where
  "create_form env r f name h =
     (let raw = generate_api_key env; hash = hash_api_key raw in
      case build_user_config_from_form f of
        Inl e \<Rightarrow> render_users_page env r [] [] (InvalidUser name e) NoNotice h
      | Inr u \<Rightarrow>
          (case user_of_form hash u of
             None \<Rightarrow> (NotFinite, h)
           | Some uc \<Rightarrow>
               (case create_user (de_flts env 0 0) (dash_auth h) name uc of
                  (Some ErrUserExists, st) \<Rightarrow> render_users_page env r [] [] (UserAlreadyExists name) NoNotice (with_auth st h)
                | (Some e, st) \<Rightarrow> render_users_page env r [] [] (UserCreateFailed name e) NoNotice (with_auth st h)
                | (None, st) \<Rightarrow> render_users_page env r raw hash NoNotice (UserCreated name) (with_auth st h))))"

definition handle_user_action :: "dash_env \<Rightarrow> http_request \<Rightarrow> dash \<Rightarrow> reply \<times> dash" where
  "handle_user_action env r h =
     (case parse_form r of
        None \<Rightarrow> (PlainError 400 ''invalid form'', h)
      | Some f \<Rightarrow>
          (let action = form_value f ''action''; name = trim_space (form_value f ''user_name'');
               needs_name = (\<lambda>act. if name = [] then render_users_page env r [] [] UserNameNeeded NoNotice h else act)
           in if action = ''generate'' then
                render_users_page env r (generate_api_key env) (hash_api_key (generate_api_key env)) NoNotice NoNotice h
              else if action = ''rotate'' then needs_name (rotate_form env r name h)
              else if action = ''deactivate'' then needs_name (deactivate_form env r name h)
              else if action = ''update'' then needs_name (update_form env r f name h)
              else if action \<noteq> ''create'' then render_users_page env r [] [] NoNotice NoNotice h
              else needs_name (create_form env r f name h)))"

section \<open>Downloads\<close>

definition handle_pull_model_start :: "dash_env \<Rightarrow> http_request \<Rightarrow> dash \<Rightarrow> reply \<times> dash" where
  "handle_pull_model_start env r h =
     (if \<not> is_authenticated h r then (LoginForm True, h)
      else (case parse_form r of
          None \<Rightarrow> (PlainError 400 ''invalid form'', h)
        | Some f \<Rightarrow>
            (let name = trim_space (form_value f ''backend_model_backend'');
                 model = trim_space (form_value f ''pull_model_name'') in
             if name = [] then render_models_page env r DownloadBackendRequired NoNotice h
             else if model = [] then render_models_page env r DownloadModelRequired NoNotice h
             else (case dh_manager h of
                 None \<Rightarrow> (Panics, h)
               | Some m \<Rightarrow>
                   if get_by_name m name = None then render_models_page env r (BackendNotFound name) NoNotice h
                   else (case start_pull_job (de_now env) (new_pull_job_id env) name model (ps_job (dh_pulls h)) of
                       Inl j \<Rightarrow> render_models_page env r (DownloadActive (pj_model j) (pj_backend j)) NoNotice h
                     | Inr j \<Rightarrow> (SeeOther ''/admin/models'' None,
                         h\<lparr>dh_pulls := \<lparr>ps_job = Some j, ps_running = ps_running (dh_pulls h) @ [pj_id j]\<rparr>,
                           dh_ops := dh_ops h @ [OpPull (pj_id j) name model]\<rparr>))))))"

definition render_pull_status :: "dash_env \<Rightarrow> http_request \<Rightarrow> dash \<Rightarrow> reply \<times> dash" where
  "render_pull_status env r h =
     (if \<not> is_authenticated h r then (PlainError 403 ''forbidden'', h) else render env r None PullStatus h)"

section \<open>Login, themes, assets\<close>

definition handle_login :: "http_request \<Rightarrow> dash \<Rightarrow> reply" where
  "handle_login r h =
     (case parse_form r of
        None \<Rightarrow> PlainError 400 ''invalid form''
      | Some f \<Rightarrow>
          if \<not> check_admin_token (dash_auth h) (form_value f ''token'') then LoginForm True
          else SeeOther ''/admin/overview'' (Some (cookie_pair ''admin_session'' (form_value f ''token''))))"

definition handle_theme_selection :: "dash_env \<Rightarrow> http_request \<Rightarrow> reply" where
  "handle_theme_selection env r =
     (case parse_form r of
        None \<Rightarrow> PlainError 400 ''invalid form''
      | Some f \<Rightarrow>
          (let requested = sanitize_theme_id (form_value f ''theme'');
               sel = (if requested \<in> fst ` set (available_themes (de_themes env)) then requested else default_theme_id);
               cookie = cookie_pair ''admin_theme'' sel
           in if equal_fold (hdr_get (rq_headers r) ''HX-Request'') ''true''
              then ThemeSwap cookie (theme_refresh_path r) (theme_head_oob_element sel)
              else SeeOther (theme_refresh_path r) (Some cookie)))"

definition asset_type :: "dash_env \<Rightarrow> string \<Rightarrow> string \<Rightarrow> string" where
  "asset_type env path data =
     (let ext = to_lower (path_ext path); t = de_mime env ext;
          t1 = (if t = [] then (if ext = ''.css'' then ''text/css; charset=utf-8''
                else if ext = ''.js'' then ''application/javascript'' else []) else t)
      in if t1 = [] then de_detect env data else t1)"

definition serve_static :: "dash_env \<Rightarrow> string \<Rightarrow> reply" where
  "serve_static env path =
     (let asset = ''static/'' @ trim_prefix path ''static/'' in
      case de_assets env asset of
        None \<Rightarrow> PlainError 404 ''404 page not found''
      | Some data \<Rightarrow> Asset (asset_type env asset data) data)"

section \<open>ServeHTTP\<close>

definition admin_path :: "string \<Rightarrow> string" where
  "admin_path p =
     (let q = trim_prefix p ''/admin''; q1 = (if q = [] \<or> q = ''/'' then ''/overview'' else q); q2 = trim_prefix q1 ''/''
      in if q2 = [] then ''overview'' else q2)"

text \<open>The part behind the check of the credentials.\<close>

definition serve_authenticated :: "dash_env \<Rightarrow> http_request \<Rightarrow> string \<Rightarrow> dash \<Rightarrow> reply \<times> dash" where
  "serve_authenticated env r path h =
     (if path = ''overview'' then render_overview env r h
      else if path = ''overview/partial'' then render_overview_partial env r h
      else if path = ''models'' then render_models_page env r NoNotice NoNotice h
      else if path = ''models/backend-fragment'' then render_models_backend_fragment env r h
      else if path = ''pull-status'' then render_pull_status env r h
      else if path = ''backends'' then render_backends_page env r NoNotice NoNotice [] h
      else if path = ''users'' then render_users_page env r [] [] NoNotice NoNotice h
      else if path = ''logs'' then render_logs env r h
      else if path = ''logs/partial'' then render_logs_partial env r h
      else if path = ''backends/health'' then (render_backend_health h, h)
      else if path = ''theme'' then
        (if rq_method r \<noteq> ''POST'' then (PlainError 405 ''method not allowed'', h)
         else (handle_theme_selection env r, h))
      else if has_prefix path ''backends/toggle/'' then handle_backend_toggle r path h
      else render_overview env r h)"

definition serve_dashboard :: "dash_env \<Rightarrow> http_request \<Rightarrow> dash \<Rightarrow> reply \<times> dash" where
  "serve_dashboard env r h =
     (let path = admin_path (rq_path r); post = rq_method r = ''POST'' in
      if has_prefix path ''static/'' then (serve_static env path, h)
      else if post \<and> path = ''login'' then (handle_login r h, h)
      else if post \<and> path = ''users'' then handle_user_action env r h
      else if post \<and> path = ''models'' then handle_model_action env r h
      else if post \<and> path = ''models/backend-fragment'' then render_models_backend_fragment env r h
      else if post \<and> path = ''models/pull'' then handle_pull_model_start env r h
      else if post \<and> path = ''backends'' then handle_backend_action env r h
      else if path = ''login'' then (LoginForm False, h)
      else if \<not> is_authenticated h r then (LoginForm True, h)
      else serve_authenticated env r path h)"

end
