(* ===== verification/DashProps.thy ===== *)
theory DashProps
  imports DashServe
begin

text \<open>
  The dashboard's gate: sessions, what a request without credentials can do, and what its handlers
  do to the state.
\<close>

section \<open>Sessions\<close>

lemma cookie_char_bounds: "cookie_char c \<Longrightarrow> c \<noteq> CHR 0x22 \<and> c \<noteq> CHR '';''"
  by (auto simp: cookie_char_def)

lemma filter_cookie: "list_all cookie_char t \<Longrightarrow> filter cookie_char t = t"
  by (simp add: list_all_iff)

lemma parse_sanitized:
  assumes "list_all cookie_char t"
  shows "parse_cookie_value (sanitize_cookie_value t) = Some t"
proof (cases "CHR '' '' \<in> set t \<or> CHR '','' \<in> set t")
  case True
  then show ?thesis using assms by (simp add: sanitize_cookie_value_def filter_cookie parse_cookie_value_def Let_def)
next
  case False
  have "\<not> (1 < length t \<and> hd t = CHR 0x22)"
    using assms cookie_char_bounds [of "hd t"] by (cases t) auto
  then show ?thesis using False assms
    by (auto simp: sanitize_cookie_value_def filter_cookie parse_cookie_value_def Let_def)
qed

lemma trim_ascii_id:
  assumes "s \<noteq> []" "\<not> is_space (hd s)" "\<not> is_space (last s)"
  shows "trim_ascii s = s"
proof -
  let ?sp = "\<lambda>c. c = CHR '' '' \<or> c = CHR 0x09 \<or> c = CHR 0x0A \<or> c = CHR 0x0D"
  have "\<not> ?sp (hd s)" "\<not> ?sp (hd (rev s))" using assms by (auto simp: is_space_def hd_rev)
  then have "dropWhile ?sp s = s" "dropWhile ?sp (rev s) = rev s" using assms(1) by (simp_all add: dropWhile_hd)
  then show ?thesis by (simp add: trim_ascii_def)
qed

lemma session_pair:
  assumes "list_all cookie_char t" "t \<noteq> []"
  shows "trim_ascii (cookie_pair ''admin_session'' t) = cookie_pair ''admin_session'' t"
    and "CHR '';'' \<notin> set (cookie_pair ''admin_session'' t)"
proof -
  let ?v = "sanitize_cookie_value t"
  have ne: "?v \<noteq> []" using assms by (auto simp: sanitize_cookie_value_def filter_cookie Let_def)
  have "\<not> is_space (last ?v)"
  proof (cases "CHR '' '' \<in> set t \<or> CHR '','' \<in> set t")
    case True
    then show ?thesis using assms by (auto simp: sanitize_cookie_value_def filter_cookie Let_def is_space_def)
  next
    case False
    have "last t \<in> set t" using assms by simp
    moreover have "cookie_char (last t)" using assms calculation by (auto simp: list_all_iff)
    ultimately have "\<not> is_space (last t)" using False by (auto simp: cookie_char_def is_space_def)
    then show ?thesis using False assms by (auto simp: sanitize_cookie_value_def filter_cookie Let_def)
  qed
  then show "trim_ascii (cookie_pair ''admin_session'' t) = cookie_pair ''admin_session'' t"
    using ne by (intro trim_ascii_id) (auto simp: cookie_pair_def is_space_def)
  have "CHR '';'' \<notin> set t" using assms cookie_char_bounds by (auto simp: list_all_iff)
  then show "CHR '';'' \<notin> set (cookie_pair ''admin_session'' t)"
    using assms by (auto simp: cookie_pair_def sanitize_cookie_value_def filter_cookie Let_def)
qed

lemma session_cookie_value:
  assumes "list_all cookie_char t" "t \<noteq> []" "form_values (rq_headers r) ''Cookie'' = [cookie_pair ''admin_session'' t]"
  shows "cookie_value r ''admin_session'' = Some t"
proof -
  note p = session_pair [OF assms(1,2)]
  have cut: "cut_char (CHR ''='') (cookie_pair ''admin_session'' t) = (''admin_session'', Some (sanitize_cookie_value t))"
    unfolding cookie_pair_def by (rule cut_char_eq) simp
  have tok: "trim_ascii ''admin_session'' = ''admin_session''" "is_token ''admin_session''"
    by (auto simp: trim_ascii_id is_space_def is_token_def token_char_def is_letter_def)
  have "cookie_of_part (cookie_pair ''admin_session'' t) = Some (''admin_session'', t)"
    unfolding cookie_of_part_def p(1) cut using parse_sanitized [OF assms(1)] tok by simp
  then show ?thesis
    by (simp add: cookie_value_def read_cookies_def assms(3) p(1) split_char_none [OF p(2)] map_filter_simps)
qed

text \<open>Any token: what comes back is the token without the bytes that a cookie cannot hold.\<close>

lemma session_cookie_filtered:
  assumes "form_values (rq_headers r) ''Cookie'' = [cookie_pair ''admin_session'' t]"
  shows "cookie_value r ''admin_session'' = Some (filter cookie_char t)"
proof (cases "filter cookie_char t = []")
  case True
  have p: "cookie_pair ''admin_session'' t = ''admin_session=''" using True by (simp add: cookie_pair_def sanitize_cookie_value_def)
  have "cut_char (CHR ''='') ''admin_session='' = (''admin_session'', Some [])" by simp
  moreover have "trim_ascii ''admin_session='' = ''admin_session=''" "trim_ascii ''admin_session'' = ''admin_session''" "is_token ''admin_session''"
    by (auto simp: trim_ascii_id is_space_def is_token_def token_char_def is_letter_def)
  ultimately have "cookie_of_part ''admin_session='' = Some (''admin_session'', [])"
    by (simp add: cookie_of_part_def parse_cookie_value_def)
  moreover have "split_char (CHR '';'') ''admin_session='' = [''admin_session='']" by (rule split_char_none) simp
  ultimately show ?thesis
    using \<open>trim_ascii ''admin_session='' = ''admin_session=''\<close> True by (simp add: cookie_value_def read_cookies_def assms p map_filter_simps)
next
  case False
  have "cookie_pair ''admin_session'' t = cookie_pair ''admin_session'' (filter cookie_char t)"
    by (simp add: cookie_pair_def sanitize_cookie_value_def)
  then show ?thesis using session_cookie_value [of "filter cookie_char t" r] False assms by (simp add: list_all_iff)
qed

text \<open>C36: the login opens a session exactly for the token whose digest is configured.  A later request whose only cookie is the one that
  was set is authenticated, in any later state, exactly if its header token is the configured one or the entered token without the bytes that
  a cookie cannot hold is.  So for a token of cookie bytes, and no token in a header, the session lasts exactly as long as
  the token does, and ends only when the configured token changes; a token with a semicolon, a quote, a backslash or a byte outside
  printable ASCII passes the login and its session is not authenticated, unless the rest of it is a token as well.\<close>

theorem login_session_roundtrip:
  assumes "parse_form r = Some f" and "form_value f ''token'' = t"
  shows "(\<forall>target c. handle_login r h = SeeOther target (Some c) \<longleftrightarrow>
      check_admin_token (dash_auth h) t \<and> target = ''/admin/overview'' \<and> c = cookie_pair ''admin_session'' t) \<and>
    (\<not> check_admin_token (dash_auth h) t \<longrightarrow> handle_login r h = LoginForm True) \<and>
    (\<forall>c r' h'. handle_login r h = SeeOther ''/admin/overview'' (Some c) \<longrightarrow> form_values (rq_headers r') ''Cookie'' = [c] \<longrightarrow>
       (is_authenticated h' r' \<longleftrightarrow>
          admin_token_from_request r' \<noteq> [] \<and> check_admin_token (dash_auth h') (admin_token_from_request r') \<or>
          filter cookie_char t \<noteq> [] \<and> check_admin_token (dash_auth h') (filter cookie_char t)) \<and>
       (list_all cookie_char t \<longrightarrow> t \<noteq> [] \<longrightarrow> admin_token_from_request r' = [] \<longrightarrow>
          is_authenticated h' r' = check_admin_token (dash_auth h') t))"
  using assms session_cookie_filtered [of _ t] filter_cookie [of t]
  by (auto simp: handle_login_def is_authenticated_def)

section \<open>What looking at a page changes\<close>

text \<open>A page view forgets a download that ended more than ten seconds ago, and nothing else.\<close>

definition age_job :: "dash_env \<Rightarrow> dash \<Rightarrow> dash" where
  "age_job env h =
     h\<lparr>dh_pulls := (dh_pulls h)\<lparr>ps_job := snd (current_pull_job_view (de_now env) (ps_job (dh_pulls h)))\<rparr>\<rparr>"

lemma theme_data_age: "with_theme_data env r h = (fst (with_theme_data env r h), age_job env h)"
  by (simp add: with_theme_data_def age_job_def Let_def split: prod.split)

lemma render_eq: "render env r push p h = (Rendered push p (fst (with_theme_data env r h)), age_job env h)"
  unfolding render_def by (subst theme_data_age) simp

lemma snd_render [simp]: "snd (render env r push p h) = age_job env h"
  by (simp add: render_eq)

lemma snd_pages [simp]:
  "snd (render_users_page env r a b c d h) = age_job env h"
  "snd (render_backends_page env r c d e h) = age_job env h"
  "snd (render_models_page env r c d h) = age_job env (ensure_bm env h)"
  "snd (render_overview env r h) = age_job env h"
  "snd (render_overview_partial env r h) = age_job env h"
  "snd (render_logs env r h) = age_job env h"
  "snd (render_logs_partial env r h) = age_job env h"
  by (simp_all add: render_users_page_def render_backends_page_def render_models_page_def Let_def
      render_overview_def render_overview_partial_def render_logs_def render_logs_partial_def)

text \<open>The three handlers in front of the gate depend on the form alone: credentials play no part.\<close>

lemma user_forms_snd:
  "snd (rotate_form env r n h) = snd (rotate_form env r' n h)"
  "snd (deactivate_form env r n h) = snd (deactivate_form env r' n h)"
  "snd (update_form env r f n h) = snd (update_form env r' f n h)"
  "snd (create_form env r f n h) = snd (create_form env r' f n h)"
  by (simp_all add: rotate_form_def deactivate_form_def update_form_def create_form_def Let_def
      split: sum.split prod.split option.split auth_err.split)

lemma user_action_form:
  "parse_form r = parse_form r' \<Longrightarrow> snd (handle_user_action env r h) = snd (handle_user_action env r' h)"
  using user_forms_snd [where env = env and r = r and r' = r']
  by (simp add: handle_user_action_def Let_def split: option.split)

lemma removal_form_snd: "snd (removal_form env r f n c h) = snd (removal_form env r' f n c h)"
  by (simp add: removal_form_def Let_def split: option.split prod.split)

lemma backend_action_form:
  "parse_form r = parse_form r' \<Longrightarrow> snd (handle_backend_action env r h) = snd (handle_backend_action env r' h)"
  using removal_form_snd [of env r _ _ _ h r']
  by (simp add: handle_backend_action_def Let_def split: option.split sum.split prod.split)

lemma show_model_result_snd:
  "snd (show_model_result env r res) = snd (show_model_result env r' res)"
  by (simp add: show_model_result_def split: sum.split prod.split)

lemma model_forms_snd:
  "snd (handle_backend_model_action env r f a h) = snd (handle_backend_model_action env r' f a h)"
  "snd (save_model_form env r f a n h) = snd (save_model_form env r' f a n h)"
  using show_model_result_snd [of env r _ r']
  by (simp_all add: handle_backend_model_action_def save_model_form_def Let_def
      split: sum.split prod.split option.split go_float.split)

lemma model_action_form:
  "parse_form r = parse_form r' \<Longrightarrow> snd (handle_model_action env r h) = snd (handle_model_action env r' h)"
  using model_forms_snd [where env = env and r = r and r' = r'] show_model_result_snd [of env r _ r']
  by (simp add: handle_model_action_def Let_def split: option.split)

definition open_path :: "http_request \<Rightarrow> bool" where
  "open_path r \<longleftrightarrow> rq_method r = ''POST'' \<and> admin_path (rq_path r) \<in> {''users'', ''models'', ''backends''}"

text \<open>C2: a request without credentials changes nothing and is answered with the login form, an error or a
  static file, except a POST to \<open>users\<close>, \<open>models\<close> or \<open>backends\<close>: these three act before the gate, and what
  they do is what they would do for any sender of the same form, an administrator included.\<close>

theorem anonymous_requests:
  assumes "\<not> is_authenticated h r" and "serve_dashboard env r h = (rep, h')"
  shows "(\<not> open_path r \<longrightarrow> h' = h \<and>
      (case rep of LoginForm b \<Rightarrow> True | PlainError code msg \<Rightarrow> 400 \<le> code | Asset t d \<Rightarrow> True
       | SeeOther target c \<Rightarrow> (\<exists>f. parse_form r = Some f \<and> check_admin_token (dash_auth h) (form_value f ''token''))
       | _ \<Rightarrow> False)) \<and>
    (open_path r \<longrightarrow> (\<forall>r'. rq_method r' = ''POST'' \<longrightarrow> rq_path r' = rq_path r \<longrightarrow> parse_form r' = parse_form r \<longrightarrow>
       snd (serve_dashboard env r' h) = h'))"
proof (intro conjI impI allI)
  assume "open_path r"
  fix r' assume r': "rq_method r' = ''POST''" "rq_path r' = rq_path r" "parse_form r' = parse_form r"
  have "snd (serve_dashboard env r' h) = snd (serve_dashboard env r h)"
    using \<open>open_path r\<close> r' user_action_form [of r' r env h] backend_action_form [of r' r env h] model_action_form [of r' r env h]
    by (auto simp: serve_dashboard_def open_path_def Let_def has_prefix_def)
  then show "snd (serve_dashboard env r' h) = h'" by (simp add: assms(2))
next
  assume closed: "\<not> open_path r"
  show "h' = h"
    using assms closed
    by (auto simp: serve_dashboard_def open_path_def Let_def render_models_backend_fragment_def
        handle_pull_model_start_def split: if_splits)
  show "case rep of LoginForm b \<Rightarrow> True | PlainError code msg \<Rightarrow> 400 \<le> code | Asset t d \<Rightarrow> True
       | SeeOther target c \<Rightarrow> (\<exists>f. parse_form r = Some f \<and> check_admin_token (dash_auth h) (form_value f ''token''))
       | _ \<Rightarrow> False"
    using assms closed
    by (auto simp: serve_dashboard_def open_path_def Let_def render_models_backend_fragment_def
        handle_pull_model_start_def serve_static_def handle_login_def split: if_splits option.splits)
qed

text \<open>What the open door admits: without any credentials a form to \<open>users\<close> creates a user, and the page that
  comes back shows a key with which the API authenticates as that user.\<close>

theorem anonymous_key_minted:
  assumes "rq_method r = ''POST''" "admin_path (rq_path r) = ''users''" "parse_form r = Some f"
    and "form_value f ''action'' = ''create''" "trim_space (form_value f ''user_name'') = uid" "uid \<noteq> []"
    and "build_user_config_from_form f = Inr u" "user_of_form (hash_api_key (generate_api_key env)) u = Some uc"
    and "dh_db h = Some d" "\<not> de_flts env 0 0 0" "tbl_get ur_id (api_users d) uid = None"
    and "\<forall>row \<in> set (api_users d). ur_key_hash row \<noteq> hash_api_key (generate_api_key env)"
  shows "\<exists>v fr h'. serve_dashboard env r h = (Rendered None (UsersPage v) fr, h') \<and>
    vs_key v = generate_api_key env \<and> vs_success v = UserCreated uid \<and>
    lookup_api_key no_faults (dash_auth h') (vs_key v) = Some \<lparr>ak_id = uid, ak_name = uid, ak_is_admin = False\<rparr>"
proof -
  let ?k = "generate_api_key env"
  let ?st = "set_rows (dash_auth h) d (api_users d @ [create_row uid uc])"
  have hash: "api_key_hash uc = hash_api_key ?k" using assms(8) by (auto simp: user_of_form_def)
  have tr: "trim_space uid = uid" using assms(5) by auto
  have c: "create_user (de_flts env 0 0) (dash_auth h) uid uc = (None, ?st)"
    using assms(6,9,10,11) hash by (simp add: create_user_def tr dash_auth_def)
  have srv: "serve_dashboard env r h = create_form env r f uid h"
    using assms(1-6) by (simp add: serve_dashboard_def handle_user_action_def Let_def has_prefix_def)
  have "\<exists>v fr h'. create_form env r f uid h = (Rendered None (UsersPage v) fr, h') \<and> vs_key v = ?k \<and>
      vs_success v = UserCreated uid \<and> h' = age_job env (with_auth ?st h)"
    using assms(7,8) c by (simp add: create_form_def render_users_page_def render_eq Let_def)
  then obtain v fr h' where v: "create_form env r f uid h = (Rendered None (UsersPage v) fr, h')" "vs_key v = ?k"
      "vs_success v = UserCreated uid" "h' = age_job env (with_auth ?st h)" by blast
  have "dash_auth h' = ?st" by (simp add: v(4) age_job_def with_auth_def dash_auth_def set_rows_def)
  moreover have "List.find (\<lambda>row. ur_key_hash row = hash_api_key ?k \<and> \<not> ur_disabled row) (api_users d) = None"
    using assms(12) by (auto simp: find_None_all)
  then have "lookup_api_key no_faults ?st ?k = Some \<lparr>ak_id = uid, ak_name = uid, ak_is_admin = False\<rparr>"
    by (simp add: lookup_api_key_def set_rows_def find_append hash)
  ultimately show ?thesis using srv v(1-3) by auto
qed

section \<open>Witnesses\<close>

definition sample_dash :: dash where
  "sample_dash = \<lparr>dh_cfg = sample_config\<lparr>cfg_admin_token_hash := hash_api_key ''t''\<rparr>, dh_db = Some empty_db,
     dh_manager = None, dh_tls = None, dh_models = Some [], dh_disabled = [], dh_bm = None, dh_pulls = no_pulls,
     dh_catalogs_given = Some [], dh_prices_given = Some [], dh_ops = []\<rparr>"

definition sample_request :: "string \<Rightarrow> string \<Rightarrow> http_request" where
  "sample_request path query = \<lparr>rq_method = ''POST'', rq_path = path, rq_query = query, rq_headers = [],
     rq_remote = [], rq_body = []\<rparr>"

lemma sample_no_credentials: "\<not> is_authenticated h (sample_request p q)"
  by (simp add: is_authenticated_def admin_token_from_request_def sample_request_def hdr_get_def Let_def
      bearer_token_from_header_def str_fields_def cookie_value_def read_cookies_def form_values_def map_filter_simps)

lemma sample_form: "parse_form (sample_request p ''token=t'') = Some [(''token'', [''t''])]"
  by (simp add: parse_form_def sample_request_def parse_post_form_def hdr_get_def media_type_def to_lower_def
      parse_query_def add_pair_def form_add_def gm_put_def copy_values_def form_values_def)

lemma sample_admin_token: "check_admin_token (dash_auth sample_dash) ''t''"
  using hash_api_key_not_Nil [of "''t''"]
  by (simp add: check_admin_token_def dash_auth_def sample_dash_def hash_api_key_def hex_decode_encode)

text \<open>The login, the page that the cookie then opens, and the same request after the configured token has gone.\<close>

definition cookie_request :: http_request where
  "cookie_request = (sample_request ''/admin/overview'' [])\<lparr>rq_headers := [(''Cookie'', [''admin_session=t''])]\<rparr>"

theorem login_session_roundtrip_witness:
  "handle_login (sample_request ''/admin/login'' ''token=t'') sample_dash = SeeOther ''/admin/overview'' (Some ''admin_session=t'') \<and>
   is_authenticated sample_dash cookie_request \<and>
   \<not> is_authenticated (sample_dash\<lparr>dh_cfg := (dh_cfg sample_dash)\<lparr>cfg_admin_token_hash := []\<rparr>\<rparr>) cookie_request"
proof -
  have v: "form_value [(''token'', [''t''])] ''token'' = ''t''" by (simp add: form_value_def gm_get_Cons)
  note R = login_session_roundtrip [OF sample_form v]
  have c: "cookie_pair ''admin_session'' ''t'' = ''admin_session=t''" "list_all cookie_char ''t''"
    by (simp_all add: cookie_pair_def sanitize_cookie_value_def cookie_char_def)
  have l: "handle_login (sample_request ''/admin/login'' ''token=t'') sample_dash = SeeOther ''/admin/overview'' (Some ''admin_session=t'')"
    using R [THEN conjunct1, rule_format] sample_admin_token c(1) by metis
  have q: "form_values (rq_headers cookie_request) ''Cookie'' = [''admin_session=t'']" "admin_token_from_request cookie_request = []"
    by (simp_all add: cookie_request_def sample_request_def form_values_def gm_get_def admin_token_from_request_def hdr_get_def
        bearer_token_from_header_def str_fields_def Let_def canonical_key_def upper_char_def lower_char_def)
  have S: "is_authenticated h' cookie_request = check_admin_token (dash_auth h') ''t''" for h'
    using R [THEN conjunct2, THEN conjunct2] l q c(2) by blast
  show ?thesis using l sample_admin_token by (simp add: S check_admin_token_def dash_auth_def)
qed

theorem anonymous_requests_witness:
  "\<forall>env. serve_dashboard env (sample_request ''/admin/logs'' []) sample_dash = (LoginForm True, sample_dash)"
proof
  fix env
  let ?r = "sample_request ''/admin/logs'' []"
  obtain rep h' where s: "serve_dashboard env ?r sample_dash = (rep, h')" by (cases "serve_dashboard env ?r sample_dash")
  have p: "admin_path (rq_path ?r) = ''logs''"
    by (simp add: sample_request_def admin_path_def trim_prefix_def has_prefix_def Let_def)
  have "rep = LoginForm True"
    using s p sample_no_credentials [of sample_dash "''/admin/logs''" "[]"]
    by (simp add: serve_dashboard_def Let_def has_prefix_def)
  then show "serve_dashboard env ?r sample_dash = (LoginForm True, sample_dash)"
    using s anonymous_requests [OF sample_no_credentials s] p by (simp add: open_path_def)
qed

end
