(* ===== verification/DashAccess.thy ===== *)
theory DashAccess
  imports DashProps ModelTables
begin

text \<open>
  The models of the dashboard: what the access form does to the users, and that after a successful
  change the database, the dashboard, the configuration and the resolver agree.
\<close>

section \<open>Access of one user\<close>

lemma contains_iff: "contains_csv_value xs m \<longleftrightarrow> (\<exists>i \<in> set xs. trim_space i = m)"
  by (simp add: contains_csv_value_def list_ex_iff)

lemma contains_remove: "contains_csv_value (remove_csv_value xs n) m \<longleftrightarrow> m \<noteq> n \<and> contains_csv_value xs m"
  by (auto simp: contains_iff remove_csv_value_def)

lemma contains_sort [simp]: "contains_csv_value (sort xs) m = contains_csv_value xs m"
  by (simp add: contains_iff)

lemma contains_append: "contains_csv_value (xs @ [n]) m \<longleftrightarrow> contains_csv_value xs m \<or> trim_space n = m"
  by (auto simp: contains_iff)

lemma accessible_iff:
  "model_accessible_for_user uc m \<longleftrightarrow>
     \<not> contains_csv_value (model_deny uc) m \<and> (model_allow uc = [] \<or> contains_csv_value (model_allow uc) m)"
  by (simp add: model_accessible_for_user_def)

text \<open>The allow list of a user names nothing but the model.\<close>

definition only_allows :: "user_config \<Rightarrow> string \<Rightarrow> bool" where
  "only_allows uc n \<longleftrightarrow> model_allow uc \<noteq> [] \<and> (\<forall>i \<in> set (model_allow uc). trim_space i = n)"

lemma sort_Nil_iff [simp]: "sort xs = [] \<longleftrightarrow> xs = []"
  by (metis length_0_conv length_sort)

lemma remove_Nil_iff: "remove_csv_value xs n = [] \<longleftrightarrow> (\<forall>i \<in> set xs. trim_space i = n)"
  by (auto simp: remove_csv_value_def filter_empty_conv)

lemma grant_access:
  assumes "trim_space n = n"
  shows "model_accessible_for_user (grant_model n uc) m \<longleftrightarrow> m = n \<or> model_accessible_for_user uc m"
  using assms by (cases "model_allow uc = []") (auto simp: accessible_iff grant_model_def contains_remove contains_append)

lemma withhold_access:
  assumes "trim_space n = n"
  shows "model_accessible_for_user (withhold_model n uc) m \<longleftrightarrow>
    m \<noteq> n \<and> (model_accessible_for_user uc m \<or> only_allows uc n \<and> \<not> contains_csv_value (model_deny uc) m)"
  using assms by (auto simp: accessible_iff withhold_model_def contains_remove contains_append remove_Nil_iff only_allows_def)

section \<open>The loop over the users\<close>

definition active_rows :: "user_row list \<Rightarrow> user_row list" where
  "active_rows rows = filter (\<lambda>r. \<not> ur_disabled r) rows"

text \<open>Identifiers as \<open>CreateUser\<close> stores them.\<close>

definition ids_ok :: "user_row list \<Rightarrow> bool" where
  "ids_ok rows \<longleftrightarrow> tbl_ok ur_id rows \<and> (\<forall>r \<in> set rows. trim_space (ur_id r) = ur_id r \<and> ur_id r \<noteq> [])"

definition access_row :: "string \<Rightarrow> bool \<Rightarrow> string set \<Rightarrow> user_row \<Rightarrow> user_row" where
  "access_row name limited selected r =
     (let uc = row_user_config r in
      update_row (if limited \<and> ur_id r \<notin> selected then withhold_model name uc else grant_model name uc) r)"

lemma keep_hash_access:
  "keep_hash (row_user_config r) (withhold_model n (row_user_config r)) = withhold_model n (row_user_config r)"
  "keep_hash (row_user_config r) (grant_model n (row_user_config r)) = grant_model n (row_user_config r)"
  by (auto simp: keep_hash_def withhold_model_def grant_model_def row_user_config_def)

lemma find_active:
  assumes "tbl_ok ur_id rows" "r \<in> set rows" "\<not> ur_disabled r"
  shows "List.find (\<lambda>x. ur_id x = ur_id r \<and> \<not> ur_disabled x) rows = Some r"
proof (rule find_unique)
  fix y assume "y \<in> set rows" "ur_id y = ur_id r \<and> \<not> ur_disabled y"
  then show "y = r" using assms by (auto simp: tbl_ok_def distinct_map dest: inj_onD)
qed (use assms in auto)

lemma update_user_row:
  assumes "as_db st = Some d" "ids_ok (api_users d)" "r \<in> set (api_users d)" "\<not> ur_disabled r"
    and "keep_hash (row_user_config r) uc = uc"
  shows "update_user no_faults st (ur_id r) uc =
    (None, set_rows st d (tbl_update (\<lambda>x. ur_id x = ur_id r) (update_row uc) (api_users d)))"
proof -
  have id: "trim_space (ur_id r) = ur_id r" "ur_id r \<noteq> []" and t: "tbl_ok ur_id (api_users d)"
    using assms(2,3) by (auto simp: ids_ok_def)
  have "get_user_config no_faults st (ur_id r) = Some (row_user_config r)"
    using find_active [OF t assms(3,4)] by (simp add: get_user_config_def assms(1))
  moreover have "tbl_affected (\<lambda>x. ur_id x = ur_id r) (api_users d) \<noteq> 0"
    using assms(3) by (auto simp: tbl_affected_0)
  ultimately show ?thesis using id assms(1,5) by (simp add: update_user_def Let_def)
qed

lemma update_row_disabled [simp]: "ur_disabled (update_row uc r) = ur_disabled r"
  by (simp add: update_row_def marshal_user_fields_def)

text \<open>What the loop leaves when it visits the active rows \<open>rs\<close> of the table.\<close>

lemma access_loop_rows:
  assumes "as_db st = Some d" "ids_ok (api_users d)" "set rs \<subseteq> set (active_rows (api_users d))" "distinct (map ur_id rs)"
  shows "access_loop (\<lambda>_. no_faults) name limited selected (map (\<lambda>r. (ur_id r, row_user_config r)) rs) st =
    (None, set_rows st d (map (\<lambda>r. if r \<in> set rs then access_row name limited selected r else r) (api_users d)))"
  using assms
proof (induction rs arbitrary: st d)
  case Nil
  then show ?case by (simp add: set_rows_self)
next
  case (Cons r rs)
  define uc where "uc = (if limited \<and> ur_id r \<notin> selected then withhold_model name (row_user_config r)
     else grant_model name (row_user_config r))"
  define rows where "rows = tbl_update (\<lambda>x. ur_id x = ur_id r) (update_row uc) (api_users d)"
  let ?d = "d\<lparr>api_users := rows\<rparr>"
  let ?f = "access_row name limited selected"
  have uc': "(if (if limited then ur_id r \<in> selected else True) then grant_model name (row_user_config r)
      else withhold_model name (row_user_config r)) = uc" by (simp add: uc_def)
  have f: "?f r = update_row uc r" by (simp add: access_row_def uc_def Let_def)
  have r: "r \<in> set (api_users d)" "\<not> ur_disabled r" using Cons.prems(3) by (auto simp: active_rows_def)
  have t: "tbl_ok ur_id (api_users d)" using Cons.prems(2) by (simp add: ids_ok_def)
  have same: "x = r" if "x \<in> set (api_users d)" "ur_id x = ur_id r" for x
    using that r(1) t by (auto simp: tbl_ok_def distinct_map dest: inj_onD)
  have u: "update_user no_faults st (ur_id r) uc = (None, set_rows st d rows)"
    unfolding rows_def by (rule update_user_row [OF Cons.prems(1,2) r]) (simp add: keep_hash_access uc_def)
  have rows: "rows = map (\<lambda>x. if x = r then ?f r else x) (api_users d)"
    using same by (auto simp: tbl_update_def rows_def f)
  have fresh: "ur_id r \<notin> ur_id ` set rs" using Cons.prems(4) by simp
  have new: "ur_id x \<noteq> ur_id r" if "x \<in> set rs" for x using imageI [OF that, of ur_id] fresh by metis
  have others: "x \<noteq> r" "x \<in> set (api_users d)" "\<not> ur_disabled x" if "x \<in> set rs" for x
    using that new [OF that] Cons.prems(3) by (auto simp: active_rows_def)
  have i1: "ids_ok (api_users ?d)"
    using Cons.prems(2) by (auto simp: ids_ok_def rows_def intro!: tbl_ok_update) (auto simp: tbl_update_def)
  have i2: "set rs \<subseteq> set (active_rows (api_users ?d))"
    using others by (auto simp: active_rows_def rows)
  have i3: "as_db (set_rows st d rows) = Some ?d" by (simp add: set_rows_def)
  have au: "api_users ?d = rows" by simp
  have i4: "distinct (map ur_id rs)" using Cons.prems(4) by simp
  have ih: "access_loop (\<lambda>_. no_faults) name limited selected (map (\<lambda>r. (ur_id r, row_user_config r)) rs) (set_rows st d rows) =
      (None, set_rows (set_rows st d rows) ?d (map (\<lambda>r. if r \<in> set rs then ?f r else r) rows))"
    using Cons.IH [OF i3 i1 i2 i4] unfolding au .
  have twice: "set_rows (set_rows st d rows) ?d zs = set_rows st d zs" for zs by (simp add: set_rows_def)
  have "?f r \<notin> set rs" using new [of "?f r"] by (auto simp: f)
  then have all: "map (\<lambda>r. if r \<in> set rs then ?f r else r) rows =
      map (\<lambda>x. if x \<in> set (r # rs) then ?f x else x) (api_users d)"
    unfolding rows using others(1) by auto
  show ?case unfolding list.map access_loop.simps Let_def uc' u prod.case option.case ih by (simp add: twice all)
qed

section \<open>The access form\<close>

lemma snapshot_rows:
  assumes "dh_db h = Some d" "tbl_ok ur_id (api_users d)"
  shows "users_snapshot no_faults h = map (\<lambda>r. (ur_id r, row_user_config r)) (sort_key ur_id (active_rows (api_users d)))"
proof -
  let ?rs = "sort_key ur_id (active_rows (api_users d))"
  have "distinct (map ur_id (active_rows (api_users d)))"
    using assms(2) by (simp add: tbl_ok_def active_rows_def distinct_map_filter)
  then have dist: "distinct (map ur_id ?rs)" by (metis distinct_map distinct_sort set_sort)
  have "fold (\<lambda>r. gm_put (ur_id r) (row_user_config r)) rs acc = acc @ map (\<lambda>r. (ur_id r, row_user_config r)) rs"
    if "distinct (map ur_id rs)" "fst ` set acc \<inter> ur_id ` set rs = {}" for rs acc
    using that
  proof (induction rs arbitrary: acc)
    case (Cons r rs)
    have "ur_id r \<notin> fst ` set acc" using Cons.prems(2) by auto
    then show ?case using Cons.IH [of "acc @ [(ur_id r, row_user_config r)]"] Cons.prems by (auto simp: gm_put_new)
  qed simp
  from this [OF dist, of "[]"] show ?thesis
    by (simp add: users_snapshot_def list_users_def dash_auth_def assms(1) active_rows_def)
qed

lemma row_user_config_lists [simp]:
  "model_allow (row_user_config (update_row uc r)) = model_allow uc"
  "model_deny (row_user_config (update_row uc r)) = model_deny uc"
  by (simp_all add: row_user_config_def update_row_def marshal_user_fields_def)

lemma accessible_lists:
  "model_allow uc = model_allow uc' \<Longrightarrow> model_deny uc = model_deny uc' \<Longrightarrow>
   model_accessible_for_user uc m = model_accessible_for_user uc' m"
  by (simp add: model_accessible_for_user_def)

lemma access_row_access:
  assumes "trim_space name = name"
  shows "model_accessible_for_user (row_user_config (access_row name limited selected r)) m \<longleftrightarrow>
    (if m = name then \<not> limited \<or> ur_id r \<in> selected
     else model_accessible_for_user (row_user_config r) m \<or>
       limited \<and> ur_id r \<notin> selected \<and> only_allows (row_user_config r) name \<and>
       \<not> contains_csv_value (model_deny (row_user_config r)) m)"
proof -
  define uc where "uc = (if limited \<and> ur_id r \<notin> selected then withhold_model name (row_user_config r)
     else grant_model name (row_user_config r))"
  have "model_accessible_for_user (row_user_config (access_row name limited selected r)) m = model_accessible_for_user uc m"
    by (rule accessible_lists) (simp_all add: access_row_def uc_def Let_def)
  then show ?thesis
    by (cases "limited \<and> ur_id r \<notin> selected") (auto simp: uc_def grant_access [OF assms] withhold_access [OF assms])
qed

lemma changed_hash [simp]:
  "api_key_hash (withhold_model name uc) = api_key_hash uc" "api_key_hash (grant_model name uc) = api_key_hash uc"
  by (simp_all add: withhold_model_def grant_model_def)

lemma row_user_config_hash [simp]: "api_key_hash (row_user_config r) = ur_key_hash r"
  by (simp add: row_user_config_def)

lemma update_row_hash [simp]: "ur_key_hash (update_row uc r) = api_key_hash uc"
  by (simp add: update_row_def marshal_user_fields_def)

lemma access_row_keeps [simp]:
  "ur_id (access_row name limited selected r) = ur_id r"
  "ur_disabled (access_row name limited selected r) = ur_disabled r"
  "ur_key_hash (access_row name limited selected r) = ur_key_hash r"
  by (simp_all add: access_row_def Let_def)

text \<open>The rows after the form, and the configuration that the proxy reads from them.\<close>

lemma access_form_rows:
  assumes "dh_db h = Some d" and "ids_ok (api_users d)"
    and "apply_model_access (\<lambda>_. no_faults) name limited selected h = (e, h')"
  shows "e = None \<and> (\<forall>r \<in> set (api_users d). \<not> ur_disabled r \<longrightarrow>
    get_user_config no_faults (dash_auth h') (ur_id r) = Some (row_user_config (access_row name limited selected r)))"
proof -
  let ?rs = "sort_key ur_id (active_rows (api_users d))"
  let ?f = "access_row name limited selected"
  let ?rows = "map (\<lambda>r. if r \<in> set ?rs then ?f r else r) (api_users d)"
  have t: "tbl_ok ur_id (api_users d)" using assms(2) by (simp add: ids_ok_def)
  have "distinct (map ur_id (active_rows (api_users d)))"
    using t by (simp add: tbl_ok_def active_rows_def distinct_map_filter)
  then have dist: "distinct (map ur_id ?rs)" by (metis distinct_map distinct_sort set_sort)
  have db: "as_db (dash_auth h) = Some d" by (simp add: dash_auth_def assms(1))
  have loop: "access_loop (\<lambda>_. no_faults) name limited selected (users_snapshot no_faults h) (dash_auth h)
      = (None, set_rows (dash_auth h) d ?rows)"
    unfolding snapshot_rows [OF assms(1) t] by (rule access_loop_rows [OF db assms(2) _ dist]) simp
  have h': "e = None" "dash_auth h' = set_rows (dash_auth h) d ?rows"
    using assms(3) unfolding apply_model_access_def loop by (auto simp: dash_auth_def with_auth_def)
  have "get_user_config no_faults (dash_auth h') (ur_id r) = Some (row_user_config (?f r))"
    if r: "r \<in> set (api_users d)" "\<not> ur_disabled r" for r
  proof -
    have ids: "map ur_id ?rows = map ur_id (api_users d)" by simp
    have "tbl_ok ur_id ?rows" using t unfolding tbl_ok_def ids .
    moreover have "?f r \<in> set ?rows" using r by (auto simp: active_rows_def intro!: image_eqI [of _ _ r])
    ultimately have "List.find (\<lambda>x. ur_id x = ur_id r \<and> \<not> ur_disabled x) ?rows = Some (?f r)"
      using find_active [of ?rows "?f r"] r(2) by simp
    then show ?thesis unfolding h'(2) by (simp add: get_user_config_def set_rows_def)
  qed
  then show ?thesis using h'(1) by blast
qed

text \<open>C14: the access form, when no statement fails: afterwards exactly the selected users (or all, when
  access is not limited) may use the model, no key changes, and the access of every user to every other
  model is what it was, with one exception: a user whose allow list named nothing but this model is left
  with an empty allow list, and may from then on use every model that is not denied.\<close>

theorem access_form_exact:
  assumes "dh_db h = Some d" and "ids_ok (api_users d)" and "trim_space name = name"
    and "apply_model_access (\<lambda>_. no_faults) name limited selected h = (e, h')"
  shows "e = None \<and> (\<forall>r \<in> set (api_users d). \<not> ur_disabled r \<longrightarrow>
    (\<exists>uc. get_user_config no_faults (dash_auth h') (ur_id r) = Some uc \<and> api_key_hash uc = ur_key_hash r \<and>
      (\<forall>m. model_accessible_for_user uc m \<longleftrightarrow>
        (if m = name then \<not> limited \<or> ur_id r \<in> selected
         else model_accessible_for_user (row_user_config r) m \<or>
           limited \<and> ur_id r \<notin> selected \<and> only_allows (row_user_config r) name \<and>
           \<not> contains_csv_value (model_deny (row_user_config r)) m))))"
proof -
  note rows = access_form_rows [OF assms(1,2,4)]
  have "\<exists>uc. get_user_config no_faults (dash_auth h') (ur_id r) = Some uc \<and> api_key_hash uc = ur_key_hash r \<and>
      (\<forall>m. model_accessible_for_user uc m \<longleftrightarrow>
        (if m = name then \<not> limited \<or> ur_id r \<in> selected
         else model_accessible_for_user (row_user_config r) m \<or>
           limited \<and> ur_id r \<notin> selected \<and> only_allows (row_user_config r) name \<and>
           \<not> contains_csv_value (model_deny (row_user_config r)) m))"
    if r: "r \<in> set (api_users d)" "\<not> ur_disabled r" for r
    using rows r by (intro exI [of _ "row_user_config (access_row name limited selected r)"] conjI allI access_row_access [OF assms(3)])
      simp_all
  then show ?thesis using rows by blast
qed

definition access_sample :: dash where
  "access_sample = sample_dash\<lparr>dh_db := Some (empty_db\<lparr>api_users := [create_row ''bob'' sample_user]\<rparr>)\<rparr>"

text \<open>Bob, who was allowed \<open>m\<close> only, loses \<open>m\<close> and gains every other model.\<close>

theorem access_form_exact_witness:
  "\<exists>e h' uc. apply_model_access (\<lambda>_. no_faults) ''m'' True {} access_sample = (e, h') \<and> e = None \<and>
     get_user_config no_faults (dash_auth h') ''bob'' = Some uc \<and>
     \<not> model_accessible_for_user uc ''m'' \<and> model_accessible_for_user uc ''x''"
proof -
  obtain e h' where a: "apply_model_access (\<lambda>_. no_faults) ''m'' True {} access_sample = (e, h')" by (metis surj_pair)
  have t: "trim_space ''m'' = ''m''" by (rule trim_space_tight) (simp add: tight_def is_space_def)
  have r: "row_user_config (create_row ''bob'' sample_user) = stored_config sample_user"
    by (rule row_of_create) (simp add: sample_user_def)
  have o: "only_allows (stored_config sample_user) ''m''" "\<not> contains_csv_value (model_deny (stored_config sample_user)) ''x''"
    by (simp_all add: only_allows_def stored_config_def sample_user_def t contains_iff)
  have ids: "ids_ok [create_row ''bob'' sample_user]" by (simp add: ids_ok_def tbl_ok_def)
  have db: "dh_db access_sample = Some (empty_db\<lparr>api_users := [create_row ''bob'' sample_user]\<rparr>)"
    by (simp add: access_sample_def)
  have "create_row ''bob'' sample_user \<in> set (api_users (empty_db\<lparr>api_users := [create_row ''bob'' sample_user]\<rparr>))"
      "\<not> ur_disabled (create_row ''bob'' sample_user)" "ids_ok (api_users (empty_db\<lparr>api_users := [create_row ''bob'' sample_user]\<rparr>))"
      "ur_id (create_row ''bob'' sample_user) = ''bob''"
    using ids by (simp_all add: create_row_def split: prod.splits)
  note row = this
  note all = access_form_exact [OF db row(3) t a]
  obtain uc where "get_user_config no_faults (dash_auth h') ''bob'' = Some uc"
      and m: "model_accessible_for_user uc ''m'' \<longleftrightarrow> \<not> True \<or> ''bob'' \<in> {}"
      and x: "model_accessible_for_user uc ''x'' \<longleftrightarrow> model_accessible_for_user (stored_config sample_user) ''x'' \<or>
        True \<and> ''bob'' \<notin> {} \<and> only_allows (stored_config sample_user) ''m'' \<and>
        \<not> contains_csv_value (model_deny (stored_config sample_user)) ''x''"
    using bspec [OF all [THEN conjunct2] row(1), THEN mp, OF row(2)] unfolding row(4) r by (auto dest: spec [of _ "''m''"] spec [of _ "''x''"])
  then show ?thesis using all o a by blast
qed

text \<open>The form compares names as they are written, the resolver compares normalised names: a deny entry with
  the suffix \<open>:latest\<close> survives a grant, and the model that the page calls accessible stays denied.\<close>

theorem granted_model_still_denied:
  "\<exists>uc. model_accessible_for_user (grant_model ''m'' uc) ''m'' \<and>
     (\<forall>reg. registry_get reg ''m'' \<noteq> None \<longrightarrow>
        resolve_model ''m'' reg (from_user_config (Some (grant_model ''m'' uc))) = Inl (model_denied ''m''))"
proof -
  let ?uc = "\<lparr>api_key_hash = [], rate_limit = None, model_allow = [], model_deny = [''m:latest''], aliases = []\<rparr>"
  have t: "trim_space ''m'' = ''m''" "trim_space ''m:latest'' = ''m:latest''"
    by (simp_all add: trim_space_tight tight_def is_space_def)
  have n: "normalize_model_name ''m'' = ''m''" "normalize_model_name ''m:latest'' = ''m''"
    by (simp_all add: normalize_model_name_def to_lower_def lower_char_def Let_def t latest_suffix_def has_suffix_def trim_suffix_def)
  have g: "grant_model ''m'' ?uc = ?uc" by (simp add: grant_model_def remove_csv_value_def t)
  have acc: "model_accessible_for_user ?uc ''m''"
    by (simp add: model_accessible_for_user_def contains_csv_value_def t)
  have res: "resolve_model ''m'' reg (from_user_config (Some ?uc)) = Inl (model_denied ''m'')"
    if "registry_get reg ''m'' \<noteq> None" for reg
    using that by (auto simp: resolve_model_def resolved_name_def from_user_config_def Let_def n split: option.split)
  show ?thesis by (intro exI [of _ ?uc] conjI allI impI) (simp_all only: g acc res not_False_eq_True)
qed

end
