(* ===== verification/DashModels.thy ===== *)
theory DashModels
  imports DashAccess
begin

text \<open>
  After a model was created, updated or deleted with success, whatever statements were retried or
  failed before, the database, the dashboard's catalog, the configuration and what the resolver and the
  proxy were given say the same.
\<close>

lemma gm_ok_fold_put: "gm_ok m \<Longrightarrow> gm_ok (fold (\<lambda>x. gm_put (f x) (g x)) xs m)"
  by (induction xs arbitrary: m) auto

lemma clone_id: "gm_ok c \<Longrightarrow> clone_config_catalog c = c"
proof -
  assume ok: "gm_ok c"
  have ref: "\<lparr>ref_backend = ref_backend r, ref_weight = ref_weight r\<rparr> = r" for r :: model_backend_ref by (cases r) simp
  have ent: "\<lparr>me_name = me_name e, me_backends = me_backends e\<rparr> = e" for e :: model_entry by (cases e) simp
  have "clone_config_catalog c = fold (\<lambda>(k, v). gm_put k v) c []"
    by (simp add: clone_config_catalog_def ref ent)
  then show ?thesis using fold_gm_put [of "[]" c] ok by (simp add: gm_ok_def)
qed

lemma loaded_gm_ok:
  "load_active_catalog flt d = Inr c \<Longrightarrow> gm_ok c"
  "load_model_pricing flt d = Inr p \<Longrightarrow> gm_ok p"
  by (auto simp: load_active_catalog_def load_model_pricing_def gm_ok_fold_add_row gm_ok_fold_put split: if_splits)

lemma loaded_without_faults:
  "load_active_catalog flt d = Inr c \<Longrightarrow> load_active_catalog no_faults d = Inr c"
  "load_model_pricing flt d = Inr p \<Longrightarrow> load_model_pricing no_faults d = Inr p"
  by (auto simp: load_active_catalog_def load_model_pricing_def split: if_splits)

text \<open>Everything that knows the models says the same as the tables of \<open>d\<close>.\<close>

definition agrees :: "dash \<Rightarrow> dash \<Rightarrow> db \<Rightarrow> catalog \<Rightarrow> bool" where
  "agrees h h' d c \<longleftrightarrow>
     dh_db h' = Some d \<and> load_active_catalog no_faults d = Inr c \<and>
     dh_models h' = Some c \<and> cfg_models (dh_cfg h') = c \<and>
     load_model_pricing no_faults d = Inr (pricing_models (cfg_pricing (dh_cfg h'))) \<and>
     dh_catalogs_given h' = map_option (\<lambda>cs. c # cs) (dh_catalogs_given h) \<and>
     dh_prices_given h' = map_option (\<lambda>ps. build_usage_pricing_config (cfg_pricing (dh_cfg h')) # ps) (dh_prices_given h)"

lemma reload_agrees:
  assumes "reload_model_runtime_from_store flts h = (None, h')" "dh_db h = Some d"
  shows "\<exists>c. agrees h h' d c"
proof -
  obtain c p where l: "load_active_catalog (flts 0) d = Inr c" "load_model_pricing (flts 1) d = Inr p"
      "h' = refresh_runtime c (put_prices (\<lambda>_. p) (put_models (\<lambda>_. clone_config_catalog c) (set_model_catalog (Some c) h)))"
    using assms by (auto simp: reload_model_runtime_from_store_def Let_def split: sum.splits)
  have "agrees h h' d c"
    using loaded_without_faults(1) [OF l(1)] loaded_without_faults(2) [OF l(2)] assms(2)
    by (simp add: agrees_def l(3) refresh_runtime_def put_prices_def put_models_def set_model_catalog_def
        clone_id [OF loaded_gm_ok(1) [OF l(1)]])
  then show ?thesis ..
qed

lemma settle_agrees:
  assumes "settle_model flts action name e n1 n2 n3 h = (None, h')" "dh_db h = Some d"
  shows "\<exists>d1 d2 c. (if action = DeleteAction then deactivate_model (flts 1 0) name d else upsert_model (flts 1 0) name e d) = (None, d1) \<and>
    replace_model_pricing (flts 2 0) (pricing_models (cfg_pricing (dh_cfg h))) d1 = (None, d2) \<and> agrees h h' d2 c"
proof -
  obtain h1 where p1: "persist_model_mutation (flts 1 0) action name e h = (None, h1)" and
      r: "(case persist_model_pricing (flts 2 0) h1 of
             (Some x, h2) \<Rightarrow> (Some (n2 x), h2)
           | (None, h2) \<Rightarrow>
               (case reload_model_runtime_from_store (flts 3) h2 of
                  (Some x, h3) \<Rightarrow> (Some (n3 x), h3)
                | (None, h3) \<Rightarrow> (None, h3))) = (None, h')"
    using assms(1) unfolding settle_model_def by (auto split: prod.splits option.splits)
  obtain d1 where d1: "(if action = DeleteAction then deactivate_model (flts 1 0) name d else upsert_model (flts 1 0) name e d) = (None, d1)"
      "h1 = h\<lparr>dh_db := Some d1\<rparr>"
    using p1 assms(2) unfolding persist_model_mutation_def by (auto split: prod.splits if_splits)
  obtain h2 where p2: "persist_model_pricing (flts 2 0) h1 = (None, h2)" and r2: "reload_model_runtime_from_store (flts 3) h2 = (None, h')"
    using r by (auto split: prod.splits option.splits)
  obtain d2 where d2: "replace_model_pricing (flts 2 0) (pricing_models (cfg_pricing (dh_cfg h))) d1 = (None, d2)" "h2 = h1\<lparr>dh_db := Some d2\<rparr>"
    using p2 unfolding persist_model_pricing_def d1(2) by (auto split: prod.splits)
  obtain c where "agrees h2 h' d2 c" using reload_agrees [OF r2] d2(2) by auto
  then have "agrees h h' d2 c" by (simp add: agrees_def d2(2) d1(2))
  then show ?thesis using d1(1) d2(1) by blast
qed

section \<open>What the loops over the users leave alone\<close>

text \<open>Two databases that differ in the users only.\<close>

definition same_models :: "db \<Rightarrow> db \<Rightarrow> bool" where
  "same_models d d' \<longleftrightarrow> d' = d\<lparr>api_users := api_users d'\<rparr>"

lemma same_models_trans: "same_models a b \<Longrightarrow> same_models b c \<Longrightarrow> same_models a c"
  by (simp add: same_models_def) (metis db.surjective db.update_convs(1))

lemma same_models_refl [simp]: "same_models d d"
  by (simp add: same_models_def)

text \<open>An update of a user keeps the models and everything of the configuration but the users.\<close>

definition users_only :: "auth_store \<Rightarrow> auth_store \<Rightarrow> bool" where
  "users_only st st' \<longleftrightarrow> as_cfg st' = (as_cfg st)\<lparr>cfg_users := cfg_users (as_cfg st')\<rparr> \<and>
     (case as_db st of None \<Rightarrow> as_db st' = None | Some d \<Rightarrow> \<exists>d'. as_db st' = Some d' \<and> same_models d d') \<and>
     (auth_ok st \<longrightarrow> auth_ok st')"

lemma users_only_refl [simp]: "users_only st st"
  by (auto simp: users_only_def split: option.split)

lemma users_only_trans: "users_only a b \<Longrightarrow> users_only b c \<Longrightarrow> users_only a c"
  by (auto simp: users_only_def split: option.splits intro: same_models_trans)
    (metis config.surjective config.update_convs(6))+

lemma update_user_only: "update_user flt st uid uc = (e, st') \<Longrightarrow> users_only st st'"
proof -
  assume u: "update_user flt st uid uc = (e, st')"
  have "auth_ok st \<Longrightarrow> auth_ok st'" using auth_ok_update [of st flt uid uc] u by simp
  then show ?thesis using u
    by (auto simp: users_only_def update_user_def auth_defs same_models_def split: if_splits option.splits)
qed

lemma access_loop_only: "access_loop flts name limited selected us st = (e, st') \<Longrightarrow> users_only st st'"
proof (induction us arbitrary: flts st)
  case (Cons u us)
  obtain uid uc where u: "u = (uid, uc)" by (cases u)
  obtain x st1 where s: "update_user (flts 0) st uid (if if limited then uid \<in> selected else True then grant_model name uc else withhold_model name uc) = (x, st1)"
    by (metis surj_pair)
  note only = update_user_only [OF s]
  show ?case using Cons.prems Cons.IH only unfolding u
    by (cases x) (auto simp: s Let_def intro: users_only_trans)
qed simp

lemma forget_loop_only: "forget_loop flts name us st = (e, st') \<Longrightarrow> users_only st st'"
proof (induction us arbitrary: flts st)
  case (Cons u us)
  obtain uid uc where u: "u = (uid, uc)" by (cases u)
  obtain x st1 where s: "update_user (flts 0) st uid (forget_model name uc) = (x, st1)" by (metis surj_pair)
  note only = update_user_only [OF s]
  show ?case using Cons.prems Cons.IH only unfolding u
    by (cases x) (auto simp: s intro: users_only_trans split: if_splits)
qed simp

section \<open>A successful change\<close>

lemma load_same:
  assumes "models_t d' = models_t d" "model_backends_t d' = model_backends_t d"
  shows "load_active_catalog no_faults d' = load_active_catalog no_faults d"
  unfolding load_active_catalog_def active_refs_def assms ..

lemma same_models_load:
  assumes "same_models d d'"
  shows "load_active_catalog no_faults d' = load_active_catalog no_faults d"
proof (rule load_same)
  show "models_t d' = models_t d" "model_backends_t d' = model_backends_t d"
    using assms unfolding same_models_def by (metis db.select_convs(2,3) db.surjective db.update_convs(1))+
qed

lemma upsert_known: "upsert_model flt name e d = (None, d') \<Longrightarrow> trim_space name \<in> mr_name ` set (models_t d')"
proof -
  assume u: "upsert_model flt name e d = (None, d')"
  then obtain r f where "models_t d' = tbl_upsert mr_name r f (models_t d)" "mr_name r = trim_space name" "\<And>x. mr_name (f x) = mr_name x"
    using upsert_model_db [OF u] by (metis (no_types, lifting) db.ext_inject db.surjective db.update_convs(2,3) model_row.select_convs(1) model_row.update_convs(2,3) model_row.surjective)
  then show ?thesis using tbl_get_upsert [of mr_name r f "models_t d" "trim_space name"]
    by (metis option.distinct(1) tbl_get_None)
qed

text \<open>The two stages behind a successful change of the tables.\<close>

lemma stored_prices:
  assumes "replace_model_pricing flt p d1 = (None, d2)" "gm_ok p" "load_model_pricing no_faults d2 = Inr q"
  shows "gm_get q n = (if n \<in> mr_name ` set (models_t d1) then gm_get p n else None)"
proof -
  note rows = replace_pricing_rows [OF assms(1,2)]
  have eta: "\<lparr>input_per_1m = input_per_1m x, output_per_1m = output_per_1m x\<rparr> = x" for x :: model_pricing by (cases x) simp
  have "gm_get q n = Some x \<longleftrightarrow> n \<in> mr_name ` set (models_t d1) \<and> gm_get p n = Some x" for x
    using load_pricing_get [OF assms(3) rows(2), of n x] rows(3) [of "\<lparr>pr_model = n, pr_input = input_per_1m x, pr_output = output_per_1m x\<rparr>"]
    by (simp add: eta)
  then show ?thesis by (cases "n \<in> mr_name ` set (models_t d1)") (metis not_None_eq)+
qed

lemma replaced_catalog:
  assumes "replace_model_pricing flt p d1 = (None, d2)" "gm_ok p"
  shows "load_active_catalog no_faults d2 = load_active_catalog no_faults d1"
  by (subst replace_pricing_rows(1) [OF assms]) (rule load_same, simp_all)

lemma saved:
  assumes "save_model flts action name e i out limited selected h = (Inr n, h')" "dh_db h = Some d"
  shows "\<exists>h2 d'. dh_db h2 = Some d' \<and> same_models d d' \<and> (auth_ok (dash_auth h) \<longrightarrow> db_ok d') \<and>
    dh_catalogs_given h2 = dh_catalogs_given h \<and> dh_prices_given h2 = dh_prices_given h \<and>
    pricing_models (cfg_pricing (dh_cfg h2)) =
      (if i = 0 \<and> out = 0 then gm_del name else gm_put name \<lparr>input_per_1m = i, output_per_1m = out\<rparr>) (pricing_models (cfg_pricing (dh_cfg h))) \<and>
    settle_model flts action name e (PersistFailed name) (PricesFailed name) (RefreshFailed name) h2 = (None, h')"
proof -
  let ?h1 = "put_catalog_entry name e h"
  let ?hp = "set_model_pricing name i out ?h1"
  have one: "(if action = CreateAction then create_model name e h else update_model name e h) = (None, ?h1)"
    using assms(1) by (auto simp: save_model_def create_model_def update_model_def split: if_splits)
  obtain x st where a: "access_loop (\<lambda>k. flts 0 (Suc k)) name limited selected (users_snapshot (flts 0 0) ?hp) (dash_auth ?hp) = (x, st)"
    by (metis surj_pair)
  have acc: "apply_model_access (flts 0) name limited selected ?hp = (map_option ByUserStore x, with_auth st ?hp)"
    by (simp add: apply_model_access_def a)
  have x: "x = None"
    using assms(1) unfolding save_model_def one prod.case option.case acc by (cases x) auto
  note only = access_loop_only [OF a]
  let ?h2 = "with_auth st ?hp"
  have auth: "dash_auth ?hp = \<lparr>as_cfg = dh_cfg ?hp, as_db = Some d\<rparr>" "auth_ok (dash_auth h) \<Longrightarrow> auth_ok (dash_auth ?hp)"
    using assms(2) by (simp_all add: dash_auth_def set_model_pricing_def put_prices_def put_catalog_entry_def put_models_def auth_ok_def as_users_def)
  obtain d' where d': "as_db st = Some d'" "same_models d d'" "auth_ok (dash_auth ?hp) \<longrightarrow> auth_ok st"
    using only by (auto simp: users_only_def auth(1))
  have cfg: "dh_cfg ?h2 = (dh_cfg ?hp)\<lparr>cfg_users := cfg_users (as_cfg st)\<rparr>"
    using only by (simp add: users_only_def auth(1) with_auth_def)
  have models: "dh_models ?h2 = map_option (gm_put name e) (dh_models h)"
    by (simp add: with_auth_def set_model_pricing_def put_prices_def put_catalog_entry_def put_models_def)
  have "cfg_models (dh_cfg ?h2) = gm_put name e (cfg_models (dh_cfg h))"
    unfolding cfg by (simp add: set_model_pricing_def put_prices_def put_catalog_entry_def put_models_def)
  then have cat: "gm_get (current_model_catalog ?h2) name = Some e"
    unfolding current_model_catalog_def models by (cases "dh_models h") simp_all
  have "settle_model flts action name e (PersistFailed name) (PricesFailed name) (RefreshFailed name) ?h2 = (None, h')"
    using assms(1) unfolding save_model_def one prod.case option.case acc x option.map(1) cat Let_def
    by (auto split: prod.splits option.splits)
  moreover have "dh_db ?h2 = Some d'" "dh_catalogs_given ?h2 = dh_catalogs_given h" "dh_prices_given ?h2 = dh_prices_given h"
    by (simp_all add: with_auth_def d'(1) set_model_pricing_def put_prices_def put_catalog_entry_def put_models_def)
  moreover have "auth_ok (dash_auth h) \<longrightarrow> db_ok d'" using auth(2) d' by (auto simp: auth_ok_def)
  moreover have "pricing_models (cfg_pricing (dh_cfg ?h2)) =
      (if i = 0 \<and> out = 0 then gm_del name else gm_put name \<lparr>input_per_1m = i, output_per_1m = out\<rparr>) (pricing_models (cfg_pricing (dh_cfg h)))"
    unfolding cfg by (simp add: set_model_pricing_def put_prices_def put_catalog_entry_def put_models_def)
  ultimately show ?thesis using d'(2) by blast
qed

lemma removed:
  assumes "remove_model flts name h = (Inr n, h')" "dh_db h = Some d"
  shows "\<exists>h2 d'. dh_db h2 = Some d' \<and> same_models d d' \<and> (auth_ok (dash_auth h) \<longrightarrow> db_ok d') \<and>
    dh_catalogs_given h2 = dh_catalogs_given h \<and> dh_prices_given h2 = dh_prices_given h \<and>
    pricing_models (cfg_pricing (dh_cfg h2)) = gm_del name (pricing_models (cfg_pricing (dh_cfg h))) \<and>
    settle_model flts DeleteAction name \<lparr>me_name = [], me_backends = []\<rparr> (DeletePersistFailed name) (DeletePricesFailed name)
      (DeleteRefreshFailed name) h2 = (None, h')"
proof -
  let ?h1 = "put_prices (gm_del name) (put_models (gm_del name) (h\<lparr>dh_models := map_option (gm_del name) (dh_models h)\<rparr>))"
  have ex: "gm_get (current_model_catalog h) name \<noteq> None"
    using assms(1) by (cases "gm_get (current_model_catalog h) name") (simp_all add: remove_model_def delete_model_action_def)
  obtain x st where a: "forget_loop (\<lambda>k. flts 0 (Suc k)) name (users_snapshot (flts 0 0) ?h1) (dash_auth ?h1) = (x, st)"
    by (metis surj_pair)
  have del: "delete_model_action (flts 0) name h = (map_option ByUserStore x, with_auth st ?h1)"
    unfolding delete_model_action_def Let_def a by (simp only: ex if_False prod.case)
  have x: "x = None" using assms(1) unfolding remove_model_def del by (cases x) auto
  note only = forget_loop_only [OF a]
  let ?h2 = "with_auth st ?h1"
  have auth: "dash_auth ?h1 = \<lparr>as_cfg = dh_cfg ?h1, as_db = Some d\<rparr>" "auth_ok (dash_auth h) \<Longrightarrow> auth_ok (dash_auth ?h1)"
    using assms(2) by (simp_all add: dash_auth_def put_prices_def put_models_def auth_ok_def as_users_def)
  obtain d' where d': "as_db st = Some d'" "same_models d d'" "auth_ok (dash_auth ?h1) \<longrightarrow> auth_ok st"
    using only by (auto simp: users_only_def auth(1))
  have cfg: "dh_cfg ?h2 = (dh_cfg ?h1)\<lparr>cfg_users := cfg_users (as_cfg st)\<rparr>"
    using only by (simp add: users_only_def auth(1) with_auth_def)
  have "settle_model flts DeleteAction name \<lparr>me_name = [], me_backends = []\<rparr> (DeletePersistFailed name) (DeletePricesFailed name)
      (DeleteRefreshFailed name) ?h2 = (None, h')"
    using assms(1) unfolding remove_model_def del x option.map(1) by (auto split: prod.splits option.splits)
  moreover have "dh_db ?h2 = Some d'" "dh_catalogs_given ?h2 = dh_catalogs_given h" "dh_prices_given ?h2 = dh_prices_given h"
    by (simp_all add: with_auth_def d'(1) put_prices_def put_models_def)
  moreover have "auth_ok (dash_auth h) \<longrightarrow> db_ok d'" using auth(2) d' by (auto simp: auth_ok_def)
  moreover have "pricing_models (cfg_pricing (dh_cfg ?h2)) = gm_del name (pricing_models (cfg_pricing (dh_cfg h)))"
    unfolding cfg by (simp add: put_prices_def put_models_def)
  ultimately show ?thesis using d'(2) by blast
qed

lemma model_changes:
  assumes "dh_db h = Some d" and "auth_ok (dash_auth h)" and "gm_ok (pricing_models (cfg_pricing (dh_cfg h)))"
    and "load_active_catalog no_faults d = Inr c0" and "trim_space name = name"
  shows "(save_model flts action name e i out limited selected h = (Inr n, h') \<and> action \<noteq> DeleteAction \<longrightarrow>
     (\<exists>d' c. agrees h h' d' c \<and> db_ok d' \<and>
       (\<forall>m b. has_ref c m b \<longleftrightarrow> (if m = name then b \<in> trim_space ` ref_backend ` set (me_backends e) - {[]} else has_ref c0 m b)) \<and>
       gm_get (pricing_models (cfg_pricing (dh_cfg h'))) name =
         (if i = 0 \<and> out = 0 then None else Some \<lparr>input_per_1m = i, output_per_1m = out\<rparr>))) \<and>
   (remove_model flts name h = (Inr n, h') \<longrightarrow>
     (\<exists>d' c. agrees h h' d' c \<and> db_ok d' \<and> (\<forall>m b. has_ref c m b \<longleftrightarrow> m \<noteq> name \<and> has_ref c0 m b) \<and>
       gm_get (pricing_models (cfg_pricing (dh_cfg h'))) name = None))"
proof (intro conjI impI)
  assume s: "save_model flts action name e i out limited selected h = (Inr n, h') \<and> action \<noteq> DeleteAction"
  obtain h2 d' where h2: "dh_db h2 = Some d'" "same_models d d'" "db_ok d'" "dh_catalogs_given h2 = dh_catalogs_given h"
      "dh_prices_given h2 = dh_prices_given h"
      "pricing_models (cfg_pricing (dh_cfg h2)) =
        (if i = 0 \<and> out = 0 then gm_del name else gm_put name \<lparr>input_per_1m = i, output_per_1m = out\<rparr>) (pricing_models (cfg_pricing (dh_cfg h)))"
      "settle_model flts action name e (PersistFailed name) (PricesFailed name) (RefreshFailed name) h2 = (None, h')"
    using saved [of flts action name e i out limited selected h n h' d] s assms(1,2) by auto
  obtain d1 d2 c where st: "upsert_model (flts 1 0) name e d' = (None, d1)"
      "replace_model_pricing (flts 2 0) (pricing_models (cfg_pricing (dh_cfg h2))) d1 = (None, d2)" "agrees h2 h' d2 c"
    using settle_agrees [OF h2(7,1)] s by auto
  have ok: "gm_ok (pricing_models (cfg_pricing (dh_cfg h2)))" using assms(3) by (simp add: h2(6))
  have ld: "load_active_catalog no_faults d' = Inr c0" using same_models_load [OF h2(2)] assms(4) by simp
  have lc: "load_active_catalog no_faults d1 = Inr c"
    using replaced_catalog [OF st(2) ok] st(3) by (simp add: agrees_def)
  have p: "load_model_pricing no_faults d2 = Inr (pricing_models (cfg_pricing (dh_cfg h')))" using st(3) by (simp add: agrees_def)
  have d2: "db_ok d2" by (rule replace_pricing_db_ok [OF st(2) ok upsert_model_db_ok [OF st(1) h2(3)]])
  have known: "name \<in> mr_name ` set (models_t d1)" using upsert_known [OF st(1)] assms(5) by simp
  have "agrees h h' d2 c" using st(3) by (simp add: agrees_def h2(4,5))
  moreover have "has_ref c m b \<longleftrightarrow> (if m = name then b \<in> trim_space ` ref_backend ` set (me_backends e) - {[]} else has_ref c0 m b)" for m b
    using upsert_model_has_ref [OF st(1) h2(3) ld lc] assms(5) by simp
  moreover have "gm_get (pricing_models (cfg_pricing (dh_cfg h'))) name =
         (if i = 0 \<and> out = 0 then None else Some \<lparr>input_per_1m = i, output_per_1m = out\<rparr>)"
    using stored_prices [OF st(2) ok p, of name] known by (simp add: h2(6))
  ultimately show "\<exists>d' c. agrees h h' d' c \<and> db_ok d' \<and>
       (\<forall>m b. has_ref c m b \<longleftrightarrow> (if m = name then b \<in> trim_space ` ref_backend ` set (me_backends e) - {[]} else has_ref c0 m b)) \<and>
       gm_get (pricing_models (cfg_pricing (dh_cfg h'))) name =
         (if i = 0 \<and> out = 0 then None else Some \<lparr>input_per_1m = i, output_per_1m = out\<rparr>)" using d2 by blast
next
  assume "remove_model flts name h = (Inr n, h')"
  from removed [OF this assms(1)] obtain h2 d' where h2: "dh_db h2 = Some d'" "same_models d d'" "db_ok d'" "dh_catalogs_given h2 = dh_catalogs_given h"
      "dh_prices_given h2 = dh_prices_given h" "pricing_models (cfg_pricing (dh_cfg h2)) = gm_del name (pricing_models (cfg_pricing (dh_cfg h)))"
      "settle_model flts DeleteAction name \<lparr>me_name = [], me_backends = []\<rparr> (DeletePersistFailed name) (DeletePricesFailed name)
      (DeleteRefreshFailed name) h2 = (None, h')"
    using assms(2) by blast
  obtain d1 d2 c where st: "deactivate_model (flts 1 0) name d' = (None, d1)"
      "replace_model_pricing (flts 2 0) (pricing_models (cfg_pricing (dh_cfg h2))) d1 = (None, d2)" "agrees h2 h' d2 c"
    using settle_agrees [OF h2(7,1)] by auto
  have ok: "gm_ok (pricing_models (cfg_pricing (dh_cfg h2)))" using assms(3) by (simp add: h2(6))
  have ld: "load_active_catalog no_faults d' = Inr c0" using same_models_load [OF h2(2)] assms(4) by simp
  have lc: "load_active_catalog no_faults d1 = Inr c"
    using replaced_catalog [OF st(2) ok] st(3) by (simp add: agrees_def)
  have p: "load_model_pricing no_faults d2 = Inr (pricing_models (cfg_pricing (dh_cfg h')))" using st(3) by (simp add: agrees_def)
  have d2: "db_ok d2" by (rule replace_pricing_db_ok [OF st(2) ok deactivate_model_db_ok [OF st(1) h2(3)]])
  have "agrees h h' d2 c" using st(3) by (simp add: agrees_def h2(4,5))
  moreover have "has_ref c m b \<longleftrightarrow> m \<noteq> name \<and> has_ref c0 m b" for m b
    using deactivate_model_has_ref [OF st(1) h2(3) ld lc] assms(5) by simp
  moreover have "gm_get (pricing_models (cfg_pricing (dh_cfg h'))) name = None"
    using stored_prices [OF st(2) ok p, of name] by (simp add: h2(6))
  ultimately show "\<exists>d' c. agrees h h' d' c \<and> db_ok d' \<and> (\<forall>m b. has_ref c m b \<longleftrightarrow> m \<noteq> name \<and> has_ref c0 m b) \<and>
       gm_get (pricing_models (cfg_pricing (dh_cfg h'))) name = None" using d2 by blast
qed

text \<open>C12: a success message about a model is true everywhere: whatever statements failed, when the dashboard
  reports that a model was created or updated, the tables, the dashboard's catalog, the configuration and
  what the resolver and the proxy were given are one and the same, the model has exactly the backends and
  the price of the form and every other model its backends of before; when it reports a deletion,
  they agree likewise, on everything but the model and its price.\<close>

theorem model_change_agrees:
  assumes "dh_db h = Some d" and "auth_ok (dash_auth h)" and "gm_ok (pricing_models (cfg_pricing (dh_cfg h)))"
    and "load_active_catalog no_faults d = Inr c0" and "trim_space name = name"
  shows "(save_model flts action name e i out limited selected h = (Inr n, h') \<and> action \<noteq> DeleteAction \<longrightarrow>
     (\<exists>d' c. agrees h h' d' c \<and> db_ok d' \<and>
       (\<forall>m b. has_ref c m b \<longleftrightarrow> (if m = name then b \<in> trim_space ` ref_backend ` set (me_backends e) - {[]} else has_ref c0 m b)) \<and>
       gm_get (pricing_models (cfg_pricing (dh_cfg h'))) name =
         (if i = 0 \<and> out = 0 then None else Some \<lparr>input_per_1m = i, output_per_1m = out\<rparr>))) \<and>
   (remove_model flts name h = (Inr n, h') \<longrightarrow>
     (\<exists>d' c. agrees h h' d' c \<and> db_ok d' \<and> (\<forall>m b. has_ref c m b \<longleftrightarrow> m \<noteq> name \<and> has_ref c0 m b) \<and>
       gm_get (pricing_models (cfg_pricing (dh_cfg h'))) name = None))"
  by (rule model_changes [OF assms])

definition sample_entry :: model_entry where
  "sample_entry = \<lparr>me_name = ''m'', me_backends = [\<lparr>ref_backend = ''a'', ref_weight = 2\<rparr>]\<rparr>"

lemma sample_save:
  "\<exists>h'. save_model (\<lambda>_ _. no_faults) CreateAction ''m'' sample_entry 3 0 False {} sample_dash = (Inr (ModelCreated ''m''), h')"
proof -
  have t: "trim_space ''m'' = ''m''" "trim_space ''a'' = ''a''" by (simp_all add: trim_space_tight tight_def is_space_def)
  have "fst (save_model (\<lambda>_ _. no_faults) CreateAction ''m'' sample_entry 3 0 False {} sample_dash) = Inr (ModelCreated ''m'')"
    by (simp add: save_model_def create_model_def current_model_catalog_def sample_dash_def put_catalog_entry_def
        put_models_def set_model_pricing_def put_prices_def apply_model_access_def users_snapshot_def list_users_def
        dash_auth_def with_auth_def empty_db_def settle_model_def persist_model_mutation_def sample_entry_def
        upsert_model_def tbl_upsert_def t persist_model_pricing_def replace_model_pricing_def gm_put_def gm_keys_def gm_get_def
        reload_model_runtime_from_store_def load_active_catalog_def load_model_pricing_def Let_def sample_config_def AList.update.simps insert_prices.simps)
  then show ?thesis by (metis prod.collapse)
qed

theorem model_change_agrees_witness:
  "\<exists>h' d c. save_model (\<lambda>_ _. no_faults) CreateAction ''m'' sample_entry 3 0 False {} sample_dash = (Inr (ModelCreated ''m''), h') \<and>
     agrees sample_dash h' d c \<and> has_ref c ''m'' ''a''"
proof -
  obtain h' where s: "save_model (\<lambda>_ _. no_faults) CreateAction ''m'' sample_entry 3 0 False {} sample_dash = (Inr (ModelCreated ''m''), h')"
    using sample_save by blast
  have t: "trim_space ''m'' = ''m''" "trim_space ''a'' = ''a''" by (simp_all add: trim_space_tight tight_def is_space_def)
  have pre: "dh_db sample_dash = Some empty_db" "auth_ok (dash_auth sample_dash)" "gm_ok (pricing_models (cfg_pricing (dh_cfg sample_dash)))"
      "load_active_catalog no_faults empty_db = Inr []"
    by (simp_all add: sample_dash_def dash_auth_def auth_ok_def as_users_def sample_config_def gm_ok_def
        load_active_catalog_def active_refs_def) (simp_all add: empty_db_def)
  from model_change_agrees [OF pre t(1), THEN conjunct1, rule_format, OF conjI, OF s]
  obtain d c where "agrees sample_dash h' d c" "has_ref c ''m'' ''a''" by (auto simp: sample_entry_def t)
  then show ?thesis using s by blast
qed

end
