(* ===== verification/DashBackends.thy ===== *)
theory DashBackends
  imports DashModels
begin

text \<open>
  The backend forms of the dashboard: what a success message says is true of the table, of the
  manager that routes requests and of the configured list alike; and what a failure leaves behind.
\<close>

section \<open>The loaded list\<close>

lemma load_backends_in:
  assumes "load_active_backends flt d = Inr bs" "tbl_ok br_name (backend_configs_t d)"
  shows "b \<in> set bs \<and> bc_name b = n \<longleftrightarrow>
    (\<exists>r. tbl_get br_name (backend_configs_t d) n = Some r \<and> br_active r \<and> b = backend_of_row r)"
proof -
  have "set bs = backend_of_row ` {r \<in> set (backend_configs_t d). br_active r}"
    using assms(1) by (auto simp: load_active_backends_def split: if_splits)
  moreover have "bc_name (backend_of_row r) = br_name r" for r by (simp add: backend_of_row_def)
  ultimately show ?thesis by (auto simp: tbl_get_iff [OF assms(2)])
qed

lemma load_backends_distinct:
  assumes "load_active_backends flt d = Inr bs" "tbl_ok br_name (backend_configs_t d)"
  shows "distinct (map bc_name bs)"
proof -
  have "distinct (map br_name (filter br_active (backend_configs_t d)))"
    using assms(2) by (simp add: tbl_ok_def distinct_map_filter)
  then have "distinct (map br_name (sort_key br_name (filter br_active (backend_configs_t d))))"
    by (metis distinct_map distinct_sort set_sort)
  moreover have "bc_name \<circ> backend_of_row = br_name" by (simp add: fun_eq_iff backend_of_row_def)
  ultimately show ?thesis using assms(1) by (auto simp: load_active_backends_def split: if_splits)
qed

text \<open>The row of a name, as the list shows it.\<close>

definition listed :: "db \<Rightarrow> string \<Rightarrow> backend_cfg option" where
  "listed d n = (case tbl_get br_name (backend_configs_t d) n of
     Some r \<Rightarrow> if br_active r then Some (backend_of_row r) else None | None \<Rightarrow> None)"

lemma find_loaded:
  assumes "load_active_backends flt d = Inr bs" "tbl_ok br_name (backend_configs_t d)"
  shows "List.find (\<lambda>b. bc_name b = n) bs = listed d n"
proof (cases "listed d n")
  case None
  then show ?thesis using load_backends_in [OF assms, of _ n]
    by (auto simp: listed_def find_None_all split: option.splits if_splits)
next
  case (Some b)
  then have b: "b \<in> set bs \<and> bc_name b = n"
    using load_backends_in [OF assms, of b n] by (auto simp: listed_def split: option.splits if_splits)
  have "List.find (\<lambda>b. bc_name b = n) bs = Some b"
  proof (rule find_unique)
    fix y assume "y \<in> set bs" "bc_name y = n"
    then show "y = b" using b load_backends_distinct [OF assms] by (auto simp: distinct_map dest: inj_onD)
  qed (use b in auto)
  then show ?thesis using Some by simp
qed

text \<open>The table, the manager and the configured list hold the same backends.\<close>

definition in_step :: "dash \<Rightarrow> bool" where
  "in_step h \<longleftrightarrow> (\<exists>d m. dh_db h = Some d \<and> dh_manager h = Some m \<and> tbl_ok br_name (backend_configs_t d) \<and> mgr_ok m \<and>
     load_active_backends no_faults d = Inr (cfg_backends (dh_cfg h)) \<and>
     (\<forall>n. get_by_name m n \<noteq> None \<longleftrightarrow> listed d n \<noteq> None))"

definition routed :: "dash \<Rightarrow> string \<Rightarrow> backend option" where
  "routed h n = Option.bind (dh_manager h) (\<lambda>m. get_by_name m n)"

lemma in_step_find:
  assumes "in_step h"
  shows "(backend_by_name n h \<noteq> None) = (routed h n \<noteq> None)"
  using assms find_loaded unfolding in_step_def backend_by_name_def routed_def by fastforce

lemma reload_backends:
  assumes "reload_backends_from_store flt h = (None, h')" "dh_db h = Some d"
  shows "dh_db h' = Some d" "dh_manager h' = dh_manager h"
    "load_active_backends no_faults d = Inr (cfg_backends (dh_cfg h'))" "gm_get (dh_disabled h) n = None \<Longrightarrow> gm_get (dh_disabled h') n = None"
  using assms by (auto simp: reload_backends_from_store_def put_backends_def load_active_backends_def gm_get_def map_of_eq_None_iff
      split: if_splits)

lemma listed_upsert:
  "listed (d\<lparr>backend_configs_t := upsert_backend_row (row_of_backend c) (backend_configs_t d)\<rparr>) n =
     (if n = bc_name c then Some (stored_backend c) else listed d n)"
proof -
  have "tbl_get br_name (upsert_backend_row (row_of_backend c) t) n =
      (if n = bc_name c then Some (case tbl_get br_name t n of None \<Rightarrow> row_of_backend c
         | Some x \<Rightarrow> x\<lparr>br_url := br_url (row_of_backend c), br_weight := br_weight (row_of_backend c),
             br_timeout_ms := br_timeout_ms (row_of_backend c), br_health_path := br_health_path (row_of_backend c),
             br_tag := br_tag (row_of_backend c), br_active := True\<rparr>)
       else tbl_get br_name t n)" for t
    unfolding upsert_backend_row_def by (subst tbl_get_upsert) simp_all
  then show ?thesis
    by (auto simp: listed_def stored_backend_def backend_of_row_def dest: tbl_get_Some split: option.splits)
qed

lemma upsert_rejects: "upsert_backend c m = Inl e \<longleftrightarrow> url_parse (bc_url c) = None \<and> e = InvalidBackendUrl (bc_name c)"
  by (auto simp: upsert_backend_def normalize_upsert_def new_backend_def update_config_def Let_def split: option.splits)

lemma add_backends_urls: "add_backends cs m = Inr m' \<Longrightarrow> c \<in> set cs \<Longrightarrow> url_parse (bc_url c) \<noteq> None"
  by (induction cs arbitrary: m) (auto simp: new_backend_def split: option.splits)

section \<open>Creating, updating and removing a backend\<close>

lemma saved_backend:
  assumes "in_step h" "save_backend flts c h = (None, h')"
  shows "in_step h' \<and> backend_by_name (bc_name c) h' = Some (stored_backend c) \<and>
    (\<exists>b. routed h' (bc_name c) = Some b \<and> be_enabled b \<and> url_parse (bc_url c) = Some (be_url b)) \<and>
    gm_get (dh_disabled h') (bc_name c) = None \<and>
    (\<forall>n. n \<noteq> bc_name c \<longrightarrow> backend_by_name n h' = backend_by_name n h \<and> routed h' n = routed h n)"
proof -
  obtain d m where dm: "dh_db h = Some d" "dh_manager h = Some m" "tbl_ok br_name (backend_configs_t d)" "mgr_ok m"
      "load_active_backends no_faults d = Inr (cfg_backends (dh_cfg h))" "\<And>n. get_by_name m n \<noteq> None \<longleftrightarrow> listed d n \<noteq> None"
    using assms(1) unfolding in_step_def by blast
  define d1 where "d1 = d\<lparr>backend_configs_t := upsert_backend_row (row_of_backend c) (backend_configs_t d)\<rparr>"
  have st: "\<not> flts 0 0" using assms(2) unfolding save_backend_def dm(1) by (auto simp: store_upsert_backend_def split: if_splits)
  obtain m1 where m1: "upsert_backend c m = Inr m1"
    using assms(2) unfolding save_backend_def dm(1) by (cases "upsert_backend c m") (auto simp: store_upsert_backend_def st dm(2))
  let ?h2 = "h\<lparr>dh_db := Some d1, dh_manager := Some m1\<rparr>"
  let ?h3 = "upsert_backend_in_config c (?h2\<lparr>dh_disabled := gm_del (bc_name c) (dh_disabled ?h2)\<rparr>)"
  have r: "reload_backends_from_store (flts 1) ?h3 = (None, h')"
    using assms(2) unfolding save_backend_def dm(1) by (simp add: store_upsert_backend_def st dm(2) m1 d1_def [symmetric])
  have h3: "dh_db ?h3 = Some d1" "dh_manager ?h3 = Some m1" "gm_get (dh_disabled ?h3) (bc_name c) = None"
    by (simp_all add: upsert_backend_in_config_def put_backends_def)
  note R = reload_backends [OF r h3(1)]
  have t: "tbl_ok br_name (backend_configs_t d1)"
    using dm(3) unfolding d1_def upsert_backend_row_def by (simp add: tbl_ok_upsert)
  have l: "listed d1 n = (if n = bc_name c then Some (stored_backend c) else listed d n)" for n
    unfolding d1_def by (rule listed_upsert)
  note U = upsert_ok [OF dm(4) m1]
  have bn: "backend_by_name n h' = listed d1 n" "backend_by_name n h = listed d n" for n
    unfolding backend_by_name_def by (rule find_loaded [OF R(3) t], rule find_loaded [OF dm(5,3)])
  have mg: "dh_manager h' = Some m1" by (rule trans [OF R(2) h3(2)])
  have ro: "routed h' n = get_by_name m1 n" "routed h n = get_by_name m n" for n
    by (simp_all add: routed_def mg dm(2))
  have g: "get_by_name m1 n \<noteq> None \<longleftrightarrow> listed d1 n \<noteq> None" for n
    using U(1) U(2) [of n] dm(6) [of n] l [of n] by auto
  have "in_step h'" using R(1,3) mg t mgr_ok_upsert [OF dm(4) m1] g by (auto simp: in_step_def)
  then show ?thesis using U R(4) [of "bc_name c"] h3(3) by (auto simp: bn ro l)
qed

lemma dropped_backend:
  assumes "in_step h" "drop_backend flts name h = (None, h')"
  shows "in_step h' \<and> backend_by_name name h' = None \<and> routed h' name = None \<and> gm_get (dh_disabled h') name = None \<and>
    (\<forall>n. n \<noteq> name \<longrightarrow> backend_by_name n h' = backend_by_name n h \<and> routed h' n = routed h n)"
proof -
  obtain d m where dm: "dh_db h = Some d" "dh_manager h = Some m" "tbl_ok br_name (backend_configs_t d)" "mgr_ok m"
      "load_active_backends no_faults d = Inr (cfg_backends (dh_cfg h))" "\<And>n. get_by_name m n \<noteq> None \<longleftrightarrow> listed d n \<noteq> None"
    using assms(1) unfolding in_step_def by blast
  define d1 where "d1 = d\<lparr>backend_configs_t := tbl_delete (\<lambda>r. br_name r = name) (backend_configs_t d)\<rparr>"
  have st: "store_remove_backend (flts 0) name d = (None, d1)"
    using assms(2) unfolding drop_backend_def dm(1) by (auto simp: store_remove_backend_def Let_def d1_def split: if_splits)
  obtain m1 where m1: "remove_backend name m = Inr m1"
    using assms(2) unfolding drop_backend_def dm(1) by (cases "remove_backend name m") (auto simp: st dm(2))
  let ?h2 = "h\<lparr>dh_db := Some d1, dh_manager := Some m1\<rparr>"
  let ?h3 = "remove_backend_from_config name (?h2\<lparr>dh_disabled := gm_del name (dh_disabled ?h2)\<rparr>)"
  have r: "reload_backends_from_store (flts 1) ?h3 = (None, h')"
    using assms(2) unfolding drop_backend_def dm(1) by (simp add: st dm(2) m1)
  have h3: "dh_db ?h3 = Some d1" "dh_manager ?h3 = Some m1" "gm_get (dh_disabled ?h3) name = None"
    by (simp_all add: remove_backend_from_config_def put_backends_def)
  note R = reload_backends [OF r h3(1)]
  have t: "tbl_ok br_name (backend_configs_t d1)" using dm(3) by (simp add: d1_def tbl_ok_delete)
  have l: "listed d1 n = (if n = name then None else listed d n)" for n
    by (simp add: listed_def d1_def tbl_get_delete_key)
  have bn: "backend_by_name n h' = listed d1 n" "backend_by_name n h = listed d n" for n
    unfolding backend_by_name_def by (rule find_loaded [OF R(3) t], rule find_loaded [OF dm(5,3)])
  have mg: "dh_manager h' = Some m1" by (rule trans [OF R(2) h3(2)])
  have ro: "routed h' n = (if n = name then None else get_by_name m n)" "routed h n = get_by_name m n" for n
    by (simp_all add: routed_def mg dm(2) remove_ok(1) [OF m1])
  have "in_step h'" unfolding in_step_def
    using R(1,3) mg t mgr_ok_remove [OF dm(4) m1] dm(6) by (auto simp: remove_ok(1) [OF m1] l)
  then show ?thesis using R(4) [of name] h3(3) by (auto simp: bn ro l)
qed

lemma refused_backend:
  assumes "in_step h" "url_parse (bc_url c) = None"
    "save_backend (\<lambda>_. no_faults) c h = (Some (ByManager (InvalidBackendUrl (bc_name c))), h')"
  shows "dh_manager h' = dh_manager h \<and> dh_cfg h' = dh_cfg h \<and>
      (\<exists>d bs. dh_db h' = Some d \<and> load_active_backends no_faults d = Inr bs \<and> stored_backend c \<in> set bs \<and>
        (\<forall>cfg. cfg_backends cfg = bs \<longrightarrow> (\<exists>e. new_manager cfg = Inl e)))"
proof -
  obtain d m where dm: "dh_db h = Some d" "dh_manager h = Some m" "tbl_ok br_name (backend_configs_t d)"
    using assms(1) unfolding in_step_def by blast
  define d1 where "d1 = d\<lparr>backend_configs_t := upsert_backend_row (row_of_backend c) (backend_configs_t d)\<rparr>"
  have h': "h' = h\<lparr>dh_db := Some d1\<rparr>"
    using assms(3) upsert_rejects [of c m "InvalidBackendUrl (bc_name c)"] assms(2)
    by (auto simp: save_backend_def dm store_upsert_backend_def d1_def)
  have t: "tbl_ok br_name (backend_configs_t d1)" using dm(3) unfolding d1_def upsert_backend_row_def by (simp add: tbl_ok_upsert)
  obtain bs where bs: "load_active_backends no_faults d1 = Inr bs" by (simp add: load_active_backends_def)
  have "List.find (\<lambda>b. bc_name b = bc_name c) bs = Some (stored_backend c)"
    unfolding find_loaded [OF bs t] d1_def by (simp add: listed_upsert)
  then have mem: "stored_backend c \<in> set bs" by (rule find_Some_in [THEN conjunct1])
  moreover have "bc_url (stored_backend c) = bc_url c" by (simp add: stored_backend_def backend_of_row_def row_of_backend_def Let_def)
  ultimately have no: "\<exists>e. new_manager cfg = Inl e" if "cfg_backends cfg = bs" for cfg
    using add_backends_urls [of bs _ _ "stored_backend c"] that assms(2)
    by (cases "new_manager cfg") (auto simp: new_manager_def split: if_splits)
  show ?thesis unfolding h' using bs mem no by auto
qed

text \<open>C13: when the table, the routing manager and the configured list hold the same backends, they do so after
  every backend form that reports success, with exactly the named backend changed: a saved one is listed as it
  was stored, routed, enabled and no longer marked as disabled, a removed one is gone from all three.  A URL
  that does not parse is refused by the manager after the table has accepted it, so the three
  part: the row stays, and no configuration with the list loaded from it can be started.\<close>

theorem backend_forms_in_step:
  assumes "in_step h"
  shows "(save_backend flts c h = (None, h') \<longrightarrow> in_step h' \<and> backend_by_name (bc_name c) h' = Some (stored_backend c) \<and>
      (\<exists>b. routed h' (bc_name c) = Some b \<and> be_enabled b \<and> url_parse (bc_url c) = Some (be_url b)) \<and>
      gm_get (dh_disabled h') (bc_name c) = None \<and>
      (\<forall>n. n \<noteq> bc_name c \<longrightarrow> backend_by_name n h' = backend_by_name n h \<and> routed h' n = routed h n)) \<and>
    (drop_backend flts name h = (None, h') \<longrightarrow> in_step h' \<and> backend_by_name name h' = None \<and> routed h' name = None \<and>
      gm_get (dh_disabled h') name = None \<and>
      (\<forall>n. n \<noteq> name \<longrightarrow> backend_by_name n h' = backend_by_name n h \<and> routed h' n = routed h n)) \<and>
    (url_parse (bc_url c) = None \<longrightarrow> save_backend (\<lambda>_. no_faults) c h = (Some (ByManager (InvalidBackendUrl (bc_name c))), h') \<longrightarrow>
      dh_manager h' = dh_manager h \<and> dh_cfg h' = dh_cfg h \<and>
      (\<exists>d bs. dh_db h' = Some d \<and> load_active_backends no_faults d = Inr bs \<and> stored_backend c \<in> set bs \<and>
        (\<forall>cfg. cfg_backends cfg = bs \<longrightarrow> (\<exists>e. new_manager cfg = Inl e))))"
  by (rule conjI, rule impI, erule saved_backend [OF assms], rule conjI, rule impI, erule dropped_backend [OF assms],
      intro impI, erule (1) refused_backend [OF assms])

definition empty_manager :: manager where
  "empty_manager = \<lparr>mg_heap = [], mg_backends = [], mg_by_name = [], mg_interval = second, mg_timeout = second\<rparr>"

definition sample_in_step :: dash where
  "sample_in_step = sample_dash\<lparr>dh_manager := Some empty_manager, dh_cfg := sample_config\<lparr>cfg_backends := []\<rparr>\<rparr>"

theorem backend_forms_in_step_witness:
  "\<exists>h'. save_backend (\<lambda>_. no_faults) sample_backend_cfg sample_in_step = (None, h') \<and> in_step h' \<and>
     backend_by_name ''a'' h' = Some (stored_backend sample_backend_cfg)"
proof -
  have st: "in_step sample_in_step"
    by (simp add: in_step_def sample_in_step_def sample_dash_def empty_db_def mgr_ok_def empty_manager_def
        load_active_backends_def get_by_name_def listed_def tbl_get_def)
  obtain u where "url_parse ''http://h'' = Some u" using sample_url by blast
  then have "fst (save_backend (\<lambda>_. no_faults) sample_backend_cfg sample_in_step) = None"
    by (simp add: save_backend_def sample_in_step_def sample_dash_def store_upsert_backend_def upsert_backend_def
        empty_manager_def normalize_upsert_def sample_backend_cfg_def new_backend_def Let_def
        reload_backends_from_store_def load_active_backends_def upsert_backend_in_config_def put_backends_def)
  then obtain h' where s: "save_backend (\<lambda>_. no_faults) sample_backend_cfg sample_in_step = (None, h')" by (metis prod.collapse)
  have "bc_name sample_backend_cfg = ''a''" by (simp add: sample_backend_cfg_def)
  with backend_forms_in_step [OF st, THEN conjunct1, THEN mp, OF s] s show ?thesis by auto
qed

text \<open>An operation on the models of a backend that does not exist dereferences a nil state: the
  request, which needs no credentials, panics in the handler.\<close>

lemma unknown_backend_panics:
  assumes "dh_manager h = Some m" "get_by_name m (trim_space (form_value f ''backend_model_backend'')) = None"
    and "trim_space (form_value f ''backend_model_backend'') \<noteq> []" "action = ''refresh''"
  shows "fst (handle_backend_model_action env r f action h) = Panics"
  using assms by (simp add: handle_backend_model_action_def Let_def execute_backend_model_action_def
      refresh_backend_model_state_def split: option.split prod.split)

end
