(* ===== verification/Installer.thy ===== *)
theory Installer
  imports ApiKey Config
begin

text \<open>
  cmd/installer-bootstrap/main.go: the installer's first-run tool.  It checks its options, draws an
  admin token, writes a configuration that holds only the token's hash, and a text file that tells the
  administrator the token.  \<open>marshal\<close> is yaml.v3's encoder, \<open>random\<close> the system's random source; the
  disk maps lexically clean paths to contents, and says which directories there are, which can be made and how far a write gets.
\<close>

section \<open>Options and the generated document\<close>

record options =
  o_backend_name :: string
  o_backend_url :: string
  o_config_path :: string
  o_bootstrap_path :: string
  o_database_path :: string
  o_model_name :: string
  o_listen_addr :: string

record gen_server =
  gs_listen_addr :: string
  gs_read_timeout :: string
  gs_write_timeout :: string
  gs_idle_timeout :: string

record gen_rate_limit =
  gr_default_rate :: real
  gr_default_burst :: int
  gr_ttl :: string
  gr_backend :: string

record gen_backend =
  gb_name :: string
  gb_url :: string
  gb_weight :: int
  gb_timeout :: string
  gb_health_check_path :: string

record generated_config =
  gc_server :: gen_server
  gc_token_hash :: string
  gc_rate_limit :: gen_rate_limit
  gc_backends :: "gen_backend list"
  gc_models :: catalog
  gc_users :: "string gomap"
  gc_pricing :: pricing_config
  gc_database_path :: string
  gc_health_check :: health_check_config

definition default_options :: options where
  "default_options = \<lparr>o_backend_name = [], o_backend_url = [], o_config_path = [], o_bootstrap_path = [],
     o_database_path = [], o_model_name = ''default-model'', o_listen_addr = ''0.0.0.0:4080''\<rparr>"

datatype installer_error =
    BackendNameRequired | BackendUrlRequired | BackendUrlSchemeMissing | BackendUrlSchemeUnknown
  | ConfigPathRequired | BootstrapPathRequired | DatabasePathRequired | ModelNameRequired | ListenAddrRequired
  | ByteLenNotPositive | TokenFailed | MarshalFailed | ConfigWriteFailed | BootstrapWriteFailed

definition validate_options :: "options \<Rightarrow> installer_error option" where
  "validate_options opts =
     (if trim_space (o_backend_name opts) = [] then Some BackendNameRequired
      else if trim_space (o_backend_url opts) = [] then Some BackendUrlRequired
      else case url_parse (o_backend_url opts) of None \<Rightarrow> Some BackendUrlSchemeMissing
       | Some u \<Rightarrow>
          if u_scheme u = [] then Some BackendUrlSchemeMissing
          else if u_scheme u \<noteq> ''http'' \<and> u_scheme u \<noteq> ''https'' then Some BackendUrlSchemeUnknown
          else if trim_space (o_config_path opts) = [] then Some ConfigPathRequired
          else if trim_space (o_bootstrap_path opts) = [] then Some BootstrapPathRequired
          else if trim_space (o_database_path opts) = [] then Some DatabasePathRequired
          else if trim_space (o_model_name opts) = [] then Some ModelNameRequired
          else if trim_space (o_listen_addr opts) = [] then Some ListenAddrRequired
          else None)"

definition build_config :: "options \<Rightarrow> string \<Rightarrow> generated_config" where
  "build_config opts admin_hash =
     (let model_name = trim_space (o_model_name opts); backend_name = trim_space (o_backend_name opts) in
      \<lparr>gc_server = \<lparr>gs_listen_addr = o_listen_addr opts, gs_read_timeout = ''30s'', gs_write_timeout = ''120s'',
         gs_idle_timeout = ''120s''\<rparr>,
       gc_token_hash = admin_hash,
       gc_rate_limit = \<lparr>gr_default_rate = 10, gr_default_burst = 50, gr_ttl = ''1h'', gr_backend = ''local''\<rparr>,
       gc_backends = [\<lparr>gb_name = backend_name, gb_url = trim_space (o_backend_url opts), gb_weight = 1,
         gb_timeout = ''120s'', gb_health_check_path = ''/api/version''\<rparr>],
       gc_models = [(model_name, \<lparr>me_name = model_name,
         me_backends = [\<lparr>ref_backend = backend_name, ref_weight = 1\<rparr>]\<rparr>)],
       gc_users = [],
       gc_pricing = \<lparr>default_input_per_1m = 0, default_output_per_1m = 0, pricing_models = []\<rparr>,
       gc_database_path = o_database_path opts,
       gc_health_check = \<lparr>interval_seconds = 10, timeout_seconds = 5, unhealthy_threshold = 3\<rparr>\<rparr>)"

definition build_bootstrap_text :: "options \<Rightarrow> string \<Rightarrow> string" where
  "build_bootstrap_text opts token =
     str_join [CHR 0x0A]
       [''Ollama Gateway bootstrap details'', [],
        ''Admin token (shown once):'', token, [],
        ''Config path:'', o_config_path opts, [],
        ''Backend:'', ''- name: '' @ o_backend_name opts, ''- url: '' @ o_backend_url opts, [],
        ''Store this token securely. It is not persisted in plain text by the gateway.''] @ [CHR 0x0A]"

definition generate_token :: "(nat \<Rightarrow> string option) \<Rightarrow> int \<Rightarrow> (installer_error, string) result" where
  "generate_token random byte_len =
     (if byte_len \<le> 0 then Inl ByteLenNotPositive
      else case random (nat byte_len) of None \<Rightarrow> Inl TokenFailed | Some buf \<Rightarrow> Inr (hex_encode buf))"

section \<open>The run\<close>

text \<open>\<open>dk_mkdir_ok\<close> says which directories can be made in a parent that exists, \<open>dk_write\<close> what becomes of a write of
  some data to a path: the file cannot be opened; it is opened, and so emptied, but an error leaves it with the first bytes only (or
  with all of them, when closing it fails); or it is written completely.\<close>

datatype write_outcome = OpenFails | WritesPart nat | WritesAll

record disk =
  dk_files :: "string \<Rightarrow> string option"
  dk_dirs :: "string list"
  dk_mkdir_ok :: "string \<Rightarrow> bool"
  dk_write :: "string \<Rightarrow> string \<Rightarrow> write_outcome"

definition read_file :: "disk \<Rightarrow> string \<Rightarrow> string option" where
  "read_file dk path = dk_files dk (path_clean path)"

definition is_dir :: "disk \<Rightarrow> string \<Rightarrow> bool" where
  "is_dir dk d \<longleftrightarrow> d = ''.'' \<or> d = ''/'' \<or> d \<in> set (dk_dirs dk)"

text \<open>\<open>os.MkdirAll\<close> on a clean path: the directory, its parent, the parent's parent and so on, up to the first that is there.
  Directories that were made stay when a later one fails.\<close>

definition dir_chain :: "string \<Rightarrow> string list" where
  "dir_chain d = d # map (\<lambda>i. take i d) (rev (filter (\<lambda>i. d ! i = CHR ''/'') [1..<length d]))"

fun mkdir_all :: "string list \<Rightarrow> disk \<Rightarrow> bool \<times> disk" where
  "mkdir_all [] dk = (True, dk)"
| "mkdir_all (d # parents) dk =
     (if is_dir dk d then (True, dk)
      else if dk_files dk d \<noteq> None then (False, dk)
      else case mkdir_all parents dk of
         (False, dk1) \<Rightarrow> (False, dk1)
       | (True, dk1) \<Rightarrow> if dk_mkdir_ok dk1 d then (True, dk1\<lparr>dk_dirs := d # dk_dirs dk1\<rparr>) else (False, dk1))"

definition os_write_file :: "string \<Rightarrow> string \<Rightarrow> disk \<Rightarrow> bool \<times> disk" where
  "os_write_file path data dk =
     (if is_dir dk (path_clean path) then (False, dk)
      else case dk_write dk path data of
         OpenFails \<Rightarrow> (False, dk)
       | WritesPart n \<Rightarrow> (False, dk\<lparr>dk_files := (dk_files dk)(path_clean path \<mapsto> take n data)\<rparr>)
       | WritesAll \<Rightarrow> (True, dk\<lparr>dk_files := (dk_files dk)(path_clean path \<mapsto> data)\<rparr>))"

definition write_file :: "string \<Rightarrow> string \<Rightarrow> disk \<Rightarrow> bool \<times> disk" where
  "write_file path data dk =
     (let dir = path_dir path in
      case if dir \<noteq> ''.'' \<and> dir \<noteq> [] then mkdir_all (dir_chain dir) dk else (True, dk) of
        (False, dk1) \<Rightarrow> (False, dk1)
      | (True, dk1) \<Rightarrow> os_write_file path data dk1)"

definition run_installer ::
  "(nat \<Rightarrow> string option) \<Rightarrow> (generated_config \<Rightarrow> string option) \<Rightarrow> options \<Rightarrow> disk \<Rightarrow> installer_error option \<times> string \<times> disk" where
  "run_installer random marshal opts dk =
     (case validate_options opts of Some e \<Rightarrow> (Some e, [], dk)
      | None \<Rightarrow>
     (case generate_token random 32 of Inl e \<Rightarrow> (Some e, [], dk)
      | Inr token \<Rightarrow>
     (case marshal (build_config opts (hash_api_key token)) of None \<Rightarrow> (Some MarshalFailed, [], dk)
      | Some data \<Rightarrow>
     (case write_file (o_config_path opts) data dk of (False, dk1) \<Rightarrow> (Some ConfigWriteFailed, [], dk1)
      | (True, dk1) \<Rightarrow>
     (case write_file (o_bootstrap_path opts) (build_bootstrap_text opts token) dk1 of
        (False, dk2) \<Rightarrow> (Some BootstrapWriteFailed, [], dk2)
      | (True, dk2) \<Rightarrow>
          (None, ''CONFIG_PATH='' @ o_config_path opts @ [CHR 0x0A] @
                 ''BOOTSTRAP_PATH='' @ o_bootstrap_path opts @ [CHR 0x0A], dk2))))))"

section \<open>How the gateway reads the document\<close>

text \<open>The durations of the document are whole numbers with a unit of one letter.\<close>

definition whole_duration :: "string \<Rightarrow> int option" where
  "whole_duration s =
     (if s = [] then None
      else case uint_of (butlast s) of None \<Rightarrow> None
       | Some n \<Rightarrow> if last s = CHR ''s'' then Some (n * second)
                   else if last s = CHR ''m'' then Some (n * (60 * second))
                   else if last s = CHR ''h'' then Some (n * (3600 * second)) else None)"

text \<open>The document as a value of the gateway's configuration type: both structures carry the same
  keys, a key the document does not have leaves the zero value.\<close>

definition read_server :: "gen_server \<Rightarrow> server_config option" where
  "read_server s =
     (case (whole_duration (gs_read_timeout s), whole_duration (gs_write_timeout s), whole_duration (gs_idle_timeout s)) of
        (Some r, Some w, Some i) \<Rightarrow>
          Some \<lparr>listen_addr = gs_listen_addr s, read_timeout = r, write_timeout = w, idle_timeout = i, tls_cert_path = [],
            tls_key_path = [], tls_check_interval = 0, tls_expiry_warning_days = 0\<rparr>
      | _ \<Rightarrow> None)"

definition read_backend :: "gen_backend \<Rightarrow> backend_cfg option" where
  "read_backend b = map_option (\<lambda>t. \<lparr>bc_name = gb_name b, bc_url = gb_url b, bc_weight = gb_weight b, bc_tag = [],
     bc_headers = [], bc_timeout = t, bc_health_path = gb_health_check_path b\<rparr>) (whole_duration (gb_timeout b))"

definition read_config :: "generated_config \<Rightarrow> config option" where
  "read_config g =
     (let bs = map read_backend (gc_backends g); rl = gc_rate_limit g in
      case (read_server (gc_server g), whole_duration (gr_ttl rl)) of
        (Some s, Some t) \<Rightarrow>
          (if None \<in> set bs then None else
           Some \<lparr>cfg_server = s, cfg_admin_token_hash = gc_token_hash g,
             cfg_rate_limit = \<lparr>default_rate = gr_default_rate rl, default_burst = gr_default_burst rl, default_ttl = t,
               rl_backend = gr_backend rl, redis_addr = [], redis_timeout_sec = 0, redis_fallback_to_local = False\<rparr>,
             cfg_backends = map the bs, cfg_models = gc_models g,
             cfg_users = map (\<lambda>(k, h). (k, \<lparr>api_key_hash = h, rate_limit = None, model_allow = [], model_deny = [], aliases = []\<rparr>)) (gc_users g),
             cfg_pricing = gc_pricing g, cfg_database_path = gc_database_path g, cfg_health = gc_health_check g\<rparr>)
      | _ \<Rightarrow> None)"

section \<open>Trimming a URL\<close>

text \<open>The tool checks the URL as it was given and writes it trimmed: the trimmed URL parses as well.\<close>

lemma space_not_hex: "is_space c \<Longrightarrow> unhex c = None \<and> \<not> host_char_ok c \<and> \<not> is_letter c \<and> \<not> is_digit c"
  by (auto simp: is_space_def unhex_def host_char_ok_def is_letter_def is_digit_def)

lemma unescape_without_spaces:
  "unescape_path (s @ w) \<noteq> None \<Longrightarrow> list_all is_space w \<Longrightarrow> unescape_path s \<noteq> None"
proof (induction s rule: unescape_path.induct)
  case (2 c s)
  show ?case
  proof (cases "c = CHR ''%''")
    case True
    then obtain h l t a b where hl: "s @ w = h # l # t" "unhex h = Some a" "unhex l = Some b" "unescape_path t \<noteq> None"
      using 2(3) by (auto split: list.splits option.splits)
    then obtain t' where t': "s = h # l # t'" "t = t' @ w"
      using 2(4) space_not_hex [of h] space_not_hex [of l] by (cases s; cases "tl s") (auto simp: Cons_eq_append_conv)
    show ?thesis using 2(1) [OF True t'(1) refl refl hl(2,3)] 2(4) hl t' True by auto
  qed (use 2 in auto)
qed simp

lemma host_ok_no_spaces: "host_ok (s @ w) \<Longrightarrow> list_all is_space w \<Longrightarrow> w = []"
proof (induction s rule: host_ok.induct)
  case 1
  then show ?case using space_not_hex by (cases w) (auto simp: is_space_def split: if_splits)
next
  case (2 c s)
  show ?case
  proof (cases "c = CHR ''%''")
    case True
    then obtain h l t a b where hl: "s @ w = h # l # t" "unhex h = Some a" "unhex l = Some b" "host_ok t" "8 \<le> a \<or> a = 2 \<and> b = 5"
      using 2(3) by (auto split: list.splits option.splits)
    then obtain t' where t': "s = h # l # t'" "t = t' @ w"
      using 2(4) space_not_hex [of h] space_not_hex [of l] by (cases s; cases "tl s") (auto simp: Cons_eq_append_conv)
    show ?thesis using 2(1) [OF True t'(1) refl refl hl(2,3)] 2(4) hl t' by auto
  qed (use 2 in auto)
qed

lemma scheme_scan_append:
  "scheme_scan acc (s @ w) = Some (sch, rest) \<Longrightarrow> sch \<noteq> [] \<Longrightarrow> list_all is_space w \<Longrightarrow>
     \<exists>r. rest = r @ w \<and> scheme_scan acc s = Some (sch, r)"
proof (induction acc s rule: scheme_scan.induct)
  case (1 acc)
  show ?case
  proof (cases w)
    case (Cons a v)
    have a: "is_space a" using 1(3) Cons by simp
    have n: "\<not> is_letter a" "\<not> is_digit a" "a \<notin> {CHR ''+'', CHR ''-'', CHR ''.''}" "a \<noteq> CHR '':''"
      using space_not_hex [OF a] a by (auto simp: is_space_def)
    have "scheme_scan acc (a # v) = Some ([], acc @ a # v)"
      by (simp only: scheme_scan.simps n if_False simp_thms)
    then show ?thesis using 1(1,2) Cons by simp
  qed (use 1 in simp)
next
  case (2 acc c s)
  let ?d = "is_digit c \<or> c \<in> {CHR ''+'', CHR ''-'', CHR ''.''}"
  consider "is_letter c" | "\<not> is_letter c" "?d" "acc \<noteq> []" | "\<not> is_letter c" "\<not> ?d" "c = CHR '':''" "acc \<noteq> []"
    using 2(3,4) by (auto split: if_splits)
  then show ?case
  proof cases
    case 1
    then show ?thesis using 2(1) [OF 1] 2(3-) by simp
  next
    case 2
    then show ?thesis using "2.IH"(2) [OF 2] "2.prems" by simp
  next
    case 3
    then show ?thesis using "2.prems" by simp
  qed
qed

lemma cut_char_append:
  "sep \<notin> set w \<Longrightarrow> cut_char sep (s @ w) = (case cut_char sep s of (a, None) \<Rightarrow> (a @ w, None) | (a, Some b) \<Rightarrow> (a, Some (b @ w)))"
proof (induction s)
  case Nil
  then show ?case by (induction w) auto
qed (auto split: prod.splits option.splits)

lemma cut_char_skip: "sep \<notin> set p \<Longrightarrow> cut_char sep (p @ s) = (case cut_char sep s of (a, b) \<Rightarrow> (p @ a, b))"
  by (induction p) (auto split: prod.splits)

lemma cut_last_append:
  "sep \<notin> set w \<Longrightarrow> cut_last sep (s @ w) = map_option (\<lambda>(a, b). (a, b @ w)) (cut_last sep s)"
  by (auto simp: cut_last_def cut_char_skip split: prod.splits option.splits)

lemma spaces_avoid: "list_all is_space w \<Longrightarrow> \<not> is_space c \<Longrightarrow> c \<notin> set w"
  by (auto simp: list_all_iff)

lemma parse_host_no_spaces: "parse_host_ok (h @ w) \<Longrightarrow> list_all is_space w \<Longrightarrow> w = []"
  using host_ok_no_spaces [of h w] by (auto simp: parse_host_ok_def split: if_splits option.splits prod.splits)

lemma has_prefix_spaces:
  "list_all is_space w \<Longrightarrow> list_all (\<lambda>c. \<not> is_space c) p \<Longrightarrow> has_prefix (s @ w) p = has_prefix s p"
proof (induction s arbitrary: p)
  case Nil
  then show ?case by (cases p; cases w) (auto simp: has_prefix_def)
next
  case (Cons c s)
  then show ?case by (cases p) (auto simp: has_prefix_def)
qed

lemma rest_without_spaces:
  assumes "url_parse_rest sch (r @ w) q f = Some u" "sch \<noteq> []" "list_all is_space w"
  shows "\<exists>u'. url_parse_rest sch r q' f' = Some u' \<and> u_scheme u' = sch"
proof -
  note pre = has_prefix_spaces [OF assms(3)]
  have p: "has_prefix (r @ w) ''/'' = has_prefix r ''/''" "has_prefix (r @ w) ''//'' = has_prefix r ''//''"
    by (rule pre, simp add: is_space_def)+
  consider "\<not> has_prefix r ''/''" | "has_prefix r ''/''" "\<not> has_prefix r ''//''" | "has_prefix r ''/''" "has_prefix r ''//''"
    by blast
  then show ?thesis
  proof cases
    case 1
    then show ?thesis using assms(2) by (simp add: url_parse_rest_def)
  next
    case 2
    then have "unescape_path (r @ w) \<noteq> None" using assms(1) by (auto simp: url_parse_rest_def p)
    then have "unescape_path r \<noteq> None" by (rule unescape_without_spaces [OF _ assms(3)])
    then show ?thesis using 2 by (auto simp: url_parse_rest_def)
  next
    case 3
    have "take 2 r = ''//''" using 3(2) by (simp add: has_prefix_def numeral_2_eq_2)
    then obtain t where t: "r = ''//'' @ t" by (metis append_take_drop_id)
    obtain auth path where c: "cut_char (CHR ''/'') t = (auth, path)" by fastforce
    have n: "CHR ''/'' \<notin> set w" "CHR ''@'' \<notin> set w" by (rule spaces_avoid [OF assms(3)], simp add: is_space_def)+
    show ?thesis
    proof (cases path)
      case None
      let ?host = "\<lambda>a. case cut_last (CHR ''@'') a of None \<Rightarrow> a | Some (u, h) \<Rightarrow> h"
      have "parse_host_ok (?host (auth @ w))"
        using assms(1,2) 3 unfolding url_parse_rest_def p
        by (auto simp: t c None cut_char_append [OF n(1)] Let_def split: option.splits prod.splits if_splits)
      moreover have "?host (auth @ w) = ?host auth @ w"
        by (simp add: cut_last_append [OF n(2)] split: option.split prod.split)
      ultimately have "w = []" using parse_host_no_spaces [OF _ assms(3)] by simp
      then show ?thesis using assms(1,2) by (auto simp: url_parse_rest_def Let_def split: if_splits option.splits prod.splits)
    next
      case (Some b)
      have "unescape_path (CHR ''/'' # b @ w) \<noteq> None \<and>
          parse_host_ok (case cut_last (CHR ''@'') auth of None \<Rightarrow> auth | Some (u, h) \<Rightarrow> h)"
        using assms(1,2) 3 unfolding url_parse_rest_def p
        by (auto simp: t c Some cut_char_append [OF n(1)] Let_def split: option.splits prod.splits if_splits)
      moreover have "unescape_path (CHR ''/'' # b) \<noteq> None"
        using unescape_without_spaces [of "CHR ''/'' # b" w] calculation assms(3) by simp
      ultimately show ?thesis using 3 assms(2) unfolding url_parse_rest_def
        by (auto simp: t c Some Let_def split: option.splits prod.splits)
    qed
  qed
qed

lemma trim_right_split: "\<exists>w. s = trim_right s @ w \<and> list_all is_space w"
proof (intro exI [of _ "rev (takeWhile is_space (rev s))"] conjI)
  show "s = trim_right s @ rev (takeWhile is_space (rev s))"
    unfolding trim_right_def by (metis rev_append rev_rev_ident takeWhile_dropWhile_id)
  show "list_all is_space (rev (takeWhile is_space (rev s)))" by (auto simp: list_all_iff dest: set_takeWhileD)
qed

lemma url_parse_trim:
  assumes "url_parse s = Some u" "u_scheme u \<noteq> []"
  shows "\<exists>u'. url_parse (trim_space s) = Some u' \<and> u_scheme u' = u_scheme u"
proof -
  obtain w where w: "s = trim_right s @ w" "list_all is_space w" using trim_right_split by blast
  obtain m0 f0 where m0: "cut_char (CHR ''#'') (trim_right s) = (m0, f0)" by fastforce
  define w1 where "w1 = (if f0 = None then w else [])"
  have w1: "list_all is_space w1" by (simp add: w1_def w(2))
  have "CHR ''#'' \<notin> set w" by (rule spaces_avoid [OF w(2)]) (simp add: is_space_def)
  then have m: "\<exists>f. cut_char (CHR ''#'') s = (m0 @ w1, f)"
    by (subst w(1), subst cut_char_append) (auto simp: m0 w1_def split: option.split)
  then obtain f where m: "cut_char (CHR ''#'') s = (m0 @ w1, f)" ..
  obtain sch rest where sc: "scheme_scan [] (m0 @ w1) = Some (sch, rest)" "\<not> list_ex is_ctl (m0 @ w1)"
    using assms(1) by (auto simp: url_parse_def m split: if_splits option.splits)
  obtain r q where r: "cut_char (CHR ''?'') rest = (r, q)" by fastforce
  obtain qs fs where u: "url_parse_rest (to_lower sch) r qs fs = Some u"
    using assms(1) sc by (auto simp: url_parse_def m r)
  have us: "u_scheme u = to_lower sch"
    using u by (auto simp: url_parse_rest_def Let_def split: if_splits prod.splits option.splits)
  then have ne: "sch \<noteq> []" "to_lower sch \<noteq> []" using assms(2) by (auto simp: to_lower_def)
  obtain r0 where r0: "rest = r0 @ w1" "scheme_scan [] m0 = Some (sch, r0)"
    using scheme_scan_append [OF sc(1) ne(1) w1] by blast
  obtain r1 q1 where r1: "cut_char (CHR ''?'') r0 = (r1, q1)" by fastforce
  define w2 where "w2 = (if q1 = None then w1 else [])"
  have w2: "list_all is_space w2" by (simp add: w2_def w1)
  have "CHR ''?'' \<notin> set w1" by (rule spaces_avoid [OF w1]) (simp add: is_space_def)
  then have "r = r1 @ w2" using r unfolding r0(1) by (subst (asm) cut_char_append) (auto simp: r1 w2_def split: option.splits)
  from rest_without_spaces [OF u [unfolded this] ne(2) w2]
  have R: "\<exists>u'. url_parse_rest (to_lower sch) r1 q' f' = Some u' \<and> u_scheme u' = to_lower sch" for q' f' .
  have "m0 \<noteq> []" using r0(2) ne(1) by auto
  then obtain c v where cv: "m0 = c # v" by (cases m0) auto
  have "is_letter c" using r0(2) ne(1) by (auto simp: cv split: if_splits)
  then have "\<not> is_space c" using space_not_hex by blast
  moreover have "s \<noteq> [] \<and> hd s = c" using m by (cases s) (auto simp: cv split: if_splits prod.splits)
  ultimately have "trim_space s = trim_right s" by (simp add: trim_space_def trim_left_def dropWhile_hd)
  moreover have "\<not> list_ex is_ctl m0" using sc(2) by simp
  ultimately show ?thesis unfolding us by (simp add: url_parse_def m0 r0(2) r1 R)
qed

section \<open>What the tool leaves behind\<close>

text \<open>The configuration the gateway reads from the generated document.\<close>

definition installed_config :: "options \<Rightarrow> string \<Rightarrow> config" where
  "installed_config opts hash = \<lparr>
     cfg_server = \<lparr>listen_addr = o_listen_addr opts, read_timeout = 30 * second, write_timeout = 120 * second,
       idle_timeout = 120 * second, tls_cert_path = [], tls_key_path = [], tls_check_interval = 86400 * second,
       tls_expiry_warning_days = 30\<rparr>,
     cfg_admin_token_hash = hash,
     cfg_rate_limit = \<lparr>default_rate = 10, default_burst = 50, default_ttl = 3600 * second, rl_backend = ''local'',
       redis_addr = [], redis_timeout_sec = 2, redis_fallback_to_local = True\<rparr>,
     cfg_backends = [\<lparr>bc_name = trim_space (o_backend_name opts), bc_url = trim_space (o_backend_url opts), bc_weight = 1,
       bc_tag = [], bc_headers = [], bc_timeout = 120 * second, bc_health_path = ''/api/version''\<rparr>],
     cfg_models = [(trim_space (o_model_name opts), \<lparr>me_name = trim_space (o_model_name opts),
       me_backends = [\<lparr>ref_backend = trim_space (o_backend_name opts), ref_weight = 1\<rparr>]\<rparr>)],
     cfg_users = [],
     cfg_pricing = \<lparr>default_input_per_1m = 0, default_output_per_1m = 0, pricing_models = []\<rparr>,
     cfg_database_path = o_database_path opts,
     cfg_health = \<lparr>interval_seconds = 10, timeout_seconds = 5, unhealthy_threshold = 3\<rparr>\<rparr>"

lemma durations: "whole_duration ''30s'' = Some (30 * second)" "whole_duration ''120s'' = Some (120 * second)"
    "whole_duration ''1h'' = Some (3600 * second)"
  by (simp_all add: whole_duration_def uint_of_def digit_val_def)

lemma read_build:
  "\<exists>c. read_config (build_config opts hash) = Some c \<and>
     (trim_space (o_listen_addr opts) \<noteq> [] \<longrightarrow> trim_space (o_database_path opts) \<noteq> [] \<longrightarrow>
        apply_defaults c = installed_config opts hash)"
  by (auto simp: read_config_def build_config_def Let_def read_server_def read_backend_def durations apply_defaults_def
      server_defaults_def backend_defaults_def models_defaults_def ref_default_def rate_defaults_def health_defaults_def
      installed_config_def second_def)

lemma validate_options_ok:
  assumes "validate_options opts = None"
  shows "trim_space (o_listen_addr opts) \<noteq> []" "trim_space (o_database_path opts) \<noteq> []" "trim_space (o_backend_name opts) \<noteq> []"
    "\<exists>u. url_parse (trim_space (o_backend_url opts)) = Some u \<and> u_scheme u \<in> {''http'', ''https''}"
proof -
  obtain u where u: "url_parse (o_backend_url opts) = Some u" "u_scheme u \<in> {''http'', ''https''}"
    using assms by (auto simp: validate_options_def split: if_splits option.splits)
  then have "u_scheme u \<noteq> []" by auto
  then show "\<exists>u. url_parse (trim_space (o_backend_url opts)) = Some u \<and> u_scheme u \<in> {''http'', ''https''}"
    using url_parse_trim [OF u(1)] u(2) by metis
qed (use assms in \<open>auto simp: validate_options_def split: if_splits option.splits\<close>)

lemma validate_installed:
  assumes "validate_options opts = None"
  shows "validate readable (installed_config opts hash) = None"
proof -
  obtain u where u: "url_parse (trim_space (o_backend_url opts)) = Some u" "u_scheme u = ''http'' \<or> u_scheme u = ''https''"
    using validate_options_ok(4) [OF assms] by auto
  then have "has_prefix (u_scheme u) ''http''" "u_scheme u \<noteq> []" by (auto simp: has_prefix_def)
  moreover have "trim_space (o_backend_url opts) \<noteq> []" using assms by (auto simp: validate_options_def split: if_splits)
  ultimately show ?thesis using validate_options_ok(3) [OF assms]
    by (simp add: validate_def validate_tls_def installed_config_def second_def u(1))
qed

text \<open>What a write changes: its directories, and the one file, which after a failure is as it was or has the first bytes of the data.\<close>

lemma mkdir_all_frame:
  "dk_files (snd (mkdir_all ds dk)) = dk_files dk" "set (dk_dirs (snd (mkdir_all ds dk))) \<subseteq> set (dk_dirs dk) \<union> set ds"
  by (induction ds) (auto split: prod.split bool.split)

lemma os_write_file_cases:
  assumes "os_write_file path data dk = (ok, dk')"
  shows "path_clean q \<noteq> path_clean path \<Longrightarrow> read_file dk' q = read_file dk q" "dk_dirs dk' = dk_dirs dk"
    and "ok \<Longrightarrow> read_file dk' path = Some data"
    and "\<not> ok \<Longrightarrow> read_file dk' path = read_file dk path \<or> (\<exists>n. read_file dk' path = Some (take n data))"
  using assms by (auto simp: os_write_file_def read_file_def split: if_splits write_outcome.splits)

lemma write_file_cases:
  assumes "write_file path data dk = (ok, dk')"
  shows "path_clean q \<noteq> path_clean path \<Longrightarrow> read_file dk' q = read_file dk q"
    and "set (dk_dirs dk') \<subseteq> set (dk_dirs dk) \<union> set (dir_chain (path_dir path))"
    and "ok \<Longrightarrow> read_file dk' path = Some data"
    and "\<not> ok \<Longrightarrow> read_file dk' path = read_file dk path \<or> (\<exists>n. read_file dk' path = Some (take n data))"
proof -
  obtain made dk1 where m: "(if path_dir path \<noteq> ''.'' \<and> path_dir path \<noteq> [] then mkdir_all (dir_chain (path_dir path)) dk else (True, dk)) = (made, dk1)"
    by (meson surj_pair)
  have d: "dk_files dk1 = dk_files dk" "set (dk_dirs dk1) \<subseteq> set (dk_dirs dk) \<union> set (dir_chain (path_dir path))"
    using m mkdir_all_frame [of "dir_chain (path_dir path)" dk] by (auto split: if_splits)
  have r: "read_file dk1 p = read_file dk p" for p by (simp add: read_file_def d(1))
  have w: "(if made then os_write_file path data dk1 else (False, dk1)) = (ok, dk')"
    using assms m by (cases made) (simp_all add: write_file_def Let_def)
  note O = os_write_file_cases [of path data dk1 ok dk']
  show "path_clean q \<noteq> path_clean path \<Longrightarrow> read_file dk' q = read_file dk q" using w O(1) [of q] r by (auto split: if_splits)
  show "set (dk_dirs dk') \<subseteq> set (dk_dirs dk) \<union> set (dir_chain (path_dir path))" using w O(2) d(2) by (auto split: if_splits)
  show "ok \<Longrightarrow> read_file dk' path = Some data" using w O(3) by (auto split: if_splits)
  show "\<not> ok \<Longrightarrow> read_file dk' path = read_file dk path \<or> (\<exists>n. read_file dk' path = Some (take n data))"
    using w O(4) r by (auto split: if_splits)
qed

lemma read_file_clean: "path_clean q = path_clean p \<Longrightarrow> read_file dk q = read_file dk p"
  by (simp add: read_file_def)

lemma run_installer_cases:
  assumes "run_installer random marshal opts dk = (e, out, dk')"
  obtains (before) "e \<notin> {None, Some ConfigWriteFailed, Some BootstrapWriteFailed}" "out = []" "dk' = dk"
  | (config) token data where "marshal (build_config opts (hash_api_key token)) = Some data"
      "write_file (o_config_path opts) data dk = (False, dk')" "e = Some ConfigWriteFailed" "out = []"
  | (bootstrap) token data dk1 where "marshal (build_config opts (hash_api_key token)) = Some data"
      "write_file (o_config_path opts) data dk = (True, dk1)"
      "write_file (o_bootstrap_path opts) (build_bootstrap_text opts token) dk1 = (False, dk')" "e = Some BootstrapWriteFailed" "out = []"
  | (success) token data dk1 where "validate_options opts = None" "marshal (build_config opts (hash_api_key token)) = Some data"
      "write_file (o_config_path opts) data dk = (True, dk1)"
      "write_file (o_bootstrap_path opts) (build_bootstrap_text opts token) dk1 = (True, dk')" "e = None"
      "out = ''CONFIG_PATH='' @ o_config_path opts @ [CHR 0x0A] @ ''BOOTSTRAP_PATH='' @ o_bootstrap_path opts @ [CHR 0x0A]"
proof (cases "validate_options opts")
  case (Some a)
  then have "a \<noteq> ConfigWriteFailed" "a \<noteq> BootstrapWriteFailed" by (auto simp: validate_options_def split: if_splits option.splits)
  moreover have "e = Some a" "out = []" "dk' = dk" using assms Some by (simp_all add: run_installer_def)
  ultimately show ?thesis using before by simp
next
  case None
  show ?thesis
  proof (cases "generate_token random 32")
    case (Inl a)
    then have "a \<noteq> ConfigWriteFailed" "a \<noteq> BootstrapWriteFailed" by (auto simp: generate_token_def split: if_splits option.splits)
    moreover have "e = Some a" "out = []" "dk' = dk" using assms None Inl by (simp_all add: run_installer_def)
    ultimately show ?thesis using before by simp
  next
    case (Inr token)
    show ?thesis
    proof (cases "marshal (build_config opts (hash_api_key token))")
      case (Some data)
      then show ?thesis using assms None Inr config bootstrap success
        unfolding run_installer_def by (auto split: prod.splits bool.splits)
    qed (use assms None Inr in \<open>intro before, auto simp: run_installer_def\<close>)
  qed
qed

text \<open>A document that was written completely is loaded, with the hash of the drawn token.\<close>

lemma written_config_loads:
  assumes "validate_options opts = None" "marshal (build_config opts (hash_api_key token)) = Some data"
    and "read_file dk (o_config_path opts) = Some data"
    and "yaml data = read_config (build_config opts (hash_api_key token))"
  shows "\<exists>c. load (read_file dk) yaml (o_config_path opts) = Inr c \<and> config_ok c \<and>
       verify_admin_token (cfg_admin_token_hash c) token \<and> cfg_admin_token_hash c = hash_api_key token \<and>
       map bc_name (cfg_backends c) = [trim_space (o_backend_name opts)] \<and>
       map bc_url (cfg_backends c) = [trim_space (o_backend_url opts)] \<and>
       gm_keys (cfg_models c) = [trim_space (o_model_name opts)] \<and> cfg_database_path c = o_database_path opts"
proof -
  let ?c = "installed_config opts (hash_api_key token)"
  obtain c0 where c0: "yaml data = Some c0" "apply_defaults c0 = ?c"
    using read_build [of opts "hash_api_key token"] assms(4) validate_options_ok(1,2) [OF assms(1)] by auto
  have l: "load (read_file dk) yaml (o_config_path opts) = Inr ?c"
    by (simp add: load_def assms(3) c0 validate_installed [OF assms(1)])
  have "verify_admin_token (cfg_admin_token_hash ?c) token" by (simp add: installed_config_def hash_api_key_def)
  then show ?thesis using config_ok_load [OF l]
    by (intro exI [of _ ?c] conjI l) (simp_all add: installed_config_def gm_keys_def)
qed

text \<open>C37: a successful run of the installer, with different paths for its two files, leaves a configuration that the gateway loads:
  it is well formed, has exactly the backend and the model of the options, and its administrator's token is the one, and
  only in the sense of its hash the one, that the bootstrap text tells; the token is not printed.  A run that fails prints
  nothing.  If it fails before writing, nothing has changed; if the configuration cannot be written, only that file may differ, as it was or
  cut short; if the bootstrap text cannot be written, the configuration is there completely and the text is as it was or
  cut short.  In no case is another file touched, or a directory made that is not on the way to one of the two files.\<close>

theorem installer_config_loads:
  assumes "run_installer random marshal opts dk = (e, out, dk')"
    and "path_clean (o_config_path opts) \<noteq> path_clean (o_bootstrap_path opts)"
    and "\<And>h data. marshal (build_config opts h) = Some data \<Longrightarrow> yaml data = read_config (build_config opts h)"
  shows "(e = None \<longrightarrow> (\<exists>token c. load (read_file dk') yaml (o_config_path opts) = Inr c \<and> config_ok c \<and>
       verify_admin_token (cfg_admin_token_hash c) token \<and> cfg_admin_token_hash c = hash_api_key token \<and>
       read_file dk' (o_bootstrap_path opts) = Some (build_bootstrap_text opts token) \<and>
       map bc_name (cfg_backends c) = [trim_space (o_backend_name opts)] \<and>
       map bc_url (cfg_backends c) = [trim_space (o_backend_url opts)] \<and>
       gm_keys (cfg_models c) = [trim_space (o_model_name opts)] \<and> cfg_database_path c = o_database_path opts \<and>
       out = ''CONFIG_PATH='' @ o_config_path opts @ [CHR 0x0A] @ ''BOOTSTRAP_PATH='' @ o_bootstrap_path opts @ [CHR 0x0A])) \<and>
   (e \<noteq> None \<longrightarrow> out = []) \<and>
   (e \<notin> {None, Some ConfigWriteFailed, Some BootstrapWriteFailed} \<longrightarrow> dk' = dk) \<and>
   (e = Some ConfigWriteFailed \<longrightarrow> read_file dk' (o_bootstrap_path opts) = read_file dk (o_bootstrap_path opts) \<and>
      (read_file dk' (o_config_path opts) = read_file dk (o_config_path opts) \<or>
       (\<exists>token data n. marshal (build_config opts (hash_api_key token)) = Some data \<and> read_file dk' (o_config_path opts) = Some (take n data)))) \<and>
   (e = Some BootstrapWriteFailed \<longrightarrow> (\<exists>token data. marshal (build_config opts (hash_api_key token)) = Some data \<and>
      read_file dk' (o_config_path opts) = Some data \<and>
      (read_file dk' (o_bootstrap_path opts) = read_file dk (o_bootstrap_path opts) \<or>
       (\<exists>n. read_file dk' (o_bootstrap_path opts) = Some (take n (build_bootstrap_text opts token)))))) \<and>
   (\<forall>q. path_clean q \<notin> {path_clean (o_config_path opts), path_clean (o_bootstrap_path opts)} \<longrightarrow> read_file dk' q = read_file dk q) \<and>
   set (dk_dirs dk') \<subseteq> set (dk_dirs dk) \<union> set (dir_chain (path_dir (o_config_path opts))) \<union> set (dir_chain (path_dir (o_bootstrap_path opts)))"
  using assms(1)
proof (cases rule: run_installer_cases)
  case before
  then show ?thesis by auto
next
  case (config token data)
  note W = write_file_cases [OF config(2)]
  have "read_file dk' (o_config_path opts) = read_file dk (o_config_path opts) \<or>
      (\<exists>token data n. marshal (build_config opts (hash_api_key token)) = Some data \<and> read_file dk' (o_config_path opts) = Some (take n data))"
    using W(4) config(1) by blast
  moreover have "read_file dk' (o_bootstrap_path opts) = read_file dk (o_bootstrap_path opts)" using W(1) assms(2) by simp
  ultimately show ?thesis using W(1,2) config(3,4) by auto
next
  case (bootstrap token data dk1)
  note V = write_file_cases [OF bootstrap(2)] and W = write_file_cases [OF bootstrap(3)]
  have "read_file dk' (o_config_path opts) = Some data" using W(1) [of "o_config_path opts"] V(3) assms(2) by simp
  moreover have "read_file dk1 (o_bootstrap_path opts) = read_file dk (o_bootstrap_path opts)"
    using V(1) [of "o_bootstrap_path opts"] assms(2) by simp
  moreover have "set (dk_dirs dk') \<subseteq> set (dk_dirs dk) \<union> set (dir_chain (path_dir (o_config_path opts))) \<union> set (dir_chain (path_dir (o_bootstrap_path opts)))"
    using V(2) W(2) by blast
  moreover have "read_file dk' q = read_file dk q"
    if "path_clean q \<notin> {path_clean (o_config_path opts), path_clean (o_bootstrap_path opts)}" for q
    using V(1) [of q] W(1) [of q] that by simp
  ultimately show ?thesis using W(4) bootstrap(1,4,5) by auto
next
  case (success token data dk1)
  note V = write_file_cases [OF success(3)] and W = write_file_cases [OF success(4)]
  have "read_file dk' (o_config_path opts) = Some data" using W(1) [of "o_config_path opts"] V(3) assms(2) by simp
  note L = written_config_loads [where yaml = yaml and marshal = marshal and token = token, OF success(1,2) this assms(3) [OF success(2)]]
  have "set (dk_dirs dk') \<subseteq> set (dk_dirs dk) \<union> set (dir_chain (path_dir (o_config_path opts))) \<union> set (dir_chain (path_dir (o_bootstrap_path opts)))"
    using V(2) W(2) by blast
  moreover have "read_file dk' q = read_file dk q"
    if "path_clean q \<notin> {path_clean (o_config_path opts), path_clean (o_bootstrap_path opts)}" for q
    using V(1) [of q] W(1) [of q] that by simp
  ultimately show ?thesis using L W(3) success(5,6) by auto
qed

definition sample_options :: options where
  "sample_options = default_options\<lparr>o_backend_name := ''a'', o_backend_url := ''http://h'', o_config_path := ''c'',
     o_bootstrap_path := ''b'', o_database_path := ''d''\<rparr>"

text \<open>A disk with nothing on it that takes everything, and one with an old configuration that is full after the first byte of a new one.\<close>

definition empty_disk :: disk where
  "empty_disk = \<lparr>dk_files = (\<lambda>_. None), dk_dirs = [], dk_mkdir_ok = (\<lambda>_. True), dk_write = (\<lambda>_ _. WritesAll)\<rparr>"

definition full_disk :: disk where
  "full_disk = empty_disk\<lparr>dk_files := [''c'' \<mapsto> ''old configuration''], dk_write := (\<lambda>_ _. WritesPart 1)\<rparr>"

lemma sample_trims: "trim_space ''a'' = ''a''" "trim_space ''b'' = ''b''" "trim_space ''c'' = ''c''" "trim_space ''d'' = ''d''"
    "trim_space ''http://h'' = ''http://h''" "trim_space ''default-model'' = ''default-model''"
    "trim_space ''0.0.0.0:4080'' = ''0.0.0.0:4080''"
  by (simp_all add: trim_space_tight tight_def is_space_def)

lemma sample_paths: "path_clean ''c'' = ''c''" "path_clean ''b'' = ''b''" "path_dir ''c'' = ''.''" "path_dir ''b'' = ''.''"
  by (simp_all add: path_clean_def path_dir_def cut_last_def has_prefix_def)

lemma sample_opts: "o_config_path sample_options = ''c''" "o_bootstrap_path sample_options = ''b''"
  by (simp_all add: sample_options_def default_options_def)

lemma sample_valid: "validate_options sample_options = None"
  using sample_url by (auto simp: validate_options_def sample_options_def default_options_def sample_trims)

lemma installer_sample_run:
  "\<exists>out dk'. run_installer (\<lambda>n. Some (replicate n CHR ''x'')) (\<lambda>g. Some (gc_token_hash g)) sample_options empty_disk = (None, out, dk')"
  by (simp add: run_installer_def sample_valid generate_token_def write_file_def os_write_file_def is_dir_def sample_paths sample_opts Let_def
      empty_disk_def)

theorem installer_config_loads_witness:
  "\<exists>dk' token c. load (read_file dk') (\<lambda>h. read_config (build_config sample_options h)) ''c'' = Inr c \<and>
     verify_admin_token (cfg_admin_token_hash c) token \<and> read_file dk' ''b'' = Some (build_bootstrap_text sample_options token)"
proof -
  obtain out dk' where r: "run_installer (\<lambda>n. Some (replicate n CHR ''x'')) (\<lambda>g. Some (gc_token_hash g)) sample_options empty_disk = (None, out, dk')"
    using installer_sample_run by blast
  have p: "path_clean (o_config_path sample_options) \<noteq> path_clean (o_bootstrap_path sample_options)"
    by (simp add: sample_opts sample_paths)
  have y: "read_config (build_config sample_options data) = read_config (build_config sample_options h)"
    if "Some (gc_token_hash (build_config sample_options h)) = Some data" for h data
    using that by (simp add: build_config_def Let_def)
  note R = installer_config_loads [where yaml = "\<lambda>h. read_config (build_config sample_options h)", OF r p y, THEN conjunct1, THEN mp, OF _ refl]
  show ?thesis using R unfolding sample_opts by blast
qed

text \<open>The old configuration is gone when writing the new one breaks off: the file is emptied first and nothing puts it back.\<close>

lemma failed_write_destroys_config:
  "case run_installer (\<lambda>n. Some (replicate n CHR ''x'')) (\<lambda>g. Some ''new'') sample_options full_disk of
     (e, out, dk') \<Rightarrow> read_file full_disk ''c'' = Some ''old configuration'' \<and> e = Some ConfigWriteFailed \<and> read_file dk' ''c'' = Some ''n''"
  by (simp add: run_installer_def sample_valid generate_token_def write_file_def os_write_file_def is_dir_def read_file_def sample_paths
      sample_opts Let_def empty_disk_def full_disk_def)

text \<open>With one path for both files the bootstrap text replaces the configuration.\<close>

lemma installer_same_path:
  assumes "run_installer random marshal opts dk = (None, out, dk')"
    and "path_clean (o_config_path opts) = path_clean (o_bootstrap_path opts)"
  shows "\<exists>token. read_file dk' (o_config_path opts) = Some (build_bootstrap_text opts token)"
proof -
  obtain token dk1 where "write_file (o_bootstrap_path opts) (build_bootstrap_text opts token) dk1 = (True, dk')"
    using assms(1) unfolding run_installer_def by (auto split: option.splits sum.splits prod.splits bool.splits)
  then show ?thesis using write_file_cases(3) read_file_clean [OF assms(2), of dk'] by auto
qed

end
