(* ===== verification/Serving.thy ===== *)
theory Serving
  imports GatewayProps
begin

text \<open>
  The API as a contract: what a client may rely on, without pools, counters and middleware, and that the
  pipeline of middleware and proxy implements it.  The contract decides in both directions: who is refused with
  which status, and who is served.
\<close>

section \<open>The contract\<close>

datatype verdict = Refuse nat | ForwardTo "backend list"

text \<open>The usable backends among all managed ones, or among the listed ones.\<close>

definition candidates :: "manager \<Rightarrow> string list option \<Rightarrow> backend list" where
  "candidates m listed =
     filter (\<lambda>b. usable b \<and> (case listed of None \<Rightarrow> True | Some ns \<Rightarrow> be_name b \<in> set ns)) (map ((!) (mg_heap m)) (mg_backends m))"

definition offer :: "backend list \<Rightarrow> verdict" where
  "offer bs = (if bs = [] then Refuse 503 else ForwardTo bs)"

definition model_verdict :: "resolver \<Rightarrow> user_overrides \<Rightarrow> string \<Rightarrow> verdict" where
  "model_verdict rv ov model =
     (if model = [] then offer (candidates (rv_manager rv) None)
      else (case gm_get (rv_registry rv) (resolved_name model ov) of
          None \<Rightarrow> Refuse 404
        | Some e \<Rightarrow>
            if resolved_name model ov \<in> normalize_model_name ` set (deny_list ov) then Refuse 403
            else if allow_list ov \<noteq> [] \<and> resolved_name model ov \<notin> normalize_model_name ` set (allow_list ov) then Refuse 403
            else if \<exists>n \<in> set (re_backends e). get_by_name (rv_manager rv) n = None then Refuse 500
            else offer (candidates (rv_manager rv) (Some (re_backends e)))))"

definition api_verdict :: "proxy_env \<Rightarrow> gateway \<Rightarrow> string \<Rightarrow> bool \<Rightarrow> http_request \<Rightarrow> verdict" where
  "api_verdict env g uid passed r =
     (if \<not> passed then Refuse 429
      else (case extract_model_from_request (en_readable env) r of
          None \<Rightarrow> Refuse 400
        | Some model \<Rightarrow>
            model_verdict (gw_resolver g) (overrides_of (en_faults env) (Some (gw_auth g)) (Some (user_context uid))) model))"

section \<open>Pools and candidates\<close>

lemma managed_names: "mgr_ok m \<Longrightarrow> p \<in> set (mg_backends m) \<Longrightarrow> gm_get (mg_by_name m) (be_name (mg_heap m ! p)) = Some p"
  by (simp add: mgr_ok_def)

definition pool_usable :: "manager \<Rightarrow> pool_entry list \<Rightarrow> backend set" where
  "pool_usable m pool = {b. usable b \<and> (\<exists>e \<in> set pool. b = mg_heap m ! pe_backend e)}"

lemma default_pool_candidates:
  assumes "mgr_ok m"
  shows "pool_wf (default_pool m) (mg_heap m)" "pool_usable m (default_pool m) = set (candidates m None)"
proof -
  have "pe_backend e < length (mg_heap m)" if "e \<in> set (default_pool m)" for e
    using that default_pool_addresses [of m] assms by (auto simp: mgr_ok_def)
  with assms show "pool_wf (default_pool m) (mg_heap m)" by (simp add: pool_wf_def default_pool_pointers mgr_ok_def)
  show "pool_usable m (default_pool m) = set (candidates m None)"
    unfolding candidates_def pool_usable_def default_pool_addresses [of m, symmetric] set_filter set_map by auto
qed

lemma listed_pool_candidates:
  assumes "mgr_ok m" and "\<forall>e \<in> set pool. pe_backend e \<in> set (mg_backends m)"
    and "map (\<lambda>e. be_name (mg_heap m ! pe_backend e)) pool = ns"
  shows "pool_usable m pool = set (candidates m (Some ns))"
proof -
  have N: "set ns = (\<lambda>e. be_name (mg_heap m ! pe_backend e)) ` set pool" unfolding assms(3) [symmetric] by simp
  have eq: "p = pe_backend e"
    if "p \<in> set (mg_backends m)" "e \<in> set pool" "be_name (mg_heap m ! p) = be_name (mg_heap m ! pe_backend e)" for p e
  proof -
    have "gm_get (mg_by_name m) (be_name (mg_heap m ! pe_backend e)) = Some (pe_backend e)"
      by (rule managed_names [OF assms(1)]) (use assms(2) that(2) in blast)
    with managed_names [OF assms(1) that(1), unfolded that(3)] show ?thesis by simp
  qed
  show ?thesis
  proof (intro set_eqI iffI)
    fix b assume "b \<in> pool_usable m pool"
    then show "b \<in> set (candidates m (Some ns))" using assms(2) by (auto simp: pool_usable_def candidates_def N)
  next
    fix b assume "b \<in> set (candidates m (Some ns))"
    then obtain p e where b: "usable b" "b = mg_heap m ! p" "p \<in> set (mg_backends m)" "e \<in> set pool"
        "be_name (mg_heap m ! p) = be_name (mg_heap m ! pe_backend e)"
      by (auto simp: candidates_def N)
    then have "b = mg_heap m ! pe_backend e" using eq [OF b(3-5)] by simp
    then show "b \<in> pool_usable m pool" using b(1,4) unfolding pool_usable_def by blast
  qed
qed

text \<open>The pool of a request, against the contract.\<close>

lemma resolve_verdict:
  assumes "mgr_ok (rv_manager (ph_resolver h))"
    and "\<forall>n e. gm_get (rv_registry (ph_resolver h)) n = Some e \<longrightarrow> distinct (re_backends e)"
  shows "(\<exists>e. resolve_backend_pool flt h ctx model = Inl e \<and>
      model_verdict (ph_resolver h) (overrides_of flt (ph_auth h) ctx) model = Refuse (res_status e)) \<or>
    (\<exists>pool bs. resolve_backend_pool flt h ctx model = Inr pool \<and> pool_wf pool (mg_heap (rv_manager (ph_resolver h))) \<and>
      pool_usable (rv_manager (ph_resolver h)) pool = set bs \<and>
      model_verdict (ph_resolver h) (overrides_of flt (ph_auth h) ctx) model = offer bs)"
proof (cases "model = []")
  case True
  then show ?thesis using default_pool_candidates [OF assms(1)] by (auto simp: resolve_backend_pool_def model_verdict_def)
next
  case False
  let ?rv = "ph_resolver h" and ?ov = "overrides_of flt (ph_auth h) ctx"
  let ?n = "resolved_name model ?ov"
  let ?refs = "\<lambda>bns. map (\<lambda>bn. \<lparr>ref_backend = bn, ref_weight = ref_weight_for (rv_weights ?rv) ?n bn\<rparr>) bns"
  have p: "resolve_backend_pool flt h ctx model = resolve model ?ov ?rv" using False by (simp add: resolve_backend_pool_def)
  show ?thesis
  proof (cases "resolve model ?ov ?rv")
    case (Inr pool)
    from resolve_pool [OF assms Inr] obtain e where e: "gm_get (rv_registry ?rv) ?n = Some e"
        "?n \<notin> normalize_model_name ` set (deny_list ?ov)"
        "allow_list ?ov = [] \<or> ?n \<in> normalize_model_name ` set (allow_list ?ov)" "pool_wf pool (mg_heap (rv_manager ?rv))"
        "map (\<lambda>x. be_name (mg_heap (rv_manager ?rv) ! pe_backend x)) pool = re_backends e" by blast
    have m: "\<forall>x \<in> set pool. pe_backend x \<in> set (mg_backends (rv_manager ?rv))" using resolve_managed [OF assms Inr] by blast
    have k: "\<not> (\<exists>n \<in> set (re_backends e). get_by_name (rv_manager ?rv) n = None)"
      using m managed_names [OF assms(1)] unfolding e(5) [symmetric] by (auto simp: get_by_name_def)
    have "model_verdict ?rv ?ov model = offer (candidates (rv_manager ?rv) (Some (re_backends e)))"
      using e(1-3) k False by (auto simp: model_verdict_def)
    then show ?thesis using p Inr e(4) listed_pool_candidates [OF assms(1) m e(5)]
      by (intro disjI2 exI [of _ pool] exI [of _ "candidates (rv_manager ?rv) (Some (re_backends e))"]) simp
  next
    case (Inl err)
    have "model_verdict ?rv ?ov model = Refuse (res_status err)"
    proof (cases "resolve_model model (rv_registry ?rv) ?ov")
      case (Inl x)
      then have x: "err = x" using \<open>resolve model ?ov ?rv = Inl err\<close> by (simp add: resolve_def)
      from Inl have st: "res_status x = (if gm_get (rv_registry ?rv) ?n = None then 404 else 403)"
        by (auto simp: resolve_model_def Let_def registry_get_def model_not_found_def model_denied_def model_not_allowed_def
            split: option.splits if_splits)
      have "?n \<in> normalize_model_name ` set (deny_list ?ov) \<or> allow_list ?ov \<noteq> [] \<and> ?n \<notin> normalize_model_name ` set (allow_list ?ov)"
        if "gm_get (rv_registry ?rv) ?n = Some e" for e
        using Inl that resolve_model_Inr [of model "rv_registry ?rv" ?ov ?n "re_backends e"] by auto
      then show ?thesis using False st x by (auto simp: model_verdict_def simp del: not_None_eq split: option.split)
    next
      case (Inr y)
      then obtain e where e: "y = (?n, re_backends e)" "gm_get (rv_registry ?rv) ?n = Some e"
          "?n \<notin> normalize_model_name ` set (deny_list ?ov)" "allow_list ?ov = [] \<or> ?n \<in> normalize_model_name ` set (allow_list ?ov)"
        by (cases y) (auto simp: resolve_model_Inr)
      have s: "res_status err = 500" "\<not> (\<exists>es. pool_entries (rv_manager ?rv) (?refs (re_backends e)) = Inr es)"
        using \<open>resolve model ?ov ?rv = Inl err\<close> Inr e(1)
        by (auto simp: resolve_def pool_for_model_def split: sum.splits)
      then have "\<exists>n \<in> set (re_backends e). get_by_name (rv_manager ?rv) n = None"
        unfolding pool_entries_error by (auto simp: get_by_name_def)
      then show ?thesis using e(2-4) False s(1) by (auto simp: model_verdict_def)
    qed
    then show ?thesis using p \<open>resolve model ?ov ?rv = Inl err\<close> by simp
  qed
qed

section \<open>The answer passes through\<close>

lemma reverse_proxy_same: "be_url b = be_url b' \<Longrightarrow> be_headers b = be_headers b' \<Longrightarrow> reverse_proxy_request b r = reverse_proxy_request b' r"
  by (simp add: reverse_proxy_request_def director_def)

lemma modify_whole: "modify_response path chunks True sri = (cs, w, sri') \<Longrightarrow> concat cs = concat chunks \<and> w"
  by (auto simp: modify_response_def Let_def split: if_splits)

lemma run_proxy_answer:
  assumes "ph_logger h" and "en_upstream env (reverse_proxy_request b r) = UpstreamReply code hs chunks True" and "en_client_stays env"
  shows "pr_response (run_proxy env h ac r model b) = \<lparr>rs_status = code, rs_headers = remove_hop_headers hs, rs_body = concat chunks\<rparr>"
    "\<exists>u. pr_record (run_proxy env h ac r model b) = Some u \<and> us_key u = ac_key_id ac \<and> us_model u = model \<and> us_backend u = url_string (be_url b)"
  using assms by (auto simp: run_proxy_def Let_def log_usage_def dest: modify_whole split: prod.split)

section \<open>The pipeline keeps the contract\<close>

text \<open>What the client sees of a request that was refused, and of one that went to a backend.\<close>

definition refused_with :: "nat \<Rightarrow> api_outcome \<Rightarrow> bool" where
  "refused_with code a \<longleftrightarrow> rs_status (ao_response a) = code \<and> ao_sent a = None \<and> ao_record a = None"

definition served_by :: "backend \<Rightarrow> proxy_env \<Rightarrow> http_request \<Rightarrow> string \<Rightarrow> api_outcome \<Rightarrow> bool" where
  "served_by b env r uid a \<longleftrightarrow> ao_sent a = Some (reverse_proxy_request b r) \<and>
     (\<forall>code hs chunks. en_upstream env (reverse_proxy_request b r) = UpstreamReply code hs chunks True \<longrightarrow> en_client_stays env \<longrightarrow>
        ao_response a = \<lparr>rs_status = code, rs_headers = remove_hop_headers hs, rs_body = concat chunks\<rparr> \<and>
        (\<exists>u. ao_record a = Some u \<and> us_key u = uid \<and> us_backend u = url_string (be_url b) \<and>
           extract_model_from_request (en_readable env) r = Some (us_model u)))"

definition keeps_verdict :: "verdict \<Rightarrow> proxy_env \<Rightarrow> http_request \<Rightarrow> string \<Rightarrow> api_outcome \<Rightarrow> bool" where
  "keeps_verdict v env r uid a \<longleftrightarrow>
     (case v of
        Refuse code \<Rightarrow> refused_with code a
      | ForwardTo bs \<Rightarrow> (\<exists>b \<in> set bs. if can_reach_backend (en_dial env) b then served_by b env r uid a else refused_with 502 a))"

definition proxy_outcome :: "proxy_result \<Rightarrow> api_outcome" where
  "proxy_outcome res = \<lparr>ao_response = pr_response res, ao_sent = pr_sent res, ao_record = pr_record res\<rparr>"

lemma answered_refused: "rs_status resp = code \<Longrightarrow> refused_with code (proxy_outcome (answered h resp))"
  by (simp add: refused_with_def proxy_outcome_def answered_def)

lemma error_status: "rs_status (write_json_error code msg) = code"
  by (simp add: write_json_error_def)

lemma run_proxy_served:
  assumes "ph_logger h" and "be_url b' = be_url b" and "be_headers b' = be_headers b"
    and "extract_model_from_request (en_readable env) r = Some model"
  shows "served_by b env r (ac_key_id ac) (proxy_outcome (run_proxy env h ac r model b'))"
proof -
  have q: "reverse_proxy_request b' r = reverse_proxy_request b r" by (rule reverse_proxy_same [OF assms(2,3)])
  show ?thesis
    using run_proxy_answer [OF assms(1), where b = b' and r = r and ac = ac and model = model and env = env] assms(4)
    unfolding served_by_def proxy_outcome_def q assms(2) by (auto simp: run_proxy_sent q)
qed

lemma pool_keeps_verdict:
  assumes "ph_logger h" and "extract_model_from_request (en_readable env) r = Some model"
    and "resolve_backend_pool (en_faults env) h (Some ac) model = Inr pool"
    and "pool_wf pool (mg_heap (rv_manager (ph_resolver h)))" and "no_overflow pool (mg_heap (rv_manager (ph_resolver h))) 0"
    and "pool_usable (rv_manager (ph_resolver h)) pool = set bs"
  shows "keeps_verdict (offer bs) env r (ac_key_id ac) (proxy_outcome (proxy_serve env h (Some ac) r))"
proof -
  let ?heap = "mg_heap (rv_manager (ph_resolver h))"
  let ?h = "\<lambda>heap. h\<lparr>ph_resolver := (ph_resolver h)\<lparr>rv_manager := (rv_manager (ph_resolver h))\<lparr>mg_heap := heap\<rparr>\<rparr>\<rparr>"
  let ?us = "usable_shares pool ?heap"
  have us: "?us = [] \<longleftrightarrow> bs = []"
  proof -
    have "?us = [] \<longleftrightarrow> pool_usable (rv_manager (ph_resolver h)) pool = {}"
      by (auto simp: usable_shares_def pool_usable_def filter_empty_conv)
    then show ?thesis by (simp add: assms(6))
  qed
  show ?thesis
  proof (cases "bs = []")
    case True
    then have "select pool ?heap = (None, ?heap)" using us select_none [OF assms(4)] by simp
    then have "proxy_serve env h (Some ac) r = answered (?h ?heap) (write_json_error 503 (no_backend_message model))"
      by (simp add: proxy_serve_def assms(2,3) Let_def)
    then show ?thesis by (simp add: keeps_verdict_def offer_def True answered_refused error_status)
  next
    case False
    then obtain q heap where q: "select pool ?heap = (Some q, heap)" "q \<in> fst ` set ?us"
      using us select_some [OF assms(4,5)] swrr_pick_in by blast
    then obtain x where x: "x \<in> set pool" "pe_backend x = q" "usable (?heap ! q)" by (auto simp: usable_shares_def)
    have b: "?heap ! q \<in> set bs" unfolding assms(6) [symmetric] pool_usable_def using x by blast
    have "same_but_current ?heap heap" using select_same(1) [of ?heap pool] q(1) by simp
    note D = same_but_currentD [OF this, of q]
    have reach: "can_reach_backend (en_dial env) (heap ! q) = can_reach_backend (en_dial env) (?heap ! q)"
      by (simp add: can_reach_backend_def D(1))
    have "proxy_serve env h (Some ac) r =
        (if can_reach_backend (en_dial env) (?heap ! q) then run_proxy env (?h heap) ac r model (heap ! q)
         else answered (?h heap) (write_json_error 502 ''upstream backend request failed''))"
      by (simp add: proxy_serve_def assms(2,3) q(1) Let_def reach)
    then have k: "if can_reach_backend (en_dial env) (?heap ! q)
        then served_by (?heap ! q) env r (ac_key_id ac) (proxy_outcome (proxy_serve env h (Some ac) r))
        else refused_with 502 (proxy_outcome (proxy_serve env h (Some ac) r))"
      using run_proxy_served [of "?h heap" "heap ! q" "?heap ! q" env r model ac] assms(1,2) D(1,2)
      by (simp add: answered_refused error_status)
    show ?thesis unfolding keeps_verdict_def offer_def if_not_P [OF False] verdict.case
      by (rule bexI [of _ "?heap ! q"], rule k, rule b)
  qed
qed

lemma proxy_keeps_verdict:
  assumes "mgr_ok (rv_manager (ph_resolver h))"
    and "\<forall>n e. gm_get (rv_registry (ph_resolver h)) n = Some e \<longrightarrow> distinct (re_backends e)" and "ph_logger h"
    and "\<forall>pool. resolve_backend_pool (en_faults env) h (Some ac) model = Inr pool \<longrightarrow>
       no_overflow pool (mg_heap (rv_manager (ph_resolver h))) 0"
    and "extract_model_from_request (en_readable env) r = Some model"
  shows "keeps_verdict (model_verdict (ph_resolver h) (overrides_of (en_faults env) (ph_auth h) (Some ac)) model) env r (ac_key_id ac)
    (proxy_outcome (proxy_serve env h (Some ac) r))"
  using resolve_verdict [OF assms(1,2), of "en_faults env" "Some ac" model]
proof (elim disjE exE conjE)
  fix e assume "resolve_backend_pool (en_faults env) h (Some ac) model = Inl e"
    "model_verdict (ph_resolver h) (overrides_of (en_faults env) (ph_auth h) (Some ac)) model = Refuse (res_status e)"
  then show ?thesis by (simp add: keeps_verdict_def proxy_serve_def assms(5) answered_refused error_status)
next
  fix pool bs assume "resolve_backend_pool (en_faults env) h (Some ac) model = Inr pool"
    "pool_wf pool (mg_heap (rv_manager (ph_resolver h)))" "pool_usable (rv_manager (ph_resolver h)) pool = set bs"
    "model_verdict (ph_resolver h) (overrides_of (en_faults env) (ph_auth h) (Some ac)) model = offer bs"
  then show ?thesis using pool_keeps_verdict [OF assms(3,5)] assms(4) by simp
qed

section \<open>Properties\<close>

lemma lookup_first_fault: "\<not> flt 0 \<Longrightarrow> lookup_api_key flt st raw = lookup_api_key no_faults st raw"
  by (simp add: lookup_api_key_def split: option.split)

lemma denied_status: "refused_with code (api_denied resp) \<longleftrightarrow> rs_status resp = code"
  by (simp add: refused_with_def api_denied_def)

text \<open>C3: the API pipeline implements its contract, in both directions and with the exact status.  A request whose key is missing or
  accepted by no enabled row and no YAML user, or whose key cannot be looked up, is refused with 401.
  Otherwise one of the users that accept the key is charged: 429 when that user's rate limit does not grant the
  request, 400 for a body without a readable model, 404 for an unknown model, 403 for one that the user is denied or not
  allowed, 500 when the catalog names an unknown backend, 503 when no backend of the model is usable; and every
  other request is forwarded to a usable backend of the model, whose complete answer reaches the client
  unchanged but for hop-by-hop headers and is recorded for that user, or is refused with 502 when that backend
  accepts no connection.\<close>

theorem api_keeps_contract:
  assumes "gateway_ok kp px g"
    and "\<forall>uid model pool. resolve_backend_pool (en_faults env) (gw_proxy g) (Some (user_context uid)) model = Inr pool \<longrightarrow>
       no_overflow pool (mg_heap (rv_manager (gw_resolver g))) 0"
    and "serve_api fk fl now env g r = (a, g')"
  shows "if api_key_from_request r = [] \<or> fk 0 \<or>
      (\<forall>v. \<not> row_accepts (gw_auth g) (api_key_from_request r) v \<and> \<not> yaml_accepts (gw_auth g) (api_key_from_request r) v)
    then refused_with 401 a
    else \<exists>uid. (row_accepts (gw_auth g) (api_key_from_request r) uid \<or> yaml_accepts (gw_auth g) (api_key_from_request r) uid) \<and>
      keeps_verdict (api_verdict env g uid (fst (fst (store_allow fl now (gw_limiter_store g) uid))) r) env r uid a"
proof (cases "lookup_api_key fk (gw_auth g) (api_key_from_request r) = None \<or> api_key_from_request r = []")
  case True
  have "api_key_from_request r = [] \<or> fk 0 \<or> (\<forall>v. \<not> row_accepts (gw_auth g) (api_key_from_request r) v \<and>
      \<not> yaml_accepts (gw_auth g) (api_key_from_request r) v)"
    using True lookup_first_fault [of fk] lookup_complete by metis
  moreover have "refused_with 401 a"
    using True assms(3) by (auto simp: serve_api_def auth_middleware_def Let_def denied_status split: option.splits if_splits)
  ultimately show ?thesis by simp
next
  case False
  then obtain k where k: "lookup_api_key fk (gw_auth g) (api_key_from_request r) = Some k" and key: "api_key_from_request r \<noteq> []" by auto
  note L = lookup_sound [OF k]
  have "\<not> fk 0" using k by (auto simp: lookup_api_key_def gw_auth_def)
  let ?uid = "ak_id k" and ?h = "gw_proxy g"
  have ctx: "\<lparr>ac_key_id = ak_id k, ac_key_name = ak_name k, ac_is_admin = ak_is_admin k\<rparr> = user_context ?uid"
    using L by (simp add: user_context_def)
  have id: "ac_key_id (user_context ?uid) = ?uid" by (simp add: user_context_def)
  obtain ok w s where l: "store_allow fl now (gw_limiter_store g) ?uid = ((ok, w), s)" by (metis prod.collapse)
  have "keeps_verdict (api_verdict env g ?uid ok r) env r ?uid a"
  proof (cases ok)
    case False
    then have "refused_with 429 a"
      using assms(3) k key l
      by (auto simp: serve_api_def auth_middleware_def Let_def ctx rate_middleware_def id denied_status)
    then show ?thesis by (simp add: api_verdict_def False keeps_verdict_def)
  next
    case True
    have a: "a = proxy_outcome (proxy_serve env ?h (Some (user_context ?uid)) r)"
      using assms(3) k key l True by (simp add: serve_api_def auth_middleware_def Let_def ctx rate_middleware_def id proxy_outcome_def)
    show ?thesis
    proof (cases "extract_model_from_request (en_readable env) r")
      case None
      then show ?thesis
        by (simp add: api_verdict_def True keeps_verdict_def a proxy_serve_def answered_refused error_status)
    next
      case (Some model)
      have ok: "mgr_ok (rv_manager (ph_resolver ?h))" "ph_logger ?h"
          "\<forall>n e. gm_get (rv_registry (ph_resolver ?h)) n = Some e \<longrightarrow> distinct (re_backends e)"
        using assms(1) by (simp_all add: gateway_ok_def resolver_ok_def registry_ok_def gw_proxy_def)
      have "\<forall>pool. resolve_backend_pool (en_faults env) ?h (Some (user_context ?uid)) model = Inr pool \<longrightarrow>
          no_overflow pool (mg_heap (rv_manager (ph_resolver ?h))) 0"
        using assms(2) by (simp add: gw_proxy_def)
      from proxy_keeps_verdict [OF ok(1,3,2) this Some]
      show ?thesis unfolding a id by (simp add: api_verdict_def True Some) (simp add: gw_proxy_def)
    qed
  qed
  then show ?thesis using L key \<open>\<not> fk 0\<close> l by auto
qed

section \<open>A request of the sample gateway\<close>

lemma alice_overrides: "overrides_of no_faults (Some (gw_auth sample_gateway)) (Some (user_context ''alice'')) = from_user_config None"
  by (simp add: overrides_of_def gw_auth_def sample_gateway_def get_user_config_def user_context_def
      from_user_config_def row_user_config_def)

lemma unlimited: "allow_list (from_user_config None) = []" "deny_list (from_user_config None) = []"
  by (simp_all add: from_user_config_def)

lemma alice_resolves: "resolved_name ''m'' (from_user_config None) = ''m''"
  by (simp add: from_user_config_def resolved_name_plain no_alias_def)

lemma sample_gateway_parts: "gw_resolver sample_gateway = sample_resolver" "ph_resolver (gw_proxy sample_gateway) = sample_resolver"
    "rv_manager sample_resolver = sample_manager" "rv_registry sample_resolver = sample_registry" "rv_weights sample_resolver = []"
  by (simp_all add: gw_proxy_def sample_gateway_def sample_resolver_def)

lemma alice_verdict: "api_verdict sample_env sample_gateway ''alice'' True keyed_request = ForwardTo [sample_backend ''b'' 1]"
proof -
  have c: "candidates sample_manager (Some [''b'']) = [sample_backend ''b'' 1]"
    by (simp add: candidates_def sample_manager_def usable_def is_healthy_def sample_backend_def)
  have r: "gm_get sample_registry ''m'' = Some \<lparr>re_name = ''M'', re_backends = [''b'']\<rparr>"
    by (simp add: sample_registry_def gm_get_Cons)
  have e: "en_readable sample_env = True" "en_faults sample_env = no_faults" by (simp_all add: sample_env_def)
  have k: "get_by_name sample_manager ''b'' \<noteq> None" by (simp add: get_by_name_def sample_manager_def gm_get_Cons)
  have "model_verdict sample_resolver (from_user_config None) ''m'' = ForwardTo [sample_backend ''b'' 1]"
    using k by (simp add: model_verdict_def sample_gateway_parts alice_resolves r unlimited c offer_def del: not_None_eq)
  then show ?thesis by (simp add: api_verdict_def e keyed_request_model alice_overrides sample_gateway_parts)
qed

text \<open>The weights of the sample backends are far from the bound.\<close>

lemma sample_no_overflow:
  assumes "resolve_backend_pool flt (gw_proxy sample_gateway) ctx model = Inr pool"
  shows "no_overflow pool (mg_heap sample_manager) 0"
proof -
  let ?h = "gw_proxy sample_gateway"
  consider "pool = default_pool sample_manager"
    | ov where "resolve model ov sample_resolver = Inr pool"
    using assms by (auto simp: resolve_backend_pool_def sample_gateway_parts split: if_splits)
  then show ?thesis
  proof cases
    case 1
    then show ?thesis
      by (simp add: default_pool_def new_pool_def Let_def sample_manager_def sample_backend_def no_overflow_def usable_shares_def
          usable_def is_healthy_def weight_sum_def currents_def)
  next
    case 2
    then obtain n bns where r: "resolve_model model sample_registry ov = Inr (n, bns)"
      by (auto simp: resolve_def bind_res_Inr_iff sample_gateway_parts)
    then have "bns = [''b'']" by (auto simp: resolve_model_Inr sample_registry_def gm_get_Cons split: if_splits)
    with 2 r have "pool = [\<lparr>pe_backend = 1, pe_weight = 1\<rparr>]"
      by (auto simp: resolve_def sample_gateway_parts pool_for_model_def sample_manager_def gm_get_Cons ref_weight_for_def
          default_model_weight_def new_pool_def Let_def)
    then show ?thesis
      by (simp add: sample_manager_def sample_backend_def no_overflow_def usable_shares_def usable_def is_healthy_def weight_sum_def
          currents_def)
  qed
qed

lemma alice_alone:
  "row_accepts (gw_auth sample_gateway) ''k'' v \<or> yaml_accepts (gw_auth sample_gateway) ''k'' v \<longleftrightarrow> v = ''alice''"
  by (auto simp: row_accepts_def yaml_accepts_def as_users_def gw_auth_def sample_gateway_def)

theorem api_keeps_contract_witness:
  "\<exists>a g'. serve_api no_faults no_faults 0 sample_env sample_gateway keyed_request = (a, g') \<and>
     rs_status (ao_response a) = 200 \<and> rs_body (ao_response a) = sample_stream \<and> (\<exists>u. ao_record a = Some u \<and> us_key u = ''alice'')"
proof -
  obtain a g' where s: "serve_api no_faults no_faults 0 sample_env sample_gateway keyed_request = (a, g')" by fastforce
  have l: "fst (fst (store_allow no_faults 0 (gw_limiter_store sample_gateway) ''alice''))"
    by (simp add: store_allow_def gw_limiter_store_def sample_gateway_def backend_allow_def redis_allow_def split: prod.split)
  have e: "en_client_stays sample_env" "en_upstream sample_env q = UpstreamReply 200 [] [sample_stream] True"
      "can_reach_backend (en_dial sample_env) b" for q b
    by (simp_all add: sample_env_def can_reach_backend_def Let_def)
  have "keeps_verdict (api_verdict sample_env sample_gateway ''alice'' True keyed_request) sample_env keyed_request ''alice'' a"
  proof -
    have nov: "\<forall>uid model pool. resolve_backend_pool (en_faults sample_env) (gw_proxy sample_gateway) (Some (user_context uid)) model = Inr pool \<longrightarrow>
        no_overflow pool (mg_heap (rv_manager (gw_resolver sample_gateway))) 0"
      using sample_no_overflow by (simp add: sample_gateway_parts)
    have c: "\<not> (''k'' = [] \<or> no_faults 0 \<or> (\<forall>v. \<not> row_accepts (gw_auth sample_gateway) ''k'' v \<and> \<not> yaml_accepts (gw_auth sample_gateway) ''k'' v))"
      using alice_alone by auto
    from api_keeps_contract [OF sample_gateway_ok nov s, unfolded keyed_request_key, unfolded if_not_P [OF c] alice_alone]
    show ?thesis using l by simp
  qed
  then show ?thesis using s by (auto simp: alice_verdict keeps_verdict_def served_by_def e)
qed

end
