(* ===== verification/System.thy ===== *)
theory System
  imports GatewayProps DashBackends
begin

text \<open>
  cmd/gateway/main.go: the running process as a whole.  The gateway of theory Gateway and the dashboard
  are wired together as main does it: they share the configuration, the database and the backend manager, the
  dashboard shows the first certificate manager, and its two callbacks are the resolver's \<open>RefreshCatalog\<close>
  and the proxy's \<open>SetPricingConfig\<close>.  A request goes through the routes to the API pipeline or to the
  dashboard.
\<close>

section \<open>Wiring\<close>

text \<open>\<open>sy_dash\<close> holds the fields that only the dashboard has; its copies of the shared ones are not used.\<close>

record system =
  sy_gw :: gateway
  sy_dash :: dash

definition shared_manager :: "gateway \<Rightarrow> manager" where
  "shared_manager g = rv_manager (gw_resolver g)"

definition first_tls_manager :: "gateway \<Rightarrow> tls_manager option" where
  "first_tls_manager g = map_option (\<lambda>p. cp_heap p ! 0) (gw_tls g)"

text \<open>\<open>NewHandler\<close> and the setters, in main's order.\<close>

definition new_system :: "gateway \<Rightarrow> system" where
  "new_system g =
     \<lparr>sy_gw = g,
      sy_dash = set_model_runtime_refreshers True True
        (set_model_catalog (Some (gw_catalog g))
          (set_tls_manager (first_tls_manager g)
            (set_manager_of (Some (shared_manager g)) (new_handler (gw_cfg g) (Some (gw_db g))))))\<rparr>"

text \<open>The dashboard as a request finds it.\<close>

definition dash_view :: "system \<Rightarrow> dash" where
  "dash_view s = (sy_dash s)\<lparr>dh_cfg := gw_cfg (sy_gw s), dh_db := Some (gw_db (sy_gw s)),
     dh_manager := Some (shared_manager (sy_gw s)), dh_tls := first_tls_manager (sy_gw s),
     dh_catalogs_given := Some [], dh_prices_given := Some []\<rparr>"

text \<open>What the request did to the shared state, the calls of the two callbacks in their order.\<close>

definition commit :: "dash \<Rightarrow> system \<Rightarrow> system" where
  "commit h s =
     (let g = sy_gw s;
          mgr = (case dh_manager h of Some m \<Rightarrow> m | None \<Rightarrow> shared_manager g);
          catalogs = (case dh_catalogs_given h of Some cs \<Rightarrow> rev cs | None \<Rightarrow> []);
          prices = (case dh_prices_given h of Some ps \<Rightarrow> rev ps | None \<Rightarrow> [])
      in \<lparr>sy_gw = g\<lparr>gw_cfg := dh_cfg h, gw_db := (case dh_db h of Some d \<Rightarrow> d | None \<Rightarrow> gw_db g),
             gw_resolver := fold refresh_catalog catalogs ((gw_resolver g)\<lparr>rv_manager := mgr\<rparr>),
             gw_pricing := fold (\<lambda>p _. p) prices (gw_pricing g)\<rparr>,
          sy_dash = h\<rparr>)"

definition serve_admin :: "dash_env \<Rightarrow> http_request \<Rightarrow> system \<Rightarrow> reply \<times> system" where
  "serve_admin env r s = (case serve_dashboard env r (dash_view s) of (rep, h) \<Rightarrow> (rep, commit h s))"

section \<open>Requests\<close>

record request_env =
  re_key_faults :: faults
  re_limit_faults :: faults
  re_now :: int
  re_proxy :: proxy_env
  re_dash :: dash_env

datatype answer = ApiAnswer api_outcome | AdminAnswer reply | MovedTo string | PageNotFound

definition serve :: "request_env \<Rightarrow> http_request \<Rightarrow> system \<Rightarrow> answer \<times> system" where
  "serve e r s =
     (case mux_route (rq_path r) of
        RouteApi \<Rightarrow>
          (case serve_api (re_key_faults e) (re_limit_faults e) (re_now e) (re_proxy e) (sy_gw s) r of
             (a, g) \<Rightarrow> (ApiAnswer a, s\<lparr>sy_gw := g\<rparr>))
      | RouteAdmin \<Rightarrow> (case serve_admin (re_dash e) r s of (rep, s') \<Rightarrow> (AdminAnswer rep, s'))
      | RouteRedirect p \<Rightarrow> (MovedTo p, s)
      | RouteNotFound \<Rightarrow> (PageNotFound, s))"

section \<open>The process\<close>

text \<open>
  The steps of the running process: a request, a step of the gateway's background work (the configuration
  watcher and SIGHUP, the health checker, the certificate watchers, the usage logger), or a step of a download's goroutine.
\<close>

inductive system_step ::
  "(string \<Rightarrow> config option) \<Rightarrow> key_pair_parser \<Rightarrow> cert_parser
     \<Rightarrow> watcher_phase \<times> apply_error reloader \<times> system \<Rightarrow> watcher_phase \<times> apply_error reloader \<times> system \<Rightarrow> bool"
  for yaml kp px where
  sys_request: "serve e r s = (a, s') \<Longrightarrow> system_step yaml kp px (p, rl, s) (p, rl, s')"
| sys_background: "gateway_step yaml kp px (p, rl, sy_gw s) (p', rl', g') \<Longrightarrow>
    system_step yaml kp px (p, rl, s) (p', rl', s\<lparr>sy_gw := g'\<rparr>)"
| sys_pull: "pulls_step (dh_pulls (sy_dash s)) q \<Longrightarrow>
    system_step yaml kp px (p, rl, s) (p, rl, s\<lparr>sy_dash := (sy_dash s)\<lparr>dh_pulls := q\<rparr>\<rparr>)"

inductive_cases system_stepE: "system_step yaml kp px (p, rl, s) (p', rl', s')"

end
