(* ===== verification/SystemInv.thy ===== *)
theory SystemInv
  imports System
begin

text \<open>
  The invariant of the whole process: no form of the dashboard, whatever it contains and whatever
  statements fail, breaks the schema, the user table, the manager, the download job or what the
  resolver is given, or touches a setting that needs a restart.
\<close>

section \<open>The dashboard's part\<close>

definition dash_inv :: "dash \<Rightarrow> bool" where
  "dash_inv h \<longleftrightarrow> dh_db h \<noteq> None \<and> auth_ok (dash_auth h) \<and> gm_ok (pricing_models (cfg_pricing (dh_cfg h))) \<and>
     (\<exists>m. dh_manager h = Some m \<and> mgr_ok m) \<and> pulls_ok (dh_pulls h) \<and>
     (\<exists>cs. dh_catalogs_given h = Some cs \<and> (\<forall>c \<in> set cs. catalog_distinct c)) \<and> dh_prices_given h \<noteq> None"

text \<open>What the dashboard never changes of the configuration.\<close>

definition fixed_settings :: "config \<Rightarrow> server_config \<times> string \<times> rate_limiting_config \<times> string \<times> health_check_config" where
  "fixed_settings c = (cfg_server c, cfg_admin_token_hash c, cfg_rate_limit c, cfg_database_path c, cfg_health c)"

definition keeps :: "dash \<Rightarrow> dash \<Rightarrow> bool" where
  "keeps h h' \<longleftrightarrow> fixed_settings (dh_cfg h') = fixed_settings (dh_cfg h) \<and> (dh_db h \<noteq> None \<longrightarrow> dh_db h' \<noteq> None) \<and>
     (dash_inv h \<longrightarrow> dash_inv h')"

named_theorems keep_intros "operations that keep the dashboard's invariant"

lemma keeps_refl [simp, keep_intros]: "keeps h h"
  by (simp add: keeps_def)

lemma keeps_trans: "keeps h h' \<Longrightarrow> keeps h' h'' \<Longrightarrow> keeps h h''"
  by (auto simp: keeps_def)

lemma keeps_private [simp, keep_intros]:
  "keeps h (h\<lparr>dh_bm := x\<rparr>)" "keeps h (h\<lparr>dh_disabled := y\<rparr>)" "keeps h (h\<lparr>dh_ops := z\<rparr>)" "keeps h (h\<lparr>dh_models := u\<rparr>)"
  by (auto simp: keeps_def dash_inv_def dash_auth_def)

lemma keeps_config [keep_intros]:
  "keeps h (put_models f h)" "keeps h (put_backends g h)"
  by (auto simp: keeps_def dash_inv_def dash_auth_def auth_ok_def as_users_def put_models_def put_backends_def fixed_settings_def)

lemma keeps_prices [keep_intros]:
  "(\<And>m. gm_ok m \<Longrightarrow> gm_ok (f m)) \<Longrightarrow> keeps h (put_prices f h)"
  by (auto simp: keeps_def dash_inv_def dash_auth_def auth_ok_def as_users_def put_prices_def fixed_settings_def)

lemma keeps_db:
  "dh_db h = Some d \<Longrightarrow> (db_ok d \<Longrightarrow> db_ok d') \<Longrightarrow> keeps h (h\<lparr>dh_db := Some d'\<rparr>)"
  by (auto simp: keeps_def dash_inv_def dash_auth_def auth_ok_def as_users_def)

lemma keeps_manager:
  "dh_manager h = Some m \<Longrightarrow> (mgr_ok m \<Longrightarrow> mgr_ok m') \<Longrightarrow> keeps h (h\<lparr>dh_manager := Some m'\<rparr>)"
  by (auto simp: keeps_def dash_inv_def dash_auth_def)

lemma keeps_pulls: "pulls_step (dh_pulls h) q \<Longrightarrow> keeps h (h\<lparr>dh_pulls := q\<rparr>)"
  by (auto simp: keeps_def dash_inv_def dash_auth_def intro: pulls_step_ok)

lemma keeps_runtime [keep_intros]: "catalog_distinct c \<Longrightarrow> keeps h (refresh_runtime c h)"
  by (auto simp: keeps_def dash_inv_def dash_auth_def refresh_runtime_def)

section \<open>Pages\<close>

lemma keeps_aged [simp]: "keeps h h1 \<Longrightarrow> keeps h (age_job env h1)"
  by (erule keeps_trans) (auto simp: age_job_def intro!: keeps_pulls look)

lemma keeps_ensured [simp]: "keeps h h1 \<Longrightarrow> keeps h (ensure_bm env h1)"
  by (erule keeps_trans) (auto simp: ensure_bm_def split: option.split)

section \<open>Users\<close>

definition auth_keeps :: "auth_store \<Rightarrow> auth_store \<Rightarrow> bool" where
  "auth_keeps st st' \<longleftrightarrow> (auth_ok st \<longrightarrow> auth_ok st') \<and> (as_db st \<noteq> None \<longrightarrow> as_db st' \<noteq> None) \<and>
     as_cfg st' = (as_cfg st)\<lparr>cfg_users := cfg_users (as_cfg st')\<rparr>"

lemma auth_keeps_ops:
  "auth_keeps st (snd (create_user flt st uid uc))" "auth_keeps st (snd (update_user flt st uid uc))"
  "auth_keeps st (snd (rotate_user_key flt st uid raw))" "auth_keeps st (snd (deactivate_user flt st uid))"
  unfolding auth_keeps_def
  by (simp_all add: auth_ok_create auth_ok_update auth_ok_rotate auth_ok_deactivate)
    (auto simp: create_user_def update_user_def rotate_user_key_def deactivate_user_def auth_defs split: option.split)

lemma auth_keeps_of_users_only: "users_only st st' \<Longrightarrow> auth_keeps st st'"
  by (auto simp: users_only_def auth_keeps_def split: option.splits)

lemma keeps_with_auth:
  assumes "auth_keeps (dash_auth h) st"
  shows "keeps h (with_auth st h)"
proof -
  have c: "as_cfg st = (dh_cfg h)\<lparr>cfg_users := cfg_users (as_cfg st)\<rparr>" using assms by (simp add: auth_keeps_def dash_auth_def)
  have "fixed_settings (as_cfg st) = fixed_settings (dh_cfg h)" "cfg_pricing (as_cfg st) = cfg_pricing (dh_cfg h)"
    by (subst c, simp add: fixed_settings_def)+
  moreover have "dash_auth (with_auth st h) = st" by (simp add: dash_auth_def with_auth_def)
  moreover have "dh_cfg (with_auth st h) = as_cfg st" "dh_db (with_auth st h) = as_db st" "dh_manager (with_auth st h) = dh_manager h"
      "dh_pulls (with_auth st h) = dh_pulls h" "dh_catalogs_given (with_auth st h) = dh_catalogs_given h"
      "dh_prices_given (with_auth st h) = dh_prices_given h" by (simp_all add: with_auth_def)
  moreover have "as_db (dash_auth h) = dh_db h" by (simp add: dash_auth_def)
  ultimately show ?thesis using assms by (auto simp: keeps_def dash_inv_def auth_keeps_def)
qed

lemma keeps_users:
  "create_user flt (dash_auth h) uid uc = (e, st) \<Longrightarrow> keeps h (with_auth st h)"
  "update_user flt (dash_auth h) uid uc = (e, st) \<Longrightarrow> keeps h (with_auth st h)"
  "rotate_user_key flt (dash_auth h) uid raw = (x, st) \<Longrightarrow> keeps h (with_auth st h)"
  "deactivate_user flt (dash_auth h) uid = (e, st) \<Longrightarrow> keeps h (with_auth st h)"
  using auth_keeps_ops [of "dash_auth h", THEN keeps_with_auth] by (metis snd_conv)+

lemma keeps_user_forms [simp]:
  "keeps h (snd (rotate_form env r name h))" "keeps h (snd (deactivate_form env r name h))"
  "keeps h (snd (update_form env r f name h))" "keeps h (snd (create_form env r f name h))"
  by (auto simp: rotate_form_def deactivate_form_def update_form_def create_form_def Let_def intro: keeps_users keeps_aged
      split: prod.split sum.split option.split auth_err.split)

lemma keeps_user_action [simp]: "keeps h (snd (handle_user_action env r h))"
  by (simp add: handle_user_action_def Let_def split: option.split)

section \<open>Backends\<close>

lemma keeps_reload_backends: "reload_backends_from_store flt h = (e, h') \<Longrightarrow> keeps h h'"
  unfolding reload_backends_from_store_def
  by (auto split: option.splits sum.splits intro: keeps_trans [OF keeps_private(2) keeps_config(2)])

lemma remove_backend_db_ok: "store_remove_backend flt name d = (e, d') \<Longrightarrow> db_ok d \<Longrightarrow> db_ok d'"
proof -
  assume r: "store_remove_backend flt name d = (e, d')" and ok: "db_ok d"
  have "d' = d \<or> d' = d\<lparr>backend_configs_t := tbl_delete (\<lambda>r. br_name r = name) (backend_configs_t d)\<rparr>"
    using r by (auto simp: store_remove_backend_def Let_def split: if_splits)
  then show ?thesis using ok by (elim disjE) (simp_all add: db_ok_def tbl_ok_delete)
qed

lemma keeps_store_step:
  assumes "(case dh_db h of None \<Rightarrow> (None, h) | Some d \<Rightarrow> (case op d of (e, d') \<Rightarrow> (g e, h\<lparr>dh_db := Some d'\<rparr>))) = (x, h1)"
    and "\<And>d e d'. op d = (e, d') \<Longrightarrow> db_ok d \<Longrightarrow> db_ok d'"
  shows "keeps h h1"
  using assms by (auto split: option.splits prod.splits intro: keeps_db)

lemma keeps_manager_step:
  assumes "(case dh_manager h of None \<Rightarrow> Inr h | Some m \<Rightarrow> map_sum g (\<lambda>m'. h\<lparr>dh_manager := Some m'\<rparr>) (op m)) = Inr h1"
    and "\<And>m m'. op m = Inr m' \<Longrightarrow> mgr_ok m \<Longrightarrow> mgr_ok m'"
  shows "keeps h h1"
proof (cases "dh_manager h")
  case (Some m)
  then show ?thesis using assms by (cases "op m") (auto intro: keeps_manager)
qed (use assms(1) in simp)

lemma keeps_save_backend: "save_backend flts c h = (e, h') \<Longrightarrow> keeps h h'"
proof -
  assume s: "save_backend flts c h = (e, h')"
  obtain x h1 where st: "(case dh_db h of None \<Rightarrow> (None, h)
       | Some d \<Rightarrow> (case store_upsert_backend (flts 0) c d of (e, d') \<Rightarrow> (map_option ByBackendStore e, h\<lparr>dh_db := Some d'\<rparr>))) = (x, h1)"
    by (rule prod.exhaust, rule that)
  have k1: "keeps h h1" by (rule keeps_store_step [OF st]) (simp add: store_upsert_db_ok)
  show ?thesis
  proof (cases x)
    case None
    show ?thesis
    proof (cases "case dh_manager h1 of None \<Rightarrow> Inr h1
                 | Some m \<Rightarrow> map_sum ByManager (\<lambda>m'. h1\<lparr>dh_manager := Some m'\<rparr>) (upsert_backend c m)")
      case (Inl y)
      then show ?thesis using s k1 unfolding save_backend_def st None by simp
    next
      case (Inr h2)
      have k2: "keeps h1 h2" by (rule keeps_manager_step [OF Inr]) (rule mgr_ok_upsert)
      have "keeps (upsert_backend_in_config c (h2\<lparr>dh_disabled := gm_del (bc_name c) (dh_disabled h2)\<rparr>)) h'"
        using s unfolding save_backend_def st None by (intro keeps_reload_backends) (simp add: Inr)
      then show ?thesis unfolding upsert_backend_in_config_def
        using keeps_trans [OF keeps_trans [OF k1 k2] keeps_trans [OF keeps_private(2) keeps_trans [OF keeps_config(2)]]] by blast
    qed
  qed (use s k1 in \<open>simp add: save_backend_def st\<close>)
qed

lemma keeps_drop_backend: "drop_backend flts name h = (e, h') \<Longrightarrow> keeps h h'"
proof -
  assume s: "drop_backend flts name h = (e, h')"
  obtain x h1 where st: "(case dh_db h of None \<Rightarrow> (None, h)
       | Some d \<Rightarrow> (case store_remove_backend (flts 0) name d of
           (e, d') \<Rightarrow> (map_option (\<lambda>x. if x = BackendRowNotFound then BackendMissing else ByBackendStore x) e, h\<lparr>dh_db := Some d'\<rparr>))) = (x, h1)"
    by (rule prod.exhaust, rule that)
  have k1: "keeps h h1" by (rule keeps_store_step [OF st]) (rule remove_backend_db_ok)
  show ?thesis
  proof (cases x)
    case None
    show ?thesis
    proof (cases "case dh_manager h1 of None \<Rightarrow> Inr h1
                 | Some m \<Rightarrow> map_sum (\<lambda>x. if x = ErrBackendNotFound then BackendMissing else ByManager x)
                     (\<lambda>m'. h1\<lparr>dh_manager := Some m'\<rparr>) (remove_backend name m)")
      case (Inl y)
      then show ?thesis using s k1 unfolding drop_backend_def st None by simp
    next
      case (Inr h2)
      have k2: "keeps h1 h2" by (rule keeps_manager_step [OF Inr]) (rule mgr_ok_remove)
      have "keeps (remove_backend_from_config name (h2\<lparr>dh_disabled := gm_del name (dh_disabled h2)\<rparr>)) h'"
        using s unfolding drop_backend_def st None by (intro keeps_reload_backends) (simp add: Inr)
      then show ?thesis unfolding remove_backend_from_config_def
        using keeps_trans [OF keeps_trans [OF k1 k2] keeps_trans [OF keeps_private(2) keeps_trans [OF keeps_config(2)]]] by blast
    qed
  qed (use s k1 in \<open>simp add: drop_backend_def st\<close>)
qed

lemma keeps_removal_form [simp]: "keeps h (snd (removal_form env r f name c h))"
  by (auto simp: removal_form_def Let_def intro: keeps_drop_backend keeps_aged split: prod.split option.split)

lemma keeps_backend_action [simp]: "keeps h (snd (handle_backend_action env r h))"
  by (auto simp: handle_backend_action_def create_backend_def update_backend_def Let_def intro: keeps_save_backend keeps_aged
      split: prod.splits option.split sum.split if_splits)

lemma keeps_backend_toggle [simp]: "keeps h (snd (handle_backend_toggle r path h))"
proof -
  have "keeps h1 (h1\<lparr>dh_manager := map_option (toggle_backend n e) (dh_manager h1)\<rparr>)" for h1 n e
  proof (cases "dh_manager h1")
    case None
    then have "h1\<lparr>dh_manager := map_option (toggle_backend n e) (dh_manager h1)\<rparr> = h1" by simp
    then show ?thesis by simp
  next
    case (Some m)
    show ?thesis unfolding Some option.map by (rule keeps_manager [OF Some mgr_ok_toggle])
  qed
  from keeps_trans [OF keeps_private(2) this]
  have "keeps h (h\<lparr>dh_disabled := x, dh_manager := map_option (toggle_backend n e) (dh_manager h)\<rparr>)" for x n e by simp
  then show ?thesis by (auto simp: handle_backend_toggle_def Let_def)
qed

section \<open>Models\<close>

lemma keeps_put_entry: "keeps h (put_catalog_entry name e h)"
  unfolding put_catalog_entry_def by (rule keeps_trans [OF keeps_private(4) keeps_config(1)])

lemma keeps_model_pricing: "keeps h (set_model_pricing name i out h)"
  unfolding set_model_pricing_def by (rule keeps_prices) simp

lemma keeps_access: "apply_model_access flts name limited selected h = (e, h') \<Longrightarrow> keeps h h'"
  by (auto simp: apply_model_access_def split: prod.splits
      intro!: keeps_with_auth auth_keeps_of_users_only dest: access_loop_only)

lemma keeps_delete_action: "delete_model_action flts name h = (e, h') \<Longrightarrow> keeps h h'"
proof -
  assume d: "delete_model_action flts name h = (e, h')"
  let ?h1 = "put_prices (gm_del name) (put_models (gm_del name) (h\<lparr>dh_models := map_option (gm_del name) (dh_models h)\<rparr>))"
  obtain x st where f: "forget_loop (\<lambda>k. flts (Suc k)) name (users_snapshot (flts 0) ?h1) (dash_auth ?h1) = (x, st)"
    by (rule prod.exhaust, rule that)
  have k: "keeps h ?h1"
    by (rule keeps_trans [OF keeps_private(4) keeps_trans [OF keeps_config(1) keeps_prices]]) simp
  have "h' = h \<or> h' = with_auth st ?h1"
    using d unfolding delete_model_action_def Let_def f by (auto split: if_splits)
  then show ?thesis
    using keeps_trans [OF k keeps_with_auth [OF auth_keeps_of_users_only [OF forget_loop_only [OF f]]]] by auto
qed

lemma keeps_persist:
  "persist_model_mutation flt action name e h = (x, h') \<Longrightarrow> keeps h h'"
  by (auto simp: persist_model_mutation_def split: option.splits prod.splits if_splits
      intro!: keeps_db elim: upsert_model_db_ok deactivate_model_db_ok)

lemma keeps_persist_prices: "persist_model_pricing flt h = (x, h') \<Longrightarrow> keeps h h'"
proof -
  assume p: "persist_model_pricing flt h = (x, h')"
  show ?thesis
  proof (cases "dh_db h")
    case (Some d)
    obtain e d' where r: "replace_model_pricing flt (pricing_models (cfg_pricing (dh_cfg h))) d = (e, d')" by fastforce
    have "h' = h\<lparr>dh_db := Some d'\<rparr>" using p by (simp add: persist_model_pricing_def Some r)
    then show ?thesis using Some replace_pricing_db_ok [OF r]
      by (auto simp: keeps_def dash_inv_def dash_auth_def auth_ok_def as_users_def)
  qed (use p in \<open>simp add: persist_model_pricing_def\<close>)
qed

lemma keeps_reload_models: "dh_db h \<noteq> None \<Longrightarrow> reload_model_runtime_from_store flts h = (x, h') \<Longrightarrow> keeps h h'"
proof -
  assume r: "dh_db h \<noteq> None" "reload_model_runtime_from_store flts h = (x, h')"
  then obtain d where d: "dh_db h = Some d" by blast
  show ?thesis
  proof (cases "load_active_catalog (flts 0) d")
    case (Inl e)
    then show ?thesis using r by (simp add: reload_model_runtime_from_store_def d)
  next
    case (Inr c)
    let ?h1 = "put_models (\<lambda>_. clone_config_catalog c) (set_model_catalog (Some c) h)"
    have k: "keeps h ?h1" unfolding set_model_catalog_def by (rule keeps_trans [OF keeps_private(4) keeps_config(1)])
    show ?thesis
    proof (cases "load_model_pricing (flts 1) d")
      case (Inl e)
      then show ?thesis using r k by (simp add: reload_model_runtime_from_store_def d Inr Inl [unfolded One_nat_def] Let_def)
    next
      case prices: (Inr p)
      have h': "h' = refresh_runtime c (put_prices (\<lambda>_. p) ?h1)"
        using r by (simp add: reload_model_runtime_from_store_def d Inr prices [unfolded One_nat_def] Let_def)
      have "keeps ?h1 (put_prices (\<lambda>_. p) ?h1)" by (rule keeps_prices) (rule loaded_gm_ok(2) [OF prices])
      moreover have "keeps (put_prices (\<lambda>_. p) ?h1) h'" if "dash_inv h"
        unfolding h' using that d Inr
        by (intro keeps_runtime load_catalog_distinct [OF Inr]) (auto simp: dash_inv_def auth_ok_def dash_auth_def)
      moreover have "fixed_settings (dh_cfg h') = fixed_settings (dh_cfg (put_prices (\<lambda>_. p) ?h1))"
        by (simp add: h' refresh_runtime_def)
      moreover have "dh_db h' = dh_db h" by (simp add: h' refresh_runtime_def put_prices_def put_models_def set_model_catalog_def)
      ultimately show ?thesis using k unfolding keeps_def by metis
    qed
  qed
qed

lemma keeps_settle: "dh_db h \<noteq> None \<Longrightarrow> settle_model flts action name e n1 n2 n3 h = (x, h') \<Longrightarrow> keeps h h'"
proof -
  assume db: "dh_db h \<noteq> None" and s: "settle_model flts action name e n1 n2 n3 h = (x, h')"
  obtain x1 h1 where 1: "persist_model_mutation (flts 1 0) action name e h = (x1, h1)" by fastforce
  obtain x2 h2 where 2: "persist_model_pricing (flts 2 0) h1 = (x2, h2)" by fastforce
  obtain x3 h3 where 3: "reload_model_runtime_from_store (flts 3) h2 = (x3, h3)" by fastforce
  note k = keeps_persist [OF 1] keeps_trans [OF keeps_persist [OF 1] keeps_persist_prices [OF 2]]
  have "dh_db h2 \<noteq> None" using k(2) db by (simp add: keeps_def)
  note k3 = keeps_reload_models [OF this 3]
  have "h' = h1 \<or> h' = h2 \<or> h' = h3" using s unfolding settle_model_def 1 2 3 by (auto simp: 2 3 split: option.splits)
  then show ?thesis using k keeps_trans [OF k(2) k3] by auto
qed

lemma keeps_db_Some: "keeps h h' \<Longrightarrow> dh_db h \<noteq> None \<Longrightarrow> dh_db h' \<noteq> None"
  by (simp add: keeps_def)

lemma keeps_save_model:
  assumes db: "dh_db h \<noteq> None" and s: "save_model flts action name e i out limited selected h = (x, h')"
  shows "keeps h h'"
proof -
  obtain x1 h1 where 1: "(if action = CreateAction then create_model name e h else update_model name e h) = (x1, h1)"
    by (rule prod.exhaust, rule that)
  have k1: "keeps h h1" using 1 keeps_put_entry by (auto simp: create_model_def update_model_def split: if_splits)
  obtain x2 h2 where 2: "apply_model_access (flts 0) name limited selected (set_model_pricing name i out h1) = (x2, h2)"
    by fastforce
  note k2 = keeps_trans [OF k1 keeps_trans [OF keeps_model_pricing keeps_access [OF 2]]]
  let ?st = "case gm_get (current_model_catalog h2) name of Some x \<Rightarrow> x | None \<Rightarrow> \<lparr>me_name = [], me_backends = []\<rparr>"
  obtain x3 h3 where 3: "settle_model flts action name ?st (PersistFailed name) (PricesFailed name) (RefreshFailed name) h2 = (x3, h3)"
    by (rule prod.exhaust, rule that)
  note k3 = keeps_trans [OF k2 keeps_settle [OF keeps_db_Some [OF k2 db] 3]]
  have "h' = h1 \<or> h' = h2 \<or> h' = h3"
    using s unfolding save_model_def 1 Let_def
    by (cases x1; cases x2; cases x3) (simp_all add: 2 3)
  then show ?thesis using k1 k2 k3 by auto
qed

lemma keeps_remove_model:
  assumes db: "dh_db h \<noteq> None" and s: "remove_model flts name h = (x, h')"
  shows "keeps h h'"
proof -
  obtain x1 h1 where 1: "delete_model_action (flts 0) name h = (x1, h1)" by fastforce
  note k1 = keeps_delete_action [OF 1]
  obtain x3 h3 where 3: "settle_model flts DeleteAction name \<lparr>me_name = [], me_backends = []\<rparr> (DeletePersistFailed name)
      (DeletePricesFailed name) (DeleteRefreshFailed name) h1 = (x3, h3)"
    by (rule prod.exhaust, rule that)
  note k3 = keeps_trans [OF k1 keeps_settle [OF keeps_db_Some [OF k1 db] 3]]
  have "h' = h1 \<or> h' = h3"
    using s unfolding remove_model_def 1 by (cases x1; cases x3) (simp_all add: 3)
  then show ?thesis using k1 k3 by auto
qed

lemma keeps_models_page: "keeps h h1 \<Longrightarrow> keeps h (snd (render_models_page env r n1 n2 h1))"
  by simp

lemma keeps_shown: "keeps h (snd res) \<Longrightarrow> keeps h (snd (show_model_result env r res))"
  by (cases res) (auto simp: show_model_result_def split: sum.split)

lemma keeps_execute:
  "execute_backend_model_action env action name model h = (x, g) \<Longrightarrow> keeps h g"
  by (auto simp: execute_backend_model_action_def Let_def split: prod.splits option.splits if_splits)

lemma keeps_backend_model_action [simp]: "keeps h (snd (handle_backend_model_action env r f action h))"
proof -
  obtain x g where x: "execute_backend_model_action env action (trim_space (form_value f ''backend_model_backend''))
      (trim_space (form_value f ''backend_model_name'')) h = (x, g)" by fastforce
  have "keeps h (g\<lparr>dh_bm := y\<rparr>)" for y by (rule keeps_trans [OF keeps_execute [OF x] keeps_private(1)])
  then show ?thesis using keeps_execute [OF x]
    by (auto simp: handle_backend_model_action_def Let_def x intro!: keeps_models_page split: option.split prod.split)
qed

lemma keeps_models_fragment [simp]: "keeps h (snd (render_models_backend_fragment env r h))"
proof (cases "backend_model_request_values r")
  case (Some f)
  let ?a = "last_value f ''backend_model_action''"
  obtain x g where x: "execute_backend_model_action env (if ?a = [] then ''refresh'' else ?a)
      (trim_space (form_value f ''backend_model_backend'')) (trim_space (form_value f ''backend_model_name'')) h = (x, g)"
    by (rule prod.exhaust, rule that)
  have "keeps h (g\<lparr>dh_bm := y\<rparr>)" for y by (rule keeps_trans [OF keeps_execute [OF x] keeps_private(1)])
  then show ?thesis using keeps_execute [OF x]
    by (auto simp: render_models_backend_fragment_def Let_def Some x split: option.split prod.split)
qed (simp add: render_models_backend_fragment_def)

lemma keeps_model_form: "dh_db h \<noteq> None \<Longrightarrow> keeps h (snd (save_model_form env r f action name h))"
  by (auto simp: save_model_form_def intro!: keeps_models_page keeps_shown keeps_save_model surjective_pairing
      split: sum.split prod.split go_float.split)

lemma keeps_model_action: "dh_db h \<noteq> None \<Longrightarrow> keeps h (snd (handle_model_action env r h))"
  by (auto simp: handle_model_action_def Let_def intro!: keeps_models_page keeps_shown keeps_model_form keeps_remove_model
      surjective_pairing split: option.split)

lemma keeps_pull_start [simp]: "keeps h (snd (handle_pull_model_start env r h))"
proof -
  have "keeps h (h\<lparr>dh_pulls := \<lparr>ps_job = Some j, ps_running = ps_running (dh_pulls h) @ [pj_id j]\<rparr>, dh_ops := z\<rparr>)"
    if "start_pull_job now i b m (ps_job (dh_pulls h)) = Inr j" for now i b m j z
  proof -
    have "pj_id j = i"
      using that by (auto simp: start_pull_job_def split: option.splits if_splits)
    then have e: "\<lparr>ps_job = Some j, ps_running = ps_running (dh_pulls h) @ [pj_id j]\<rparr> =
        (dh_pulls h)\<lparr>ps_job := Some j, ps_running := ps_running (dh_pulls h) @ [i]\<rparr>" by simp
    from keeps_trans [OF keeps_pulls [OF start [OF that]] keeps_private(3)] show ?thesis unfolding e by simp
  qed
  then show ?thesis
    by (auto simp: handle_pull_model_start_def Let_def intro!: keeps_models_page split: option.split sum.split)
qed

section \<open>A request of the dashboard\<close>

lemma keeps_serve_dashboard: "dh_db h \<noteq> None \<Longrightarrow> keeps h (snd (serve_dashboard env r h))"
  by (auto simp: serve_dashboard_def serve_authenticated_def Let_def render_pull_status_def keeps_model_action)

end
