(* ===== verification/SystemProps.thy ===== *)
theory SystemProps
  imports SystemInv
begin

text \<open>
  The whole process, from its start on: what every history of requests of both kinds, reloads, health
  checks, certificate changes and downloads keeps, and what a form of the dashboard means for the requests that come later.
\<close>

section \<open>The invariant\<close>

text \<open>The settings that only a restart changes.\<close>

definition process_settings :: "config \<Rightarrow> server_config \<times> rate_limiting_config \<times> string \<times> health_check_config" where
  "process_settings c = (cfg_server c, cfg_rate_limit c, cfg_database_path c, cfg_health c)"

definition system_ok :: "key_pair_parser \<Rightarrow> cert_parser \<Rightarrow> bool \<Rightarrow> config \<Rightarrow> system \<Rightarrow> bool" where
  "system_ok kp px tls c0 s \<longleftrightarrow> gateway_inv kp px tls (sy_gw s) \<and> auth_ok (gw_auth (sy_gw s)) \<and>
     gm_ok (pricing_models (cfg_pricing (gw_cfg (sy_gw s)))) \<and> pulls_ok (dh_pulls (sy_dash s)) \<and>
     process_settings (gw_cfg (sy_gw s)) = process_settings c0"

lemma dash_view_inv: "system_ok kp px tls c0 s \<Longrightarrow> dash_inv (dash_view s)"
  by (simp add: system_ok_def gateway_inv_def gateway_ok_def resolver_ok_def dash_inv_def dash_view_def dash_auth_def
      gw_auth_def shared_manager_def)

lemma refreshed_ok:
  "(\<forall>c \<in> set cs. catalog_distinct c) \<Longrightarrow> resolver_ok rv \<Longrightarrow> resolver_ok (fold refresh_catalog cs rv)"
proof (induction cs arbitrary: rv)
  case (Cons c cs)
  then have "resolver_ok (refresh_catalog c rv)" by (simp add: refresh_catalog_def resolver_ok_def build_registry_ok)
  then show ?case using Cons by simp
qed simp

lemma commit_ok:
  assumes s: "system_ok kp px tls c0 s" and h: "dash_inv h" "fixed_settings (dh_cfg h) = fixed_settings (gw_cfg (sy_gw s))"
  shows "system_ok kp px tls c0 (commit h s)"
proof -
  obtain d m cs ps where H: "dh_db h = Some d" "dh_manager h = Some m" "dh_catalogs_given h = Some cs" "dh_prices_given h = Some ps"
    using h(1) by (auto simp: dash_inv_def)
  have "mgr_ok m" "\<forall>c \<in> set (rev cs). catalog_distinct c" using h(1) H by (auto simp: dash_inv_def)
  moreover have "registry_ok (rv_registry ((gw_resolver (sy_gw s))\<lparr>rv_manager := m\<rparr>))"
    using s by (simp add: system_ok_def gateway_inv_def gateway_ok_def resolver_ok_def)
  ultimately have "resolver_ok (fold refresh_catalog (rev cs) ((gw_resolver (sy_gw s))\<lparr>rv_manager := m\<rparr>))"
    by (intro refreshed_ok) (simp_all add: resolver_ok_def)
  then show ?thesis using s h H
    by (auto simp: system_ok_def commit_def Let_def gateway_inv_def gateway_ok_def gw_auth_def dash_inv_def dash_auth_def
        auth_ok_def fixed_settings_def process_settings_def)
qed

lemma serve_admin_ok:
  assumes "system_ok kp px tls c0 s" "serve_admin env r s = (rep, s')"
  shows "system_ok kp px tls c0 s' \<and> cfg_admin_token_hash (gw_cfg (sy_gw s')) = cfg_admin_token_hash (gw_cfg (sy_gw s))"
proof -
  obtain h where h: "serve_dashboard env r (dash_view s) = (rep, h)" "s' = commit h s"
    using assms(2) by (auto simp: serve_admin_def split: prod.splits)
  have k: "keeps (dash_view s) h"
    using keeps_serve_dashboard [of "dash_view s" env r] unfolding h(1) by (simp add: dash_view_def)
  have "dash_inv h" "fixed_settings (dh_cfg h) = fixed_settings (gw_cfg (sy_gw s))"
    using k dash_view_inv [OF assms(1)] by (simp_all add: keeps_def) (simp add: dash_view_def)
  with commit_ok [OF assms(1) this] show ?thesis by (simp add: h(2) commit_def Let_def fixed_settings_def)
qed

lemma serve_ok:
  assumes "system_ok kp px tls c0 s" "serve e r s = (a, s')"
  shows "system_ok kp px tls c0 s'"
proof (cases "mux_route (rq_path r)")
  case RouteApi
  obtain o' g where g: "serve_api (re_key_faults e) (re_limit_faults e) (re_now e) (re_proxy e) (sy_gw s) r = (o', g)"
    by fastforce
  have "s' = s\<lparr>sy_gw := g\<rparr>" using assms(2) by (simp add: serve_def RouteApi g)
  then show ?thesis using assms(1) serve_api_ok [OF g] by (auto simp: system_ok_def gateway_inv_def gw_auth_def)
next
  case RouteAdmin
  obtain rep s1 where "serve_admin (re_dash e) r s = (rep, s1)" by fastforce
  then show ?thesis using assms serve_admin_ok by (auto simp: serve_def RouteAdmin)
qed (use assms in \<open>simp_all add: serve_def\<close>)

section \<open>Every history\<close>

interpretation settings: safe_applier "\<lambda>g. (gw_cfg g)\<lparr>cfg_admin_token_hash := []\<rparr> = c0" "gateway_applier flt kp px fs now"
  for c0 flt kp px fs now
proof
  fix b bs g e g'
  assume "ap_backends (gateway_applier flt kp px fs now) = Some b" "b bs g = (e, g')"
    "(gw_cfg g)\<lparr>cfg_admin_token_hash := []\<rparr> = c0"
  then show "(gw_cfg g')\<lparr>cfg_admin_token_hash := []\<rparr> = c0"
    by (auto simp: gateway_applier_def gateway_apply_backends_def split: prod.splits)
next
  fix t cert key iv days g e g'
  assume "ap_tls_paths (gateway_applier flt kp px fs now) = Some t" "t cert key iv days g = (e, g')"
    "(gw_cfg g)\<lparr>cfg_admin_token_hash := []\<rparr> = c0"
  then show "(gw_cfg g')\<lparr>cfg_admin_token_hash := []\<rparr> = c0"
    by (auto simp: gateway_applier_def gateway_apply_tls_def split: option.splits prod.splits)
qed (auto simp: gateway_applier_def gw_auth_def apply_admin_token_hash_def)

lemma gateway_step_config:
  assumes "gateway_step yaml kp px (p, rl, g) (p', rl', g')"
  shows "(gw_cfg g')\<lparr>cfg_admin_token_hash := []\<rparr> = (gw_cfg g)\<lparr>cfg_admin_token_hash := []\<rparr>"
  using assms
proof (elim gateway_stepE)
  fix fk fl now env r a assume "serve_api fk fl now env g r = (a, g')"
  then show ?thesis by (cases rule: serve_api_cases) simp_all
next
  fix flt fs now assume "watch_step yaml (gateway_applier flt kp px fs now) (p, rl, g) (p', rl', g')"
  then show ?thesis using settings.watch_keeps by blast
qed simp_all

lemma process_settings_token: "(c::config)\<lparr>cfg_admin_token_hash := []\<rparr> = c'\<lparr>cfg_admin_token_hash := []\<rparr> \<Longrightarrow>
    process_settings c = process_settings c' \<and> cfg_users c = cfg_users c' \<and> cfg_pricing c = cfg_pricing c'"
  by (cases c; cases c') (simp add: process_settings_def)

lemma background_ok:
  assumes "gateway_step yaml kp px (p, rl, sy_gw s) (p', rl', g')" "system_ok kp px tls c0 s"
  shows "system_ok kp px tls c0 (s\<lparr>sy_gw := g'\<rparr>)"
proof -
  have "gateway_inv kp px tls g'" using gateway_inv_step [OF assms(1)] assms(2) by (simp add: system_ok_def)
  moreover have "db_ok (gw_db g')" using calculation by (simp add: gateway_inv_def gateway_ok_def)
  ultimately show ?thesis using assms(2) process_settings_token [OF gateway_step_config [OF assms(1)]]
    by (simp add: system_ok_def gw_auth_def auth_ok_def as_users_def)
qed

lemma system_step_ok:
  assumes "system_step yaml kp px (p, rl, s) (p', rl', s')" "system_ok kp px tls c0 s" "active_ok c0 rl"
  shows "system_ok kp px tls c0 s' \<and> active_ok c0 rl'"
  using assms(1)
proof (elim system_stepE)
  fix e r a assume "serve e r s = (a, s')" "rl' = rl"
  then show ?thesis using assms(2,3) serve_ok by blast
next
  fix g' assume g: "gateway_step yaml kp px (p, rl, sy_gw s) (p', rl', g')" "s' = s\<lparr>sy_gw := g'\<rparr>"
  from background_ok [OF g(1) assms(2)] gateway_active_step [OF g(1) assms(3)] show ?thesis by (simp add: g(2))
next
  fix q assume "pulls_step (dh_pulls (sy_dash s)) q" "s' = s\<lparr>sy_dash := (sy_dash s)\<lparr>dh_pulls := q\<rparr>\<rparr>" "rl' = rl"
  then show ?thesis using assms(2,3) pulls_step_ok by (auto simp: system_ok_def)
qed

interpretation system_history: kept_by_steps "system_step yaml kp px"
    "\<lambda>s. system_ok kp px tls c0 (snd (snd s)) \<and> active_ok c0 (fst (snd s))" for yaml kp px tls c0
  by unfold_locales (auto dest: system_step_ok)

text \<open>The configuration that a start leaves.\<close>

lemma start_users_prices:
  assumes "start_components env cfg d = Inr g" "db_ok d" "gm_ok (cfg_users cfg)" "gm_ok (pricing_models (cfg_pricing cfg))"
    and "distinct (map bc_name (cfg_backends cfg))"
  shows "gm_ok (cfg_users (gw_cfg g)) \<and> gm_ok (pricing_models (cfg_pricing (gw_cfg g)))"
proof -
  let ?st = "\<lparr>as_cfg = cfg, as_db = Some d\<rparr>"
  obtain s0 where v: "validate_store (se_faults env 0) ?st = (None, s0)"
    using assms(1) by (cases "validate_store (se_faults env 0) ?st") (auto simp: start_components_def split: option.splits)
  have "auth_ok ?st" using assms(2,3) by (simp add: auth_ok_def as_users_def)
  then have ok0: "auth_ok s0" using auth_ok_validate [of ?st "se_faults env 0"] v by simp
  obtain d0 where d0: "as_db s0 = Some d0" "as_cfg s0 = cfg"
    using validate_store_setup [of "se_faults env 0" ?st s0] v by (auto simp: same_setup_def)
  have "db_ok d0" using ok0 d0 by (simp add: auth_ok_def)
  obtain cfg1 d1 where b: "start_backends (\<lambda>k. se_faults env (1 + k)) cfg d0 = (cfg1, d1)" by fastforce
  obtain cat d2 where c: "start_catalog (\<lambda>k. se_faults env (3 + k)) (se_seed_flag env) (se_net env) cfg1 d1 = (cat, d2)" by fastforce
  obtain cfg2 d3 where p: "start_pricing (\<lambda>k. se_faults env (8 + k)) cfg1 d2 = (cfg2, d3)" by fastforce
  have "gw_cfg g = cfg2" using assms(1) v d0 b c p
    by (auto simp: start_components_def bind_res_Inr_iff map_sum_def id_def split: if_splits sum.splits)
  moreover have "cfg_users cfg1 = cfg_users cfg" "cfg_pricing cfg1 = cfg_pricing cfg"
    using start_backends_ok [OF b \<open>db_ok d0\<close> assms(5)] by simp_all
  moreover have "cfg_users cfg2 = cfg_users cfg1 \<and>
      (pricing_models (cfg_pricing cfg2) = pricing_models (cfg_pricing cfg1) \<or> gm_ok (pricing_models (cfg_pricing cfg2)))"
    using p by (auto simp: start_pricing_def loaded_gm_ok(2) split: sum.splits if_splits)
  ultimately show ?thesis using assms(3,4) by auto
qed

lemma gateway_start_system:
  assumes "gateway_start env = Inr g" "se_open_db env = Some d" "db_ok d" "yaml_maps_ok (se_yaml env)"
  shows "system_ok (se_key_pair env) (se_parse_cert env) (gw_tls g \<noteq> None) (gw_cfg g) (new_system g)"
  using assms(1,4)
proof (rule gateway_start_components)
  fix path cfg d'
  assume c: "config_ok cfg" "gm_ok (cfg_users cfg)" "gm_ok (pricing_models (cfg_pricing cfg))"
      "se_open_db env = Some d'" "start_components env cfg d' = Inr g"
  have d: "db_ok d'" using c(4) assms(2,3) by simp
  have "distinct (map bc_name (cfg_backends cfg))" using c(1) by (simp add: config_ok_def)
  note P = start_users_prices [OF c(5) d c(2,3) this]
  from start_components_ok [OF c(5,1-3) d] have g: "gateway_ok (se_key_pair env) (se_parse_cert env) g" by blast
  moreover have "pulls_ok (dh_pulls (sy_dash (new_system g)))" "sy_gw (new_system g) = g"
    by (simp_all add: new_system_def new_handler_def set_model_runtime_refreshers_def set_model_catalog_def
        set_tls_manager_def set_manager_of_def no_pulls_def)
  ultimately show ?thesis using P by (auto simp: system_ok_def gateway_inv_def gateway_ok_def gw_auth_def auth_ok_def as_users_def)
qed

section \<open>Properties\<close>

text \<open>C5: the whole process.  From a successful start on, whatever history of API requests, requests of the
  dashboard (any path, any form, with or without credentials), reloads, health checks, certificate
  changes, insertions of usage records and downloads happens, with any failures of the database, the
  files and the network: the schema of the database holds, the manager's index and the registry are
  consistent, users and prices have distinct names, at most one download runs and it is the one shown, TLS
  stays on or off and has a genuine certificate, and server, rate limiting, database path and health
  settings are those of the start.\<close>

theorem system_always_ok:
  assumes "gateway_start env = Inr g" and "se_open_db env = Some d" and "db_ok d" and "yaml_maps_ok (se_yaml env)"
    and "(system_step (se_yaml env) (se_key_pair env) (se_parse_cert env))\<^sup>*\<^sup>*
      (WatchIdle, new_reloader path (Some (gw_cfg g)) default_runtime_policy, new_system g) (p, rl, s)"
  shows "gateway_ok (se_key_pair env) (se_parse_cert env) (sy_gw s) \<and> auth_ok (gw_auth (sy_gw s)) \<and>
    gm_ok (pricing_models (cfg_pricing (gw_cfg (sy_gw s)))) \<and> pulls_ok (dh_pulls (sy_dash s)) \<and>
    process_settings (gw_cfg (sy_gw s)) = process_settings (gw_cfg g) \<and>
    (gw_tls g \<noteq> None \<longrightarrow> (\<exists>t c. gw_tls (sy_gw s) = Some t \<and> provider_certificate t = Inr c \<and>
       genuine (se_key_pair env) (se_parse_cert env) c)) \<and>
    (gw_tls g = None \<longrightarrow> gw_tls (sy_gw s) = None) \<and>
    (\<exists>c. rl_current rl = Some c \<and> restart_settings c = restart_settings (gw_cfg g))"
proof -
  have "active_ok (gw_cfg g) (new_reloader path (Some (gw_cfg g)) default_runtime_policy :: apply_error reloader)"
    by (simp add: active_ok_def new_reloader_def)
  with system_history.history_keeps [OF assms(5), of "gw_tls g \<noteq> None" "gw_cfg g"] gateway_start_system [OF assms(1-4)]
  have "system_ok (se_key_pair env) (se_parse_cert env) (gw_tls g \<noteq> None) (gw_cfg g) s \<and> active_ok (gw_cfg g) rl"
    by (simp del: not_None_eq)
  then show ?thesis
    by (auto simp: system_ok_def gateway_inv_def gateway_ok_def active_ok_def dest!: provider_ok_serves)
qed

theorem system_always_ok_witness:
  "\<exists>g. gateway_start sample_start_env = Inr g \<and>
     (\<forall>e r. pulls_ok (dh_pulls (sy_dash (snd (serve e r (new_system g))))) \<and>
        gateway_ok (se_key_pair sample_start_env) (se_parse_cert sample_start_env) (sy_gw (snd (serve e r (new_system g)))))"
proof -
  obtain g where g: "gateway_start sample_start_env = Inr g" using sample_start by blast
  let ?rl = "new_reloader ''c.yaml'' (Some (gw_cfg g)) default_runtime_policy"
  have "(system_step (se_yaml sample_start_env) (se_key_pair sample_start_env) (se_parse_cert sample_start_env))\<^sup>*\<^sup>*
      (WatchIdle, ?rl, new_system g) (WatchIdle, ?rl, snd (serve e r (new_system g)))" for e r
    by (rule r_into_rtranclp, rule sys_request [of e r _ "fst (serve e r (new_system g))"]) simp
  from system_always_ok [OF g sample_facts(1) sample_db_ok sample_yaml_ok this] g show ?thesis by blast
qed

end
