(* ===== verification/SystemForms.thy ===== *)
theory SystemForms
  imports SystemProps
begin

text \<open>
  What the users and the backends page mean for the API: who may use it and which backends a request can
  reach, from the moment the form was answered.
\<close>

section \<open>Users\<close>

lemma auth_of_view [simp]: "dash_auth (dash_view s) = gw_auth (sy_gw s)"
  by (simp add: dash_auth_def dash_view_def gw_auth_def)

lemma auth_of_commit [simp]: "dh_db h \<noteq> None \<Longrightarrow> gw_auth (sy_gw (commit h s)) = dash_auth h"
  by (auto simp: commit_def Let_def gw_auth_def dash_auth_def)

lemma auth_of_aged [simp]: "dash_auth (age_job env h) = dash_auth h" "dh_db (age_job env h) = dh_db h"
  by (simp_all add: age_job_def dash_auth_def)

lemma auth_of_with [simp]: "dash_auth (with_auth st h) = st" "dh_db (with_auth st h) = as_db st"
  by (simp_all add: dash_auth_def with_auth_def)

text \<open>What a form of the users page does to the store: the operation of its action, if the form can be read.\<close>

definition user_form_store :: "dash_env \<Rightarrow> form \<Rightarrow> auth_store \<Rightarrow> auth_store" where
  "user_form_store env f st =
     (let action = form_value f ''action''; name = trim_space (form_value f ''user_name'');
          key = generate_api_key env; flt = de_flts env 0 0;
          read = (\<lambda>hash. case build_user_config_from_form f of Inl _ \<Rightarrow> None | Inr u \<Rightarrow> user_of_form hash u)
      in if name = [] then st
         else if action = ''rotate'' then snd (rotate_user_key flt st name key)
         else if action = ''deactivate'' then snd (deactivate_user flt st name)
         else if action = ''update'' then (case read [] of None \<Rightarrow> st | Some uc \<Rightarrow> snd (update_user flt st name uc))
         else if action = ''create'' then
           (case read (hash_api_key key) of None \<Rightarrow> st | Some uc \<Rightarrow> snd (create_user flt st name uc))
         else st)"

lemma snd_user_forms:
  "dash_auth (snd (rotate_form env r name h)) = snd (rotate_user_key (de_flts env 0 0) (dash_auth h) name (generate_api_key env))"
  "dash_auth (snd (deactivate_form env r name h)) = snd (deactivate_user (de_flts env 0 0) (dash_auth h) name)"
  "dash_auth (snd (update_form env r f name h)) = (case build_user_config_from_form f of Inl _ \<Rightarrow> dash_auth h
     | Inr u \<Rightarrow> (case user_of_form [] u of None \<Rightarrow> dash_auth h
        | Some uc \<Rightarrow> snd (update_user (de_flts env 0 0) (dash_auth h) name uc)))"
  "dash_auth (snd (create_form env r f name h)) = (case build_user_config_from_form f of Inl _ \<Rightarrow> dash_auth h
     | Inr u \<Rightarrow> (case user_of_form (hash_api_key (generate_api_key env)) u of None \<Rightarrow> dash_auth h
        | Some uc \<Rightarrow> snd (create_user (de_flts env 0 0) (dash_auth h) name uc)))"
  by (auto simp: rotate_form_def deactivate_form_def update_form_def create_form_def Let_def
      split: prod.split sum.split option.split auth_err.split)

lemma user_action_store:
  "parse_form r = Some f \<Longrightarrow> dash_auth (snd (handle_user_action env r h)) = user_form_store env f (dash_auth h)"
  by (simp add: handle_user_action_def user_form_store_def Let_def snd_user_forms split: sum.split option.split)

lemma user_action_reaches_gateway:
  assumes "rq_method r = ''POST''" "admin_path (rq_path r) = ''users''" "parse_form r = Some f"
    and "serve_admin env r s = (rep, s')"
  shows "gw_auth (sy_gw s') = user_form_store env f (gw_auth (sy_gw s))"
proof -
  have "serve_dashboard env r (dash_view s) = handle_user_action env r (dash_view s)"
    using assms(1,2) by (simp add: serve_dashboard_def Let_def has_prefix_def)
  then have "s' = commit (snd (handle_user_action env r (dash_view s))) s"
    using assms(4) by (auto simp: serve_admin_def split: prod.splits)
  moreover have "dh_db (snd (handle_user_action env r (dash_view s))) \<noteq> None"
    by (rule keeps_db_Some [OF keeps_user_action]) (simp add: dash_view_def)
  ultimately show ?thesis using user_action_store [OF assms(3), of env "dash_view s"] by simp
qed

lemma row_accepts_updated:
  "row_accepts (set_rows st d (tbl_update p f rows)) k v \<longleftrightarrow> (\<exists>r \<in> set rows. ur_id (if p r then f r else r) = v \<and>
     \<not> ur_disabled (if p r then f r else r) \<and> ur_key_hash (if p r then f r else r) = hash_api_key k)"
  unfolding row_accepts_set_rows tbl_update_def set_map bex_simps(7) ..

lemma update_keeps_keys:
  assumes "auth_ok st" "as_db st = Some d" "api_key_hash uc = []" "trim_space name = name" "name \<noteq> []"
  shows "row_accepts (snd (update_user no_faults st name uc)) k v = row_accepts st k v \<and>
    yaml_accepts (snd (update_user no_faults st name uc)) k v = yaml_accepts st k v"
proof (cases "get_user_config no_faults st name")
  case None
  then show ?thesis using assms by (simp add: update_user_def)
next
  case (Some old)
  let ?row = "update_row (keep_hash old uc)"
  let ?rows = "tbl_update (\<lambda>r. ur_id r = name) ?row (api_users d)"
  have t: "tbl_ok ur_id (api_users d)" using assms(1,2) by (simp add: auth_ok_def db_ok_def)
  have st: "snd (update_user no_faults st name uc) = set_rows st d ?rows"
    using assms(2,4,5) Some by (simp add: update_user_def Let_def)
  have "ur_key_hash (?row r) = ur_key_hash r" if "r \<in> set (api_users d)" "ur_id r = name" "\<not> ur_disabled r" for r
    using that Some assms(2,3) find_active [OF t that(1,3)] by (auto simp: get_user_config_def keep_hash_def)
  then have "row_accepts (set_rows st d ?rows) k v = row_accepts st k v"
    unfolding row_accepts_updated row_accepts_db [OF assms(2)] by (intro bex_cong) auto
  then show ?thesis by (simp add: st)
qed

text \<open>The forms that let a user in with a new key, and the one that takes a user out: a creation of a name that is not taken, from
  a form without mistakes; a rotation for an enabled user; a deactivation of an enabled user.\<close>

definition active_row :: "db \<Rightarrow> string \<Rightarrow> bool" where
  "active_row d name \<longleftrightarrow> (\<exists>row \<in> set (api_users d). ur_id row = name \<and> \<not> ur_disabled row)"

definition creates_user :: "form \<Rightarrow> db \<Rightarrow> string \<Rightarrow> bool" where
  "creates_user f d name \<longleftrightarrow> form_value f ''action'' = ''create'' \<and> (\<forall>row \<in> set (api_users d). ur_id row \<noteq> name) \<and>
     (\<exists>u. build_user_config_from_form f = Inr u)"

definition rotates_user :: "form \<Rightarrow> db \<Rightarrow> string \<Rightarrow> bool" where
  "rotates_user f d name \<longleftrightarrow> form_value f ''action'' = ''rotate'' \<and> active_row d name"

definition deactivates_user :: "form \<Rightarrow> db \<Rightarrow> string \<Rightarrow> bool" where
  "deactivates_user f d name \<longleftrightarrow> form_value f ''action'' = ''deactivate'' \<and> active_row d name"

text \<open>The keys that are admitted after a form.\<close>

lemma user_form_rows:
  assumes "rq_method r = ''POST''" and "admin_path (rq_path r) = ''users''" and "parse_form r = Some f"
    and "auth_ok (gw_auth (sy_gw s))" and "de_flts env 0 0 = no_faults" and "generate_api_key env \<noteq> []"
    and "serve_admin env r s = (rep, s')"
    and "name = trim_space (form_value f ''user_name'')" and "name \<noteq> []"
  shows "(\<forall>k v. yaml_accepts (gw_auth (sy_gw s')) k v = yaml_accepts (gw_auth (sy_gw s)) k v) \<and>
    (\<forall>k v. row_accepts (gw_auth (sy_gw s')) k v \<longleftrightarrow>
      (if v = name \<and> form_value f ''action'' = ''create'' \<and> tbl_get ur_id (api_users (gw_db (sy_gw s))) name = None \<and>
            (\<exists>u. build_user_config_from_form f = Inr u \<and> user_of_form [] u \<noteq> None) \<or>
          v = name \<and> form_value f ''action'' = ''rotate'' \<and>
            (\<exists>row \<in> set (api_users (gw_db (sy_gw s))). ur_id row = name \<and> \<not> ur_disabled row)
       then hash_api_key k = hash_api_key (generate_api_key env)
       else if v = name \<and> form_value f ''action'' = ''deactivate'' then False
       else row_accepts (gw_auth (sy_gw s)) k v))"
proof -
  let ?st = "gw_auth (sy_gw s)" and ?d = "gw_db (sy_gw s)" and ?key = "generate_api_key env" and ?a = "form_value f ''action''"
  have db: "as_db ?st = Some ?d" by (simp add: gw_auth_def)
  have tr: "trim_space name = name" using assms(8) by simp
  have t: "tbl_ok ur_id (api_users ?d)" using assms(4) by (simp add: auth_ok_def db_ok_def gw_auth_def)
  have st': "gw_auth (sy_gw s') = user_form_store env f ?st" by (rule user_action_reaches_gateway [OF assms(1-3,7)])
  note defs = user_form_store_def Let_def assms(8) [symmetric]
  consider (rotate) "?a = ''rotate''" | (deactivate) "?a = ''deactivate''" | (update) "?a = ''update''"
    | (create) "?a = ''create''" | (other) "?a \<notin> {''rotate'', ''deactivate'', ''update'', ''create''}" by blast
  then show ?thesis
  proof cases
    case rotate
    let ?hit = "\<lambda>r. ur_id r = name \<and> \<not> ur_disabled r"
    have "gw_auth (sy_gw s') = set_rows ?st ?d (tbl_update ?hit (\<lambda>r. r\<lparr>ur_key_hash := hash_api_key ?key\<rparr>) (api_users ?d))"
      using rotate assms(5,6,9) db tr by (simp add: st' defs rotate_user_key_def)
    then show ?thesis using rotate
      by (auto simp: row_accepts_updated row_accepts_db [OF db] gw_auth_def [symmetric] split: if_splits)
  next
    case deactivate
    let ?hit = "\<lambda>r. ur_id r = name \<and> \<not> ur_disabled r"
    have "gw_auth (sy_gw s') = set_rows ?st ?d (tbl_update ?hit (\<lambda>r. r\<lparr>ur_disabled := True\<rparr>) (api_users ?d))"
      using deactivate assms(5,9) db tr by (simp add: st' defs deactivate_user_def)
    then show ?thesis using deactivate
      by (auto simp: row_accepts_updated row_accepts_db [OF db] split: if_splits)
  next
    case update
    have "api_key_hash uc = []" if "user_of_form [] u = Some uc" for u uc using that by (auto simp: user_of_form_def)
    then show ?thesis using update assms(5,9) update_keeps_keys [OF assms(4) db _ tr assms(9)]
      by (auto simp: st' defs split: sum.split option.split)
  next
    case create
    have some: "user_of_form h u = None \<longleftrightarrow> user_of_form [] u = None" for h u by (simp add: user_of_form_def)
    have hash: "api_key_hash uc = hash_api_key ?key" if "user_of_form (hash_api_key ?key) u = Some uc" for u uc
      using that by (auto simp: user_of_form_def)
    show ?thesis
    proof (cases "build_user_config_from_form f")
      case (Inl e)
      then show ?thesis using create assms(9) by (simp add: st' defs)
    next
      case (Inr u)
      show ?thesis
      proof (cases "user_of_form (hash_api_key ?key) u")
        case None
        then show ?thesis using create assms(9) some [of "hash_api_key ?key" u] by (simp add: st' defs Inr)
      next
        case (Some uc)
        have "gw_auth (sy_gw s') = (if tbl_get ur_id (api_users ?d) name = None
            then set_rows ?st ?d (api_users ?d @ [create_row name uc]) else ?st)"
          using create assms(5,9) db tr hash [OF Some]
          by (simp add: st' defs Inr Some create_user_def)
        then show ?thesis using create Some some [of "hash_api_key ?key" u] hash [OF Some]
          by (auto simp: Inr row_accepts_set_rows row_accepts_db [OF db] tbl_get_None split: if_splits)
      qed
    qed
  next
    case other
    then show ?thesis using assms(9) by (simp add: st' defs)
  qed
qed

lemma user_form_keys:
  assumes "rq_method r = ''POST''" and "admin_path (rq_path r) = ''users''" and "parse_form r = Some f"
    and "auth_ok (gw_auth (sy_gw s))" and "de_flts env 0 0 = no_faults" and "generate_api_key env \<noteq> []"
    and "serve_admin env r s = (rep, s')"
    and "name = trim_space (form_value f ''user_name'')" and "name \<noteq> []"
    and "\<forall>u. build_user_config_from_form f = Inr u \<longrightarrow> user_of_form [] u \<noteq> None"
  shows "(\<forall>k v. yaml_accepts (gw_auth (sy_gw s')) k v = yaml_accepts (gw_auth (sy_gw s)) k v) \<and>
    (\<forall>k v. row_accepts (gw_auth (sy_gw s')) k v \<longleftrightarrow>
      (if v = name \<and> (creates_user f (gw_db (sy_gw s)) name \<or> rotates_user f (gw_db (sy_gw s)) name)
       then hash_api_key k = hash_api_key (generate_api_key env)
       else if v = name \<and> deactivates_user f (gw_db (sy_gw s)) name then False
       else row_accepts (gw_auth (sy_gw s)) k v))"
proof -
  let ?d = "gw_db (sy_gw s)"
  have cre: "creates_user f ?d name \<longleftrightarrow> form_value f ''action'' = ''create'' \<and> tbl_get ur_id (api_users ?d) name = None \<and>
      (\<exists>u. build_user_config_from_form f = Inr u \<and> user_of_form [] u \<noteq> None)"
    using assms(10) by (auto simp: creates_user_def tbl_get_None)
  have rot: "rotates_user f ?d name \<longleftrightarrow> form_value f ''action'' = ''rotate'' \<and>
      (\<exists>row \<in> set (api_users ?d). ur_id row = name \<and> \<not> ur_disabled row)"
    by (simp add: rotates_user_def active_row_def)
  have "row_accepts (gw_auth (sy_gw s)) k name \<Longrightarrow> active_row ?d name" for k
    by (auto simp: row_accepts_def gw_auth_def active_row_def)
  then have out: "(if v = name \<and> form_value f ''action'' = ''deactivate'' then False else row_accepts (gw_auth (sy_gw s)) k v)
      = (if v = name \<and> deactivates_user f ?d name then False else row_accepts (gw_auth (sy_gw s)) k v)" for k v
    by (auto simp: deactivates_user_def)
  note R = user_form_rows [OF assms(1-9)]
  show ?thesis
  proof (intro conjI allI)
    fix k v
    show "yaml_accepts (gw_auth (sy_gw s')) k v = yaml_accepts (gw_auth (sy_gw s)) k v" using R by blast
    show "row_accepts (gw_auth (sy_gw s')) k v \<longleftrightarrow>
      (if v = name \<and> (creates_user f ?d name \<or> rotates_user f ?d name)
       then hash_api_key k = hash_api_key (generate_api_key env)
       else if v = name \<and> deactivates_user f ?d name then False
       else row_accepts (gw_auth (sy_gw s)) k v)"
      using spec [OF spec [OF R [THEN conjunct2], of k], of v] unfolding out cre rot conj_disj_distribL .
  qed
qed

text \<open>What the page after a form says: its key and its notice.\<close>

lemma users_page_reply:
  "fst (render_users_page env r key hash err ok h) = Rendered p pg fr \<Longrightarrow> \<exists>v. pg = UsersPage v \<and> vs_key v = key \<and> vs_success v = ok"
  by (auto simp: render_users_page_def render_eq)

lemma users_page_shown:
  "\<exists>v fr. fst (render_users_page env r key hash err ok h) = Rendered None (UsersPage v) fr \<and> vs_key v = key \<and> vs_success v = ok"
  by (simp add: render_users_page_def render_eq)

lemma user_action_reply:
  assumes "parse_form r = Some f" "dh_db h = Some d" "de_flts env 0 0 = no_faults" "generate_api_key env \<noteq> []"
    and "name = trim_space (form_value f ''user_name'')" "name \<noteq> []"
    and "\<forall>u. build_user_config_from_form f = Inr u \<longrightarrow> user_of_form [] u \<noteq> None"
  shows "\<exists>v fr. fst (handle_user_action env r h) = Rendered None (UsersPage v) fr \<and>
    (creates_user f d name \<longrightarrow> vs_key v = generate_api_key env \<and> vs_success v = UserCreated name) \<and>
    (rotates_user f d name \<longrightarrow> vs_key v = generate_api_key env \<and> vs_success v = KeyRotated name) \<and>
    (deactivates_user f d name \<longrightarrow> vs_success v = UserDeactivated name) \<and>
    (\<forall>n. vs_success v = UserCreated n \<longrightarrow> n = name \<and> creates_user f d name) \<and>
    (\<forall>n. vs_success v = KeyRotated n \<longrightarrow> n = name \<and> rotates_user f d name) \<and>
    (\<forall>n. vs_success v = UserDeactivated n \<longrightarrow> n = name \<and> deactivates_user f d name)"
proof -
  let ?key = "generate_api_key env" and ?a = "form_value f ''action''"
  have tr: "trim_space name = name" using assms(5) by simp
  have db: "as_db (dash_auth h) = Some d" "api_users d = api_users d" using assms(2) by (simp_all add: dash_auth_def)
  have reply: "\<exists>v fr. fst (handle_user_action env r h) = Rendered None (UsersPage v) fr \<and> vs_key v = key \<and> vs_success v = ok"
    if "fst (handle_user_action env r h) = fst (render_users_page env r key hash err ok h1)" for key hash err ok h1
    using that users_page_shown [of env r key hash err ok h1] by simp
  have act: "active_row d name \<longleftrightarrow> tbl_affected (\<lambda>r. ur_id r = name \<and> \<not> ur_disabled r) (api_users d) \<noteq> 0"
    using tbl_affected_0 [of "\<lambda>r. ur_id r = name \<and> \<not> ur_disabled r" "api_users d"] by (auto simp: active_row_def)
  have h: "handle_user_action env r h =
      (if ?a = ''generate'' then render_users_page env r ?key (hash_api_key ?key) NoNotice NoNotice h
       else if ?a = ''rotate'' then rotate_form env r name h
       else if ?a = ''deactivate'' then deactivate_form env r name h
       else if ?a = ''update'' then update_form env r f name h
       else if ?a \<noteq> ''create'' then render_users_page env r [] [] NoNotice NoNotice h
       else create_form env r f name h)"
    using assms(1,6) by (simp add: handle_user_action_def Let_def assms(5) [symmetric])
  consider (create) "?a = ''create''" | (rotate) "?a = ''rotate''" | (deactivate) "?a = ''deactivate''"
    | (update) "?a = ''update''" | (other) "?a \<notin> {''create'', ''rotate'', ''deactivate'', ''update''}" by blast
  then show ?thesis
  proof cases
    case create
    have un: "creates_user f d name \<longleftrightarrow> tbl_get ur_id (api_users d) name = None \<and> (\<exists>u. build_user_config_from_form f = Inr u)"
      using create by (auto simp: creates_user_def tbl_get_None)
    show ?thesis
    proof (cases "build_user_config_from_form f")
      case (Inl e)
      then have "handle_user_action env r h = render_users_page env r [] [] (InvalidUser name e) NoNotice h"
        using create by (simp add: h create_form_def Let_def)
      then show ?thesis using reply create Inl by (fastforce simp: un rotates_user_def deactivates_user_def)
    next
      case (Inr u)
      then obtain uc where uc: "user_of_form (hash_api_key ?key) u = Some uc" "api_key_hash uc = hash_api_key ?key"
        using assms(7) by (auto simp: user_of_form_def)
      show ?thesis
      proof (cases "tbl_get ur_id (api_users d) name")
        case None
        then have "\<exists>h1. handle_user_action env r h = render_users_page env r ?key (hash_api_key ?key) NoNotice (UserCreated name) h1"
          using create uc db tr assms(3,6) by (simp add: h create_form_def Let_def Inr create_user_def) blast
        then show ?thesis using reply create Inr None by (fastforce simp: un rotates_user_def deactivates_user_def)
      next
        case (Some row)
        then have "\<exists>h1. handle_user_action env r h = render_users_page env r [] [] (UserAlreadyExists name) NoNotice h1"
          using create uc db tr assms(3,6) by (simp add: h create_form_def Let_def Inr create_user_def) blast
        then show ?thesis using reply create Inr Some by (fastforce simp: un rotates_user_def deactivates_user_def)
      qed
    qed
  next
    case rotate
    have "\<exists>h1 err. handle_user_action env r h = (if active_row d name then render_users_page env r ?key (hash_api_key ?key) NoNotice (KeyRotated name) h1
        else render_users_page env r [] [] err NoNotice h1)"
      using rotate db tr assms(3,4,6) by (auto simp: h rotate_form_def rotate_user_key_def Let_def act)
    then show ?thesis using reply rotate
      by (cases "active_row d name") (fastforce simp: creates_user_def rotates_user_def deactivates_user_def)+
  next
    case deactivate
    have "\<exists>h1 err. handle_user_action env r h = (if active_row d name then render_users_page env r [] [] NoNotice (UserDeactivated name) h1
        else render_users_page env r [] [] err NoNotice h1)"
      using deactivate db tr assms(3,6) by (auto simp: h deactivate_form_def deactivate_user_def Let_def act)
    then show ?thesis using reply deactivate
      by (cases "active_row d name") (fastforce simp: creates_user_def rotates_user_def deactivates_user_def)+
  next
    case update
    have "\<exists>h1 err ok. handle_user_action env r h = render_users_page env r [] [] err ok h1 \<and> ok \<in> {NoNotice, UserUpdated name}"
      using update assms(7)
      by (auto simp: h update_form_def split: sum.split option.splits prod.split auth_err.split)
    then show ?thesis using reply update by (fastforce simp: creates_user_def rotates_user_def deactivates_user_def)
  next
    case other
    then have "\<exists>key hash. handle_user_action env r h = render_users_page env r key hash NoNotice NoNotice h" by (auto simp: h)
    then show ?thesis using reply other by (fastforce simp: creates_user_def rotates_user_def deactivates_user_def)
  qed
qed

text \<open>C6: the forms of the users page decide who may use the API from then on, and the page that answers says so.  A
  created user, and a user whose key is rotated, enters with exactly the key that the page shows; the row of a deactivated user admits no key
  (an entry of the YAML configuration with the same name still does);
  an update and every other form admit the same keys as before, and no form changes what admits another user or the YAML users.
  The page announces a creation, a rotation or a deactivation exactly when the form is one that works.  This is for statements that do not fail and forms
  whose numbers are finite.\<close>

theorem user_form_decides_api:
  assumes "rq_method r = ''POST''" and "admin_path (rq_path r) = ''users''" and "parse_form r = Some f"
    and "auth_ok (gw_auth (sy_gw s))" and "de_flts env 0 0 = no_faults" and "generate_api_key env \<noteq> []"
    and "serve_admin env r s = (rep, s')"
    and "name = trim_space (form_value f ''user_name'')" and "name \<noteq> []"
    and "\<forall>u. build_user_config_from_form f = Inr u \<longrightarrow> user_of_form [] u \<noteq> None"
  shows "\<exists>page fr. rep = Rendered None (UsersPage page) fr \<and>
    (\<forall>k v. yaml_accepts (gw_auth (sy_gw s')) k v = yaml_accepts (gw_auth (sy_gw s)) k v) \<and>
    (\<forall>k v. row_accepts (gw_auth (sy_gw s')) k v \<longleftrightarrow>
      (if v = name \<and> (creates_user f (gw_db (sy_gw s)) name \<or> rotates_user f (gw_db (sy_gw s)) name)
       then hash_api_key k = hash_api_key (vs_key page)
       else if v = name \<and> deactivates_user f (gw_db (sy_gw s)) name then False
       else row_accepts (gw_auth (sy_gw s)) k v)) \<and>
    (\<forall>n. vs_success page = UserCreated n \<longleftrightarrow> n = name \<and> creates_user f (gw_db (sy_gw s)) name) \<and>
    (\<forall>n. vs_success page = KeyRotated n \<longleftrightarrow> n = name \<and> rotates_user f (gw_db (sy_gw s)) name) \<and>
    (\<forall>n. vs_success page = UserDeactivated n \<longleftrightarrow> n = name \<and> deactivates_user f (gw_db (sy_gw s)) name)"
proof -
  have "dh_db (dash_view s) = Some (gw_db (sy_gw s))" by (simp add: dash_view_def)
  from user_action_reply [OF assms(3) this assms(5,6,8-10)]
  obtain page fr where P: "fst (handle_user_action env r (dash_view s)) = Rendered None (UsersPage page) fr"
    "creates_user f (gw_db (sy_gw s)) name \<longrightarrow> vs_key page = generate_api_key env \<and> vs_success page = UserCreated name"
    "rotates_user f (gw_db (sy_gw s)) name \<longrightarrow> vs_key page = generate_api_key env \<and> vs_success page = KeyRotated name"
    "deactivates_user f (gw_db (sy_gw s)) name \<longrightarrow> vs_success page = UserDeactivated name"
    "\<forall>n. vs_success page = UserCreated n \<longrightarrow> n = name \<and> creates_user f (gw_db (sy_gw s)) name"
    "\<forall>n. vs_success page = KeyRotated n \<longrightarrow> n = name \<and> rotates_user f (gw_db (sy_gw s)) name"
    "\<forall>n. vs_success page = UserDeactivated n \<longrightarrow> n = name \<and> deactivates_user f (gw_db (sy_gw s)) name" by blast
  have "serve_dashboard env r (dash_view s) = handle_user_action env r (dash_view s)"
    using assms(1,2) by (simp add: serve_dashboard_def Let_def has_prefix_def)
  then have rep: "rep = Rendered None (UsersPage page) fr"
    using assms(7) P(1) by (auto simp: serve_admin_def split: prod.splits)
  note K = user_form_keys [OF assms]
  have "\<forall>k v. row_accepts (gw_auth (sy_gw s')) k v \<longleftrightarrow>
      (if v = name \<and> (creates_user f (gw_db (sy_gw s)) name \<or> rotates_user f (gw_db (sy_gw s)) name)
       then hash_api_key k = hash_api_key (vs_key page)
       else if v = name \<and> deactivates_user f (gw_db (sy_gw s)) name then False
       else row_accepts (gw_auth (sy_gw s)) k v)"
    using K [THEN conjunct2] P(2,3) by metis
  then show ?thesis using rep K [THEN conjunct1] P(2-7) by (intro exI [of _ page] exI [of _ fr] conjI) (blast+)
qed

definition deactivate_request :: http_request where
  "deactivate_request = sample_request ''/admin/users'' ''action=deactivate&user_name=alice''"

definition rotate_request :: http_request where
  "rotate_request = sample_request ''/admin/users'' ''action=rotate&user_name=alice''"

lemma deactivate_form_read:
  "parse_form deactivate_request = Some [(''action'', [''deactivate'']), (''user_name'', [''alice''])]"
  "admin_path (rq_path deactivate_request) = ''users''"
  by code_simp+

lemma rotate_form_read:
  "parse_form rotate_request = Some [(''action'', [''rotate'']), (''user_name'', [''alice''])]"
  "admin_path (rq_path rotate_request) = ''users''"
  by code_simp+

lemma alice_trimmed: "trim_space ''alice'' = ''alice''"
  by code_simp

definition sample_dash_env :: dash_env where
  "sample_dash_env = \<lparr>de_flts = (\<lambda>i j. no_faults), de_net = (\<lambda>q. TransportFailed), de_now = 1,
     de_random = (\<lambda>i. Some ''r''), de_sum = sum_list, de_themes = None, de_assets = (\<lambda>p. None),
     de_mime = (\<lambda>x. []), de_detect = (\<lambda>x. []), de_reload = None\<rparr>"

lemma sample_gateway_auth_ok: "auth_ok (gw_auth sample_gateway)"
  by (simp add: auth_ok_def gw_auth_def sample_gateway_def as_users_def gm_ok_def db_ok_def empty_db_def tbl_ok_def)

lemma new_system_gateway [simp]: "sy_gw (new_system g) = g"
  by (simp add: new_system_def)

text \<open>Alice's key is rotated, and the page shows the key that she enters with; or she is deactivated, and no key of hers is admitted.\<close>

theorem user_form_decides_api_witness:
  "(\<exists>page fr. fst (serve_admin sample_dash_env rotate_request (new_system sample_gateway)) = Rendered None (UsersPage page) fr \<and>
      vs_success page = KeyRotated ''alice'' \<and>
      row_accepts (gw_auth (sy_gw (snd (serve_admin sample_dash_env rotate_request (new_system sample_gateway))))) (vs_key page) ''alice'') \<and>
   row_accepts (gw_auth sample_gateway) ''k'' ''alice'' \<and>
   (\<forall>k. \<not> row_accepts (gw_auth (sy_gw (snd (serve_admin sample_dash_env deactivate_request (new_system sample_gateway))))) k ''alice'')"
proof (intro conjI)
  show k: "row_accepts (gw_auth sample_gateway) ''k'' ''alice''"
    by (simp add: row_accepts_def gw_auth_def sample_gateway_def)
  let ?s = "new_system sample_gateway"
  let ?f = "\<lambda>a. [(''action'', [a]), (''user_name'', [''alice''])]"
  have f: "form_value (?f a) ''action'' = a" "''alice'' = trim_space (form_value (?f a) ''user_name'')" for a
    by (simp_all add: form_value_def gm_get_Cons alice_trimmed)
  have p: "rq_method rotate_request = ''POST''" "rq_method deactivate_request = ''POST''" "auth_ok (gw_auth (sy_gw ?s))"
      "de_flts sample_dash_env 0 0 = no_faults" "generate_api_key sample_dash_env \<noteq> []" "''alice'' \<noteq> []"
    using sample_gateway_auth_ok
    by (simp_all add: deactivate_request_def rotate_request_def sample_request_def sample_dash_env_def generate_api_key_def
        hex_encode_def hex_byte_def)
  have fin: "\<forall>u. build_user_config_from_form (?f a) = Inr u \<longrightarrow> user_of_form [] u \<noteq> None" for a
    by (simp add: build_user_config_from_form_def limit_of_form_def form_value_def gm_get_Cons user_of_form_def
        checked_on_def form_values_def parse_aliases_def limit_of_user_form_def equal_fold_def to_lower_def)
  have act: "active_row (gw_db (sy_gw ?s)) ''alice''" by (simp add: active_row_def sample_gateway_def)
  note R = user_form_decides_api [OF p(1) rotate_form_read(2,1) p(3-5) prod.collapse [symmetric] f(2) p(6) fin]
  have "rotates_user (?f ''rotate'') (gw_db (sy_gw ?s)) ''alice''" using act f(1) by (simp add: rotates_user_def)
  with R show "\<exists>page fr. fst (serve_admin sample_dash_env rotate_request ?s) = Rendered None (UsersPage page) fr \<and>
      vs_success page = KeyRotated ''alice'' \<and>
      row_accepts (gw_auth (sy_gw (snd (serve_admin sample_dash_env rotate_request ?s)))) (vs_key page) ''alice''"
    by (elim exE conjE) (intro exI conjI, assumption, blast, simp)
  note D = user_form_decides_api [OF p(2) deactivate_form_read(2,1) p(3-5) prod.collapse [symmetric] f(2) p(6) fin]
  have "deactivates_user (?f ''deactivate'') (gw_db (sy_gw ?s)) ''alice''"
      "\<not> creates_user (?f ''deactivate'') (gw_db (sy_gw ?s)) ''alice''" "\<not> rotates_user (?f ''deactivate'') (gw_db (sy_gw ?s)) ''alice''"
    using act f(1) by (simp_all add: deactivates_user_def creates_user_def rotates_user_def)
  with D show "\<forall>k. \<not> row_accepts (gw_auth (sy_gw (snd (serve_admin sample_dash_env deactivate_request ?s)))) k ''alice''"
    by (elim exE conjE) simp
qed

section \<open>Backends\<close>

lemma api_sent:
  assumes "gateway_ok kp px g" "serve_api fk fl now env g r = (a, g')" "ao_sent a = Some q"
  obtains uid model b where
    "row_accepts (gw_auth g) (api_key_from_request r) uid \<or> yaml_accepts (gw_auth g) (api_key_from_request r) uid"
    "extract_model_from_request (en_readable env) r = Some model"
    "permitted (en_faults env) (gw_proxy g) (Some (user_context uid)) model b"
    "get_by_name (shared_manager g) (be_name b) = Some b" "usable b" "px_host q = u_host (be_url b)"
  using assms(2)
proof (cases rule: serve_api_cases)
  case (served uid w s)
  have ok: "mgr_ok (shared_manager g)" using assms(1) by (simp add: gateway_ok_def resolver_ok_def shared_manager_def)
  have inv: "mgr_ok (rv_manager (ph_resolver (gw_proxy g)))"
      "\<forall>n e. gm_get (rv_registry (ph_resolver (gw_proxy g))) n = Some e \<longrightarrow> distinct (re_backends e)"
    using assms(1) by (simp_all add: gateway_ok_def resolver_ok_def registry_ok_def gw_proxy_def)
  from proxy_forwards [OF inv, of env "Some (user_context uid)" r] assms(3)
  obtain model b where b: "extract_model_from_request (en_readable env) r = Some model"
      "permitted (en_faults env) (gw_proxy g) (Some (user_context uid)) model b" "usable b" "px_host q = u_host (be_url b)"
    by (auto simp: served)
  then obtain p where p: "p \<in> set (mg_backends (shared_manager g))" "b = mg_heap (shared_manager g) ! p"
    by (auto simp: permitted_def Let_def gw_proxy_def shared_manager_def)
  then have "get_by_name (shared_manager g) (be_name b) = Some b"
    using ok by (auto simp: get_by_name_def mgr_ok_def)
  then show ?thesis using that [OF served(1) b(1,2) _ b(3,4)] by simp
qed (use assms(3) in \<open>simp add: api_denied_def\<close>)

lemma fold_refresh_manager [simp]: "rv_manager (fold refresh_catalog cs rv) = rv_manager rv"
  by (induction cs arbitrary: rv) (simp_all add: refresh_catalog_def)

lemma manager_of_commit: "dh_manager h = Some m \<Longrightarrow> shared_manager (sy_gw (commit h s)) = m"
  by (simp add: commit_def Let_def shared_manager_def)

lemma dropped_manager:
  assumes "drop_backend flts name h = (None, h')" "dh_manager h = Some m"
  shows "\<exists>m'. dh_manager h' = Some m' \<and> remove_backend name m = Inr m'"
proof -
  obtain x h1 where st: "(case dh_db h of None \<Rightarrow> (None, h)
       | Some d \<Rightarrow> (case store_remove_backend (flts 0) name d of
           (e, d') \<Rightarrow> (map_option (\<lambda>x. if x = BackendRowNotFound then BackendMissing else ByBackendStore x) e, h\<lparr>dh_db := Some d'\<rparr>))) = (x, h1)"
    by (rule prod.exhaust, rule that)
  have m: "dh_manager h1 = Some m" using st assms(2) by (auto split: option.splits prod.splits)
  have x: "x = None" using assms(1) unfolding drop_backend_def st by (cases x) simp_all
  obtain m' where m': "remove_backend name m = Inr m'"
    using assms(1) unfolding drop_backend_def st x by (cases "remove_backend name m") (auto simp: m)
  have r: "reload_backends_from_store (flts 1) (remove_backend_from_config name
      (h1\<lparr>dh_manager := Some m', dh_disabled := gm_del name (dh_disabled h1)\<rparr>)) = (None, h')"
    using assms(1) unfolding drop_backend_def st x by (simp add: m m')
  have "dh_manager h' = Some m'"
    using r by (auto simp: reload_backends_from_store_def remove_backend_from_config_def put_backends_def
        split: option.splits sum.splits)
  then show ?thesis using m' by blast
qed

lemma removal_shown:
  assumes "handle_backend_action env r h = (Rendered p (BackendsPage v) fr, h')" "vb_success v = BackendRemoved name"
  shows "\<exists>h1. drop_backend (de_flts env 0) name h = (None, h1) \<and> h' = age_job env h1"
  using assms
  by (auto simp: handle_backend_action_def removal_form_def render_backends_page_def render_eq Let_def
      split: option.splits prod.splits sum.splits if_splits)

text \<open>A request that takes a backend out of service: a form whose answer says that the backend was removed, or a use
  of its switch while it is on.\<close>

definition withdraws :: "dash_env \<Rightarrow> http_request \<Rightarrow> string \<Rightarrow> system \<Rightarrow> bool" where
  "withdraws env r name s \<longleftrightarrow>
     rq_method r = ''POST'' \<and> admin_path (rq_path r) = ''backends'' \<and>
       (\<exists>p v fr. fst (serve_admin env r s) = Rendered p (BackendsPage v) fr \<and> vb_success v = BackendRemoved name) \<or>
     is_authenticated (dash_view s) r \<and> admin_path (rq_path r) = ''backends/toggle/'' @ name \<and>
       name \<notin> {[], ''backends/toggle/''} \<and> gm_get (dh_disabled (sy_dash s)) name \<noteq> Some True"

lemma withdrawn:
  assumes "mgr_ok (shared_manager (sy_gw s))" "withdraws env r name s" "serve_admin env r s = (rep, s')"
    and "get_by_name (shared_manager (sy_gw s')) n = Some b" "usable b"
  shows "n \<noteq> name"
proof -
  let ?m = "shared_manager (sy_gw s)"
  have m: "dh_manager (dash_view s) = Some ?m" by (simp add: dash_view_def)
  from assms(2) consider
      (removed) p v fr where "rq_method r = ''POST''" "admin_path (rq_path r) = ''backends''"
        "rep = Rendered p (BackendsPage v) fr" "vb_success v = BackendRemoved name"
    | (switched) "is_authenticated (dash_view s) r" "admin_path (rq_path r) = ''backends/toggle/'' @ name"
        "name \<notin> {[], ''backends/toggle/''}" "gm_get (dh_disabled (sy_dash s)) name \<noteq> Some True"
    unfolding withdraws_def using assms(3) by auto
  then show ?thesis
  proof cases
    case removed
    obtain h where h: "handle_backend_action env r (dash_view s) = (rep, h)" "s' = commit h s"
      using assms(3) removed(1,2) by (auto simp: serve_admin_def serve_dashboard_def Let_def has_prefix_def split: prod.splits)
    from removal_shown [OF h(1) [unfolded removed(3)] removed(4)] obtain h1
      where h1: "drop_backend (de_flts env 0) name (dash_view s) = (None, h1)" "h = age_job env h1" by blast
    obtain m' where m': "dh_manager h1 = Some m'" "remove_backend name ?m = Inr m'"
      using dropped_manager [OF h1(1) m] by blast
    have "shared_manager (sy_gw s') = m'"
      unfolding h(2) by (rule manager_of_commit) (simp add: h1(2) age_job_def m'(1))
    moreover have "gm_get (mg_by_name m') name = None" using m'(2) by (auto simp: remove_backend_def split: if_splits)
    ultimately show ?thesis using assms(4) by (auto simp: get_by_name_def)
  next
    case switched
    have t: "toggle_name (''backends/toggle/'' @ name) = name" by (simp add: toggle_name_def trim_prefix_def has_prefix_def)
    have was: "gm_get (dh_disabled (dash_view s)) name \<noteq> Some True" using switched(4) by (simp add: dash_view_def)
    have ht: "handle_backend_toggle r (''backends/toggle/'' @ name) (dash_view s) = (respond_backend_toggle r name False,
        (dash_view s)\<lparr>dh_disabled := gm_put name True (dh_disabled (dash_view s)),
          dh_manager := Some (toggle_backend name False ?m)\<rparr>)"
      unfolding handle_backend_toggle_def t Let_def using switched(3) was by (simp add: m)
    have "serve_dashboard env r (dash_view s) = handle_backend_toggle r (''backends/toggle/'' @ name) (dash_view s)"
      using switched(1) unfolding serve_dashboard_def serve_authenticated_def switched(2) Let_def
      by (simp add: has_prefix_def)
    then have "s' = commit ((dash_view s)\<lparr>dh_disabled := gm_put name True (dh_disabled (dash_view s)),
        dh_manager := Some (toggle_backend name False ?m)\<rparr>) s"
      unfolding ht using assms(3) by (simp add: serve_admin_def)
    then have sm: "shared_manager (sy_gw s') = toggle_backend name False ?m" by (simp add: manager_of_commit)
    show ?thesis
    proof
      assume n: "n = name"
      from assms(4) [unfolded sm n] obtain p where p: "gm_get (mg_by_name ?m) name = Some p"
        by (auto simp: get_by_name_def toggle_backend_def split: option.splits)
      have "p < length (mg_heap ?m)" using mgr_okD(2) [OF assms(1) p] .
      then have "b = set_enabled False (mg_heap ?m ! p)"
        using assms(4) [unfolded sm n] p by (simp add: get_by_name_def toggle_backend_def)
      then show False using assms(5) by (simp add: usable_def is_healthy_def set_enabled_def)
    qed
  qed
qed

text \<open>C7: a backend that the dashboard took out of service gets no request any more: whatever API request comes after
  a removal that was reported, or after the backend was switched off, if it is forwarded at all it goes to another backend
  of the manager that is enabled and healthy.\<close>

theorem withdrawn_backend_unreached:
  assumes "system_ok kp px tls c0 s" and "withdraws env r name s" and "serve_admin env r s = (rep, s')"
    and "serve_api fk fl now penv (sy_gw s') q = (a, g')" and "ao_sent a = Some x"
  shows "\<exists>b. get_by_name (shared_manager (sy_gw s')) (be_name b) = Some b \<and> be_name b \<noteq> name \<and> usable b \<and>
    px_host x = u_host (be_url b)"
proof -
  have ok: "mgr_ok (shared_manager (sy_gw s))"
    using assms(1) by (simp add: system_ok_def gateway_inv_def gateway_ok_def resolver_ok_def shared_manager_def)
  have "gateway_ok kp px (sy_gw s')"
    using serve_admin_ok [OF assms(1,3)] by (simp add: system_ok_def gateway_inv_def)
  then show ?thesis
  proof (rule api_sent [OF _ assms(4,5)])
    fix uid model b
    assume b: "get_by_name (shared_manager (sy_gw s')) (be_name b) = Some b" "usable b" "px_host x = u_host (be_url b)"
    from withdrawn [OF ok assms(2,3) b(1,2)] b show ?thesis by blast
  qed
qed

definition admin_gateway :: gateway where
  "admin_gateway = sample_gateway\<lparr>gw_cfg := (gw_cfg sample_gateway)\<lparr>cfg_admin_token_hash := hash_api_key ''t''\<rparr>\<rparr>"

definition switch_request :: http_request where
  "switch_request = (sample_request ''/admin/backends/toggle/a'' [])\<lparr>rq_headers := [(''X-Admin-Token'', [''t''])]\<rparr>"

lemma switch_request_facts:
  "admin_token_from_request switch_request = ''t''" "admin_path (rq_path switch_request) = ''backends/toggle/'' @ ''a''"
  "trim_prefix ''backends/toggle/a'' ''backends/toggle/'' = ''a''"
  by code_simp+

lemma admin_gateway_ok: "system_ok kp px False (gw_cfg admin_gateway) (new_system admin_gateway)"
proof -
  have "gateway_ok kp px admin_gateway"
    using sample_gateway_ok [of kp px] by (simp add: gateway_ok_def admin_gateway_def)
  then show ?thesis using sample_gateway_auth_ok
    by (simp add: system_ok_def gateway_inv_def admin_gateway_def sample_gateway_def gw_auth_def auth_ok_def as_users_def
        sample_config_def gm_ok_def new_system_def new_handler_def set_model_runtime_refreshers_def set_model_catalog_def
        set_tls_manager_def set_manager_of_def no_pulls_def)
qed

lemma switch_authenticated: "is_authenticated (dash_view (new_system admin_gateway)) switch_request"
  using hash_api_key_not_Nil [of "''t''"]
  by (simp add: is_authenticated_def switch_request_facts check_admin_token_def gw_auth_def admin_gateway_def
      hash_api_key_def hex_decode_encode)

lemma switched_serves:
  assumes "g = admin_gateway\<lparr>gw_resolver := sample_resolver\<lparr>rv_manager := toggle_backend ''a'' False sample_manager\<rparr>\<rparr>"
  shows "\<exists>a g'. serve_api no_faults no_faults 0 (sample_env\<lparr>en_faults := (\<lambda>k. True)\<rparr>) g keyed_request = (a, g') \<and> ao_sent a \<noteq> None"
proof -
  let ?env = "sample_env\<lparr>en_faults := (\<lambda>k. True)\<rparr>" and ?h = "gw_proxy g"
  let ?rv = "sample_resolver\<lparr>rv_manager := toggle_backend ''a'' False sample_manager\<rparr>"
  have "\<exists>p. resolve ''m'' (from_user_config None) ?rv = Inr p \<and> (\<exists>i heap. select p (mg_heap (rv_manager ?rv)) = (Some i, heap))"
    by (simp add: resolve_def resolve_model_def sample_resolver_def sample_registry_def registry_get_def gm_get_Cons
      from_user_config_def resolved_name_plain no_alias_def Let_def pool_for_model_def sample_manager_def toggle_backend_def set_enabled_def
      ref_weight_for_def new_pool_def select_def default_model_weight_def sample_backend_def is_healthy_def i64_def max_int_def)
  then obtain p i heap where p: "resolve ''m'' (from_user_config None) ?rv = Inr p" "select p (mg_heap (rv_manager ?rv)) = (Some i, heap)"
    by blast
  have e: "en_readable ?env = True" "ph_resolver ?h = ?rv" "\<And>b. can_reach_backend (en_dial sample_env) b"
    "overrides_of (\<lambda>k. True) (ph_auth ?h) (Some ac) = from_user_config None" for ac
    by (simp_all add: sample_env_def gw_proxy_def assms admin_gateway_def sample_gateway_def can_reach_backend_def Let_def gw_auth_def
        overrides_of_def get_user_config_def)
  have "pr_sent (proxy_serve ?env ?h (Some ac) keyed_request) \<noteq> None" for ac
    using p by (simp add: proxy_serve_def keyed_request_model resolve_backend_pool_def e Let_def run_proxy_sent)
  moreover have "lookup_api_key no_faults (gw_auth g) ''k'' = Some \<lparr>ak_id = ''alice'', ak_name = ''alice'', ak_is_admin = False\<rparr>"
    by (simp add: lookup_api_key_def gw_auth_def assms admin_gateway_def sample_gateway_def)
  moreover have "\<exists>w s. store_allow no_faults 0 (gw_limiter_store g) ''alice'' = ((True, w), s)"
    by (simp add: store_allow_def gw_limiter_store_def assms admin_gateway_def sample_gateway_def backend_allow_def redis_allow_def
        split: prod.split)
  ultimately show ?thesis
    by (auto simp: serve_api_def auth_middleware_def keyed_request_key rate_middleware_def Let_def)
qed

theorem withdrawn_backend_unreached_witness:
  "\<exists>b. get_by_name (shared_manager (sy_gw (snd (serve_admin sample_dash_env switch_request (new_system admin_gateway))))) (be_name b)
     = Some b \<and> be_name b \<noteq> ''a'' \<and> usable b"
proof -
  let ?s = "new_system admin_gateway"
  obtain rep s' where s': "serve_admin sample_dash_env switch_request ?s = (rep, s')" by fastforce
  have w: "withdraws sample_dash_env switch_request ''a'' ?s"
    using switch_authenticated switch_request_facts(2)
    by (simp add: withdraws_def new_system_def new_handler_def set_model_runtime_refreshers_def set_model_catalog_def
        set_tls_manager_def set_manager_of_def)
  have dis: "gm_get (dh_disabled (dash_view ?s)) ''a'' = None"
    by (simp add: dash_view_def new_system_def new_handler_def set_model_runtime_refreshers_def set_model_catalog_def
        set_tls_manager_def set_manager_of_def)
  have sd: "snd (serve_dashboard sample_dash_env switch_request (dash_view ?s)) =
     (dash_view ?s)\<lparr>dh_disabled := gm_put ''a'' True (dh_disabled (dash_view ?s)),
       dh_manager := Some (toggle_backend ''a'' False sample_manager)\<rparr>"
    using switch_authenticated dis switch_request_facts(2)
    by (simp add: serve_dashboard_def serve_authenticated_def Let_def has_prefix_def handle_backend_toggle_def toggle_name_def
        switch_request_facts(3)) (simp add: dash_view_def shared_manager_def admin_gateway_def sample_gateway_def sample_resolver_def)
  have "s' = commit (snd (serve_dashboard sample_dash_env switch_request (dash_view ?s))) ?s"
    using s' by (auto simp: serve_admin_def split: prod.splits)
  then have g: "sy_gw s' = admin_gateway\<lparr>gw_resolver := sample_resolver\<lparr>rv_manager := toggle_backend ''a'' False sample_manager\<rparr>\<rparr>"
    unfolding sd by (simp add: commit_def Let_def dash_view_def admin_gateway_def sample_gateway_def)
  obtain a g' where a: "serve_api no_faults no_faults 0 (sample_env\<lparr>en_faults := (\<lambda>k. True)\<rparr>) (sy_gw s') keyed_request = (a, g')"
      "ao_sent a \<noteq> None" using switched_serves [OF g] by blast
  then obtain x where x: "ao_sent a = Some x" by blast
  from withdrawn_backend_unreached [OF admin_gateway_ok w s' a(1) x] s' show ?thesis by auto
qed

end
