(* ===== verification/SystemModels.thy ===== *)
theory SystemModels
  imports SystemForms
begin

text \<open>
  What the models page means for the API: which backends serve a model, at which price, and who may use
  it, from the moment the form was answered.
\<close>

section \<open>Models\<close>

lemma execute_success:
  assumes "execute_backend_model_action env action name model h = (Some (None, st), g)"
  shows "bm_success st \<notin> {ModelCreated n, ModelUpdated n, ModelDeleted n}"
  using assms
  by (auto simp: execute_backend_model_action_def refresh_backend_model_state_def apply_backend_action_def blank_bm_def Let_def
      split: option.splits sum.splits if_splits prod.splits)

lemma save_model_notice:
  "save_model flts action name e i out limited selected h = (Inr n, h') \<Longrightarrow>
     n = (if action = CreateAction then ModelCreated name else ModelUpdated name)"
  by (auto simp: save_model_def Let_def split: prod.splits option.splits)

lemma remove_model_notice: "remove_model flts name h = (Inr n, h') \<Longrightarrow> n = ModelDeleted name"
  by (auto simp: remove_model_def split: prod.splits option.splits)

lemma models_page_eq:
  "render_models_page env r e ok h = (Rendered p (ModelsPage v) fr, h') \<Longrightarrow>
     vm_success v = ok \<and> h' = age_job env (ensure_bm env h)"
  by (auto simp: render_models_page_def render_eq Let_def)

lemma shown_success:
  assumes "show_model_result env r res = (Rendered p (ModelsPage v) fr, h')" "vm_success v \<noteq> NoNotice"
  shows "\<exists>h1. res = (Inr (vm_success v), h1) \<and> h' = age_job env (ensure_bm env h1)"
proof (cases res)
  case (Pair x h1)
  then show ?thesis using assms by (cases x) (auto simp: show_model_result_def dest: models_page_eq)
qed

lemma backend_operation_notice:
  "handle_backend_model_action env r f action h = (Rendered p (ModelsPage v) fr, h') \<Longrightarrow>
     vm_success v \<notin> {ModelCreated n, ModelUpdated n, ModelDeleted n}"
  by (auto simp: handle_backend_model_action_def Let_def dest!: models_page_eq execute_success [where n = n]
      split: if_splits option.splits prod.splits)

text \<open>The action behind a success message.\<close>

lemma model_success_shown:
  assumes "handle_model_action env r h = (Rendered p (ModelsPage v) fr, h')"
    and "vm_success v \<in> {ModelCreated n, ModelUpdated n, ModelDeleted n}"
  shows "\<exists>f h1. parse_form r = Some f \<and> h' = age_job env (ensure_bm env h1) \<and>
    (vm_success v = ModelDeleted n \<and> n = trim_space (form_value f ''model_name'') \<and>
       remove_model (de_flts env) n h = (Inr (ModelDeleted n), h1) \<or>
     (\<exists>action refs i out. action \<noteq> DeleteAction \<and> vm_success v \<noteq> ModelDeleted n \<and> n = trim_space (form_value f ''model_name'') \<and>
       parse_model_backend_refs (form_value f ''backend_weights'') (cfg_backends (dh_cfg h)) = Inr refs \<and>
       parse_model_pricing_form f = Inr (FFinite i, FFinite out) \<and>
       save_model (de_flts env) action n (entry_of_form n f refs) i out (checked_on f ''limit_access'') (selected_users f) h
         = (Inr (vm_success v), h1)))"
proof -
  have ok: "vm_success v \<noteq> NoNotice" using assms(2) by auto
  obtain f where f: "parse_form r = Some f"
    using assms(1) by (cases "parse_form r") (auto simp: handle_model_action_def)
  let ?act = "trim_space (form_value f ''action'')" and ?b = "last_value f ''backend_model_action''"
    and ?n = "trim_space (form_value f ''model_name'')"
  have H: "handle_model_action env r h =
      (if ?b \<noteq> [] then handle_backend_model_action env r f ?b h
       else if ?n = [] then render_models_page env r ModelNameNeeded NoNotice h
       else if ?act = ''delete'' then show_model_result env r (remove_model (de_flts env) ?n h)
       else save_model_form env r f ?act ?n h)"
    by (simp add: handle_model_action_def f Let_def)
  have b: "?b = []" using assms backend_operation_notice [of env r f ?b h] unfolding H by (auto split: if_splits)
  have nn: "?n \<noteq> []" using assms(1) ok unfolding H b by (auto dest: models_page_eq)
  show ?thesis
  proof (cases "?act = ''delete''")
    case True
    then have "show_model_result env r (remove_model (de_flts env) ?n h) = (Rendered p (ModelsPage v) fr, h')"
      using assms(1) nn unfolding H b by simp
    from shown_success [OF this ok] obtain h1
      where h1: "remove_model (de_flts env) ?n h = (Inr (vm_success v), h1)" "h' = age_job env (ensure_bm env h1)" by blast
    with remove_model_notice [OF h1(1)] assms(2) f show ?thesis by auto
  next
    case False
    then have s: "save_model_form env r f ?act ?n h = (Rendered p (ModelsPage v) fr, h')"
      using assms(1) nn unfolding H b by simp
    obtain refs where refs: "parse_model_backend_refs (form_value f ''backend_weights'') (cfg_backends (dh_cfg h)) = Inr refs"
      using s ok by (cases "parse_model_backend_refs (form_value f ''backend_weights'') (cfg_backends (dh_cfg h))")
        (auto simp: save_model_form_def dest: models_page_eq)
    obtain x y where pr: "parse_model_pricing_form f = Inr (x, y)"
      using s ok refs by (cases "parse_model_pricing_form f") (auto simp: save_model_form_def dest: models_page_eq)
    let ?A = "if ?act = ''create'' then CreateAction else UpdateAction"
    have "(?act = ''create'' \<or> ?act = ''update'') \<and> (\<exists>i out. x = FFinite i \<and> y = FFinite out)"
      using s ok refs pr
      by (cases x; cases y) (auto simp: save_model_form_def dest: models_page_eq split: if_splits)
    then obtain i out where io: "?act = ''create'' \<or> ?act = ''update''" "x = FFinite i" "y = FFinite out" by blast
    then have "show_model_result env r (save_model (de_flts env) ?A ?n (entry_of_form ?n f refs) i out
        (checked_on f ''limit_access'') (selected_users f) h) = (Rendered p (ModelsPage v) fr, h')"
      using s refs pr by (simp add: save_model_form_def)
    from shown_success [OF this ok] obtain h1 where h1: "save_model (de_flts env) ?A ?n (entry_of_form ?n f refs) i out
        (checked_on f ''limit_access'') (selected_users f) h = (Inr (vm_success v), h1)" "h' = age_job env (ensure_bm env h1)" by blast
    have n: "n = ?n" "vm_success v \<noteq> ModelDeleted n" using save_model_notice [OF h1(1)] assms(2) by (auto split: if_splits)
    have A: "?A \<noteq> DeleteAction" by simp
    show ?thesis using f h1 n refs pr io A by blast
  qed
qed

lemma fold_put_map:
  "distinct (map fst (acc @ kvs)) \<Longrightarrow> fold (\<lambda>(k, v). gm_put k (f k v)) kvs (map (\<lambda>(k, v). (k, f k v)) acc)
     = map (\<lambda>(k, v). (k, f k v)) (acc @ kvs)"
proof (induction kvs arbitrary: acc)
  case (Cons x kvs)
  obtain k v where x: "x = (k, v)" by (cases x)
  have "k \<notin> fst ` set (map (\<lambda>(k, v). (k, f k v)) acc)" using Cons.prems by (force simp: x)
  from gm_put_new [OF this] have "gm_put k (f k v) (map (\<lambda>(k, v). (k, f k v)) acc) = map (\<lambda>(k, v). (k, f k v)) (acc @ [x])"
    by (simp add: x)
  then show ?case using Cons.IH [of "acc @ [x]"] Cons.prems by (simp add: x)
qed simp

lemma map_snd_get: "gm_get (map (\<lambda>(k, v). (k, f k v)) m) n = map_option (f n) (gm_get m n)"
  unfolding gm_get_def by (induction m) auto

lemma build_registry_get:
  assumes "gm_ok c"
  shows "gm_get (build_registry c) n = map_option (\<lambda>m. \<lparr>re_name = (if me_name m = [] then n else me_name m),
     re_backends = map ref_backend (me_backends m)\<rparr>) (gm_get c n)"
proof -
  let ?f = "\<lambda>k m. \<lparr>re_name = (if me_name m = [] then k else me_name m), re_backends = map ref_backend (me_backends m)\<rparr>"
  let ?g = "\<lambda>k v. if re_name v = [] then v\<lparr>re_name := k\<rparr> else v :: reg_entry"
  let ?m = "map (\<lambda>(k, v). (k, ?f k v)) c"
  have 1: "fold (\<lambda>(k, m). gm_put k (?f k m)) c [] = ?m" using fold_put_map [of "[]" c ?f] assms by (simp add: gm_ok_def gm_keys_def)
  have "distinct (map fst ?m)" using assms by (simp add: gm_ok_def gm_keys_def comp_def case_prod_unfold)
  then have "new_registry ?m = map (\<lambda>(k, v). (k, ?g k v)) ?m"
    using fold_put_map [of "[]" ?m ?g] unfolding new_registry_def by simp
  then show ?thesis unfolding build_registry_def 1 by (cases "gm_get c n") (simp_all only: map_snd_get option.map, simp_all)
qed

lemma registry_lists:
  "gm_ok c \<Longrightarrow> (\<exists>e. gm_get (build_registry c) n = Some e \<and> b \<in> set (re_backends e)) \<longleftrightarrow> has_ref c n b"
  by (cases "gm_get c n") (simp_all add: build_registry_get has_ref_def)

text \<open>What the gateway serves when the form is answered.\<close>

lemma agreement_committed:
  assumes "agrees (dash_view s) h1 d c" "h = age_job env (ensure_bm env h1)"
  shows "rv_registry (gw_resolver (sy_gw (commit h s))) = build_registry c"
    "gw_pricing (sy_gw (commit h s)) = build_usage_pricing_config (cfg_pricing (gw_cfg (sy_gw (commit h s))))"
    "gw_cfg (sy_gw (commit h s)) = dh_cfg h1"
proof -
  have "dh_catalogs_given h = Some [c]" "dh_prices_given h = Some [build_usage_pricing_config (cfg_pricing (dh_cfg h))]"
      "dh_cfg h = dh_cfg h1"
    using assms(1) by (simp_all add: assms(2) agrees_def dash_view_def age_job_def ensure_bm_def split: option.split)
  then show "rv_registry (gw_resolver (sy_gw (commit h s))) = build_registry c"
    "gw_pricing (sy_gw (commit h s)) = build_usage_pricing_config (cfg_pricing (gw_cfg (sy_gw (commit h s))))"
    "gw_cfg (sy_gw (commit h s)) = dh_cfg h1"
    by (simp_all add: commit_def Let_def refresh_catalog_def)
qed

text \<open>The backends and the price that a successful form stands for.\<close>

definition form_serves :: "dash_env \<Rightarrow> http_request \<Rightarrow> notice \<Rightarrow> string \<Rightarrow> config \<Rightarrow> string set \<Rightarrow> model_pricing option \<Rightarrow> bool" where
  "form_serves env r notice n cfg B price \<longleftrightarrow>
     (\<exists>f. parse_form r = Some f \<and> n = trim_space (form_value f ''model_name'') \<and>
       (if notice = ModelDeleted n then B = {} \<and> price = None
        else \<exists>refs i out. parse_model_backend_refs (form_value f ''backend_weights'') (cfg_backends cfg) = Inr refs \<and>
          B = trim_space ` ref_backend ` set refs - {[]} \<and> parse_model_pricing_form f = Inr (FFinite i, FFinite out) \<and>
          price = (if i = 0 \<and> out = 0 then None else Some \<lparr>input_per_1m = i, output_per_1m = out\<rparr>)))"

lemma model_form_committed:
  assumes "system_ok kp px tls c0 s" "rq_method r = ''POST''" "admin_path (rq_path r) = ''models''"
    and "serve_admin env r s = (Rendered p (ModelsPage v) fr, s')"
    and "vm_success v \<in> {ModelCreated n, ModelUpdated n, ModelDeleted n}"
  shows "\<exists>B price. form_serves env r (vm_success v) n (gw_cfg (sy_gw s)) B price \<and>
    (\<forall>b. (\<exists>e. gm_get (rv_registry (gw_resolver (sy_gw s'))) n = Some e \<and> b \<in> set (re_backends e)) \<longleftrightarrow> b \<in> B) \<and>
    gw_pricing (sy_gw s') = build_usage_pricing_config (cfg_pricing (gw_cfg (sy_gw s'))) \<and>
    gm_get (pricing_models (cfg_pricing (gw_cfg (sy_gw s')))) n = price"
proof -
  let ?h = "dash_view s"
  obtain h' where h': "handle_model_action env r ?h = (Rendered p (ModelsPage v) fr, h')" "s' = commit h' s"
    using assms(2-4) by (auto simp: serve_admin_def serve_dashboard_def Let_def has_prefix_def split: prod.splits)
  obtain c0 where c0: "load_active_catalog no_faults (gw_db (sy_gw s)) = Inr c0" using load_total by blast
  have pre: "dh_db ?h = Some (gw_db (sy_gw s))" "auth_ok (dash_auth ?h)" "gm_ok (pricing_models (cfg_pricing (dh_cfg ?h)))"
    using assms(1) by (simp_all add: system_ok_def) (simp_all add: dash_view_def)
  have cfg: "dh_cfg ?h = gw_cfg (sy_gw s)" by (simp add: dash_view_def)
  from model_success_shown [OF h'(1) assms(5)] obtain f h1 where f: "parse_form r = Some f" "h' = age_job env (ensure_bm env h1)"
    and act: "vm_success v = ModelDeleted n \<and> n = trim_space (form_value f ''model_name'') \<and>
       remove_model (de_flts env) n ?h = (Inr (ModelDeleted n), h1) \<or>
     (\<exists>action refs i out. action \<noteq> DeleteAction \<and> vm_success v \<noteq> ModelDeleted n \<and> n = trim_space (form_value f ''model_name'') \<and>
       parse_model_backend_refs (form_value f ''backend_weights'') (cfg_backends (dh_cfg ?h)) = Inr refs \<and>
       parse_model_pricing_form f = Inr (FFinite i, FFinite out) \<and>
       save_model (de_flts env) action n (entry_of_form n f refs) i out (checked_on f ''limit_access'') (selected_users f) ?h
         = (Inr (vm_success v), h1))" by blast
  have tn: "trim_space n = n" using act by auto
  note M = model_changes [OF pre c0 tn, where flts = "de_flts env" and h' = h1]
  from act show ?thesis
  proof (elim disjE exE conjE)
    assume a: "vm_success v = ModelDeleted n" "n = trim_space (form_value f ''model_name'')"
      "remove_model (de_flts env) n ?h = (Inr (ModelDeleted n), h1)"
    from M [THEN conjunct2, rule_format, OF a(3)] obtain d' c where c: "agrees ?h h1 d' c" "\<And>m b. has_ref c m b \<longleftrightarrow> m \<noteq> n \<and> has_ref c0 m b"
        "gm_get (pricing_models (cfg_pricing (dh_cfg h1))) n = None" by blast
    have ok: "gm_ok c" using c(1) loaded_gm_ok(1) by (auto simp: agrees_def)
    note A = agreement_committed [OF c(1) f(2), folded h'(2)]
    show ?thesis
      by (rule exI [of _ "{}"], rule exI [of _ None])
        (use a(1,2) f(1) A c(2,3) registry_lists [OF ok] in \<open>simp add: form_serves_def\<close>)
  next
    fix action refs i out
    assume a: "action \<noteq> DeleteAction" "vm_success v \<noteq> ModelDeleted n" "n = trim_space (form_value f ''model_name'')"
       "parse_model_backend_refs (form_value f ''backend_weights'') (cfg_backends (dh_cfg ?h)) = Inr refs"
       "parse_model_pricing_form f = Inr (FFinite i, FFinite out)"
       "save_model (de_flts env) action n (entry_of_form n f refs) i out (checked_on f ''limit_access'') (selected_users f) ?h
         = (Inr (vm_success v), h1)"
    let ?B = "trim_space ` ref_backend ` set refs - {[]}" and ?p = "if i = 0 \<and> out = 0 then None else Some \<lparr>input_per_1m = i, output_per_1m = out\<rparr>"
    from M [THEN conjunct1, rule_format, OF conjI, OF a(6,1)] obtain d' c where c: "agrees ?h h1 d' c"
        "\<And>m b. has_ref c m b \<longleftrightarrow> (if m = n then b \<in> trim_space ` ref_backend ` set (me_backends (entry_of_form n f refs)) - {[]} else has_ref c0 m b)"
        "gm_get (pricing_models (cfg_pricing (dh_cfg h1))) n = ?p" by blast
    have ok: "gm_ok c" using c(1) loaded_gm_ok(1) by (auto simp: agrees_def)
    have B: "has_ref c n b \<longleftrightarrow> b \<in> ?B" for b using c(2) [of n b] by (simp add: entry_of_form_def Let_def)
    note A = agreement_committed [OF c(1) f(2), folded h'(2)]
    have "form_serves env r (vm_success v) n (gw_cfg (sy_gw s)) ?B ?p"
      using a(2,3,4,5) f(1) unfolding form_serves_def cfg by auto
    then show ?thesis using A c(3) B registry_lists [OF ok] by auto
  qed
qed

text \<open>C8: what the models page reports as done decides what the API serves from then on, whatever failed on the
  way: the registry lists for the model exactly the backends of the form (none after a deletion), its price is the
  form's, the proxy prices with the configuration's current prices, and every request that is
  forwarded for a name that resolves to the model goes to one of these backends.\<close>

theorem model_form_decides_api:
  assumes "system_ok kp px tls c0 s" and "rq_method r = ''POST''" and "admin_path (rq_path r) = ''models''"
    and "serve_admin env r s = (Rendered p (ModelsPage v) fr, s')"
    and "vm_success v \<in> {ModelCreated n, ModelUpdated n, ModelDeleted n}"
  shows "\<exists>B price. form_serves env r (vm_success v) n (gw_cfg (sy_gw s)) B price \<and>
    (\<forall>b. (\<exists>e. gm_get (rv_registry (gw_resolver (sy_gw s'))) n = Some e \<and> b \<in> set (re_backends e)) \<longleftrightarrow> b \<in> B) \<and>
    gw_pricing (sy_gw s') = build_usage_pricing_config (cfg_pricing (gw_cfg (sy_gw s'))) \<and>
    gm_get (pricing_models (cfg_pricing (gw_cfg (sy_gw s')))) n = price \<and>
    (\<forall>fk fl now penv q a g' x. serve_api fk fl now penv (sy_gw s') q = (a, g') \<longrightarrow> ao_sent a = Some x \<longrightarrow>
       (\<exists>uid m b. extract_model_from_request (en_readable penv) q = Some m \<and> px_host x = u_host (be_url b) \<and>
          get_by_name (shared_manager (sy_gw s')) (be_name b) = Some b \<and>
          (m \<noteq> [] \<longrightarrow> resolved_name m (overrides_of (en_faults penv) (Some (gw_auth (sy_gw s'))) (Some (user_context uid))) = n \<longrightarrow>
             be_name b \<in> B)))"
proof -
  obtain B price where B: "form_serves env r (vm_success v) n (gw_cfg (sy_gw s)) B price"
    "\<And>b. (\<exists>e. gm_get (rv_registry (gw_resolver (sy_gw s'))) n = Some e \<and> b \<in> set (re_backends e)) \<longleftrightarrow> b \<in> B"
    "gw_pricing (sy_gw s') = build_usage_pricing_config (cfg_pricing (gw_cfg (sy_gw s')))"
    "gm_get (pricing_models (cfg_pricing (gw_cfg (sy_gw s')))) n = price"
    using model_form_committed [OF assms] by blast
  have ok: "gateway_ok kp px (sy_gw s')"
    using serve_admin_ok [OF assms(1,4)] by (simp add: system_ok_def gateway_inv_def)
  have "\<exists>uid m b. extract_model_from_request (en_readable penv) q = Some m \<and> px_host x = u_host (be_url b) \<and>
          get_by_name (shared_manager (sy_gw s')) (be_name b) = Some b \<and>
          (m \<noteq> [] \<longrightarrow> resolved_name m (overrides_of (en_faults penv) (Some (gw_auth (sy_gw s'))) (Some (user_context uid))) = n \<longrightarrow>
             be_name b \<in> B)"
    if "serve_api fk fl now penv (sy_gw s') q = (a, g')" "ao_sent a = Some x" for fk fl now penv q a g' x
    using ok that
  proof (rule api_sent)
    fix uid m b
    assume b: "extract_model_from_request (en_readable penv) q = Some m"
      "permitted (en_faults penv) (gw_proxy (sy_gw s')) (Some (user_context uid)) m b"
      "get_by_name (shared_manager (sy_gw s')) (be_name b) = Some b" "px_host x = u_host (be_url b)"
    have "be_name b \<in> B" if "m \<noteq> []" "resolved_name m (overrides_of (en_faults penv) (Some (gw_auth (sy_gw s'))) (Some (user_context uid))) = n"
      using b(2) that B(2) by (auto simp: permitted_def Let_def gw_proxy_def)
    then show ?thesis using b by blast
  qed
  with B show ?thesis by blast
qed

text \<open>A name that is not in the resolver's normal form (with an upper-case letter, say) can be created with success, but no
  request's name ever resolves to it.\<close>

lemma set_normalized: "set (normalize_model_name x) \<subseteq> lower_char ` set x"
  by (auto simp: normalize_model_name_def Let_def trim_space_def trim_left_def trim_right_def trim_suffix_def to_lower_def
      dest!: in_set_takeD set_dropWhileD)

lemma mixed_case_unroutable:
  assumes "to_lower name \<noteq> name"
  shows "resolved_name req ov \<noteq> name"
proof -
  have low: "to_lower (normalize_model_name x) = normalize_model_name x" for x
    unfolding to_lower_def by (rule map_idI) (use set_normalized [of x] in auto)
  have "resolved_name req ov \<in> range normalize_model_name"
    by (simp add: resolved_name_def Let_def split: option.split)
  with low assms show ?thesis by auto
qed

definition delete_request :: http_request where
  "delete_request = sample_request ''/admin/models'' ''action=delete&model_name=m''"

definition model_gateway :: gateway where
  "model_gateway = sample_gateway\<lparr>gw_catalog := [(''m'', \<lparr>me_name = ''m'', me_backends = []\<rparr>)],
     gw_db := (gw_db sample_gateway)\<lparr>models_t := models_t sample_db\<rparr>\<rparr>"

lemma delete_form_read:
  "parse_form delete_request = Some [(''action'', [''delete'']), (''model_name'', [''m''])]"
  "admin_path (rq_path delete_request) = ''models''" "rq_method delete_request = ''POST''"
  by code_simp+

lemma model_gateway_ok: "system_ok kp px False (gw_cfg model_gateway) (new_system model_gateway)"
proof -
  have g: "gateway_ok kp px model_gateway"
    using sample_gateway_ok [of kp px]
    by (simp add: gateway_ok_def model_gateway_def sample_gateway_def sample_db_def db_ok_def empty_db_def tbl_ok_def)
  then show ?thesis
    by (simp add: system_ok_def gateway_inv_def gateway_ok_def) (simp add: model_gateway_def sample_gateway_def gw_auth_def auth_ok_def as_users_def
        sample_config_def gm_ok_def new_system_def new_handler_def set_model_runtime_refreshers_def set_model_catalog_def
        set_tls_manager_def set_manager_of_def no_pulls_def)
qed

lemma delete_succeeds:
  "\<exists>h1. remove_model (\<lambda>_ _. no_faults) ''m'' (dash_view (new_system model_gateway)) = (Inr (ModelDeleted ''m''), h1)"
proof -
  have t: "trim_space ''m'' = ''m''" by code_simp
  have "fst (remove_model (\<lambda>_ _. no_faults) ''m'' (dash_view (new_system model_gateway))) = Inr (ModelDeleted ''m'')"
    by (simp add: remove_model_def delete_model_action_def current_model_catalog_def dash_view_def new_system_def new_handler_def
        set_model_runtime_refreshers_def set_model_catalog_def set_tls_manager_def set_manager_of_def model_gateway_def clone_config_catalog_def
        put_models_def put_prices_def users_snapshot_def list_users_def sample_gateway_def sample_db_def
        dash_auth_def with_auth_def empty_db_def settle_model_def persist_model_mutation_def row_user_config_def remove_csv_value_def
        deactivate_model_def t persist_model_pricing_def replace_model_pricing_def gm_put_def gm_keys_def gm_get_def
        reload_model_runtime_from_store_def load_active_catalog_def load_model_pricing_def Let_def sample_config_def AList.update.simps insert_prices.simps
        tbl_affected_def tbl_update_def gm_del_def)
  then show ?thesis by (metis prod.collapse)
qed

theorem model_form_decides_api_witness:
  "\<forall>b. \<not> (\<exists>e. gm_get (rv_registry (gw_resolver (sy_gw (snd (serve_admin sample_dash_env delete_request (new_system model_gateway)))))) ''m''
      = Some e \<and> b \<in> set (re_backends e))"
proof -
  let ?s = "new_system model_gateway" and ?f = "[(''action'', [''delete'']), (''model_name'', [''m''])]"
  have fv: "form_value ?f ''action'' = ''delete''" "form_value ?f ''model_name'' = ''m''" "last_value ?f ''backend_model_action'' = []"
    by (simp_all add: form_value_def last_value_def form_values_def gm_get_Cons)
  have t: "trim_space ''m'' = ''m''" "trim_space ''delete'' = ''delete''" by code_simp+
  obtain h1 where h1: "remove_model (\<lambda>_ _. no_faults) ''m'' (dash_view ?s) = (Inr (ModelDeleted ''m''), h1)"
    using delete_succeeds by blast
  have fl: "de_flts sample_dash_env = (\<lambda>_ _. no_faults)" by (simp add: sample_dash_env_def)
  have "handle_model_action sample_dash_env delete_request (dash_view ?s) =
      render_models_page sample_dash_env delete_request NoNotice (ModelDeleted ''m'') h1"
    by (simp add: handle_model_action_def delete_form_read fv t fl h1 show_model_result_def)
  then obtain p v fr h' where h': "handle_model_action sample_dash_env delete_request (dash_view ?s) = (Rendered p (ModelsPage v) fr, h')"
      "vm_success v = ModelDeleted ''m''"
    by (auto simp: render_models_page_def render_eq Let_def)
  then have r: "serve_admin sample_dash_env delete_request ?s = (Rendered p (ModelsPage v) fr, commit h' ?s)"
    using delete_form_read(2,3) by (simp add: serve_admin_def serve_dashboard_def Let_def has_prefix_def)
  have v: "vm_success v \<in> {ModelCreated ''m'', ModelUpdated ''m'', ModelDeleted ''m''}" by (simp add: h'(2))
  from model_form_decides_api [OF model_gateway_ok delete_form_read(3,2) r v] show ?thesis
    by (auto simp: r form_serves_def h'(2))
qed

section \<open>Access\<close>

lemma trim_lower: "trim_space (to_lower s) = to_lower (trim_space s)"
proof -
  have small: "is_space c \<Longrightarrow> (of_char c :: nat) \<le> 32" for c
    by (auto simp: is_space_def)
  have sp: "is_space (lower_char c) = is_space c" for c
  proof (cases "65 \<le> (of_char c :: nat) \<and> (of_char c :: nat) \<le> 90")
    case True
    then have "(of_char (lower_char c) :: nat) = of_char c + 32" by (simp add: lower_char_def Let_def)
    then show ?thesis using True small [of c] small [of "lower_char c"] by linarith
  next
    case False
    then have "lower_char c = c" by (auto simp: lower_char_def Let_def)
    then show ?thesis by simp
  qed
  have "dropWhile is_space (map lower_char xs) = map lower_char (dropWhile is_space xs)" for xs
    by (simp add: dropWhile_map comp_def sp)
  then show ?thesis
    by (simp add: trim_space_def trim_left_def trim_right_def to_lower_def rev_map)
qed

lemma withheld_denied:
  assumes "normalize_model_name n = n"
  shows "n \<in> normalize_model_name ` set (model_deny (withhold_model n uc))"
proof -
  have norm: "normalize_model_name i = n" if "trim_space i = n" for i
  proof -
    have "normalize_model_name i = normalize_model_name (trim_space i)"
      by (simp add: normalize_model_name_def trim_lower)
    then show ?thesis using that assms by simp
  qed
  show ?thesis
  proof (cases "contains_csv_value (model_deny uc) n")
    case True
    then obtain i where "i \<in> set (model_deny uc)" "trim_space i = n" by (auto simp: contains_iff)
    then show ?thesis using norm True by (auto simp: withhold_model_def intro!: image_eqI [of _ _ i])
  next
    case False
    then show ?thesis using assms by (simp add: withhold_model_def)
  qed
qed

lemma settled_users:
  assumes "settle_model flts action name e n1 n2 n3 h = (None, h')" "dh_db h = Some d" "gm_ok (pricing_models (cfg_pricing (dh_cfg h)))"
  shows "(\<exists>d'. dh_db h' = Some d' \<and> api_users d' = api_users d) \<and> cfg_users (dh_cfg h') = cfg_users (dh_cfg h)"
proof -
  obtain d1 d2 c where s: "(if action = DeleteAction then deactivate_model (flts 1 0) name d else upsert_model (flts 1 0) name e d) = (None, d1)"
      "replace_model_pricing (flts 2 0) (pricing_models (cfg_pricing (dh_cfg h))) d1 = (None, d2)" "agrees h h' d2 c"
    using settle_agrees [OF assms(1,2)] by blast
  have "api_users d1 = api_users d"
  proof (cases "action = DeleteAction")
    case True
    with s(1) have "deactivate_model (flts 1 0) name d = (None, d1)" by simp
    from deactivate_model_db(2) [OF this] show ?thesis by simp
  next
    case False
    with s(1) have "upsert_model (flts 1 0) name e d = (None, d1)" by simp
    then show ?thesis by (rule upsert_model_db) simp
  qed
  moreover have "api_users d2 = api_users d1"
    using replace_pricing_rows(1) [OF s(2) assms(3)] by (metis db.select_convs(1) db.surjective db.update_convs(4))
  moreover have "dh_db h' = Some d2" using s(3) by (simp add: agrees_def)
  moreover have "cfg_users (dh_cfg h') = cfg_users (dh_cfg h)"
  proof -
    obtain x1 h1 where 1: "persist_model_mutation (flts 1 0) action name e h = (x1, h1)" by fastforce
    obtain x2 h2 where 2: "persist_model_pricing (flts 2 0) h1 = (x2, h2)" by fastforce
    obtain x3 h3 where 3: "reload_model_runtime_from_store (flts 3) h2 = (x3, h3)" by fastforce
    have u: "cfg_users (dh_cfg h1) = cfg_users (dh_cfg h)" "cfg_users (dh_cfg h2) = cfg_users (dh_cfg h1)"
      using 1 2 by (auto simp: persist_model_mutation_def persist_model_pricing_def split: option.splits prod.splits)
    moreover have "cfg_users (dh_cfg h3) = cfg_users (dh_cfg h2)"
      using 3 by (auto simp: reload_model_runtime_from_store_def refresh_runtime_def put_prices_def put_models_def set_model_catalog_def Let_def
          split: option.splits sum.splits)
    moreover have "h' = h3" using assms(1) unfolding settle_model_def 1 by (cases x1; cases x2; cases x3) (auto simp: 2 3)
    ultimately show ?thesis by simp
  qed
  ultimately show ?thesis by simp
qed

text \<open>What the proxy reads of a user after a form that limits the access.\<close>

lemma limited_form_users:
  assumes "system_ok kp px tls c0 s" and "rq_method r = ''POST''" and "admin_path (rq_path r) = ''models''"
    and "serve_admin env r s = (Rendered p (ModelsPage v) fr, s')" and "vm_success v \<in> {ModelCreated n, ModelUpdated n}"
    and "de_flts env = (\<lambda>_ _. no_faults)" and "parse_form r = Some f" and "checked_on f ''limit_access''"
    and "ids_ok (api_users (gw_db (sy_gw s)))" and "row \<in> set (api_users (gw_db (sy_gw s)))" and "\<not> ur_disabled row"
  shows "get_user_config no_faults (gw_auth (sy_gw s')) (ur_id row) = Some (row_user_config (access_row n True (selected_users f) row))"
proof -
  let ?h = "dash_view s" and ?d = "gw_db (sy_gw s)"
  obtain h' where h': "handle_model_action env r ?h = (Rendered p (ModelsPage v) fr, h')" "s' = commit h' s"
    using assms(2-4) by (auto simp: serve_admin_def serve_dashboard_def Let_def has_prefix_def split: prod.splits)
  have suc: "vm_success v \<in> {ModelCreated n, ModelUpdated n, ModelDeleted n}" "vm_success v \<noteq> ModelDeleted n" using assms(5) by auto
  from model_success_shown [OF h'(1) suc(1)] suc(2) assms(6,7) obtain h1 action refs i out where
    h1: "h' = age_job env (ensure_bm env h1)" "action \<noteq> DeleteAction" and
    save: "save_model (\<lambda>_ _. no_faults) action n (entry_of_form n f refs) i out (checked_on f ''limit_access'') (selected_users f) ?h
         = (Inr (vm_success v), h1)" by auto
  let ?e = "entry_of_form n f refs"
  let ?hp = "set_model_pricing n i out (put_catalog_entry n ?e ?h)"
  have one: "(if action = CreateAction then create_model n ?e ?h else update_model n ?e ?h) = (None, put_catalog_entry n ?e ?h)"
    using save by (auto simp: save_model_def create_model_def update_model_def split: if_splits)
  obtain y h2 where acc: "apply_model_access (\<lambda>_. no_faults) n True (selected_users f) ?hp = (y, h2)" by fastforce
  have dbp: "dh_db ?hp = Some ?d"
    by (simp add: dash_view_def set_model_pricing_def put_prices_def put_catalog_entry_def put_models_def)
  from access_form_rows [OF dbp assms(9) acc] have y: "y = None"
    and rows: "\<And>row. row \<in> set (api_users ?d) \<Longrightarrow> \<not> ur_disabled row \<Longrightarrow>
      get_user_config no_faults (dash_auth h2) (ur_id row) = Some (row_user_config (access_row n True (selected_users f) row))"
    by blast+
  obtain st where st: "settle_model (\<lambda>_ _. no_faults) action n st (PersistFailed n) (PricesFailed n) (RefreshFailed n) h2 = (None, h1)"
    using save assms(8) unfolding save_model_def one prod.case option.case
    by (auto simp: acc y Let_def split: prod.splits option.splits)
  have h2: "dh_db h2 \<noteq> None" "gm_ok (pricing_models (cfg_pricing (dh_cfg h2)))"
  proof -
    have k: "keeps ?h h2"
      by (rule keeps_trans [OF keeps_put_entry keeps_trans [OF keeps_model_pricing keeps_access [OF acc]]])
    then show "dh_db h2 \<noteq> None" by (rule keeps_db_Some) (simp add: dash_view_def)
    show "gm_ok (pricing_models (cfg_pricing (dh_cfg h2)))"
      using k dash_view_inv [OF assms(1)] by (simp add: keeps_def dash_inv_def)
  qed
  then obtain d2 where d2: "dh_db h2 = Some d2" by blast
  from settled_users [OF st d2 h2(2)] obtain d1 where d1: "dh_db h1 = Some d1" "api_users d1 = api_users d2"
      "cfg_users (dh_cfg h1) = cfg_users (dh_cfg h2)" by blast
  have same: "dh_db h' = Some d1" "dh_cfg h' = dh_cfg h1"
    by (simp_all add: h1(1) age_job_def ensure_bm_def d1(1) split: option.split)
  have auth: "gw_auth (sy_gw s') = dash_auth h'" unfolding h'(2) by (rule auth_of_commit) (simp add: same)
  have look: "get_user_config no_faults (gw_auth (sy_gw s')) u = get_user_config no_faults (dash_auth h2) u" for u
    unfolding auth by (simp add: get_user_config_def dash_auth_def same d2 d1(2,3) as_users_def split: option.split)
  show ?thesis using rows [OF assms(10,11)] look by simp
qed

text \<open>C9: a model that the access form withholds from a user is withheld by the API: after a form that was reported
  as done and limits the access, no statement having failed, every request of a user that has an enabled row and was not
  selected, for any name that resolves to the model, is answered with 403 or 404 and forwarded nowhere.\<close>

theorem withheld_model_refused:
  assumes "system_ok kp px tls c0 s" and "rq_method r = ''POST''" and "admin_path (rq_path r) = ''models''"
    and "serve_admin env r s = (Rendered p (ModelsPage v) fr, s')" and "vm_success v \<in> {ModelCreated n, ModelUpdated n}"
    and "de_flts env = (\<lambda>_ _. no_faults)" and "parse_form r = Some f" and "checked_on f ''limit_access''"
    and "normalize_model_name n = n" and "ids_ok (api_users (gw_db (sy_gw s)))"
    and "row \<in> set (api_users (gw_db (sy_gw s)))" and "\<not> ur_disabled row" and "ur_id row \<notin> selected_users f" and "m \<noteq> []"
    and "ov = overrides_of no_faults (Some (gw_auth (sy_gw s'))) (Some (user_context (ur_id row)))" and "resolved_name m ov = n"
  shows "(\<exists>e. resolve m ov (gw_resolver (sy_gw s')) = Inl e \<and> res_status e \<in> {403, 404}) \<and>
    (\<forall>penv q. extract_model_from_request (en_readable penv) q = Some m \<longrightarrow> en_faults penv = no_faults \<longrightarrow>
       pr_sent (proxy_serve penv (gw_proxy (sy_gw s')) (Some (user_context (ur_id row))) q) = None)"
proof -
  have ok: "gateway_ok kp px (sy_gw s')"
    using serve_admin_ok [OF assms(1,4)] by (simp add: system_ok_def gateway_inv_def)
  let ?uc = "row_user_config (access_row n True (selected_users f) row)"
  have "get_user_config no_faults (gw_auth (sy_gw s')) (ur_id row) = Some ?uc" by (rule limited_form_users [OF assms(1-8,10-12)])
  then have ov: "deny_list ov = model_deny ?uc"
    by (simp add: assms(15) overrides_of_def user_context_def from_user_config_def)
  have deny: "n \<in> normalize_model_name ` set (deny_list ov)"
    using withheld_denied [OF assms(9)] assms(13) unfolding ov by (simp add: access_row_def Let_def)
  then have "\<exists>e. resolve_model m (rv_registry (gw_resolver (sy_gw s'))) ov = Inl e \<and> res_status e \<in> {403, 404}"
    by (auto simp: resolve_model_def assms(16) model_not_found_def model_denied_def split: option.split)
  then have "\<exists>e. resolve m ov (gw_resolver (sy_gw s')) = Inl e \<and> res_status e \<in> {403, 404}"
    by (auto simp: resolve_def)
  moreover have "pr_sent (proxy_serve penv (gw_proxy (sy_gw s')) (Some (user_context (ur_id row))) q) = None"
    if q: "extract_model_from_request (en_readable penv) q = Some m" "en_faults penv = no_faults" for penv q
  proof (rule ccontr)
    assume sent: "pr_sent (proxy_serve penv (gw_proxy (sy_gw s')) (Some (user_context (ur_id row))) q) \<noteq> None"
    have inv: "mgr_ok (rv_manager (ph_resolver (gw_proxy (sy_gw s'))))"
      "\<forall>n e. gm_get (rv_registry (ph_resolver (gw_proxy (sy_gw s')))) n = Some e \<longrightarrow> distinct (re_backends e)"
      using ok by (simp_all add: gateway_ok_def resolver_ok_def registry_ok_def gw_proxy_def)
    from proxy_forwards [OF inv, of penv "Some (user_context (ur_id row))" q] sent q(1)
    obtain b where b: "permitted (en_faults penv) (gw_proxy (sy_gw s')) (Some (user_context (ur_id row))) m b" by auto
    have "ph_auth (gw_proxy (sy_gw s')) = Some (gw_auth (sy_gw s'))" by (simp add: gw_proxy_def)
    with b have "resolved_name m ov \<notin> normalize_model_name ` set (deny_list ov)"
      using assms(14) by (simp add: permitted_def Let_def q(2) assms(15))
    then show False using deny assms(16) by simp
  qed
  ultimately show ?thesis by blast
qed

definition limit_request :: http_request where
  "limit_request = sample_request ''/admin/models'' ''action=create&model_name=m&backend_weights=a:2&limit_access=on''"

abbreviation limit_form :: form where
  "limit_form \<equiv> [(''action'', [''create'']), (''model_name'', [''m'']), (''backend_weights'', [''a:2'']), (''limit_access'', [''on''])]"

lemma limit_form_read:
  "parse_form limit_request = Some limit_form" "admin_path (rq_path limit_request) = ''models''" "rq_method limit_request = ''POST''"
  "checked_on limit_form ''limit_access''" "form_value limit_form ''action'' = ''create''"
  "form_value limit_form ''model_name'' = ''m''" "last_value limit_form ''backend_model_action'' = []"
  "parse_model_backend_refs (form_value limit_form ''backend_weights'') (cfg_backends sample_config) = Inr [\<lparr>ref_backend = ''a'', ref_weight = 2\<rparr>]"
  "form_value limit_form ''input_cost_per_1m_tokens'' = []" "form_value limit_form ''output_cost_per_1m_tokens'' = []"
  "form_values limit_form ''user_access'' = []" "form_value limit_form ''display_name'' = []"
  by code_simp+

abbreviation limit_system :: system where
  "limit_system \<equiv> new_system sample_gateway"

lemma limit_save:
  "\<exists>h1. save_model (\<lambda>_ _. no_faults) CreateAction ''m'' \<lparr>me_name = ''m'', me_backends = [\<lparr>ref_backend = ''a'', ref_weight = 2\<rparr>]\<rparr> 0 0 True {}
     (dash_view limit_system) = (Inr (ModelCreated ''m''), h1)"
proof -
  have t: "trim_space ''m'' = ''m''" "trim_space ''a'' = ''a''" by (simp_all add: trim_space_tight tight_def is_space_def)
  have "fst (save_model (\<lambda>_ _. no_faults) CreateAction ''m'' \<lparr>me_name = ''m'', me_backends = [\<lparr>ref_backend = ''a'', ref_weight = 2\<rparr>]\<rparr> 0 0 True {}
     (dash_view limit_system)) = Inr (ModelCreated ''m'')"
    by (simp add: save_model_def create_model_def current_model_catalog_def dash_view_def new_system_def new_handler_def
        set_model_runtime_refreshers_def set_model_catalog_def set_tls_manager_def set_manager_of_def sample_gateway_def clone_config_catalog_def
        put_catalog_entry_def put_models_def set_model_pricing_def put_prices_def apply_model_access_def users_snapshot_def list_users_def
        dash_auth_def with_auth_def empty_db_def settle_model_def persist_model_mutation_def
        update_user_def alice_trimmed get_user_config_def set_rows_def tbl_update_def tbl_affected_def
        upsert_model_def tbl_upsert_def t persist_model_pricing_def replace_model_pricing_def gm_put_def gm_keys_def gm_get_def gm_del_def
        reload_model_runtime_from_store_def load_active_catalog_def load_model_pricing_def Let_def sample_config_def AList.update.simps insert_prices.simps)
  then show ?thesis by (metis prod.collapse)
qed

theorem withheld_model_refused_witness:
  "\<exists>rep s'. serve_admin sample_dash_env limit_request limit_system = (rep, s') \<and>
     pr_sent (proxy_serve (sample_env\<lparr>en_faults := no_faults\<rparr>) (gw_proxy (sy_gw s')) (Some (user_context ''alice'')) keyed_request) = None"
proof -
  let ?h = "dash_view limit_system"
  have fl: "de_flts sample_dash_env = (\<lambda>_ _. no_faults)" by (simp add: sample_dash_env_def)
  have t: "trim_space ''m'' = ''m''" "trim_space ''create'' = ''create''" "trim_space [] = []" by code_simp+
  obtain h1 where h1: "save_model (\<lambda>_ _. no_faults) CreateAction ''m'' \<lparr>me_name = ''m'', me_backends = [\<lparr>ref_backend = ''a'', ref_weight = 2\<rparr>]\<rparr>
     0 0 True {} ?h = (Inr (ModelCreated ''m''), h1)" using limit_save by blast
  have form: "parse_model_pricing_form limit_form = Inr (FFinite 0, FFinite 0)"
      "entry_of_form ''m'' limit_form refs = \<lparr>me_name = ''m'', me_backends = refs\<rparr>" "selected_users limit_form = {}" for refs
    by (simp_all add: parse_model_pricing_form_def cost_field_def limit_form_read entry_of_form_def selected_users_def t)
  have b: "cfg_backends (dh_cfg ?h) = cfg_backends sample_config" by (simp add: dash_view_def sample_gateway_def)
  have "handle_model_action sample_dash_env limit_request ?h = render_models_page sample_dash_env limit_request NoNotice (ModelCreated ''m'') h1"
    by (simp add: handle_model_action_def limit_form_read t save_model_form_def b form fl h1 show_model_result_def)
  then obtain p v fr h' where h': "handle_model_action sample_dash_env limit_request ?h = (Rendered p (ModelsPage v) fr, h')"
      "vm_success v = ModelCreated ''m''"
    by (auto simp: render_models_page_def render_eq Let_def)
  then have r: "serve_admin sample_dash_env limit_request limit_system = (Rendered p (ModelsPage v) fr, commit h' limit_system)"
    using limit_form_read(2,3) by (simp add: serve_admin_def serve_dashboard_def Let_def has_prefix_def)
  let ?row = "\<lparr>ur_id = ''alice'', ur_key_hash = hash_api_key ''k'', ur_rate = None, ur_burst = None,
        ur_ttl = None, ur_allow = [], ur_deny = [], ur_aliases = [], ur_disabled = False\<rparr>"
  have rows: "api_users (gw_db (sy_gw limit_system)) = [?row]" by (simp add: sample_gateway_def)
  have pre: "system_ok kp px False (gw_cfg sample_gateway) limit_system" for kp px
    using sample_gateway_ok [of kp px] sample_gateway_auth_ok
    by (simp add: system_ok_def gateway_inv_def) (simp add: sample_gateway_def sample_config_def gm_ok_def new_system_def new_handler_def
        set_model_runtime_refreshers_def set_model_catalog_def set_tls_manager_def set_manager_of_def no_pulls_def)
  have v: "vm_success v \<in> {ModelCreated ''m'', ModelUpdated ''m''}" by (simp add: h'(2))
  have ids: "ids_ok (api_users (gw_db (sy_gw limit_system)))" unfolding rows by (simp add: ids_ok_def tbl_ok_def alice_trimmed)
  have row: "?row \<in> set (api_users (gw_db (sy_gw limit_system)))" "\<not> ur_disabled ?row" "ur_id ?row \<notin> selected_users limit_form"
    unfolding rows by (simp_all add: form)
  let ?ov = "overrides_of no_faults (Some (gw_auth (sy_gw (commit h' limit_system)))) (Some (user_context (ur_id ?row)))"
  have "aliases (row_user_config (access_row ''m'' True (selected_users limit_form) ?row)) = []"
    by (simp add: access_row_def Let_def row_user_config_def update_row_def marshal_user_fields_def withhold_model_def grant_model_def
        unmarshal_marshal_string_map gm_ok_def)
  then have al: "alias_map ?ov = []"
    using limited_form_users [OF pre limit_form_read(3,2) r v fl limit_form_read(1,4) ids row(1,2)]
    by (simp add: overrides_of_def user_context_def from_user_config_def)
  have res: "resolved_name ''m'' ?ov = ''m''" unfolding resolved_name_def al Let_def by simp
  have "extract_model_from_request (en_readable (sample_env\<lparr>en_faults := no_faults\<rparr>)) keyed_request = Some ''m''"
    using keyed_request_model by (simp add: sample_env_def)
  with withheld_model_refused [OF pre limit_form_read(3,2) r v fl limit_form_read(1,4) _ ids row _ refl res]
  show ?thesis using r by auto
qed

end
