(* ===== verification/Shutdown.thy ===== *)
theory Shutdown
  imports UsageProps TlsRuntime
begin

text \<open>
  cmd/gateway/main.go: the end of the process.  The signal handler stops the background work, shuts the server
  down and flushes the usage logger, while requests are still served, reloads still run, and main
  waits in \<open>ListenAndServe\<close>.
\<close>

section \<open>The goroutines\<close>

text \<open>
  \<open>pc_open\<close> is the listener, \<open>pc_active\<close> counts the requests being served, \<open>pc_late\<close> says that the 30 seconds
  of the shutdown's context are over.  A handler is inside at most one call of \<open>Log\<close>.
\<close>

datatype signal_phase = Waiting | Stopping | Closing | FlushWait

text \<open>The handler goes through its phases in this order.\<close>

fun phase_rank :: "signal_phase \<Rightarrow> nat" where
  "phase_rank Waiting = 0"
| "phase_rank Stopping = 1"
| "phase_rank Closing = 2"
| "phase_rank FlushWait = 3"

lemma phase_rank_inject: "phase_rank a = phase_rank b \<Longrightarrow> a = b"
  by (cases a; cases b) simp_all

instantiation signal_phase :: linorder
begin

definition less_eq_signal_phase :: "signal_phase \<Rightarrow> signal_phase \<Rightarrow> bool" where
  "less_eq_signal_phase a b \<longleftrightarrow> phase_rank a \<le> phase_rank b"

definition less_signal_phase :: "signal_phase \<Rightarrow> signal_phase \<Rightarrow> bool" where
  "less_signal_phase a b \<longleftrightarrow> phase_rank a < phase_rank b"

instance
  by standard (auto simp: less_eq_signal_phase_def less_signal_phase_def phase_rank_inject)

end

datatype exit_kind = MainReturned | FlushDone | FlushTimedOut | ListenFailed

record process =
  pc_signal :: signal_phase
  pc_open :: bool
  pc_active :: nat
  pc_late :: bool
  pc_background :: bool
  pc_certs :: "provider option"
  pc_logger :: logger
  pc_exit :: "exit_kind option"

definition started :: "provider option \<Rightarrow> logger \<Rightarrow> process" where
  "started certs l = \<lparr>pc_signal = Waiting, pc_open = True, pc_active = 0, pc_late = False, pc_background = True,
     pc_certs = certs, pc_logger = l, pc_exit = None\<rparr>"

text \<open>\<open>stopBackground()\<close> ends the context of the health checker, the reloader and the certificate watchers.\<close>

definition stop_background :: "process \<Rightarrow> process" where
  "stop_background p = p\<lparr>pc_signal := Stopping, pc_background := False,
     pc_certs := map_option (\<lambda>t. close_provider (root_done t)) (pc_certs p)\<rparr>"

definition begin_shutdown :: "process \<Rightarrow> process" where
  "begin_shutdown p = p\<lparr>pc_signal := Closing, pc_open := False\<rparr>"

definition begin_flush :: "process \<Rightarrow> process" where
  "begin_flush p = p\<lparr>pc_signal := FlushWait, pc_logger := (pc_logger p)\<lparr>lg_stop := True\<rparr>\<rparr>"

definition exit_by :: "exit_kind \<Rightarrow> process \<Rightarrow> process" where
  "exit_by k p = p\<lparr>pc_exit := Some k\<rparr>"

text \<open>
  \<open>Shutdown\<close> of net/http closes the listener, lets \<open>ListenAndServe\<close> return at once and itself returns when no
  request is active or its context is done.  The process ends with main or with \<open>os.Exit\<close>.
\<close>

inductive process_step :: "key_pair_parser \<Rightarrow> cert_parser \<Rightarrow> process \<Rightarrow> log_event list \<Rightarrow> process \<Rightarrow> bool"
  for kp px where
  accepts: "pc_exit p = None \<Longrightarrow> pc_open p \<Longrightarrow> process_step kp px p [] (p\<lparr>pc_active := Suc (pc_active p)\<rparr>)"
| logs: "pc_exit p = None \<Longrightarrow> size (lg_calls (pc_logger p)) < pc_active p \<Longrightarrow>
    process_step kp px p [Called r] (p\<lparr>pc_logger := (pc_logger p)\<lparr>lg_calls := add_mset (TrySend r) (lg_calls (pc_logger p))\<rparr>\<rparr>)"
| answers: "pc_exit p = None \<Longrightarrow> size (lg_calls (pc_logger p)) < pc_active p \<Longrightarrow>
    process_step kp px p [] (p\<lparr>pc_active := pc_active p - 1\<rparr>)"
| logger_works: "pc_exit p = None \<Longrightarrow> logger_step (pc_logger p) es l \<Longrightarrow> lg_stop l = lg_stop (pc_logger p) \<Longrightarrow>
    size (lg_calls l) \<le> size (lg_calls (pc_logger p)) \<Longrightarrow> process_step kp px p es (p\<lparr>pc_logger := l\<rparr>)"
| certs_updated: "pc_exit p = None \<Longrightarrow> pc_certs p = Some t \<Longrightarrow> update_paths kp px fs now c k iv w t = (e, t') \<Longrightarrow>
    process_step kp px p [] (p\<lparr>pc_certs := Some t'\<rparr>)"
| certs_watched: "pc_exit p = None \<Longrightarrow> pc_certs p = Some t \<Longrightarrow> i < length (cp_watchers t) \<Longrightarrow> snd (cp_watchers t ! i) \<Longrightarrow>
    process_step kp px p [] (p\<lparr>pc_certs := Some (watcher_tick kp px fs now i t)\<rparr>)"
| signalled: "pc_exit p = None \<Longrightarrow> pc_signal p = Waiting \<Longrightarrow> process_step kp px p [] (stop_background p)"
| shuts_down: "pc_exit p = None \<Longrightarrow> pc_signal p = Stopping \<Longrightarrow> process_step kp px p [] (begin_shutdown p)"
| deadline: "pc_exit p = None \<Longrightarrow> pc_signal p \<in> {Closing, FlushWait} \<Longrightarrow> process_step kp px p [] (p\<lparr>pc_late := True\<rparr>)"
| drained: "pc_exit p = None \<Longrightarrow> pc_signal p = Closing \<Longrightarrow> pc_active p = 0 \<Longrightarrow> process_step kp px p [] (begin_flush p)"
| gave_up: "pc_exit p = None \<Longrightarrow> pc_signal p = Closing \<Longrightarrow> pc_late p \<Longrightarrow> process_step kp px p [] (begin_flush p)"
| exit_flushed: "pc_exit p = None \<Longrightarrow> pc_signal p = FlushWait \<Longrightarrow> lg_phase (pc_logger p) = Returned \<Longrightarrow>
    process_step kp px p [] (exit_by FlushDone p)"
| exit_timed_out: "pc_exit p = None \<Longrightarrow> pc_signal p = FlushWait \<Longrightarrow> pc_late p \<Longrightarrow>
    process_step kp px p [] (exit_by FlushTimedOut p)"
| main_returns: "pc_exit p = None \<Longrightarrow> \<not> pc_open p \<Longrightarrow> process_step kp px p [] (exit_by MainReturned p)"
| listen_fails: "pc_exit p = None \<Longrightarrow> pc_open p \<Longrightarrow> process_step kp px p [] (exit_by ListenFailed p)"

inductive process_run :: "key_pair_parser \<Rightarrow> cert_parser \<Rightarrow> process \<Rightarrow> log_event list \<Rightarrow> process \<Rightarrow> bool"
  for kp px where
  begins: "process_run kp px p [] p"
| goes_on: "process_run kp px p es q \<Longrightarrow> process_step kp px q fs q' \<Longrightarrow> process_run kp px p (es @ fs) q'"

section \<open>No way back\<close>

lemma signal_step_forward:
  "process_step kp px p es q \<Longrightarrow> pc_signal p \<le> pc_signal q \<and>
     (\<not> pc_open p \<longrightarrow> \<not> pc_open q \<and> pc_active q \<le> pc_active p) \<and> (pc_late p \<longrightarrow> pc_late q)"
  by (cases rule: process_step.cases)
    (auto simp: less_eq_signal_phase_def stop_background_def begin_shutdown_def begin_flush_def exit_by_def)

text \<open>The handler only moves on; from the close of the listener on, requests end and none begins.\<close>

lemma signal_run_forward:
  "process_run kp px p es q \<Longrightarrow> pc_signal p \<le> pc_signal q \<and>
     (\<not> pc_open p \<longrightarrow> \<not> pc_open q \<and> pc_active q \<le> pc_active p) \<and> (pc_late p \<longrightarrow> pc_late q)"
proof (induction rule: process_run.induct)
  case (goes_on p es q fs q')
  then show ?case using signal_step_forward [OF goes_on(2)] by (auto intro: order_trans)
qed simp

section \<open>The invariant\<close>

definition watchers_dead :: "provider \<Rightarrow> bool" where
  "watchers_dead t \<longleftrightarrow> cp_root t \<noteq> Some True \<and> (\<forall>w \<in> set (cp_watchers t). \<not> snd w)"

lemma dead_cancel: "watchers_dead t \<Longrightarrow> watchers_dead (cancel_watcher t)"
  by (auto simp: watchers_dead_def cancel_watcher_def split: option.split dest!: set_update_subset_insert [THEN subsetD])

lemma dead_stopped: "watchers_dead (close_provider (root_done t))"
  unfolding close_provider_def by (rule dead_cancel) (auto simp: watchers_dead_def root_done_def)

lemma dead_update:
  assumes "watchers_dead t" "update_paths kp px fs now c k iv w t = (e, t')"
  shows "watchers_dead t'"
proof -
  have "watchers_dead (set_manager a (t\<lparr>cp_heap := h\<rparr>))" for a h
  proof -
    have "watchers_dead (t\<lparr>cp_heap := h, cp_manager := a\<rparr>)" using assms(1) by (simp add: watchers_dead_def)
    from dead_cancel [OF this] show ?thesis unfolding set_manager_def restart_locked_def Let_def
      by (auto simp: watchers_dead_def split: option.split)
  qed
  then show ?thesis using assms by (auto simp: update_paths_def split: prod.splits option.splits)
qed

text \<open>The records that have no place left to be in.\<close>

definition settled :: "logger \<Rightarrow> bool" where
  "settled l \<longleftrightarrow> lg_batch l = [] \<and> lg_ch l = [] \<and> lg_calls l = {#}"

definition process_ok :: "process \<Rightarrow> bool" where
  "process_ok p \<longleftrightarrow> size (lg_calls (pc_logger p)) \<le> pc_active p \<and>
     (lg_stop (pc_logger p) \<longleftrightarrow> pc_signal p = FlushWait) \<and>
     (lg_phase (pc_logger p) \<noteq> Serving \<longrightarrow> lg_stop (pc_logger p)) \<and>
     (pc_open p \<longleftrightarrow> pc_signal p \<in> {Waiting, Stopping}) \<and>
     (pc_signal p = FlushWait \<and> \<not> pc_late p \<longrightarrow> pc_active p = 0 \<and> (lg_phase (pc_logger p) = Returned \<longrightarrow> settled (pc_logger p))) \<and>
     (pc_exit p = Some FlushDone \<longrightarrow> pc_signal p = FlushWait \<and> lg_phase (pc_logger p) = Returned) \<and>
     (pc_background p \<longleftrightarrow> pc_signal p = Waiting) \<and>
     (\<forall>t. pc_certs p = Some t \<and> \<not> pc_background p \<longrightarrow> watchers_dead t)"

lemma logger_step_phase:
  assumes "logger_step l es l'" "lg_phase l \<noteq> Serving \<longrightarrow> lg_stop l" "lg_stop l' = lg_stop l"
  shows "lg_phase l' \<noteq> Serving \<longrightarrow> lg_stop l'"
  using assms by (cases rule: logger_step.cases) (auto simp: flush_fields receive_fields)

text \<open>With no callers left the goroutine returns with nothing at hand and nothing in the channel.\<close>

lemma logger_step_settled:
  assumes "logger_step l es l'" "lg_calls l = {#}" "size (lg_calls l') \<le> size (lg_calls l)" "lg_phase l = Returned \<longrightarrow> settled l"
  shows "lg_phase l' = Returned \<longrightarrow> settled l'"
  using assms by (cases rule: logger_step.cases) (auto simp: settled_def flush_fields receive_fields)

lemma process_ok_step:
  assumes "process_step kp px p es q" "process_ok p"
  shows "process_ok q"
  using assms(1)
proof (cases rule: process_step.cases)
  case (logger_works l)
  then show ?thesis using assms(2) logger_step_phase [OF logger_works(3)] logger_step_settled [OF logger_works(3)]
    by (auto simp: process_ok_def)
next
  case (certs_updated t fs now c k iv w e t')
  then show ?thesis using assms(2) dead_update [OF _ certs_updated(5)] by (auto simp: process_ok_def)
next
  case (certs_watched t i fs now)
  have "snd (cp_watchers t ! i) \<Longrightarrow> \<not> watchers_dead t" using certs_watched(5) by (auto simp: watchers_dead_def)
  then show ?thesis using assms(2) certs_watched by (auto simp: process_ok_def)
next
  case signalled
  then show ?thesis using assms(2) dead_stopped by (auto simp: process_ok_def stop_background_def)
next
  case drained
  then show ?thesis using assms(2) by (auto simp: process_ok_def begin_flush_def)
next
  case gave_up
  then show ?thesis using assms(2) by (simp add: process_ok_def begin_flush_def)
qed (use assms(2) in \<open>auto simp: process_ok_def begin_shutdown_def exit_by_def\<close>)

lemma process_run_ok:
  assumes "process_run kp px (started certs l) es p" "lg_phase l = Serving" "\<not> lg_stop l" "lg_calls l = {#}"
  shows "process_ok p \<and> logger_run l es (pc_logger p)"
  using assms(1)
proof (induction "started certs l" es p rule: process_run.induct)
  case begins
  then show ?case using assms(2-4) by (simp add: process_ok_def started_def logger_run.start)
next
  case (goes_on es q fs q')
  have "logger_run (pc_logger q) fs (pc_logger q')"
    using goes_on(3)
  proof (cases rule: process_step.cases)
    case (logs r)
    then show ?thesis using one_step [OF logger_step.call [of "pc_logger q" r]] by simp
  next
    case (logger_works l')
    then show ?thesis using one_step by simp
  next
    case drained
    then show ?thesis using one_step [OF logger_step.stop [of "pc_logger q"]] by (simp add: begin_flush_def)
  next
    case gave_up
    then show ?thesis using one_step [OF logger_step.stop [of "pc_logger q"]] by (simp add: begin_flush_def)
  qed (simp_all add: logger_run.start stop_background_def begin_shutdown_def exit_by_def)
  then show ?case using goes_on(2,3) process_ok_step run_trans by blast
qed

section \<open>Properties\<close>

text \<open>C23: the end of the process, whatever requests, reloads, certificate changes, database failures and
  signals interleave: every record that a handler passed to \<open>Log\<close> is accounted for at every moment, and when
  the process ends because the flush was done in time, no request was still being served and nothing is
  left in the batch or the channel: each record is stored, or was dropped in one of the three ways of the logger.  After
  the signal no certificate watcher lives, whatever reloads still run.\<close>

theorem shutdown_accounts:
  assumes "process_run kp px (started certs (new_usage_logger o' d)) es p"
  shows "mset (called es) = mset (stored es) + mset (failed es) + mset (discarded es) + mset (given_up es)
      + mset (lg_batch (pc_logger p)) + mset (lg_ch (pc_logger p)) + image_mset call_record (lg_calls (pc_logger p)) \<and>
    map anonymous (usage_t (lg_db (pc_logger p))) = map anonymous (usage_t d) @ map anonymous (stored es) \<and>
    (pc_exit p = Some FlushDone \<and> \<not> pc_late p \<longrightarrow> pc_active p = 0 \<and>
       mset (called es) = mset (stored es) + mset (failed es) + mset (discarded es) + mset (given_up es)) \<and>
    (\<forall>t. pc_signal p \<noteq> Waiting \<and> pc_certs p = Some t \<longrightarrow> (\<forall>w \<in> set (cp_watchers t). \<not> snd w))"
proof -
  have l: "lg_phase (new_usage_logger o' d) = Serving" "\<not> lg_stop (new_usage_logger o' d)" "lg_calls (new_usage_logger o' d) = {#}"
    by (simp_all add: new_usage_logger_def Let_def)
  from process_run_ok [OF assms l] have ok: "process_ok p" and r: "logger_run (new_usage_logger o' d) es (pc_logger p)" by blast+
  have h: "history_ok d es (pc_logger p)" by (rule history_run [OF r history_start])
  have acc: "mset (called es) = mset (stored es) + mset (failed es) + mset (discarded es) + mset (given_up es)
      + mset (lg_batch (pc_logger p)) + mset (lg_ch (pc_logger p)) + image_mset call_record (lg_calls (pc_logger p))"
    using h by (simp add: history_ok_def)
  moreover have "settled (pc_logger p) \<and> pc_active p = 0" if "pc_exit p = Some FlushDone" "\<not> pc_late p"
    using ok that by (auto simp: process_ok_def)
  moreover have "map anonymous (usage_t (lg_db (pc_logger p))) = map anonymous (usage_t d) @ map anonymous (stored es)"
    using h by (simp add: history_ok_def)
  moreover have "\<forall>t. pc_signal p \<noteq> Waiting \<and> pc_certs p = Some t \<longrightarrow> (\<forall>w \<in> set (cp_watchers t). \<not> snd w)"
    using ok by (auto simp: process_ok_def watchers_dead_def)
  ultimately show ?thesis by (auto simp: settled_def)
qed

section \<open>The end comes too early\<close>

abbreviation idle_logger :: logger where
  "idle_logger \<equiv> new_usage_logger default_logger_options empty_db"

lemma idle_logger_fields [simp]:
  "lg_ch idle_logger = []" "lg_batch idle_logger = []" "lg_calls idle_logger = {#}" "lg_cap idle_logger = 1024"
  "lg_batch_size idle_logger = 50" "lg_stop idle_logger = False" "lg_phase idle_logger = Serving" "lg_db idle_logger = empty_db"
  by (simp_all add: new_usage_logger_def logger_defaults_def default_logger_options_def Let_def)

abbreviation holding_logger :: logger where
  "holding_logger \<equiv> idle_logger\<lparr>lg_calls := {#}, lg_ch := [sample_usage]\<rparr>"

abbreviation served_one :: process where
  "served_one \<equiv> (started None idle_logger)\<lparr>pc_active := 1, pc_logger := holding_logger\<rparr>"

lemma one_request_logged:
  "process_run kp px (started None idle_logger) [Called sample_usage, Queued sample_usage] served_one"
proof -
  let ?p0 = "started None idle_logger"
  let ?p1 = "?p0\<lparr>pc_active := 1\<rparr>"
  let ?p2 = "?p1\<lparr>pc_logger := idle_logger\<lparr>lg_calls := {#TrySend sample_usage#}\<rparr>\<rparr>"
  have 1: "process_run kp px ?p0 [] ?p1"
    using goes_on [OF begins accepts [of ?p0]] by (simp add: started_def)
  have "process_step kp px ?p1 [Called sample_usage] ?p2"
    using logs [of ?p1 kp px sample_usage] by (simp add: started_def)
  from goes_on [OF 1 this] have 2: "process_run kp px ?p0 [Called sample_usage] ?p2" by simp
  have send: "logger_step (idle_logger\<lparr>lg_calls := {#TrySend sample_usage#}\<rparr>) [Queued sample_usage] holding_logger"
    using logger_step.send [of "idle_logger\<lparr>lg_calls := {#TrySend sample_usage#}\<rparr>" sample_usage "{#}"] by simp
  have "process_step kp px ?p2 [Queued sample_usage] (?p2\<lparr>pc_logger := holding_logger\<rparr>)"
    by (rule logger_works) (use send in \<open>simp_all add: started_def\<close>)
  from goes_on [OF 2 this] show ?thesis by (simp add: started_def)
qed

text \<open>\<open>ListenAndServe\<close> returns as soon as \<open>Shutdown\<close> is called and main does not wait for the signal handler: the process can
  end while a request is being served, well within the 30 seconds, and with a record in the channel that no
  database failure kept from being written.\<close>

lemma main_exits_first:
  "\<exists>p. process_run kp px (started None idle_logger) [Called sample_usage, Queued sample_usage] p \<and>
     pc_exit p = Some MainReturned \<and> \<not> pc_late p \<and> pc_active p = 1 \<and> lg_ch (pc_logger p) = [sample_usage]"
proof -
  let ?q = "begin_shutdown (stop_background served_one)"
  have "process_step kp px served_one [] (stop_background served_one)"
    by (rule signalled) (simp_all add: started_def)
  from goes_on [OF one_request_logged this]
  have "process_run kp px (started None idle_logger) [Called sample_usage, Queued sample_usage] (stop_background served_one)" by simp
  moreover have "process_step kp px (stop_background served_one) [] ?q"
    by (rule shuts_down) (simp_all add: started_def stop_background_def)
  ultimately have "process_run kp px (started None idle_logger) ([Called sample_usage, Queued sample_usage] @ []) ?q" by (rule goes_on)
  moreover have "process_step kp px ?q [] (exit_by MainReturned ?q)"
    by (rule main_returns) (simp_all add: started_def stop_background_def begin_shutdown_def)
  ultimately have "process_run kp px (started None idle_logger) (([Called sample_usage, Queued sample_usage] @ []) @ []) (exit_by MainReturned ?q)"
    by (rule goes_on)
  then show ?thesis by (intro exI [of _ "exit_by MainReturned ?q"]) (simp add: exit_by_def begin_shutdown_def stop_background_def started_def)
qed

section \<open>The flush can be completed\<close>

lemma run_more: "process_run kp px q fs r \<Longrightarrow> process_run kp px p es q \<Longrightarrow> process_run kp px p (es @ fs) r"
proof (induction rule: process_run.induct)
  case (goes_on q' fs r gs r')
  then show ?case using process_run.goes_on by (metis append.assoc)
qed simp

lemma one_logger_step:
  assumes "pc_exit p = None" "logger_step (pc_logger p) es l" "lg_stop l = lg_stop (pc_logger p)" "lg_calls l = lg_calls (pc_logger p)"
  shows "process_run kp px p es (p\<lparr>pc_logger := l\<rparr>)"
  using goes_on [OF begins logger_works [OF assms(1-3)]] assms(4) by simp

lemma drain_process:
  "pc_exit p = None \<Longrightarrow> lg_phase l = Draining \<Longrightarrow> drain flts l = (es, l') \<Longrightarrow>
     process_run kp px (p\<lparr>pc_logger := l\<rparr>) es (p\<lparr>pc_logger := l'\<rparr>) \<and> lg_phase l' = Returned"
proof (induction flts l arbitrary: es l' rule: drain.induct)
  case (1 flts l)
  let ?p = "p\<lparr>pc_logger := l\<rparr>"
  show ?case
  proof (cases "lg_ch l = []")
    case True
    obtain fs m where f: "flush (flts 0) l = (fs, m)" by fastforce
    then have e: "es = fs" "l' = m\<lparr>lg_phase := Returned\<rparr>" using 1(4) True by (simp_all add: drain.simps)
    have "logger_step l fs (m\<lparr>lg_phase := Returned\<rparr>)" by (rule logger_step.drain_end [OF 1(3) True f])
    then show ?thesis using one_logger_step [of ?p fs "m\<lparr>lg_phase := Returned\<rparr>" kp px] 1(2) flush_fields [OF f] by (simp add: e)
  next
    case False
    obtain fs m where f: "receive (flts 0) l = (fs, m)" by fastforce
    obtain gs m' where g: "drain (\<lambda>n. flts (Suc n)) m = (gs, m')" by fastforce
    have e: "es = fs @ gs" "l' = m'" using 1(4) False f g by (simp_all add: drain.simps [of flts l])
    have "logger_step l fs m" by (rule logger_step.drain_one [OF 1(3) False f])
    then have s: "process_run kp px ?p fs (p\<lparr>pc_logger := m\<rparr>)"
      using one_logger_step [of ?p fs m kp px] 1(2) receive_fields [OF f] by simp
    have "process_run kp px (p\<lparr>pc_logger := m\<rparr>) gs (p\<lparr>pc_logger := m'\<rparr>) \<and> lg_phase m' = Returned"
      by (rule 1(1) [OF False f [symmetric] 1(2) _ g]) (simp add: receive_fields [OF f] 1(3))
    then show ?thesis using run_more s by (auto simp: e)
  qed
qed

text \<open>Whatever the logger holds when the flush begins, the goroutines can go on to the exit that reports the flush.\<close>

lemma flush_completes:
  assumes "pc_exit p = None" "pc_signal p = FlushWait" "lg_phase (pc_logger p) = Serving" "lg_stop (pc_logger p)"
  shows "process_run kp px p (fst (run_stop flts (pc_logger p)))
    (exit_by FlushDone (p\<lparr>pc_logger := snd (run_stop flts (pc_logger p))\<rparr>))"
proof -
  let ?l = "pc_logger p"
  obtain fs m where f: "flush (flts 0) ?l = (fs, m)" by fastforce
  let ?m = "m\<lparr>lg_phase := Draining\<rparr>"
  obtain gs m' where g: "drain (\<lambda>n. flts (Suc n)) ?m = (gs, m')" by fastforce
  have r: "run_stop flts ?l = (fs @ gs, m')" by (simp add: run_stop_def f g)
  have s: "process_run kp px p fs (p\<lparr>pc_logger := ?m\<rparr>)"
    using one_logger_step [OF assms(1) logger_step.start_draining [OF assms(3,4) f], of kp px] flush_fields [OF f] by simp
  from drain_process [OF assms(1) _ g] have d: "process_run kp px (p\<lparr>pc_logger := ?m\<rparr>) gs (p\<lparr>pc_logger := m'\<rparr>)" "lg_phase m' = Returned"
    by simp_all
  have "process_step kp px (p\<lparr>pc_logger := m'\<rparr>) [] (exit_by FlushDone (p\<lparr>pc_logger := m'\<rparr>))"
    by (rule exit_flushed) (use assms d(2) in simp_all)
  from goes_on [OF run_more [OF d(1) s] this] show ?thesis by (simp add: r)
qed

lemma sample_shutdown:
  "\<exists>es p. process_run kp px (started None idle_logger) ([Called sample_usage, Queued sample_usage] @ es) p \<and>
     pc_exit p = Some FlushDone \<and> \<not> pc_late p"
proof -
  let ?a = "served_one\<lparr>pc_active := 0\<rparr>"
  let ?b = "stop_background ?a"
  let ?c = "begin_shutdown ?b"
  let ?d = "begin_flush ?c"
  have "process_step kp px served_one [] ?a"
    using answers [of served_one] by (simp add: started_def)
  from goes_on [OF one_request_logged this]
  have 0: "process_run kp px (started None idle_logger) [Called sample_usage, Queued sample_usage] ?a" by simp
  have "process_run kp px ?a [] ?b" using goes_on [OF begins signalled [of ?a]] by (simp add: started_def)
  moreover have "process_run kp px ?b [] ?c" using goes_on [OF begins shuts_down [of ?b]] by (simp add: started_def stop_background_def)
  moreover have "process_run kp px ?c [] ?d"
    using goes_on [OF begins drained [of ?c]] by (simp add: started_def stop_background_def begin_shutdown_def)
  ultimately have "process_run kp px ?a ([] @ [] @ []) ?d" using run_more by blast
  from run_more [OF this 0] have 1: "process_run kp px (started None idle_logger) [Called sample_usage, Queued sample_usage] ?d" by simp
  have "process_run kp px ?d (fst (run_stop (\<lambda>_. no_faults) (pc_logger ?d)))
      (exit_by FlushDone (?d\<lparr>pc_logger := snd (run_stop (\<lambda>_. no_faults) (pc_logger ?d))\<rparr>))"
    by (rule flush_completes) (simp_all add: started_def stop_background_def begin_shutdown_def begin_flush_def)
  from run_more [OF this 1] show ?thesis
    by (intro exI conjI, assumption) (simp_all add: exit_by_def started_def stop_background_def begin_shutdown_def begin_flush_def)
qed

theorem shutdown_accounts_witness:
  "\<forall>kp px. \<exists>es p. process_run kp px (started None idle_logger) ([Called sample_usage, Queued sample_usage] @ es) p \<and>
     sample_usage \<in> set (stored es) \<union> set (failed es) \<union> set (discarded es) \<union> set (given_up es)"
proof (intro allI)
  fix kp px
  obtain es p where r: "process_run kp px (started None idle_logger) ([Called sample_usage, Queued sample_usage] @ es) p"
     "pc_exit p = Some FlushDone" "\<not> pc_late p" using sample_shutdown by blast
  have h: "called ([Called sample_usage, Queued sample_usage] @ es) = sample_usage # called es"
    "stored ([Called sample_usage, Queued sample_usage] @ es) = stored es" "failed ([Called sample_usage, Queued sample_usage] @ es) = failed es"
    "discarded ([Called sample_usage, Queued sample_usage] @ es) = discarded es"
    "given_up ([Called sample_usage, Queued sample_usage] @ es) = given_up es"
    by (simp_all add: history_defs)
  have "mset (sample_usage # called es) = mset (stored es) + mset (failed es) + mset (discarded es) + mset (given_up es)"
    using shutdown_accounts [OF r(1)] r(2,3) unfolding h by blast
  from arg_cong [OF this, of set_mset] have "sample_usage \<in> set (stored es) \<union> set (failed es) \<union> set (discarded es) \<union> set (given_up es)"
    by auto
  then show "\<exists>es p. process_run kp px (started None idle_logger) ([Called sample_usage, Queued sample_usage] @ es) p \<and>
     sample_usage \<in> set (stored es) \<union> set (failed es) \<union> set (discarded es) \<union> set (given_up es)" using r(1) by auto
qed

end
