(* ===== verification/Spec2Isabelle.thy ===== *)
theory Spec2Isabelle
  imports AuthMiddleware RateLimitProps PoolProps ManagerProps BackendStore JsonFuel OllamaClient
    ModelsProps ModelStoreProps ModelTables UsageProps ProxyProps TlsRuntime ReloaderProps GatewayProps
    DashBackends Installer Serving SystemModels Shutdown
begin

text \<open>
  A verification development for the Ollama gateway: an HTTP proxy in front of several Ollama servers
  that authenticates API keys, limits rates, resolves model names, balances the load, accounts for the
  tokens used, and is administered by a dashboard and a watched configuration file.

  The definitions translate the Go code under src/; each names its file below.  A Go struct is a record,
  a pointer shared by several owners is an index into an explicit heap or one common field, an error is
  the left of a sum or the \<open>Some\<close> of an option, a Go map is an association list with distinct keys
  (\<open>gomap\<close>), an \<open>int\<close> is an \<open>int\<close> reduced to 64 bits by \<open>i64\<close> where it may overflow, a \<open>float64\<close> is a
  real with every operation rounded by \<open>fl64\<close>, and time is a number of nanoseconds.  Code outside src/
  is an argument: the file system, YAML and X.509 decoders, the network, the random source, redis.

  \<^bold>\<open>Shared vocabulary\<close>
  \<^item> Prelude: Go maps (locale \<open>kv_store\<close>), 64-bit integers, results, fault schedules, collections of hints,
    and the contract of every state machine below (locale \<open>kept_by_steps\<close>: what each step keeps, every history keeps).
  \<^item> GoStrings, GoUrl, Float64, Json, Http, HttpForm: what the code uses of Go's strings, strconv, net/url,
    path/filepath, encoding/json, net/http (headers, queries, forms, cookies) and of IEEE doubles.  The JSON
    reader takes fuel; JsonFuel proves that twice the length of the text plus two is always enough.
  \<^item> Db: the SQLite tables of internal/db/migrations as lists of rows, with upserts, deletions and the schema's
    invariant \<open>db_ok\<close>.  A statement fails when its number in the fault schedule says so, and a failed
    transaction restores the database.

  \<^bold>\<open>Components\<close>, in the order of a request and then of the operation of the gateway
  \<^item> Config: internal/config config.go, loader.go, runtime_policy.go.  Types, defaults, validation, the choice of
    the file, what a reload may change; a loaded configuration is well formed.
  \<^item> ApiKey, AuthStore, AuthStoreProps, AuthMiddleware: internal/auth.  SHA-256, key and token verification, the
    user table, the two gates.  A request passes exactly with a key that an enabled row or a YAML user accepts; the specification
    \<open>presents_key\<close> says which key a request presents.
  \<^item> RateLimit, RateLimitProps: internal/ratelimit.  Token buckets on doubles, local and redis back ends (locale
    \<open>limiter\<close>), the middleware.  Over histories of requests and clean-ups (\<open>op_run\<close>): bounds on the granted requests, isolation of
    keys, and clean-ups that no key can tell; a lifetime shorter than the refill breaks the bound, which a lemma shows.
  \<^item> Backend, PoolProps, ManagerProps: internal/backends pool.go, manager.go, healthcheck.go, backend.go.  The
    selection refines an abstract smooth weighted round robin and is fair; the manager's index is consistent in every history.
  \<^item> BackendStore, OllamaClient: internal/backends store.go and the HTTP client operations of backend.go.
  \<^item> Models, ModelsProps, ModelStore, ModelStoreProps, ModelTables: internal/models.  Normalisation, aliases, deny and
    allow lists, visibility, discovery, and the model tables with atomic synchronisation.
  \<^item> Usage, UsageProps: internal/usage.  Prices, the logger as a step relation of callers, background goroutine and
    shutdown, the queries.  No record is lost or written twice in any interleaving; after the stop the measure \<open>work\<close> bounds every
    interleaving, and what was queued is flushed.  The exact price is specified apart from the code (\<open>exact_cost\<close>).
  \<^item> Proxy, ProxyProps: internal/proxy, with what httputil.ReverseProxy does around its director.  What is forwarded,
    what is recorded, told from request and answer by the specifications \<open>asks_stream\<close> and \<open>member_count\<close>, and that the captured
    counts do not depend on how a stream is cut.
  \<^item> TlsRuntime: internal/tlsruntime.  The certificate manager and the provider with its watchers.
  \<^item> Reloader, ReloaderProps: internal/config reloader.go.  Reload, poll, debounce, signals (locale \<open>safe_applier\<close>).
  \<^item> Gateway, GatewayProps: cmd/gateway/main.go.  The start, the callbacks, the routes, and the API pipeline composed
    of the components; one invariant over every history of requests, reloads and changes.  Serving: the
    contract of the API, with the exact status of every refusal, which the pipeline implements in both directions.
  \<^item> DashForms, PullJob, Dashboard, DashActions, DashServe: internal/dashboard/handler.go.  Form readers, the download
    job with its goroutine, the state and the data of the pages, the model actions, the user and backend actions and the
    dispatcher.  DashProps: the session round trip and what a request without credentials can do.  DashAccess: the access
    form.  DashModels and DashBackends: a success message is true of the table, of the memory and of what
    the other components were given.
  \<^item> System, SystemInv, SystemProps: cmd/gateway/main.go, the process as a whole.  The gateway with the dashboard that
    shares its configuration, database and manager and has its two callbacks, the routes over both, and
    one invariant over every history of requests, background work and downloads.
  \<^item> SystemForms, SystemModels: what the dashboard's forms mean for the API.  Which keys enter after a form of the users page,
    that a withdrawn backend is not reached, what a saved or deleted model serves, and that a withheld model is refused.
  \<^item> Shutdown: cmd/gateway/main.go, the end of the process.  The signal handler, the server's and the logger's shutdown
    and main's return as steps, interleaved with requests, reloads and the logger; a SIGHUP is a step of Reloader.
  \<^item> Installer: cmd/installer-bootstrap/main.go.  The configuration it writes is loaded by the gateway; what a run that fails while
    making a directory or writing a file leaves behind.

  The components interact as in the code: the dashboard calls the user store, the model and backend stores, the
  manager and the usage queries; the proxy calls the resolver, the pools and the logger; the gateway threads one
  configuration and one database through all of them and gives the reloader its callbacks.

  \<^bold>\<open>Bounds and fuel\<close>  The JSON reader is the only definition with fuel.  The selection theorems assume that the sum
  of the weights fits in 64 bits, the cost theorem that prices are finite and not negative; percentages of a
  download are right as long as a hundred times its bytes fit in 64 bits.

  \<^bold>\<open>Not modelled\<close>  HTML templates, style sheets and scripts; the English text of dashboard messages (a message is
  a constructor with its arguments); tickers, signals, sockets and the scheduler, whose effects are the steps of the relations;
  the interleaving of two requests of the dashboard (each is one step of the whole process, with its faults);
  file modes, links and the working directory; NaN and infinite numbers in forms (the model answers \<open>NotFinite\<close> and changes nothing where
  the code goes on with them); the protocol upgrade and \<open>Te: trailers\<close> of httputil.ReverseProxy; what the SQLite file loses when the disk fails; transport time-outs; letters and spaces outside ASCII; the order in which Go
  iterates over a map where the code does not sort (the model takes the list's order); packaging and shell scripts.
\<close>

end
